(* ===== verification/Prelude.thy ===== *)
theory Prelude
  imports Complex_Main "HOL-Library.Multiset"
begin

text \<open>
  Shared material of the development: the collections of simplification rules that the
  component theories extend, and the generic list operations that the Go code spells out
  again and again.

  The Go sources remove duplicates with the same loop in nine places (a \<open>seen\<close> map, a
  \<open>continue\<close> when the key is already there, an \<open>append\<close> otherwise); \<open>dedup_from\<close>
  is that loop, with the keys already seen as a parameter.
\<close>

named_theorems fl_intros \<open>bounds of float64 operations\<close>
named_theorems stm_simps \<open>unfolding of database statements and their sequencing\<close>
named_theorems stm_defs \<open>definitions of the database statements\<close>

section \<open>The duplicate-removal loop\<close>

fun dedup_from :: "('a \<Rightarrow> 'k) \<Rightarrow> 'k set \<Rightarrow> 'a list \<Rightarrow> 'a list" where
  "dedup_from key seen [] = []"
| "dedup_from key seen (x # xs) =
     (if key x \<in> seen then dedup_from key seen xs
      else x # dedup_from key (insert (key x) seen) xs)"

abbreviation dedup_by :: "('a \<Rightarrow> 'k) \<Rightarrow> 'a list \<Rightarrow> 'a list" where
  "dedup_by key xs \<equiv> dedup_from key {} xs"

lemma set_dedup_subset: "set (dedup_from key seen xs) \<subseteq> set xs"
  by (induction xs arbitrary: seen) auto

lemma dedup_memD: "x \<in> set (dedup_from key seen xs) \<Longrightarrow> x \<in> set xs"
  using set_dedup_subset by fastforce

lemma key_set_dedup: "key ` set (dedup_from key seen xs) = key ` set xs - seen"
  by (induction xs arbitrary: seen) auto

lemma dedup_not_seen: "x \<in> set (dedup_from key seen xs) \<Longrightarrow> key x \<notin> seen"
  using key_set_dedup by fastforce

lemma distinct_keys_dedup: "distinct (map key (dedup_from key seen xs))"
proof (induction xs arbitrary: seen)
  case Nil
  then show ?case by simp
next
  case (Cons x xs)
  have "key x \<notin> key ` set (dedup_from key (insert (key x) seen) xs)"
    by (simp add: key_set_dedup)
  with Cons.IH show ?case by simp
qed

lemma dedup_id: "distinct (map key xs) \<Longrightarrow> key ` set xs \<inter> seen = {} \<Longrightarrow> dedup_from key seen xs = xs"
  by (induction xs arbitrary: seen) auto

lemma dedup_idem: "dedup_by key (dedup_from key seen xs) = dedup_from key seen xs"
  by (rule dedup_id) (simp_all add: distinct_keys_dedup)

lemma length_dedup: "length (dedup_from key seen xs) \<le> length xs"
  by (induction xs arbitrary: seen) (auto intro: le_SucI)

lemma dedup_append:
  "dedup_from key seen (xs @ ys)
   = dedup_from key seen xs @ dedup_from key (seen \<union> key ` set xs) ys"
  by (induction xs arbitrary: seen) (auto simp: insert_absorb)

lemma dedup_Nil_iff: "dedup_by key xs = [] \<longleftrightarrow> xs = []"
  by (cases xs) auto

lemma dedup_id_set: "set (dedup_by (\<lambda>x. x) xs) = set xs"
  using key_set_dedup [of "\<lambda>x. x" "{}" xs] by simp

lemma dedup_id_distinct: "distinct (dedup_by (\<lambda>x. x) xs)"
  using distinct_keys_dedup [of "\<lambda>x. x" "{}" xs] by simp

text \<open>The loop keeps the first element of every key and the order of what it keeps.\<close>

lemma dedup_sorted_wrt: "sorted_wrt P xs \<Longrightarrow> sorted_wrt P (dedup_from key seen xs)"
  by (induction xs arbitrary: seen) (auto dest: dedup_memD)

section \<open>Lists\<close>

lemma find_upt_Some:
  "find P [a..<b] = Some j \<Longrightarrow> a \<le> j \<and> j < b \<and> P j"
  by (auto simp: find_Some_iff)

lemma set_sort_key [simp]: "set (sort_key f xs) = set xs"
  by (rule set_sort)

lemma hd_sort_key_le:
  assumes "x \<in> set xs"
  shows "f (hd (sort_key f xs)) \<le> f x"
proof -
  obtain y ys where ys: "sort_key f xs = y # ys"
    using assms by (cases "sort_key f xs") (auto dest: arg_cong [where f = set])
  have "sorted (map f (y # ys))" and "x \<in> set (y # ys)"
    using sorted_sort_key [of f xs] set_sort [of f xs] assms unfolding ys by auto
  then show ?thesis by (auto simp: ys)
qed

section \<open>The first element with a property\<close>

lemma filter_find: "filter P xs = x # rest \<Longrightarrow> find P xs = Some x"
  by (induction xs) (auto split: if_splits)

lemma find_Some_set: "find P xs = Some x \<Longrightarrow> x \<in> set xs \<and> P x"
  by (induction xs) (auto split: if_splits)

lemma find_append: "find P (xs @ ys) = (case find P xs of None \<Rightarrow> find P ys | Some x \<Rightarrow> Some x)"
  by (induction xs) auto

lemma find_map_if:
  assumes "\<And>x. P (f x) = P x"
  shows "find P (map (\<lambda>x. if Q x then f x else x) xs) =
    (case find P xs of None \<Rightarrow> None | Some x \<Rightarrow> Some (if Q x then f x else x))"
  using assms by (induction xs) auto

lemma find_unique_key: "distinct (map key xs) \<Longrightarrow> x \<in> set xs \<Longrightarrow> find (\<lambda>y. key y = key x) xs = Some x"
  by (induction xs) (auto simp: image_iff)

end
