(* ===== verification/Go_Strings.thy ===== *)
theory Go_Strings
  imports Prelude
begin

text \<open>
  Go strings as the sources use them. A Go string is a sequence of bytes, here the HOL type
  \<open>string\<close> (a \<open>char\<close> is a byte); \<open>[]rune(s)\<close> and \<open>range s\<close> decode it as UTF-8, with
  U+FFFD for every byte that starts no valid sequence, as package \<open>unicode/utf8\<close> does.

  The character classes follow package \<open>unicode\<close>: the Latin-1 range is written out as in
  its fast paths, and the tables beyond it (data, not code) are the record \<open>unicode\<close>, a
  parameter of everything that classifies or maps letters.
\<close>

type_synonym rune = nat

definition rune_error :: rune where
  "rune_error = 65533"

definition valid_rune :: "rune \<Rightarrow> bool" where
  "valid_rune r \<longleftrightarrow> r < 55296 \<or> (57344 \<le> r \<and> r < 1114112)"

lemma valid_rune_error [simp]: "valid_rune rune_error"
  by (simp add: valid_rune_def rune_error_def)

section \<open>UTF-8\<close>

definition byte :: "nat \<Rightarrow> char" where
  "byte n = char_of n"

definition cont :: "char \<Rightarrow> bool" where
  "cont c \<longleftrightarrow> 128 \<le> (of_char c :: nat) \<and> (of_char c :: nat) < 192"

text \<open>The range \<open>utf8\<close> accepts for the second byte depends on the first one.\<close>

definition accept_lo :: "nat \<Rightarrow> nat" where
  "accept_lo b = (if b = 224 then 160 else if b = 240 then 144 else 128)"

definition accept_hi :: "nat \<Rightarrow> nat" where
  "accept_hi b = (if b = 237 then 159 else if b = 244 then 143 else 191)"

definition seq_len :: "nat \<Rightarrow> nat" where
  "seq_len b = (if b < 128 then 1 else if 194 \<le> b \<and> b < 224 then 2
     else if 224 \<le> b \<and> b < 240 then 3 else if 240 \<le> b \<and> b < 245 then 4 else 0)"

definition payload :: "char \<Rightarrow> nat" where
  "payload c = (of_char c :: nat) mod 64"

definition second_ok :: "nat \<Rightarrow> char \<Rightarrow> bool" where
  "second_ok b c \<longleftrightarrow> accept_lo b \<le> (of_char c :: nat) \<and> (of_char c :: nat) \<le> accept_hi b"

fun decode_rune :: "string \<Rightarrow> rune \<times> nat" where
  "decode_rune [] = (rune_error, 0)"
| "decode_rune (c # cs) =
     (let b = of_char c; n = seq_len b in
      if n = 1 then (b, 1)
      else if n = 0 \<or> length cs < n - 1 \<or> \<not> second_ok b (hd cs) then (rune_error, 1)
      else if n = 2 then (b mod 32 * 64 + payload (cs ! 0), 2)
      else if \<not> cont (cs ! 1) then (rune_error, 1)
      else if n = 3 then (b mod 16 * 4096 + payload (cs ! 0) * 64 + payload (cs ! 1), 3)
      else if \<not> cont (cs ! 2) then (rune_error, 1)
      else (b mod 8 * 262144 + payload (cs ! 0) * 4096 + payload (cs ! 1) * 64
              + payload (cs ! 2), 4))"

lemma decode_rune_width: "s \<noteq> [] \<Longrightarrow> 1 \<le> snd (decode_rune s)"
  by (cases s) (auto simp: Let_def)

function chunks :: "string \<Rightarrow> (rune \<times> string) list" where
  "chunks [] = []"
| "chunks (c # cs) =
     (let (r, w) = decode_rune (c # cs) in (r, take w (c # cs)) # chunks (drop w (c # cs)))"
  by pat_completeness auto
termination
proof (relation "measure length")
  fix c cs p r w
  assume "p = decode_rune (c # cs)" "(r, w) = p"
  then have "1 \<le> w" using decode_rune_width [of "c # cs"] by (metis list.distinct(1) snd_conv)
  then show "(drop w (c # cs), c # cs) \<in> measure length" by simp
qed simp

declare chunks.simps(2) [simp del]
declare decode_rune.simps(2) [simp del]

definition runes :: "string \<Rightarrow> rune list" where
  "runes s = map fst (chunks s)"

definition encode_rune :: "rune \<Rightarrow> string" where
  "encode_rune r' = (let r = (if valid_rune r' then r' else rune_error) in
     if r < 128 then [byte r]
     else if r < 2048 then [byte (192 + r div 64), byte (128 + r mod 64)]
     else if r < 65536 then
       [byte (224 + r div 4096), byte (128 + r div 64 mod 64), byte (128 + r mod 64)]
     else
       [byte (240 + r div 262144), byte (128 + r div 4096 mod 64), byte (128 + r div 64 mod 64),
        byte (128 + r mod 64)])"

definition encode :: "rune list \<Rightarrow> string" where
  "encode rs = concat (map encode_rune rs)"

lemma encode_simps [simp]:
  "encode [] = []" "encode (r # rs) = encode_rune r @ encode rs"
  "encode (rs @ qs) = encode rs @ encode qs"
  by (simp_all add: encode_def)

lemma of_char_byte [simp]: "n < 256 \<Longrightarrow> (of_char (byte n) :: nat) = n"
  by (simp add: byte_def)

subsection \<open>Decoding inverts encoding\<close>

lemma decode_encode1: "r < 128 \<Longrightarrow> decode_rune (byte r # s) = (r, 1)"
  by (simp add: decode_rune.simps seq_len_def)

lemma payload_byte: "n < 64 \<Longrightarrow> payload (byte (128 + n)) = n"
  by (simp add: payload_def mod_nat_eqI)

lemma cont_byte: "n < 64 \<Longrightarrow> cont (byte (128 + n))"
  by (simp add: cont_def)

lemma decode_encode2:
  assumes "2 \<le> a" "a < 32" "b < 64"
  shows "decode_rune (byte (192 + a) # byte (128 + b) # s) = (a * 64 + b, 2)"
proof -
  have m: "(192 + a) mod 32 = a" using assms mod_mult_self1 [of a 6 32] by (simp add: add.commute)
  have "seq_len (192 + a) = 2" using assms by (simp add: seq_len_def)
  moreover have "second_ok (192 + a) (byte (128 + b))"
    using assms by (auto simp: second_ok_def accept_lo_def accept_hi_def)
  ultimately show ?thesis
    using assms m by (simp add: decode_rune.simps payload_byte)
qed

lemma decode_encode3:
  assumes "a < 16" "b < 64" "c < 64" "a = 0 \<Longrightarrow> 32 \<le> b" "a = 13 \<Longrightarrow> b < 32"
  shows "decode_rune (byte (224 + a) # byte (128 + b) # byte (128 + c) # s)
    = (a * 4096 + b * 64 + c, 3)"
proof -
  have m: "(224 + a) mod 16 = a" using assms mod_mult_self1 [of a 14 16] by (simp add: add.commute)
  have "seq_len (224 + a) = 3" using assms by (simp add: seq_len_def)
  moreover have "second_ok (224 + a) (byte (128 + b))"
    using assms by (auto simp: second_ok_def accept_lo_def accept_hi_def)
  ultimately show ?thesis
    using assms m by (simp add: decode_rune.simps payload_byte cont_byte)
qed

lemma decode_encode4:
  assumes "a < 5" "b < 64" "c < 64" "d < 64" "a = 0 \<Longrightarrow> 16 \<le> b" "a = 4 \<Longrightarrow> b < 16"
  shows "decode_rune (byte (240 + a) # byte (128 + b) # byte (128 + c) # byte (128 + d) # s)
    = (a * 262144 + b * 4096 + c * 64 + d, 4)"
proof -
  have m: "(240 + a) mod 8 = a" using assms mod_mult_self1 [of a 30 8] by (simp add: add.commute)
  have "seq_len (240 + a) = 4" using assms by (simp add: seq_len_def)
  moreover have "second_ok (240 + a) (byte (128 + b))"
    using assms by (auto simp: second_ok_def accept_lo_def accept_hi_def)
  ultimately show ?thesis
    using assms m by (simp add: decode_rune.simps payload_byte cont_byte)
qed

lemma sextets:
  "(r::nat) = r div 4096 * 4096 + r div 64 mod 64 * 64 + r mod 64"
  "(r::nat) = r div 262144 * 262144 + r div 4096 mod 64 * 4096 + r div 64 mod 64 * 64 + r mod 64"
proof -
  have a: "r div 4096 = r div 64 div 64" "r div 262144 = r div 64 div 64 div 64"
    by (simp_all flip: div_mult2_eq)
  show "r = r div 4096 * 4096 + r div 64 mod 64 * 64 + r mod 64"
    unfolding a using div_mod_decomp [of r 64] div_mod_decomp [of "r div 64" 64] by linarith
  show "r = r div 262144 * 262144 + r div 4096 mod 64 * 4096 + r div 64 mod 64 * 64 + r mod 64"
    unfolding a using div_mod_decomp [of r 64] div_mod_decomp [of "r div 64" 64]
      div_mod_decomp [of "r div 64 div 64" 64] by linarith
qed

lemma decode_encode_rune:
  assumes v: "valid_rune r"
  shows "decode_rune (encode_rune r @ s) = (r, length (encode_rune r))"
proof -
  consider "r < 128" | "128 \<le> r" "r < 2048" | "2048 \<le> r" "r < 65536" | "65536 \<le> r"
    by linarith
  then show ?thesis
  proof cases
    case 1
    with v show ?thesis by (simp add: encode_rune_def decode_encode1)
  next
    case 2
    then have "2 \<le> r div 64" "r div 64 < 32" by (simp_all add: less_mult_imp_div_less)
    from decode_encode2 [OF this, of "r mod 64" s] 2 v show ?thesis
      by (simp add: encode_rune_def)
  next
    case 3
    define a b c where abc: "a = r div 4096" "b = r div 64 mod 64" "c = r mod 64"
    have r: "r = a * 4096 + b * 64 + c" using sextets(1) [of r] by (simp add: abc)
    have bc: "b < 64" "c < 64" by (simp_all add: abc)
    have "a < 16" "a = 0 \<Longrightarrow> 32 \<le> b" "a = 13 \<Longrightarrow> b < 32"
      using r bc 3 v by (auto simp: valid_rune_def)
    note dec = decode_encode3 [OF this(1) bc this(2,3), of s]
    have "encode_rune r = [byte (224 + a), byte (128 + b), byte (128 + c)]"
      using 3 v by (simp add: encode_rune_def abc)
    with dec r show ?thesis by simp
  next
    case 4
    define a b c d where abcd: "a = r div 262144" "b = r div 4096 mod 64"
      "c = r div 64 mod 64" "d = r mod 64"
    have r: "r = a * 262144 + b * 4096 + c * 64 + d" using sextets(2) [of r] by (simp add: abcd)
    have bcd: "b < 64" "c < 64" "d < 64" by (simp_all add: abcd)
    have "a < 5" "a = 0 \<Longrightarrow> 16 \<le> b" "a = 4 \<Longrightarrow> b < 16"
      using r bcd 4 v by (auto simp: valid_rune_def)
    note dec = decode_encode4 [OF this(1) bcd this(2,3), of s]
    have "encode_rune r = [byte (240 + a), byte (128 + b), byte (128 + c), byte (128 + d)]"
      using 4 v by (simp add: encode_rune_def abcd)
    with dec r show ?thesis by simp
  qed
qed

lemma encode_rune_nonempty: "encode_rune r \<noteq> []"
  by (simp add: encode_rune_def Let_def)

lemma chunks_nonempty:
  "s \<noteq> [] \<Longrightarrow> chunks s =
     (fst (decode_rune s), take (snd (decode_rune s)) s) # chunks (drop (snd (decode_rune s)) s)"
  by (cases s) (simp_all add: chunks.simps(2) split: prod.split)

lemma chunks_encode_rune:
  "valid_rune r \<Longrightarrow> chunks (encode_rune r @ s) = (r, encode_rune r) # chunks s"
  by (simp add: chunks_nonempty encode_rune_nonempty decode_encode_rune)

lemma chunks_encode:
  "list_all valid_rune rs \<Longrightarrow> chunks (encode rs) = map (\<lambda>r. (r, encode_rune r)) rs"
  by (induction rs) (simp_all add: chunks_encode_rune)

lemma runes_encode: "list_all valid_rune rs \<Longrightarrow> runes (encode rs) = rs"
  by (simp add: runes_def chunks_encode comp_def)

lemma encode_runes_clean: "encode (map (\<lambda>r. if valid_rune r then r else rune_error) rs) = encode rs"
  by (induction rs) (auto simp: encode_rune_def)

text \<open>ASCII strings decode byte by byte.\<close>

definition ascii :: "string \<Rightarrow> bool" where
  "ascii s \<longleftrightarrow> list_all (\<lambda>c. (of_char c :: nat) < 128) s"

lemma chunks_ascii: "ascii s \<Longrightarrow> chunks s = map (\<lambda>c. (of_char c, [c])) s"
proof (induction s)
  case (Cons c s)
  then have "decode_rune (c # s) = (of_char c, 1)"
    by (simp add: decode_rune.simps seq_len_def ascii_def)
  with Cons show ?case by (simp add: chunks.simps(2) ascii_def)
qed simp

lemma runes_ascii: "ascii s \<Longrightarrow> runes s = map of_char s"
  by (simp add: runes_def chunks_ascii comp_def)

lemma encode_rune_ascii: "(of_char c :: nat) < 128 \<Longrightarrow> encode_rune (of_char c) = [c]"
  by (simp add: encode_rune_def valid_rune_def byte_def)

text \<open>Evaluation of the string functions on literals.\<close>

lemmas ascii_eval = runes_ascii chunks_ascii ascii_def encode_rune_def valid_rune_def byte_def
  char_of_def bit_iff_odd

lemma concat_chunks: "concat (map snd (chunks s)) = s"
  by (induction s rule: chunks.induct) (auto simp: chunks.simps(2) split: prod.split)

lemma runes_Nil_iff [simp]: "runes s = [] \<longleftrightarrow> s = []"
  by (cases s) (auto simp: runes_def chunks.simps(2) split: prod.split)

lemma runes_Nil [simp]: "runes [] = []"
  by simp

lemma second_ok_cont: "second_ok b c \<Longrightarrow> cont c"
  by (auto simp: second_ok_def cont_def accept_lo_def accept_hi_def split: if_splits)


subsection \<open>Decoding yields valid runes only\<close>

lemma payload_less: "payload c < 64"
  by (simp add: payload_def)

lemma payload_cont: "cont c \<Longrightarrow> (of_char c :: nat) = 128 + payload c"
proof -
  assume c: "cont c"
  then have "128 + ((of_char c :: nat) - 128) = of_char c" "(of_char c :: nat) - 128 < 64"
    by (auto simp: cont_def)
  then show ?thesis
    unfolding payload_def by (metis mod_add_left_eq mod_less numeral_Bit0 add_0 mod_add_self1)
qed

lemma lead_mod:
  "seq_len b = 3 \<Longrightarrow> b = 224 + b mod 16 \<and> b mod 16 < 16"
  "seq_len b = 4 \<Longrightarrow> b = 240 + b mod 8 \<and> b mod 8 < 5"
proof -
  assume "seq_len b = 3"
  then have "224 \<le> b" "b < 240" by (auto simp: seq_len_def split: if_splits)
  then have "b = (b - 224) + 14 * 16" "b - 224 < 16" by auto
  then have "b mod 16 = b - 224" by (metis mod_mult_self1 mod_less)
  with \<open>224 \<le> b\<close> \<open>b < 240\<close> show "b = 224 + b mod 16 \<and> b mod 16 < 16" by auto
next
  assume "seq_len b = 4"
  then have "240 \<le> b" "b < 245" by (auto simp: seq_len_def split: if_splits)
  then have "b \<in> {240, 241, 242, 243, 244}" by auto
  then show "b = 240 + b mod 8 \<and> b mod 8 < 5" by auto
qed

lemma valid_arith3:
  "a < 16 \<Longrightarrow> p < 64 \<Longrightarrow> q < 64 \<Longrightarrow> (a = 13 \<Longrightarrow> p < 32) \<Longrightarrow> valid_rune (a * 4096 + p * 64 + q)"
  unfolding valid_rune_def by (cases "a < 13"; cases "a = 13") auto

lemma valid_arith4:
  assumes "a < 5" "p < 64" "q < 64" "t < 64" "a = 4 \<Longrightarrow> p < 16" "a = 0 \<Longrightarrow> 16 \<le> p"
  shows "valid_rune (a * 262144 + p * 4096 + q * 64 + t)"
proof -
  have "a \<in> {0, 1, 2, 3, 4}" using assms by auto
  then show ?thesis using assms by (auto simp: valid_rune_def)
qed

lemma valid_decode3:
  assumes "seq_len b = 3" "second_ok b c1"
  shows "valid_rune (b mod 16 * 4096 + payload c1 * 64 + payload c2)"
proof -
  have b: "b = 224 + b mod 16" "b mod 16 < 16" using lead_mod(1) [OF assms(1)] by auto
  have c: "(of_char c1 :: nat) = 128 + payload c1"
    using assms(2) by (intro payload_cont second_ok_cont)
  have "b mod 16 = 13 \<Longrightarrow> payload c1 < 32"
    using assms(2) c b by (auto simp: second_ok_def accept_hi_def split: if_splits)
  then show ?thesis
    by (intro valid_arith3 payload_less b(2))
qed

lemma valid_decode4:
  assumes "seq_len b = 4" "second_ok b c1"
  shows "valid_rune (b mod 8 * 262144 + payload c1 * 4096 + payload c2 * 64 + payload c3)"
proof -
  have b: "b = 240 + b mod 8" "b mod 8 < 5" using lead_mod(2) [OF assms(1)] by auto
  have c: "(of_char c1 :: nat) = 128 + payload c1"
    using assms(2) by (intro payload_cont second_ok_cont)
  have hi: "b mod 8 = 4 \<Longrightarrow> payload c1 < 16"
    using assms(2) c b by (auto simp: second_ok_def accept_hi_def split: if_splits)
  have lo: "b mod 8 = 0 \<Longrightarrow> 16 \<le> payload c1"
    using assms(2) c b by (auto simp: second_ok_def accept_lo_def split: if_splits)
  from hi lo show ?thesis
    by (intro valid_arith4 payload_less b(2))
qed

lemma seq_len_range: "seq_len b \<in> {0, 1, 2, 3, 4}"
  by (simp add: seq_len_def)

lemma valid_decode_rune: "valid_rune (fst (decode_rune s))"
proof (cases s)
  case Nil
  then show ?thesis by simp
next
  case (Cons c cs)
  let ?b = "of_char c :: nat"
  have n1: "seq_len ?b = 1 \<Longrightarrow> valid_rune ?b"
    by (auto simp: seq_len_def valid_rune_def split: if_splits)
  have "?b mod 32 * 64 + payload (cs ! 0) < 2048"
    using payload_less [of "cs ! 0"] mod_less_divisor [of 32 ?b] by linarith
  then have n2: "valid_rune (?b mod 32 * 64 + payload (cs ! 0))" by (simp add: valid_rune_def)
  have hd: "length cs \<ge> seq_len ?b - 1 \<Longrightarrow> seq_len ?b = 3 \<or> seq_len ?b = 4 \<Longrightarrow> hd cs = cs ! 0"
    by (cases cs) auto
  show ?thesis
    unfolding Cons decode_rune.simps Let_def
    using n1 n2 hd valid_decode3 [of ?b "cs ! 0" "cs ! 1"]
      valid_decode4 [of ?b "cs ! 0" "cs ! 1" "cs ! 2"] seq_len_range [of ?b]
    by (auto simp: linorder_not_less)
qed

lemma valid_chunks: "(r, bs) \<in> set (chunks s) \<Longrightarrow> valid_rune r"
proof (induction s rule: chunks.induct)
  case (2 c cs)
  obtain r' w where d: "decode_rune (c # cs) = (r', w)" by fastforce
  from "2.prems" have "r = r' \<or> (r, bs) \<in> set (chunks (drop w (c # cs)))"
    by (auto simp: chunks.simps(2) d)
  then show ?case
    using valid_decode_rune [of "c # cs"] "2.IH" [OF d [symmetric] refl] d by auto
qed simp

lemma list_all_valid_runes: "list_all valid_rune (runes s)"
  by (auto simp: runes_def list_all_iff dest: valid_chunks)

section \<open>Character classes of package unicode\<close>

record unicode =
  uni_letter :: "rune \<Rightarrow> bool"
  uni_digit :: "rune \<Rightarrow> bool"
  uni_lower :: "rune \<Rightarrow> rune"
  uni_upper :: "rune \<Rightarrow> rune"

text \<open>A concrete table for evaluation: nothing beyond Latin-1 is classified or mapped.\<close>

definition latin1 :: unicode where
  "latin1 = \<lparr>uni_letter = (\<lambda>_. False), uni_digit = (\<lambda>_. False),
             uni_lower = (\<lambda>r. r), uni_upper = (\<lambda>r. r)\<rparr>"

definition is_space :: "rune \<Rightarrow> bool" where
  "is_space r \<longleftrightarrow> (9 \<le> r \<and> r \<le> 13) \<or> r = 32 \<or> r = 133 \<or> r = 160 \<or> r = 5760
     \<or> (8192 \<le> r \<and> r \<le> 8202) \<or> r = 8232 \<or> r = 8233 \<or> r = 8239 \<or> r = 8287 \<or> r = 12288"

definition is_digit :: "unicode \<Rightarrow> rune \<Rightarrow> bool" where
  "is_digit U r \<longleftrightarrow> (if r \<le> 255 then 48 \<le> r \<and> r \<le> 57 else uni_digit U r)"

definition is_letter :: "unicode \<Rightarrow> rune \<Rightarrow> bool" where
  "is_letter U r \<longleftrightarrow>
     (if r \<le> 255
      then (65 \<le> r \<and> r \<le> 90) \<or> (97 \<le> r \<and> r \<le> 122) \<or> r = 170 \<or> r = 181 \<or> r = 186
        \<or> (192 \<le> r \<and> r \<noteq> 215 \<and> r \<noteq> 247)
      else uni_letter U r)"

definition to_lower :: "unicode \<Rightarrow> rune \<Rightarrow> rune" where
  "to_lower U r = (if r \<le> 127 then if 65 \<le> r \<and> r \<le> 90 then r + 32 else r else uni_lower U r)"

definition to_upper :: "unicode \<Rightarrow> rune \<Rightarrow> rune" where
  "to_upper U r = (if r \<le> 127 then if 97 \<le> r \<and> r \<le> 122 then r - 32 else r else uni_upper U r)"

section \<open>Package strings\<close>

definition strings_map :: "(rune \<Rightarrow> rune) \<Rightarrow> string \<Rightarrow> string" where
  "strings_map f s = encode (map f (runes s))"

definition strings_to_lower :: "unicode \<Rightarrow> string \<Rightarrow> string" where
  "strings_to_lower U s = strings_map (to_lower U) s"

definition trim_right :: "('a \<Rightarrow> bool) \<Rightarrow> 'a list \<Rightarrow> 'a list" where
  "trim_right P xs = rev (dropWhile P (rev xs))"

definition trim_both :: "('a \<Rightarrow> bool) \<Rightarrow> 'a list \<Rightarrow> 'a list" where
  "trim_both P xs = trim_right P (dropWhile P xs)"

definition trim_space :: "string \<Rightarrow> string" where
  "trim_space s = concat (map snd (trim_both (\<lambda>(r, _). is_space r) (chunks s)))"

definition trim_quotes :: "string \<Rightarrow> string" where
  "trim_quotes s = trim_both (\<lambda>c. c = CHR 0x22) s"

text \<open>\<open>words_acc P [] xs\<close>: the maximal runs of elements outside \<open>P\<close>, the loop of
  \<open>strings.Fields\<close>; \<open>acc\<close> is the run being read.\<close>

fun words_acc :: "('a \<Rightarrow> bool) \<Rightarrow> 'a list \<Rightarrow> 'a list \<Rightarrow> 'a list list" where
  "words_acc P acc [] = (if acc = [] then [] else [acc])"
| "words_acc P acc (x # xs) =
     (if P x then (if acc = [] then words_acc P [] xs else acc # words_acc P [] xs)
      else words_acc P (acc @ [x]) xs)"

definition strings_fields :: "string \<Rightarrow> string list" where
  "strings_fields s = map (\<lambda>w. concat (map snd w)) (words_acc (\<lambda>(r, _). is_space r) [] (chunks s))"

fun split_on :: "'a \<Rightarrow> 'a list \<Rightarrow> 'a list list" where
  "split_on c [] = [[]]"
| "split_on c (x # xs) =
     (if x = c then [] # split_on c xs
      else case split_on c xs of [] \<Rightarrow> [[x]] | w # ws \<Rightarrow> (x # w) # ws)"

fun join :: "'a list \<Rightarrow> 'a list list \<Rightarrow> 'a list" where
  "join sep [] = []"
| "join sep [w] = w"
| "join sep (w # w' # ws) = w @ sep @ join sep (w' # ws)"

lemma words_acc_elem:
  "w \<in> set (words_acc P acc xs) \<Longrightarrow> list_all (\<lambda>x. \<not> P x) acc \<Longrightarrow>
     w \<noteq> [] \<and> list_all (\<lambda>x. \<not> P x) w \<and> set w \<subseteq> set acc \<union> set xs"
proof (induction xs arbitrary: acc)
  case Nil
  then show ?case by (auto split: if_splits)
next
  case (Cons x xs)
  from Cons.prems show ?case
    by (auto split: if_splits dest!: Cons.IH)
qed

lemma words_acc_map:
  "words_acc P (map f acc) (map f xs) = map (map f) (words_acc (P \<circ> f) acc xs)"
proof (induction xs arbitrary: acc)
  case (Cons x xs)
  show ?case using Cons.IH [of "[]"] Cons.IH [of "acc @ [x]"] by simp
qed simp

text \<open>On a string that is the encoding of valid runes, \<open>strings_fields\<close> is \<open>words_acc\<close> on runes.\<close>

lemma strings_fields_encode:
  assumes "list_all valid_rune rs"
  shows "strings_fields (encode rs) = map encode (words_acc is_space [] rs)"
proof -
  have "words_acc (\<lambda>(r, _). is_space r) [] (chunks (encode rs))
      = map (map (\<lambda>r. (r, encode_rune r))) (words_acc is_space [] rs)"
    using words_acc_map [of "\<lambda>(r, _). is_space r" "\<lambda>r. (r, encode_rune r)" "[]" rs] assms
    by (simp add: chunks_encode comp_def)
  then show ?thesis by (simp add: strings_fields_def encode_def comp_def)
qed

lemma split_on_nonempty: "split_on c xs \<noteq> []"
  by (induction xs) (auto split: list.splits)

lemma join_Cons: "ws \<noteq> [] \<Longrightarrow> join sep (w # ws) = w @ sep @ join sep ws"
  by (cases ws) auto

lemma join_split: "join [c] (split_on c xs) = xs"
proof (induction xs)
  case (Cons x xs)
  obtain w ws where "split_on c xs = w # ws" using split_on_nonempty by (metis list.exhaust)
  with Cons.IH show ?case by (cases ws) auto
qed simp

lemma split_on_elem: "w \<in> set (split_on c xs) \<Longrightarrow> c \<notin> set w"
proof (induction xs arbitrary: w)
  case (Cons x xs)
  obtain v vs where "split_on c xs = v # vs" using split_on_nonempty by (metis list.exhaust)
  with Cons show ?case by (auto split: if_splits)
qed simp

lemma split_on_append:
  "c \<notin> set w \<Longrightarrow> split_on c (w @ c # xs) = w # split_on c xs"
proof (induction w)
  case (Cons x w)
  obtain v vs where "split_on c xs = v # vs" using split_on_nonempty by (metis list.exhaust)
  with Cons show ?case by auto
qed simp

lemma split_on_id: "c \<notin> set w \<Longrightarrow> split_on c w = [w]"
  by (induction w) auto

lemma split_join:
  "ws \<noteq> [] \<Longrightarrow> \<forall>w\<in>set ws. c \<notin> set w \<Longrightarrow> split_on c (join [c] ws) = ws"
proof (induction "[c]" ws rule: join.induct)
  case (3 w w' ws)
  then show ?case by (simp add: split_on_append)
qed (auto simp: split_on_id)

lemma trim_right_subset: "set (trim_right P xs) \<subseteq> set xs"
  using set_dropWhileD by (fastforce simp: trim_right_def)

lemma trim_both_idem: "trim_both P (trim_both P xs) = trim_both P xs"
proof (cases "dropWhile P xs = []")
  case True
  then have e: "trim_both P xs = []" by (simp only: trim_both_def trim_right_def) simp
  show ?thesis unfolding e by (simp add: trim_both_def trim_right_def)
next
  case False
  let ?d = "dropWhile P xs" and ?t = "trim_both P xs"
  have h: "\<not> P (hd ?d)" using False by (rule hd_dropWhile)
  have t: "?t = trim_right P ?d" by (simp add: trim_both_def)
  obtain zs where zs: "?d = trim_right P ?d @ zs"
    unfolding trim_right_def
    using takeWhile_dropWhile_id [of P "rev ?d"] by (metis rev_append rev_rev_ident)
  have ne: "trim_right P ?d \<noteq> []"
    using False h hd_in_set [of ?d] unfolding trim_right_def
    by (metis dropWhile_eq_Nil_conv rev_is_Nil_conv set_rev)
  have "hd ?t = hd ?d" using zs ne unfolding t by (metis hd_append2)
  moreover obtain y ys where y: "?t = y # ys" 
    using ne t by (metis neq_Nil_conv)
  ultimately have "dropWhile P ?t = ?t" using h by simp
  then have "trim_both P ?t = trim_right P (trim_right P ?d)" by (simp add: trim_both_def t)
  also have "\<dots> = ?t" by (simp add: t trim_right_def)
  finally show ?thesis .
qed

end
