(* ===== verification/Float64.thy ===== *)
theory Float64
  imports Prelude "HOL-Library.Log_Nat"
begin

text \<open>
  Go's \<open>float64\<close> arithmetic, as far as the scoring code of \<open>src/matching\<close> uses it: a
  finite float is the rational number it denotes, and every operation is the exact
  operation followed by \<open>f64\<close>, IEEE 754 rounding to nearest with ties to even at 53 bits
  of precision (with gradual underflow at \<open>2 powi (-1074)\<close>). Infinities and NaN are not
  modelled: no operation of the scoring code leaves the range of finite floats on scores
  in the unit interval.

  The locale \<open>rounding\<close> states what the clients rely on; \<open>f64\<close> is shown to provide it.
\<close>

type_synonym float64 = rat

section \<open>The interface: a rounding function\<close>

locale rounding =
  fixes rnd :: "rat \<Rightarrow> rat"
  assumes rnd_mono: "x \<le> y \<Longrightarrow> rnd x \<le> rnd y"
    and rnd_idem: "rnd (rnd x) = rnd x"
    and rnd_nat: "n \<le> 2 ^ 53 \<Longrightarrow> rnd (of_nat n) = of_nat n"
    and rnd_half: "rnd (1 / 2) = 1 / 2"
    and rnd_compl: "1 / 2 \<le> rnd x \<Longrightarrow> rnd x \<le> 1 \<Longrightarrow> rnd (1 - rnd x) = 1 - rnd x"
begin

lemma rnd_0: "rnd 0 = 0"
  using rnd_nat [of 0] by simp

lemma rnd_1: "rnd 1 = 1"
  using rnd_nat [of 1] by simp

lemma rnd_nonneg: "0 \<le> x \<Longrightarrow> 0 \<le> rnd x"
  using rnd_mono [of 0 x] by (simp add: rnd_0)

lemma rnd_le_nat: "x \<le> of_nat n \<Longrightarrow> n \<le> 2 ^ 53 \<Longrightarrow> rnd x \<le> of_nat n"
  using rnd_mono [of x "of_nat n"] by (simp add: rnd_nat)

lemma rnd_le_1: "x \<le> 1 \<Longrightarrow> rnd x \<le> 1"
  using rnd_mono [of x 1] by (simp add: rnd_1)

lemma rnd_le_half: "x \<le> 1 / 2 \<Longrightarrow> rnd x \<le> 1 / 2"
  using rnd_mono [of x "1 / 2"] by (simp add: rnd_half)

lemma rnd_le: "x \<le> rnd y \<Longrightarrow> rnd x \<le> rnd y"
  using rnd_mono [of x "rnd y"] by (simp add: rnd_idem)

lemma rnd_pos_nat: "1 \<le> n \<Longrightarrow> 1 \<le> rnd (of_nat n)"
  using rnd_mono [of 1 "of_nat n"] by (simp add: rnd_1)

lemma rnd_unit: "0 \<le> x \<Longrightarrow> x \<le> 1 \<Longrightarrow> 0 \<le> rnd x \<and> rnd x \<le> 1"
  by (simp add: rnd_nonneg rnd_le_1)

text \<open>A quotient of two floats, the smaller one above, rounds into the unit interval.\<close>

lemma rnd_ratio: "0 \<le> x \<Longrightarrow> x \<le> y \<Longrightarrow> 0 \<le> rnd (x / y) \<and> rnd (x / y) \<le> 1"
  by (rule rnd_unit) (auto simp: divide_le_eq_1)

text \<open>
  The Winkler bonus \<open>j + q * (1 - j)\<close> stays within 1 under rounding when the scaling
  factor is at most one half: below one half the bonus itself is at most one half, above
  it the subtraction is exact.
\<close>

lemma rnd_bonus_le_1:
  assumes j: "j = rnd x" "0 \<le> j" "j \<le> 1" and q: "0 \<le> q" "q \<le> 1 / 2"
  shows "rnd (j + rnd (q * rnd (1 - j))) \<le> 1"
proof (rule rnd_le_1)
  have d: "0 \<le> rnd (1 - j)" "rnd (1 - j) \<le> 1"
    using j by (simp_all add: rnd_nonneg rnd_le_1)
  show "j + rnd (q * rnd (1 - j)) \<le> 1"
  proof (cases "j \<le> 1 / 2")
    case True
    have "q * rnd (1 - j) \<le> 1 / 2 * 1"
      using q d by (intro mult_mono) auto
    then have "rnd (q * rnd (1 - j)) \<le> 1 / 2"
      by (intro rnd_le_half) simp
    with True show ?thesis by simp
  next
    case False
    then have e: "rnd (1 - j) = 1 - j"
      using rnd_compl [of x] j by simp
    have "q * (1 - j) \<le> 1 * (1 - j)"
      using q j by (intro mult_right_mono) auto
    then have "rnd (q * (1 - j)) \<le> rnd (1 - j)"
      by (intro rnd_mono) simp
    with e show ?thesis by simp
  qed
qed

end


section \<open>Round to nearest, ties to even\<close>

definition rne :: "rat \<Rightarrow> int" where
  "rne x = (let f = \<lfloor>x\<rfloor>; d = x - of_int f in
     if d < 1 / 2 then f else if 1 / 2 < d then f + 1 else if even f then f else f + 1)"

lemma rne_bounds: "\<lfloor>x\<rfloor> \<le> rne x" "rne x \<le> \<lfloor>x\<rfloor> + 1"
  by (simp_all add: rne_def Let_def)

lemma rne_int [simp]: "rne (of_int n) = n"
  by (simp add: rne_def)

lemma rne_mono: "x \<le> y \<Longrightarrow> rne x \<le> rne y"
proof -
  assume xy: "x \<le> y"
  show ?thesis
  proof (cases "\<lfloor>x\<rfloor> = \<lfloor>y\<rfloor>")
    case True
    with xy show ?thesis by (auto simp: rne_def Let_def)
  next
    case False
    with xy have "\<lfloor>x\<rfloor> + 1 \<le> \<lfloor>y\<rfloor>" using floor_mono [of x y] by linarith
    then show ?thesis using rne_bounds(2) [of x] rne_bounds(1) [of y] by linarith
  qed
qed

lemma rne_nonneg: "0 \<le> x \<Longrightarrow> 0 \<le> rne x"
  using rne_mono [of 0 x] rne_int [of 0] by simp

section \<open>The binary exponent\<close>

definition ilog2 :: "rat \<Rightarrow> int" where
  "ilog2 x = (let (p, q) = quotient_of x; e = bitlen p - bitlen q in
     if 2 powi e \<le> x then e else e - 1)"

lemma powi_nat2: "0 \<le> n \<Longrightarrow> (2::rat) ^ nat n = 2 powi n"
  by (simp add: power_int_def)

lemma bitlen_rat:
  assumes "0 < p"
  shows "2 powi (bitlen p - 1) \<le> (of_int p :: rat)" "(of_int p :: rat) < 2 powi bitlen p"
proof -
  have b: "2 ^ nat (bitlen p - 1) \<le> p \<and> p < 2 ^ nat (bitlen p)"
    by (rule bitlen_bounds [OF assms])
  have pos: "0 < bitlen p"
    using assms bitlen_eq_zero_iff [of p] bitlen_nonneg [of p] by linarith
  have "(of_int (2 ^ nat (bitlen p - 1)) :: rat) \<le> of_int p"
    using b by (simp only: of_int_le_iff)
  then show "2 powi (bitlen p - 1) \<le> (of_int p :: rat)"
    using pos by (simp add: powi_nat2)
  have "(of_int p :: rat) < of_int (2 ^ nat (bitlen p))"
    using b by (simp only: of_int_less_iff)
  then show "(of_int p :: rat) < 2 powi bitlen p"
    using pos by (simp add: powi_nat2)
qed

lemma ilog2_bounds:
  assumes "0 < x"
  shows "2 powi ilog2 x \<le> x" "x < 2 powi (ilog2 x + 1)"
proof -
  obtain p q where pq: "quotient_of x = (p, q)" by (cases "quotient_of x")
  have q: "0 < q" using quotient_of_denom_pos [OF pq] .
  have x: "x = of_int p / of_int q" using quotient_of_div [OF pq] .
  have p: "0 < p" using assms q unfolding x by (simp add: zero_less_divide_iff)
  let ?e = "bitlen p - bitlen q"
  have P: "2 powi (bitlen p - 1) \<le> (of_int p :: rat)" "(of_int p :: rat) < 2 powi bitlen p"
    using bitlen_rat [OF p] .
  have Q: "2 powi (bitlen q - 1) \<le> (of_int q :: rat)" "(of_int q :: rat) < 2 powi bitlen q"
    using bitlen_rat [OF q] .
  have q': "(0::rat) < of_int q" using q by simp
  have "2 powi (bitlen p - 1) / 2 powi bitlen q \<le> (2::rat) powi (bitlen p - 1) / of_int q"
    using Q q' by (intro divide_left_mono) auto
  also have "\<dots> \<le> x" unfolding x using P q' by (intro divide_right_mono) auto
  finally have lo: "2 powi (?e - 1) \<le> x" by (simp add: power_int_diff)
  have "x < 2 powi bitlen p / of_int q" unfolding x using P q' by (intro divide_strict_right_mono) auto
  also have "\<dots> \<le> 2 powi bitlen p / 2 powi (bitlen q - 1)"
    using Q q' by (intro divide_left_mono) auto
  finally have hi: "x < 2 powi (?e + 1)" by (simp add: power_int_diff power_int_add)
  show "2 powi ilog2 x \<le> x" using lo by (simp add: ilog2_def pq Let_def)
  show "x < 2 powi (ilog2 x + 1)" using hi by (auto simp: ilog2_def pq Let_def)
qed

lemma powi2_less_iff: "(2::rat) powi a < 2 powi b \<longleftrightarrow> a < b"
proof
  assume "(2::rat) powi a < 2 powi b"
  then show "a < b" using power_int_increasing [of b a "2::rat"] by (cases "a < b") auto
qed (simp add: power_int_strict_increasing)

lemma powi2_le_iff: "(2::rat) powi a \<le> 2 powi b \<longleftrightarrow> a \<le> b"
  using powi2_less_iff [of b a] by (simp add: linorder_not_less [symmetric])

lemma ilog2_unique: "2 powi e \<le> x \<Longrightarrow> x < 2 powi (e + 1) \<Longrightarrow> ilog2 x = e"
proof -
  assume a: "2 powi e \<le> x" "x < 2 powi (e + 1)"
  have "0 < x" using a(1) by (rule less_le_trans [rotated]) simp
  note b = ilog2_bounds [OF this]
  have "(2::rat) powi e < 2 powi (ilog2 x + 1)" using a(1) b(2) by (rule le_less_trans)
  moreover have "(2::rat) powi ilog2 x < 2 powi (e + 1)" using b(1) a(2) by (rule le_less_trans)
  ultimately show ?thesis by (simp add: powi2_less_iff)
qed

lemma ilog2_mono: "0 < x \<Longrightarrow> x \<le> y \<Longrightarrow> ilog2 x \<le> ilog2 y"
proof -
  assume a: "0 < x" "x \<le> y"
  have "(2::rat) powi ilog2 x \<le> x" using a ilog2_bounds by blast
  also have "x \<le> y" by fact
  also have "y < 2 powi (ilog2 y + 1)" using a by (intro ilog2_bounds) simp
  finally show ?thesis by (simp add: powi2_less_iff)
qed

section \<open>Rounding to float64\<close>

definition ulp_exp :: "rat \<Rightarrow> int" where
  "ulp_exp x = max (ilog2 x - 52) (- 1074)"

definition f64pos :: "rat \<Rightarrow> rat" where
  "f64pos x = of_int (rne (x / 2 powi ulp_exp x)) * 2 powi ulp_exp x"

definition f64 :: "rat \<Rightarrow> float64" where
  "f64 x = (if x = 0 then 0 else if 0 < x then f64pos x else - f64pos (- x))"

text \<open>A number with a 53-bit significand on the grid of its binade is its own rounding.\<close>

lemma f64pos_grid: "0 < x \<Longrightarrow> x = of_int m * 2 powi k \<Longrightarrow> ulp_exp x \<le> k \<Longrightarrow> f64pos x = x"
proof -
  assume a: "0 < x" "x = of_int m * 2 powi k" "ulp_exp x \<le> k"
  let ?u = "ulp_exp x"
  have "x / 2 powi ?u = of_int m * 2 powi (k - ?u)"
    unfolding a(2) by (simp add: power_int_diff)
  also have "\<dots> = of_int (m * 2 ^ nat (k - ?u))"
    using a(3) powi_nat2 [of "k - ?u"] by simp
  finally have "rne (x / 2 powi ?u) = m * 2 ^ nat (k - ?u)" by (metis rne_int)
  then have "f64pos x = of_int (m * 2 ^ nat (k - ?u)) * 2 powi ?u" by (simp add: f64pos_def)
  also have "\<dots> = of_int m * 2 powi (k - ?u) * 2 powi ?u"
    using a(3) powi_nat2 [of "k - ?u"] by simp
  also have "\<dots> = x" unfolding a(2) by (simp add: power_int_diff)
  finally show ?thesis .
qed

lemma f64pos_powi: "- 1074 \<le> e \<Longrightarrow> f64pos (2 powi e) = 2 powi e"
proof -
  assume "- 1074 \<le> e"
  moreover have "ilog2 (2 powi e) = e" by (rule ilog2_unique) (simp_all add: powi2_less_iff)
  ultimately show ?thesis
    using f64pos_grid [of "2 powi e" 1 e] by (simp add: ulp_exp_def)
qed

lemma f64pos_nonneg: "0 < x \<Longrightarrow> 0 \<le> f64pos x"
  by (simp add: f64pos_def rne_nonneg)

text \<open>Within one grid rounding is monotone, and it never leaves the closed binade.\<close>

lemma f64pos_same_exp: "x \<le> y \<Longrightarrow> ulp_exp x = ulp_exp y \<Longrightarrow> f64pos x \<le> f64pos y"
  by (simp add: f64pos_def rne_mono divide_right_mono)

lemma f64pos_le_powi:
  assumes "0 < x" "x \<le> 2 powi e" "- 1074 \<le> e" "ulp_exp x \<le> e"
  shows "f64pos x \<le> 2 powi e"
proof -
  let ?u = "ulp_exp x"
  have "x / 2 powi ?u \<le> 2 powi e / 2 powi ?u"
    using assms by (intro divide_right_mono) auto
  also have "\<dots> = of_int (2 ^ nat (e - ?u))"
    using assms powi_nat2 [of "e - ?u"] by (simp add: power_int_diff)
  finally have "rne (x / 2 powi ?u) \<le> 2 ^ nat (e - ?u)"
    using rne_mono rne_int by metis
  then have "of_int (rne (x / 2 powi ?u)) \<le> (of_int (2 ^ nat (e - ?u)) :: rat)"
    by (simp only: of_int_le_iff)
  then have "f64pos x \<le> of_int (2 ^ nat (e - ?u)) * 2 powi ?u"
    unfolding f64pos_def by (intro mult_right_mono) auto
  also have "\<dots> = 2 powi e"
    using assms powi_nat2 [of "e - ?u"] by (simp add: power_int_diff)
  finally show ?thesis .
qed

lemma f64pos_ge_powi:
  assumes "0 < x" "2 powi e \<le> x" "- 1074 \<le> e" "ulp_exp x \<le> e"
  shows "2 powi e \<le> f64pos x"
proof -
  let ?u = "ulp_exp x"
  have "(of_int (2 ^ nat (e - ?u)) :: rat) = 2 powi e / 2 powi ?u"
    using assms powi_nat2 [of "e - ?u"] by (simp add: power_int_diff)
  also have "\<dots> \<le> x / 2 powi ?u"
    using assms by (intro divide_right_mono) auto
  finally have "2 ^ nat (e - ?u) \<le> rne (x / 2 powi ?u)"
    using rne_mono rne_int by metis
  then have "(of_int (2 ^ nat (e - ?u)) :: rat) \<le> of_int (rne (x / 2 powi ?u))"
    by (simp only: of_int_le_iff)
  then have "of_int (2 ^ nat (e - ?u)) * 2 powi ?u \<le> f64pos x"
    unfolding f64pos_def by (intro mult_right_mono) auto
  moreover have "of_int (2 ^ nat (e - ?u)) * 2 powi ?u = (2::rat) powi e"
    using assms powi_nat2 [of "e - ?u"] by (simp add: power_int_diff)
  ultimately show ?thesis by simp
qed

lemma f64pos_mono: "0 < x \<Longrightarrow> x \<le> y \<Longrightarrow> f64pos x \<le> f64pos y"
proof -
  assume a: "0 < x" "x \<le> y"
  show ?thesis
  proof (cases "ulp_exp x = ulp_exp y")
    case True
    then show ?thesis using a by (intro f64pos_same_exp)
  next
    case False
    have m: "ilog2 x \<le> ilog2 y" using a by (rule ilog2_mono)
    with False have l: "ilog2 x < ilog2 y" "- 1074 < ilog2 y - 52"
      by (auto simp: ulp_exp_def)
    have "x \<le> 2 powi (ilog2 x + 1)" using a ilog2_bounds(2) [of x] by simp
    also have "\<dots> \<le> 2 powi ilog2 y" using l by (simp add: powi2_le_iff)
    finally have "f64pos x \<le> 2 powi ilog2 y"
      using a l by (intro f64pos_le_powi) (auto simp: ulp_exp_def)
    also have "\<dots> \<le> f64pos y"
      using a l ilog2_bounds(1) [of y] by (intro f64pos_ge_powi) (auto simp: ulp_exp_def)
    finally show ?thesis .
  qed
qed

text \<open>What has been rounded is on the grid of its own binade, or the next power of two.\<close>

lemma f64pos_idem:
  assumes x: "0 < x" and y: "0 < f64pos x"
  shows "f64pos (f64pos x) = f64pos x"
proof -
  define E where "E = max (ilog2 x) (- 1022)"
  have u: "ulp_exp x = E - 52" by (simp add: ulp_exp_def E_def)
  have "x < 2 powi (ilog2 x + 1)" using x by (rule ilog2_bounds)
  also have "\<dots> \<le> 2 powi (E + 1)" by (simp add: powi2_le_iff E_def)
  finally have "f64pos x \<le> f64pos (2 powi (E + 1))" using x by (intro f64pos_mono) auto
  then have le: "f64pos x \<le> 2 powi (E + 1)" by (subst (asm) f64pos_powi) (simp_all add: E_def)
  show ?thesis
  proof (cases "f64pos x = 2 powi (E + 1)")
    case True
    then show ?thesis using f64pos_powi [of "E + 1"] by (simp add: E_def)
  next
    case False
    with le have "f64pos x < 2 powi (E + 1)" by simp
    with ilog2_bounds(1) [OF y] have "(2::rat) powi ilog2 (f64pos x) < 2 powi (E + 1)"
      by (rule le_less_trans)
    then have "ulp_exp (f64pos x) \<le> E - 52" by (simp add: powi2_less_iff ulp_exp_def E_def)
    then show ?thesis
      by (intro f64pos_grid [OF y, of "rne (x / 2 powi ulp_exp x)" "E - 52"])
        (simp_all add: f64pos_def u)
  qed
qed

lemma f64_idem: "f64 (f64 x) = f64 x"
proof -
  consider "x = 0" | "0 < x" | "x < 0" by linarith
  then show ?thesis
  proof cases
    case 2
    then show ?thesis
      using f64pos_nonneg [of x] f64pos_idem [of x] by (auto simp: f64_def)
  next
    case 3
    then show ?thesis
      using f64pos_nonneg [of "- x"] f64pos_idem [of "- x"] by (auto simp: f64_def)
  qed (simp add: f64_def)
qed

lemma f64_mono: "x \<le> y \<Longrightarrow> f64 x \<le> f64 y"
proof -
  assume xy: "x \<le> y"
  consider "0 < x" | "x \<le> 0" "0 \<le> y" | "y < 0" by linarith
  then show ?thesis
  proof cases
    case 1
    with xy show ?thesis by (simp add: f64_def f64pos_mono)
  next
    case 2
    then have "f64 x \<le> 0" "0 \<le> f64 y" by (auto simp: f64_def f64pos_nonneg)
    then show ?thesis by simp
  next
    case 3
    then have "f64pos (- y) \<le> f64pos (- x)" using xy by (intro f64pos_mono) auto
    with 3 xy show ?thesis by (simp add: f64_def)
  qed
qed

lemma f64_nat: "n \<le> 2 ^ 53 \<Longrightarrow> f64 (of_nat n) = of_nat n"
proof (cases "n = 0")
  case False
  assume n: "n \<le> 2 ^ 53"
  let ?x = "of_nat n :: rat"
  have pos: "0 < ?x" using False by simp
  show ?thesis
  proof (cases "n = 2 ^ 53")
    case True
    then have "?x = 2 powi 53" by simp
    then have "f64pos ?x = ?x" using f64pos_powi [of 53] by simp
    with pos show ?thesis by (simp only: f64_def) simp
  next
    case False
    with n have "n < 2 ^ 53" by simp
    then have "?x < of_nat (2 ^ 53)" by (simp only: of_nat_less_iff)
    then have "?x < 2 powi 53" by simp
    with ilog2_bounds(1) [OF pos] have "(2::rat) powi ilog2 ?x < 2 powi 53" by (rule le_less_trans)
    then have "ilog2 ?x < 53" by (simp only: powi2_less_iff)
    then have "ulp_exp ?x \<le> 0" by (simp add: ulp_exp_def)
    then have "f64pos ?x = ?x" by (intro f64pos_grid [OF pos, of "int n"]) simp_all
    with pos show ?thesis by (simp only: f64_def) simp
  qed
qed (simp add: f64_def)

lemma f64_half: "f64 (1 / 2) = 1 / 2"
proof -
  have "(1 / 2 :: rat) = 2 powi (- 1)" by (simp add: power_int_minus)
  then have "f64pos (1 / 2) = 1 / 2" using f64pos_powi [of "- 1"] by (metis neg_numeral_le_neg_one)
  then show ?thesis by (simp add: f64_def)
qed

text \<open>Every float between one half and one is a multiple of \<open>2 powi (-53)\<close>.\<close>

lemma f64_upper_half:
  assumes "1 / 2 \<le> f64 x" "f64 x \<le> 1"
  shows "\<exists>m::int. f64 x = of_int m * 2 powi (- 53)"
proof -
  consider "x < 1 / 2" | "1 / 2 \<le> x" "x < 1" | "1 \<le> x" by linarith
  then show ?thesis
  proof cases
    case 1
    then have "f64 x = 1 / 2" using f64_mono [of x "1 / 2"] assms by (simp add: f64_half)
    then show ?thesis by (intro exI [of _ "2 ^ 52"]) (simp add: power_int_minus field_simps)
  next
    case 2
    have "ilog2 x = - 1" using 2 by (intro ilog2_unique) (simp_all add: power_int_minus)
    then have "f64 x = of_int (rne (x / 2 powi (- 53))) * 2 powi (- 53)"
      using 2 by (simp add: f64_def f64pos_def ulp_exp_def)
    then show ?thesis by blast
  next
    case 3
    have "f64 1 \<le> f64 x" using 3 by (rule f64_mono)
    then have "f64 x = 1" using f64_nat [of 1] assms by auto
    then show ?thesis by (intro exI [of _ "2 ^ 53"]) (simp add: power_int_minus field_simps)
  qed
qed

lemma f64_compl:
  assumes "1 / 2 \<le> f64 x" "f64 x \<le> 1"
  shows "f64 (1 - f64 x) = 1 - f64 x"
proof -
  obtain m :: int where m: "f64 x = of_int m * 2 powi (- 53)"
    using f64_upper_half [OF assms] by blast
  let ?y = "1 - f64 x"
  have y: "?y = of_int (2 ^ 53 - m) * 2 powi (- 53)"
    unfolding m by (simp add: power_int_minus field_simps)
  show ?thesis
  proof (cases "?y = 0")
    case False
    with assms have pos: "0 < ?y" by simp
    have "?y < 2 powi 0" using assms by simp
    with ilog2_bounds(1) [OF pos] have "(2::rat) powi ilog2 ?y < 2 powi 0" by (rule le_less_trans)
    then have "ilog2 ?y < 0" by (simp only: powi2_less_iff)
    then have "f64pos ?y = ?y"
      by (intro f64pos_grid [OF pos y]) (simp add: ulp_exp_def)
    with pos show ?thesis by (simp add: f64_def)
  qed (simp add: f64_def)
qed

interpretation fl: rounding f64
  by unfold_locales (fact f64_mono f64_idem f64_nat f64_half f64_compl)+


section \<open>The operations\<close>

definition fadd :: "float64 \<Rightarrow> float64 \<Rightarrow> float64" where "fadd x y = f64 (x + y)"
definition fsub :: "float64 \<Rightarrow> float64 \<Rightarrow> float64" where "fsub x y = f64 (x - y)"
definition fmul :: "float64 \<Rightarrow> float64 \<Rightarrow> float64" where "fmul x y = f64 (x * y)"
definition fdiv :: "float64 \<Rightarrow> float64 \<Rightarrow> float64" where "fdiv x y = f64 (x / y)"
definition float_of_int :: "nat \<Rightarrow> float64" where "float_of_int n = f64 (of_nat n)"

lemmas fl_defs = fadd_def fsub_def fmul_def fdiv_def float_of_int_def

lemma float_of_int_mono: "m \<le> n \<Longrightarrow> float_of_int m \<le> float_of_int n"
  by (simp add: float_of_int_def fl.rnd_mono)

lemma float_of_int_nonneg [fl_intros]: "0 \<le> float_of_int n"
  by (simp add: float_of_int_def fl.rnd_nonneg)

lemma fdiv_unit: "m \<le> n \<Longrightarrow> 0 \<le> fdiv (float_of_int m) (float_of_int n)"
  "m \<le> n \<Longrightarrow> fdiv (float_of_int m) (float_of_int n) \<le> 1"
  using fl.rnd_ratio [OF float_of_int_nonneg float_of_int_mono, of m n] by (simp_all add: fdiv_def)

lemma fsub_one_unit [fl_intros]: "0 \<le> x \<Longrightarrow> x \<le> 1 \<Longrightarrow> 0 \<le> fsub 1 x"
  "0 \<le> x \<Longrightarrow> x \<le> 1 \<Longrightarrow> fsub 1 x \<le> 1"
  using fl.rnd_unit [of "1 - x"] by (simp_all add: fsub_def)

lemma fadd_mono: "x \<le> x' \<Longrightarrow> y \<le> y' \<Longrightarrow> fadd x y \<le> fadd x' y'"
  by (simp add: fadd_def fl.rnd_mono add_mono)

lemma fmul_mono: "0 \<le> x \<Longrightarrow> x \<le> x' \<Longrightarrow> 0 \<le> y \<Longrightarrow> y \<le> y' \<Longrightarrow> fmul x y \<le> fmul x' y'"
  by (simp add: fmul_def fl.rnd_mono mult_mono)

lemma fadd_nonneg [fl_intros]: "0 \<le> x \<Longrightarrow> 0 \<le> y \<Longrightarrow> 0 \<le> fadd x y"
  by (simp add: fadd_def fl.rnd_nonneg)

lemma fmul_nonneg [fl_intros]: "0 \<le> x \<Longrightarrow> 0 \<le> y \<Longrightarrow> 0 \<le> fmul x y"
  by (simp add: fmul_def fl.rnd_nonneg)

lemma fdiv_nonneg [fl_intros]: "0 \<le> x \<Longrightarrow> 0 \<le> y \<Longrightarrow> 0 \<le> fdiv x y"
  by (simp add: fdiv_def fl.rnd_nonneg)

lemma float_of_int_small [simp]: "n \<le> 2 ^ 53 \<Longrightarrow> float_of_int n = of_nat n"
  by (simp add: float_of_int_def fl.rnd_nat)

end
