(* ===== verification/Edit_Distance.thy ===== *)
theory Edit_Distance
  imports Prelude
begin

text \<open>
  The specification of \<open>levenshteinDistance\<close> (\<open>src/matching/similarity.go\<close>): \<open>edits xs ys n\<close>
  says that \<open>n\<close> insertions, deletions and substitutions turn \<open>xs\<close> into \<open>ys\<close>. The recursive
  \<open>led\<close> is the least such \<open>n\<close>; edit scripts can be reversed, inverted and composed, so
  the least cost is a metric.
\<close>

section \<open>Edit scripts\<close>

inductive edits :: "'a list \<Rightarrow> 'a list \<Rightarrow> nat \<Rightarrow> bool" where
  none: "edits [] [] 0"
| keep: "edits xs ys n \<Longrightarrow> edits (x # xs) (x # ys) n"
| sub: "edits xs ys n \<Longrightarrow> edits (x # xs) (y # ys) (Suc n)"
| del: "edits xs ys n \<Longrightarrow> edits (x # xs) ys (Suc n)"
| ins: "edits xs ys n \<Longrightarrow> edits xs (y # ys) (Suc n)"

lemma edits_sym: "edits xs ys n \<Longrightarrow> edits ys xs n"
  by (induction rule: edits.induct) (auto intro: edits.intros)

lemma edits_append:
  "edits xs ys m \<Longrightarrow> edits us vs n \<Longrightarrow> edits (xs @ us) (ys @ vs) (m + n)"
  by (induction rule: edits.induct) (auto intro: edits.intros)

lemma edits_rev: "edits xs ys n \<Longrightarrow> edits (rev xs) (rev ys) n"
proof (induction rule: edits.induct)
  case (keep xs ys n x)
  then show ?case using edits_append [of _ _ n "[x]" "[x]" 0] by (auto intro: edits.intros)
next
  case (sub xs ys n x y)
  then show ?case using edits_append [of _ _ n "[x]" "[y]" 1] by (auto intro: edits.intros)
next
  case (del xs ys n x)
  then show ?case using edits_append [of _ _ n "[x]" "[]" 1] by (auto intro: edits.intros)
next
  case (ins xs ys n y)
  then show ?case using edits_append [of _ _ n "[]" "[y]" 1] by (auto intro: edits.intros)
qed (simp add: edits.none)

lemma edits_rev_iff: "edits (rev xs) (rev ys) n \<longleftrightarrow> edits xs ys n"
  using edits_rev by (metis rev_rev_ident)

lemma edits_zero: "edits xs ys n \<Longrightarrow> n = 0 \<Longrightarrow> xs = ys"
  by (induction rule: edits.induct) auto

lemma edits_refl: "edits xs xs 0"
  by (induction xs) (auto intro: edits.intros)

lemma edits_length: "edits xs ys n \<Longrightarrow> length xs \<le> length ys + n \<and> length ys \<le> length xs + n"
  by (induction rule: edits.induct) auto

text \<open>Composition of scripts: at most the sum of the costs.\<close>

lemma edits_head:
  "edits xs ws m \<Longrightarrow> ws = y # ys \<Longrightarrow>
     \<exists>xs1 xs2 m1 m2. xs = xs1 @ xs2 \<and> edits xs1 [y] m1 \<and> edits xs2 ys m2 \<and> m = m1 + m2"
proof (induction arbitrary: y ys rule: edits.induct)
  case none
  then show ?case by simp
next
  case (keep xs ys' n x)
  then show ?case
    by (intro exI [of _ "[x]"] exI [of _ xs] exI [of _ 0] exI [of _ n]) (auto intro: edits.intros)
next
  case (sub xs ys' n x y')
  then show ?case
    by (intro exI [of _ "[x]"] exI [of _ xs] exI [of _ "Suc 0"] exI [of _ n])
      (auto intro: edits.intros)
next
  case (del xs ws n x)
  from del.IH [OF del.prems] obtain xs1 xs2 m1 m2
    where "xs = xs1 @ xs2" "edits xs1 [y] m1" "edits xs2 ys m2" "n = m1 + m2" by blast
  then show ?case
    by (intro exI [of _ "x # xs1"] exI [of _ xs2] exI [of _ "Suc m1"] exI [of _ m2])
      (auto intro: edits.intros)
next
  case (ins xs ys' n y')
  then show ?case
    by (intro exI [of _ "[]"] exI [of _ xs] exI [of _ "Suc 0"] exI [of _ n])
      (auto intro: edits.intros)
qed

lemma edits_Nil: "edits [] ys (length ys)"
  by (induction ys) (auto intro: edits.intros)

lemma edits_Nil2: "edits xs [] (length xs)"
  by (rule edits_sym [OF edits_Nil])

lemma edits_single_swap: "edits xs [y] m \<Longrightarrow> \<exists>k. k \<le> Suc m \<and> edits xs [z] k"
proof (cases xs)
  case Nil
  then show ?thesis using edits_Nil [of "[z]"] by (intro exI [of _ 1]) simp
next
  case (Cons x xs')
  assume "edits xs [y] m"
  with Cons have "Suc (length xs') \<le> Suc m" using edits_length by fastforce
  then show ?thesis
    using Cons edits_Nil2 [of xs'] by (intro exI [of _ "Suc (length xs')"]) (auto intro: edits.sub)
qed

lemma edits_single_drop: "edits xs [y] m \<Longrightarrow> \<exists>k. k \<le> Suc m \<and> edits xs [] k"
  using edits_length edits_Nil2 [of xs] by fastforce

text \<open>The script for the first list element that the second script consumes can be cut off.\<close>

lemma edits_comp:
  "edits ys zs n \<Longrightarrow> edits xs ys m \<Longrightarrow> \<exists>k. k \<le> m + n \<and> edits xs zs k"
proof (induction arbitrary: xs m rule: edits.induct)
  case none
  then show ?case by auto
next
  case (keep ys zs n y)
  obtain xs1 xs2 m1 m2 where x: "xs = xs1 @ xs2" "edits xs1 [y] m1" "edits xs2 ys m2" "m = m1 + m2"
    using edits_head [OF keep.prems refl] by blast
  obtain k where "k \<le> m2 + n" "edits xs2 zs k" using keep.IH [OF x(3)] by blast
  then show ?case using edits_append [OF x(2)] x by (intro exI [of _ "m1 + k"]) fastforce
next
  case (sub ys zs n y z)
  obtain xs1 xs2 m1 m2 where x: "xs = xs1 @ xs2" "edits xs1 [y] m1" "edits xs2 ys m2" "m = m1 + m2"
    using edits_head [OF sub.prems refl] by blast
  obtain k where k: "k \<le> m2 + n" "edits xs2 zs k" using sub.IH [OF x(3)] by blast
  obtain l where l: "l \<le> Suc m1" "edits xs1 [z] l" using edits_single_swap [OF x(2)] by blast
  show ?case using edits_append [OF l(2) k(2)] k l x by (intro exI [of _ "l + k"]) auto
next
  case (del ys zs n y)
  obtain xs1 xs2 m1 m2 where x: "xs = xs1 @ xs2" "edits xs1 [y] m1" "edits xs2 ys m2" "m = m1 + m2"
    using edits_head [OF del.prems refl] by blast
  obtain k where k: "k \<le> m2 + n" "edits xs2 zs k" using del.IH [OF x(3)] by blast
  obtain l where l: "l \<le> Suc m1" "edits xs1 [] l" using edits_single_drop [OF x(2)] by blast
  show ?case using edits_append [OF l(2) k(2)] k l x by (intro exI [of _ "l + k"]) auto
next
  case (ins ys zs n z)
  obtain k where "k \<le> m + n" "edits xs zs k" using ins.IH [OF ins.prems] by blast
  then show ?case by (intro exI [of _ "Suc k"]) (auto intro: edits.intros)
qed

section \<open>The least cost, recursively\<close>

fun led :: "'a list \<Rightarrow> 'a list \<Rightarrow> nat" where
  "led [] ys = length ys"
| "led xs [] = length xs"
| "led (x # xs) (y # ys) =
     min (min (led xs (y # ys) + 1) (led (x # xs) ys + 1)) (led xs ys + (if x = y then 0 else 1))"

lemma led_Nil2 [simp]: "led xs [] = length xs"
  by (cases xs) auto

lemma edits_led: "edits xs ys (led xs ys)"
proof (induction xs ys rule: led.induct)
  case (3 x xs y ys)
  then show ?case by (auto simp: min_def intro: edits.intros)
next
  case (2 x xs)
  show ?case using edits_Nil2 [of "x # xs"] by simp
qed (simp add: edits_Nil)

lemma led_Cons_le: "led (x # xs) ys \<le> Suc (led xs ys)" "led xs (y # ys) \<le> Suc (led xs ys)"
proof -
  show "led (x # xs) ys \<le> Suc (led xs ys)" by (cases ys) simp_all
  show "led xs (y # ys) \<le> Suc (led xs ys)" by (cases xs) simp_all
qed

lemma led_least: "edits xs ys n \<Longrightarrow> led xs ys \<le> n"
proof (induction rule: edits.induct)
  case (del xs ys n x)
  then show ?case using led_Cons_le(1) [of x xs ys] by simp
next
  case (ins xs ys n y)
  then show ?case using led_Cons_le(2) [of xs y ys] by simp
qed auto

lemma led_eqI: "edits xs ys n \<Longrightarrow> (\<And>m. edits xs ys m \<Longrightarrow> n \<le> m) \<Longrightarrow> led xs ys = n"
  using edits_led led_least by (metis le_antisym)

lemma led_rev: "led (rev xs) (rev ys) = led xs ys"
  by (rule led_eqI) (auto simp: edits_rev_iff edits_led led_least)

lemma led_sym: "led xs ys = led ys xs"
  by (rule led_eqI) (auto intro: edits_sym edits_led led_least)

lemma led_zero_iff: "led xs ys = 0 \<longleftrightarrow> xs = ys"
proof
  assume "led xs ys = 0"
  then show "xs = ys" using edits_zero [OF edits_led] by blast
next
  assume "xs = ys"
  then show "led xs ys = 0" using led_least [OF edits_refl] by auto
qed

lemma led_triangle: "led xs zs \<le> led xs ys + led ys zs"
proof -
  obtain k where "k \<le> led xs ys + led ys zs" "edits xs zs k"
    using edits_comp [OF edits_led [of ys zs] edits_led [of xs ys]] by blast
  then show ?thesis using led_least by (meson order_trans)
qed

lemma led_le_max: "led xs ys \<le> max (length xs) (length ys)"
  by (induction xs ys rule: led.induct) auto

lemma led_ge_diff: "length xs \<le> length ys + led xs ys" "length ys \<le> length xs + led xs ys"
  using edits_length [OF edits_led] by blast+

end
