(* ===== verification/Similarity.thy ===== *)
theory Similarity
  imports Go_Strings Float64 Edit_Distance
begin

text \<open>
  \<open>src/matching/similarity.go\<close>: the string similarity functions behind the field scores.
  Strings are compared rune by rune; scores are \<open>float64\<close>. An index out of range, which
  makes Go panic, is the result \<open>None\<close>; every other access is within the bounds of its
  loop.
\<close>

section \<open>Jaro and Jaro-Winkler\<close>

definition matchWindow :: "nat \<Rightarrow> nat \<Rightarrow> nat" where
  "matchWindow l1 l2 =
     (let w = (if l1 > l2 then int (l1 div 2) - 1 else int (l2 div 2) - 1) in
      if w < 0 then 0 else nat w)"

type_synonym jaro_state = "bool list \<times> bool list \<times> nat"

definition jaro_step :: "rune list \<Rightarrow> rune list \<Rightarrow> nat \<Rightarrow> nat \<Rightarrow> jaro_state \<Rightarrow> jaro_state" where
  "jaro_step r1 r2 w i = (\<lambda>(s1Matches, s2Matches, matches).
     let start = (if int i - int w < 0 then 0 else i - w);
         stop = (if i + w + 1 > length r2 then length r2 else i + w + 1) in
     case find (\<lambda>j. \<not> (s2Matches ! j \<or> r1 ! i \<noteq> r2 ! j)) [start..<stop] of
       None \<Rightarrow> (s1Matches, s2Matches, matches)
     | Some j \<Rightarrow> (s1Matches[i := True], s2Matches[j := True], matches + 1))"

definition jaro_matches :: "rune list \<Rightarrow> rune list \<Rightarrow> jaro_state" where
  "jaro_matches r1 r2 =
     fold (jaro_step r1 r2 (matchWindow (length r1) (length r2))) [0..<length r1]
       (replicate (length r1) False, replicate (length r2) False, 0)"

text \<open>The inner loop \<open>for !s2Matches[k] { k++ }\<close> of the transposition count.\<close>

function next_match :: "bool list \<Rightarrow> nat \<Rightarrow> nat option" where
  "next_match ms k =
     (if k < length ms then (if ms ! k then Some k else next_match ms (k + 1)) else None)"
  by pat_completeness auto
termination
  by (relation "measure (\<lambda>(ms, k). length ms - k)") auto

declare next_match.simps [simp del]

fun jaro_transpositions ::
  "rune list \<Rightarrow> rune list \<Rightarrow> bool list \<Rightarrow> bool list \<Rightarrow> nat list \<Rightarrow> nat \<Rightarrow> nat \<Rightarrow> nat option" where
  "jaro_transpositions r1 r2 s1Matches s2Matches [] k t = Some t"
| "jaro_transpositions r1 r2 s1Matches s2Matches (i # is) k t =
     (if \<not> s1Matches ! i then jaro_transpositions r1 r2 s1Matches s2Matches is k t
      else case next_match s2Matches k of
        None \<Rightarrow> None
      | Some k' \<Rightarrow> jaro_transpositions r1 r2 s1Matches s2Matches is (k' + 1)
                     (if r1 ! i \<noteq> r2 ! k' then t + 1 else t))"

definition jaro_score :: "nat \<Rightarrow> nat \<Rightarrow> nat \<Rightarrow> nat \<Rightarrow> float64" where
  "jaro_score matches l1 l2 transpositions =
     (let m = float_of_int matches in
      fdiv (fadd (fadd (fdiv m (float_of_int l1)) (fdiv m (float_of_int l2)))
                 (fdiv (fsub m (fdiv (float_of_int transpositions) 2)) m)) 3)"

definition jaro :: "string \<Rightarrow> string \<Rightarrow> float64 option" where
  "jaro s1 s2 =
     (if s1 = s2 then Some 1
      else let r1 = runes s1; r2 = runes s2; l1 = length r1; l2 = length r2 in
        if l1 = 0 \<or> l2 = 0 then Some 0
        else let (s1Matches, s2Matches, matches) = jaro_matches r1 r2 in
          if matches = 0 then Some 0
          else case jaro_transpositions r1 r2 s1Matches s2Matches [0..<l1] 0 0 of
            None \<Rightarrow> None
          | Some transpositions \<Rightarrow> Some (jaro_score matches l1 l2 transpositions))"

definition maxPrefix :: "rune list \<Rightarrow> rune list \<Rightarrow> nat" where
  "maxPrefix r1 r2 =
     (let p = (if length r1 < 4 then length r1 else 4) in if length r2 < p then length r2 else p)"

fun prefixLen :: "rune list \<Rightarrow> rune list \<Rightarrow> nat list \<Rightarrow> nat" where
  "prefixLen r1 r2 [] = 0"
| "prefixLen r1 r2 (i # is) = (if r1 ! i \<noteq> r2 ! i then 0 else 1 + prefixLen r1 r2 is)"

definition jaroWinkler :: "string \<Rightarrow> string \<Rightarrow> float64 option" where
  "jaroWinkler s1 s2 =
     (case jaro s1 s2 of
        None \<Rightarrow> None
      | Some j \<Rightarrow>
          if j = 0 then Some 0
          else let r1 = runes s1; r2 = runes s2;
                   p = prefixLen r1 r2 [0..<maxPrefix r1 r2] in
            Some (fadd j (fmul (fmul (float_of_int p) (f64 (1 / 10))) (fsub 1 j))))"

section \<open>Levenshtein\<close>

definition lev_cell :: "rune \<Rightarrow> rune list \<Rightarrow> nat list \<Rightarrow> nat \<Rightarrow> nat list \<Rightarrow> nat list" where
  "lev_cell c r2 prev j cur =
     (let cost = (if c = r2 ! (j - 1) then 0 else 1);
          del = prev ! j + 1; ins = cur ! (j - 1) + 1; sub = prev ! (j - 1) + cost;
          m = del; m = (if ins < m then ins else m); m = (if sub < m then sub else m)
      in cur[j := m])"

definition lev_row :: "rune list \<Rightarrow> rune list \<Rightarrow> nat \<Rightarrow> nat list \<times> nat list \<Rightarrow> nat list \<times> nat list" where
  "lev_row r1 r2 i = (\<lambda>(prev, cur).
     let cur = fold (lev_cell (r1 ! (i - 1)) r2 prev) [1..<length r2 + 1] (cur[0 := i])
     in (cur, prev))"

definition levenshteinDistance :: "string \<Rightarrow> string \<Rightarrow> nat" where
  "levenshteinDistance s1 s2 =
     (let r1 = runes s1; r2 = runes s2; l1 = length r1; l2 = length r2 in
      if l1 = 0 then l2
      else if l2 = 0 then l1
      else let (prev, cur) = fold (lev_row r1 r2) [1..<l1 + 1]
                 ([0..<l2 + 1], replicate (l2 + 1) 0)
        in prev ! l2)"

definition normalizedLevenshtein :: "string \<Rightarrow> string \<Rightarrow> float64" where
  "normalizedLevenshtein s1 s2 =
     (if s1 = s2 then 1
      else let maxLen = (if length (runes s2) > length (runes s1)
                         then length (runes s2) else length (runes s1)) in
        if maxLen = 0 then 1
        else fsub 1 (fdiv (float_of_int (levenshteinDistance s1 s2)) (float_of_int maxLen)))"

section \<open>Token Jaccard\<close>

text \<open>A Go map used as a set is the list of its keys; only counts are taken of it.\<close>

definition tokenSet :: "unicode \<Rightarrow> string \<Rightarrow> string list" where
  "tokenSet U s = dedup_by (\<lambda>w. w) (strings_fields (strings_to_lower U s))"

definition tokenJaccard :: "unicode \<Rightarrow> string \<Rightarrow> string \<Rightarrow> float64" where
  "tokenJaccard U s1 s2 =
     (let tokens1 = tokenSet U s1; tokens2 = tokenSet U s2 in
      if length tokens1 = 0 \<and> length tokens2 = 0 then 1
      else if length tokens1 = 0 \<or> length tokens2 = 0 then 0
      else let intersection = length (filter (\<lambda>t. t \<in> set tokens2) tokens1);
               union = length tokens1 + length (filter (\<lambda>t. t \<notin> set tokens1) tokens2) in
        if union = 0 then 0 else fdiv (float_of_int intersection) (float_of_int union))"

section \<open>Dispatch\<close>

datatype SimilarityFunc = SimilarityExact | SimilarityJaroWinkler | SimilarityLevenshtein
  | SimilarityTokenJaccard | SimilarityOther string

definition computeSimilarity :: "unicode \<Rightarrow> SimilarityFunc \<Rightarrow> string \<Rightarrow> string \<Rightarrow> float64 option" where
  "computeSimilarity U f a b =
     (if a = [] \<or> b = [] then Some 0
      else case f of
        SimilarityExact \<Rightarrow> Some (if a = b then 1 else 0)
      | SimilarityJaroWinkler \<Rightarrow> jaroWinkler a b
      | SimilarityLevenshtein \<Rightarrow> Some (normalizedLevenshtein a b)
      | SimilarityTokenJaccard \<Rightarrow> Some (tokenJaccard U a b)
      | SimilarityOther _ \<Rightarrow> Some 0)"

section \<open>The transposition count stays in range\<close>

definition trues :: "bool list \<Rightarrow> nat" where
  "trues ms = length (filter (\<lambda>b. b) ms)"

lemma trues_update:
  "i < length ms \<Longrightarrow> \<not> ms ! i \<Longrightarrow> trues (ms[i := True]) = Suc (trues ms)"
proof (induction ms arbitrary: i)
  case (Cons b ms)
  then show ?case by (cases i) (auto simp: trues_def)
qed simp

lemma trues_le: "trues ms \<le> length ms"
  by (simp add: trues_def)

text \<open>What the matching loop keeps: both tables count the same matches, and rows still to
  come are unmatched.\<close>

definition jaro_inv :: "nat \<Rightarrow> nat \<Rightarrow> nat \<Rightarrow> jaro_state \<Rightarrow> bool" where
  "jaro_inv l1 l2 i = (\<lambda>(m1, m2, n). length m1 = l1 \<and> length m2 = l2
     \<and> trues m1 = n \<and> trues m2 = n \<and> (\<forall>i'. i \<le> i' \<and> i' < l1 \<longrightarrow> \<not> m1 ! i'))"

lemma jaro_step_inv:
  assumes "jaro_inv (length r1) (length r2) i st" "i < length r1"
  shows "jaro_inv (length r1) (length r2) (Suc i) (jaro_step r1 r2 w i st)"
proof -
  obtain m1 m2 n where st: "st = (m1, m2, n)" by (cases st)
  note inv = assms(1) [unfolded st jaro_inv_def, simplified]
  show ?thesis
  proof (cases "find (\<lambda>j. \<not> (m2 ! j \<or> r1 ! i \<noteq> r2 ! j))
      [(if int i - int w < 0 then 0 else i - w)..<
       (if i + w + 1 > length r2 then length r2 else i + w + 1)]")
    case None
    then show ?thesis using inv by (simp add: st jaro_step_def jaro_inv_def)
  next
    case (Some j)
    from find_upt_Some [OF Some] have "j < length r2" "\<not> m2 ! j" by (auto split: if_splits)
    then have "trues (m2[j := True]) = Suc n" using inv by (simp add: trues_update)
    moreover have "trues (m1[i := True]) = Suc n" using inv assms(2) by (simp add: trues_update)
    ultimately show ?thesis
      unfolding st jaro_step_def Let_def prod.case Some option.case jaro_inv_def using inv by simp
  qed
qed

lemma jaro_fold_inv:
  "n \<le> length r1 \<Longrightarrow> jaro_inv (length r1) (length r2) n
     (fold (jaro_step r1 r2 w) [0..<n] (replicate (length r1) False, replicate (length r2) False, 0))"
proof (induction n)
  case 0
  show ?case by (simp add: jaro_inv_def trues_def)
next
  case (Suc n)
  then show ?case by (simp add: jaro_step_inv)
qed

lemma jaro_matches_inv: "jaro_inv (length r1) (length r2) (length r1) (jaro_matches r1 r2)"
  unfolding jaro_matches_def by (rule jaro_fold_inv) simp

lemma next_match_Some:
  "0 < trues (drop k ms) \<Longrightarrow>
     \<exists>k'. next_match ms k = Some k' \<and> k' < length ms \<and> trues (drop k ms) = Suc (trues (drop (Suc k') ms))"
proof (induction ms k rule: next_match.induct)
  case (1 ms k)
  from "1.prems" have k: "k < length ms" by (cases "k < length ms") (simp_all add: trues_def)
  then have d: "drop k ms = ms ! k # drop (Suc k) ms" by (rule Cons_nth_drop_Suc [symmetric])
  show ?case
  proof (cases "ms ! k")
    case True
    with k d show ?thesis by (simp add: next_match.simps trues_def)
  next
    case False
    with "1.IH" [OF k False] "1.prems" d k show ?thesis
      by (simp add: next_match.simps [of ms k] trues_def)
  qed
qed

lemma jaro_transpositions_Some:
  assumes "length (filter (\<lambda>i. m1 ! i) is) \<le> trues (drop k m2)"
  shows "\<exists>t'. jaro_transpositions r1 r2 m1 m2 is k t = Some t'
    \<and> t' \<le> t + length (filter (\<lambda>i. m1 ! i) is)"
  using assms
proof (induction "is" arbitrary: k t)
  case (Cons i "is")
  show ?case
  proof (cases "m1 ! i")
    case True
    with Cons.prems obtain k' where k': "next_match m2 k = Some k'"
        "trues (drop k m2) = Suc (trues (drop (Suc k') m2))"
      using next_match_Some [of k m2] by auto
    with Cons.prems True Cons.IH [of "Suc k'" "if r1 ! i \<noteq> r2 ! k' then t + 1 else t"]
    show ?thesis by (auto split: if_splits)
  next
    case False
    with Cons show ?thesis by simp
  qed
qed simp

lemma filter_nth_trues: "length (filter (\<lambda>i. ms ! i) [0..<length ms]) = trues ms"
proof -
  have "filter (\<lambda>b. b) ms = map (\<lambda>i. ms ! i) (filter (\<lambda>i. ms ! i) [0..<length ms])"
    using filter_map [of "\<lambda>b. b" "(!) ms" "[0..<length ms]"] map_nth [of ms] by (simp add: comp_def)
  then show ?thesis by (simp add: trues_def)
qed

lemma jaro_cases:
  obtains "jaro s1 s2 = Some 1" | "jaro s1 s2 = Some 0"
  | m t where "jaro s1 s2 = Some (jaro_score m (length (runes s1)) (length (runes s2)) t)"
      "0 < m" "m \<le> length (runes s1)" "m \<le> length (runes s2)" "t \<le> m"
proof -
  obtain m1 m2 m where jm: "jaro_matches (runes s1) (runes s2) = (m1, m2, m)"
    by (cases "jaro_matches (runes s1) (runes s2)")
  have inv: "length m1 = length (runes s1)" "length m2 = length (runes s2)"
      "trues m1 = m" "trues m2 = m"
    using jaro_matches_inv [of "runes s1" "runes s2"] by (auto simp: jm jaro_inv_def)
  obtain t where t: "jaro_transpositions (runes s1) (runes s2) m1 m2 [0..<length (runes s1)] 0 0
      = Some t" "t \<le> m"
    using jaro_transpositions_Some [of m1 "[0..<length (runes s1)]" 0 m2 "runes s1" "runes s2" 0]
      filter_nth_trues [of m1] inv by auto
  have "m \<le> length (runes s1)" "m \<le> length (runes s2)"
    using trues_le [of m1] trues_le [of m2] inv by auto
  moreover have "jaro s1 s2 = (if s1 = s2 then Some 1
      else if length (runes s1) = 0 \<or> length (runes s2) = 0 \<or> m = 0 then Some 0
      else Some (jaro_score m (length (runes s1)) (length (runes s2)) t))"
    by (simp add: jaro_def jm t(1) Let_def)
  ultimately show thesis using that t(2) by (auto split: if_splits)
qed


section \<open>Scores lie in the unit interval\<close>

lemma jaro_score_unit:
  assumes "0 < m" "m \<le> l1" "m \<le> l2" "t \<le> m"
  shows "0 \<le> jaro_score m l1 l2 t" "jaro_score m l1 l2 t \<le> 1"
proof -
  let ?m = "float_of_int m" and ?t = "float_of_int t"
  define a b h where "a = fdiv ?m (float_of_int l1)" and "b = fdiv ?m (float_of_int l2)"
    and "h = fdiv ?t 2"
  have a: "0 \<le> a" "a \<le> 1" and b: "0 \<le> b" "b \<le> 1"
    unfolding a_def b_def using assms by (simp_all add: fdiv_unit)
  have tm: "?t \<le> ?m" "0 \<le> ?t" using assms by (simp_all add: float_of_int_mono float_of_int_nonneg)
  have h: "0 \<le> h" "h \<le> ?m"
  proof -
    show "0 \<le> h" unfolding h_def using tm by (simp add: fdiv_nonneg)
    have "?t / 2 \<le> ?m" using tm by simp
    then show "h \<le> ?m" unfolding h_def fdiv_def float_of_int_def by (rule fl.rnd_le)
  qed
  have d: "0 \<le> fsub ?m h" "fsub ?m h \<le> ?m"
    using h unfolding fsub_def float_of_int_def by (simp_all add: fl.rnd_nonneg fl.rnd_le)
  define c where "c = fdiv (fsub ?m h) ?m"
  have c: "0 \<le> c" "c \<le> 1" unfolding c_def fdiv_def using fl.rnd_ratio [OF d] by simp_all
  have ab: "0 \<le> fadd a b" "fadd a b \<le> 2"
    using a b fl.rnd_le_nat [of "a + b" 2] by (simp_all add: fadd_def fl.rnd_nonneg)
  have abc: "0 \<le> fadd (fadd a b) c" "fadd (fadd a b) c \<le> 3"
    using ab c fl.rnd_le_nat [of "fadd a b + c" 3]
    by (simp_all add: fadd_def [of "fadd a b"] fl.rnd_nonneg)
  have eq: "jaro_score m l1 l2 t = f64 (fadd (fadd a b) c / 3)"
    by (simp add: jaro_score_def Let_def a_def b_def c_def h_def fdiv_def [of _ 3])
  show "0 \<le> jaro_score m l1 l2 t" unfolding eq using abc by (intro fl.rnd_nonneg) simp
  show "jaro_score m l1 l2 t \<le> 1" unfolding eq using abc by (intro fl.rnd_le_1) simp
qed

lemma jaro_score_float: "jaro_score m l1 l2 t = f64 (jaro_score m l1 l2 t)"
  by (simp add: jaro_score_def Let_def fdiv_def [of _ 3] fl.rnd_idem)

lemma jaro_unit: "\<exists>j. jaro s1 s2 = Some j \<and> 0 \<le> j \<and> j \<le> 1 \<and> f64 j = j"
proof (cases rule: jaro_cases [of s1 s2])
  case (3 m t)
  then show ?thesis using jaro_score_unit [of m] jaro_score_float by auto
qed (auto simp: fl.rnd_0 fl.rnd_1)

lemma prefixLen_le: "prefixLen r1 r2 is \<le> length is"
  by (induction "is") auto

lemma winkler_scale: "p \<le> 4 \<Longrightarrow> 0 \<le> fmul (float_of_int p) (f64 (1 / 10)) \<and>
    fmul (float_of_int p) (f64 (1 / 10)) \<le> 1 / 2"
proof -
  assume "p \<le> 4"
  have t: "0 \<le> f64 (1 / 10)" "f64 (1 / 10) \<le> f64 (1 / 8)"
    by (simp_all add: fl.rnd_nonneg fl.rnd_mono)
  have e: "f64 (1 / 8) = 1 / 8"
  proof -
    have "(1 / 8 :: rat) = 2 powi (- 3)" by (simp add: power_int_minus)
    then have "f64pos (1 / 8) = 1 / 8" using f64pos_powi [of "- 3"] by simp
    then show ?thesis by (simp add: f64_def)
  qed
  have "float_of_int p = of_nat p" using \<open>p \<le> 4\<close> by simp
  moreover have "of_nat p * f64 (1 / 10) \<le> 4 * (1 / 8)"
    using \<open>p \<le> 4\<close> t e by (intro mult_mono) auto
  ultimately show ?thesis
    using t fl.rnd_le_half [of "of_nat p * f64 (1 / 10)"] by (simp add: fmul_def fl.rnd_nonneg)
qed

lemma jaroWinkler_unit: "\<exists>j. jaroWinkler s1 s2 = Some j \<and> 0 \<le> j \<and> j \<le> 1"
proof -
  obtain j where j: "jaro s1 s2 = Some j" "0 \<le> j" "j \<le> 1" "f64 j = j" using jaro_unit by blast
  define p where "p = prefixLen (runes s1) (runes s2) [0..<maxPrefix (runes s1) (runes s2)]"
  define q where "q = fmul (float_of_int p) (f64 (1 / 10))"
  have "p \<le> 4" using prefixLen_le [of "runes s1" "runes s2" "[0..<maxPrefix (runes s1) (runes s2)]"]
    by (simp add: p_def maxPrefix_def Let_def split: if_splits)
  then have q: "0 \<le> q" "q \<le> 1 / 2" unfolding q_def using winkler_scale by auto
  have "fadd j (fmul q (fsub 1 j)) \<le> 1"
    using fl.rnd_bonus_le_1 [of j j q] j q by (simp add: fadd_def fmul_def fsub_def)
  moreover have "0 \<le> fadd j (fmul q (fsub 1 j))"
    using j q by (intro fl_intros) auto
  ultimately show ?thesis
    using j by (simp add: jaroWinkler_def Let_def flip: p_def q_def)
qed

section \<open>The rows of the Levenshtein table\<close>

definition lev_entry :: "rune list \<Rightarrow> rune list \<Rightarrow> nat \<Rightarrow> nat \<Rightarrow> nat" where
  "lev_entry r1 r2 i j = led (rev (take i r1)) (rev (take j r2))"

lemma lev_entry_0: "lev_entry r1 r2 0 j = min j (length r2)" "lev_entry r1 r2 i 0 = min i (length r1)"
  by (simp_all add: lev_entry_def min.commute)

lemma lev_entry_Suc:
  assumes "i < length r1" "j < length r2"
  shows "lev_entry r1 r2 (Suc i) (Suc j) =
     min (min (lev_entry r1 r2 i (Suc j) + 1) (lev_entry r1 r2 (Suc i) j + 1))
         (lev_entry r1 r2 i j + (if r1 ! i = r2 ! j then 0 else 1))"
  using assms by (simp add: lev_entry_def take_Suc_conv_app_nth)

definition is_row :: "rune list \<Rightarrow> rune list \<Rightarrow> nat \<Rightarrow> nat \<Rightarrow> nat list \<Rightarrow> bool" where
  "is_row r1 r2 i n row \<longleftrightarrow>
     length row = Suc (length r2) \<and> (\<forall>j\<le>n. row ! j = lev_entry r1 r2 i j)"

lemma lev_cell_row:
  assumes "is_row r1 r2 i (length r2) prev" "is_row r1 r2 (Suc i) j cur"
    and "i < length r1" "j < length r2"
  shows "is_row r1 r2 (Suc i) (Suc j) (lev_cell (r1 ! i) r2 prev (Suc j) cur)"
proof -
  have p: "prev ! Suc j = lev_entry r1 r2 i (Suc j)" "prev ! j = lev_entry r1 r2 i j"
    and c: "length cur = Suc (length r2)" "\<forall>k\<le>j. cur ! k = lev_entry r1 r2 (Suc i) k"
    using assms by (auto simp: is_row_def)
  have cell: "lev_cell (r1 ! i) r2 prev (Suc j) cur = cur[Suc j := lev_entry r1 r2 (Suc i) (Suc j)]"
    using p c lev_entry_Suc [OF assms(3,4)]
    by (simp add: lev_cell_def Let_def min_def)
  show ?thesis
    unfolding cell is_row_def using c assms(4) by (auto simp: nth_list_update le_Suc_eq)
qed

lemma lev_cells_row:
  assumes "is_row r1 r2 i (length r2) prev" "length cur = Suc (length r2)" "i < length r1"
  shows "n \<le> length r2 \<Longrightarrow>
    is_row r1 r2 (Suc i) n (fold (lev_cell (r1 ! i) r2 prev) [1..<Suc n] (cur[0 := Suc i]))"
proof (induction n)
  case 0
  then show ?case using assms by (simp add: is_row_def lev_entry_0)
next
  case (Suc n)
  then show ?case using assms lev_cell_row [OF assms(1) _ assms(3), of n] by simp
qed

lemma lev_rows:
  "n \<le> length r1 \<Longrightarrow> (case fold (lev_row r1 r2) [1..<Suc n]
       ([0..<Suc (length r2)], replicate (Suc (length r2)) 0) of
     (prev, cur) \<Rightarrow> is_row r1 r2 n (length r2) prev \<and> length cur = Suc (length r2))"
proof (induction n)
  case 0
  have "[0..<Suc k] ! j = j" if "j \<le> k" for j k :: nat using that by (simp del: upt_Suc)
  then show ?case by (simp add: is_row_def lev_entry_0 del: upt_Suc)
next
  case (Suc n)
  obtain prev cur where f: "fold (lev_row r1 r2) [1..<Suc n]
       ([0..<Suc (length r2)], replicate (Suc (length r2)) 0) = (prev, cur)" by fastforce
  have r: "is_row r1 r2 n (length r2) prev" "length cur = Suc (length r2)"
    using Suc f by auto
  have step: "fold (lev_row r1 r2) [1..<Suc (Suc n)]
       ([0..<Suc (length r2)], replicate (Suc (length r2)) 0) = lev_row r1 r2 (Suc n) (prev, cur)"
    using f by simp
  show ?case
    unfolding step unfolding lev_row_def Let_def
    using lev_cells_row [OF r(1,2), of "length r2"] r Suc.prems
    by (simp add: is_row_def del: upt_Suc)
qed

lemma levenshteinDistance_led: "levenshteinDistance s1 s2 = led (runes s1) (runes s2)"
proof -
  let ?r1 = "runes s1" and ?r2 = "runes s2"
  obtain prev cur where f: "fold (lev_row ?r1 ?r2) [1..<Suc (length ?r1)]
       ([0..<Suc (length ?r2)], replicate (Suc (length ?r2)) 0) = (prev, cur)" by fastforce
  have "prev ! length ?r2 = lev_entry ?r1 ?r2 (length ?r1) (length ?r2)"
    using lev_rows [of "length ?r1" ?r1 ?r2] f by (simp add: is_row_def)
  also have "\<dots> = led ?r1 ?r2" by (simp add: lev_entry_def led_rev)
  finally show ?thesis
    using f by (auto simp: levenshteinDistance_def Let_def simp del: upt_Suc replicate_Suc)
qed

lemma normalizedLevenshtein_unit: "0 \<le> normalizedLevenshtein s1 s2" "normalizedLevenshtein s1 s2 \<le> 1"
proof -
  define n where "n = max (length (runes s1)) (length (runes s2))"
  have "levenshteinDistance s1 s2 \<le> n"
    unfolding n_def levenshteinDistance_led by (rule led_le_max)
  then have "0 \<le> fdiv (float_of_int (levenshteinDistance s1 s2)) (float_of_int n)"
    "fdiv (float_of_int (levenshteinDistance s1 s2)) (float_of_int n) \<le> 1"
    by (simp_all add: fdiv_unit)
  then have u: "0 \<le> fsub 1 (fdiv (float_of_int (levenshteinDistance s1 s2)) (float_of_int n))"
    "fsub 1 (fdiv (float_of_int (levenshteinDistance s1 s2)) (float_of_int n)) \<le> 1"
    by (simp_all add: fsub_one_unit)
  have "normalizedLevenshtein s1 s2 = 1 \<or> normalizedLevenshtein s1 s2
      = fsub 1 (fdiv (float_of_int (levenshteinDistance s1 s2)) (float_of_int n))"
    by (auto simp: normalizedLevenshtein_def Let_def n_def max_def)
  then show "0 \<le> normalizedLevenshtein s1 s2" "normalizedLevenshtein s1 s2 \<le> 1"
    using u by auto
qed

section \<open>Jaccard counts\<close>

lemma distinct_tokenSet: "distinct (tokenSet U s)"
  by (simp add: tokenSet_def dedup_id_distinct)

lemma jaccard_counts:
  assumes "distinct xs" "distinct ys"
  shows "length (filter (\<lambda>t. t \<in> set ys) xs) = card (set xs \<inter> set ys)"
    "length xs + length (filter (\<lambda>t. t \<notin> set xs) ys) = card (set xs \<union> set ys)"
proof -
  have "length (filter (\<lambda>t. t \<in> set ys) xs) = card (set (filter (\<lambda>t. t \<in> set ys) xs))"
    using assms by (intro distinct_card [symmetric]) simp
  then show "length (filter (\<lambda>t. t \<in> set ys) xs) = card (set xs \<inter> set ys)"
    by (simp add: Int_def)
  have "length (filter (\<lambda>t. t \<notin> set xs) ys) = card (set ys - set xs)"
    using assms distinct_card [of "filter (\<lambda>t. t \<notin> set xs) ys"] by (simp add: set_diff_eq)
  moreover have "length xs = card (set xs)" using assms by (simp add: distinct_card)
  moreover have "card (set xs \<union> set ys) = card (set xs) + card (set ys - set xs)"
    by (metis List.finite_set card_Un_disjoint Diff_disjoint Un_Diff_cancel finite_Diff)
  ultimately show "length xs + length (filter (\<lambda>t. t \<notin> set xs) ys) = card (set xs \<union> set ys)"
    by simp
qed

lemma tokenJaccard_eq:
  "tokenJaccard U s1 s2 =
     (let A = set (tokenSet U s1); B = set (tokenSet U s2) in
      if A = {} \<and> B = {} then 1
      else fdiv (float_of_int (card (A \<inter> B))) (float_of_int (card (A \<union> B))))"
  using jaccard_counts [of "tokenSet U s1" "tokenSet U s2"] distinct_tokenSet
  by (auto simp: tokenJaccard_def Let_def fdiv_def fl.rnd_0)

lemma tokenJaccard_unit: "0 \<le> tokenJaccard U s1 s2" "tokenJaccard U s1 s2 \<le> 1"
proof -
  let ?A = "set (tokenSet U s1)" and ?B = "set (tokenSet U s2)"
  have "card (?A \<inter> ?B) \<le> card (?A \<union> ?B)" by (intro card_mono) auto
  from fdiv_unit [OF this] show "0 \<le> tokenJaccard U s1 s2" "tokenJaccard U s1 s2 \<le> 1"
    by (simp_all add: tokenJaccard_eq Let_def)
qed


lemma tokenJaccard_refl: "tokenJaccard U s s = 1"
  by (auto simp: tokenJaccard_eq Let_def fdiv_def float_of_int_def)
    (use fl.rnd_pos_nat [of "card (set (tokenSet U s))"] fl.rnd_1 in
      \<open>auto simp: Suc_le_eq card_gt_0_iff\<close>)

section \<open>Properties\<close>

lemma computeSimilarity_bounds:
  "\<exists>x. computeSimilarity U f a b = Some x \<and> 0 \<le> x \<and> x \<le> 1"
  using jaroWinkler_unit [of a b] normalizedLevenshtein_unit [of a b] tokenJaccard_unit [of U a b]
  by (cases f) (auto simp: computeSimilarity_def)

text \<open>C40. Every similarity function of \<open>similarity.go\<close> returns (no index goes out of range,
  in particular in the transposition loop of \<open>jaro\<close>) and its score, computed in rounded
  float64 arithmetic, lies between 0 and 1.\<close>

theorem computeSimilarity_unit:
  "\<exists>x. computeSimilarity U f a b = Some x \<and> 0 \<le> x \<and> x \<le> 1"
  by (rule computeSimilarity_bounds)

text \<open>C8. \<open>levenshteinDistance\<close>, a dynamic program over two rows that are swapped after
  every line, returns the least number of insertions, deletions and substitutions of runes
  that turns the first string into the second.\<close>

theorem levenshteinDistance_minimal:
  "edits (runes s1) (runes s2) (levenshteinDistance s1 s2)
   \<and> (\<forall>n. edits (runes s1) (runes s2) n \<longrightarrow> levenshteinDistance s1 s2 \<le> n)"
  by (simp add: levenshteinDistance_led edits_led led_least)

theorem levenshteinDistance_minimal_witness:
  "edits (runes ''ab'') (runes ''b'') (levenshteinDistance ''ab'' ''b'')
   \<and> levenshteinDistance ''ab'' ''b'' \<le> 1"
proof -
  have "edits (runes ''ab'') (runes ''b'') 1"
    using edits.del [OF edits_refl, of 97 "[98]"] by (simp add: runes_ascii ascii_def)
  then show ?thesis using levenshteinDistance_minimal [of "''ab''" "''b''"] by blast
qed

text \<open>The distance is a metric on rune sequences: symmetric, zero exactly on equal
  sequences, and subject to the triangle inequality.\<close>

theorem levenshteinDistance_metric:
  "levenshteinDistance a b = levenshteinDistance b a
   \<and> (levenshteinDistance a b = 0 \<longleftrightarrow> runes a = runes b)
   \<and> levenshteinDistance a c \<le> levenshteinDistance a b + levenshteinDistance b c"
  unfolding levenshteinDistance_led led_zero_iff
  by (intro conjI led_sym led_triangle refl)

text \<open>\<open>tokenJaccard\<close> is the Jaccard index of the two token sets, and 1 when both are
  empty; it does not depend on the order of its arguments.\<close>

theorem tokenJaccard_index:
  "tokenJaccard U s1 s2 =
     (let A = set (strings_fields (strings_to_lower U s1)); B = set (strings_fields (strings_to_lower U s2)) in
      if A = {} \<and> B = {} then 1
      else fdiv (float_of_int (card (A \<inter> B))) (float_of_int (card (A \<union> B))))
   \<and> tokenJaccard U s1 s2 = tokenJaccard U s2 s1"
  by (simp add: tokenJaccard_eq Let_def tokenSet_def dedup_id_set Int_commute Un_commute)

definition known_similarity :: "SimilarityFunc \<Rightarrow> bool" where
  "known_similarity f \<longleftrightarrow> (case f of SimilarityOther _ \<Rightarrow> False | _ \<Rightarrow> True)"

lemma computeSimilarity_same:
  "a \<noteq> [] \<Longrightarrow> known_similarity f \<Longrightarrow> computeSimilarity U f a a = Some 1"
  using fl.rnd_0 fl.rnd_1
  by (cases f) (auto simp: known_similarity_def computeSimilarity_def jaroWinkler_def jaro_def
      normalizedLevenshtein_def tokenJaccard_refl Let_def fadd_def fmul_def fsub_def)

text \<open>Two equal non-empty values score exactly 1 under each of the four similarity
  functions, also after rounding.\<close>

theorem computeSimilarity_refl:
  assumes "a \<noteq> []"
    and "f \<in> {SimilarityExact, SimilarityJaroWinkler, SimilarityLevenshtein, SimilarityTokenJaccard}"
  shows "computeSimilarity U f a a = Some 1"
  using assms by (auto intro: computeSimilarity_same simp: known_similarity_def)

theorem computeSimilarity_refl_witness:
  "computeSimilarity latin1 SimilarityTokenJaccard ''ab'' ''ab'' = Some 1"
  by (rule computeSimilarity_refl) simp_all

end
