(* ===== verification/Matching_Types.thy ===== *)
theory Matching_Types
  imports Similarity "HOL-Library.Char_ord" "HOL-Library.List_Lexorder" "HOL-Library.Word"
begin

text \<open>
  The data types shared by the packages: \<open>src/matching/matching.go\<close> (entities, relations,
  filters, decisions, configuration, the configuration registry, the built-in normalizers),
  the error values, and what the code sees of JSON documents and protobuf messages.

  A pointer or slice that may be \<open>nil\<close> where the code tests for it is an \<open>option\<close>; other
  slices are lists. A UUID is its 128-bit value, a time is in nanoseconds since Go's zero
  time (year 1), so that \<open>time.Time{}\<close> is 0. Third-party codecs enter as parameters.
\<close>

type_synonym uuid = "128 word"
type_synonym time = int
type_synonym vec = "float64 list"

definition uuid_Nil :: uuid where "uuid_Nil = 0"

section \<open>JSON and protobuf\<close>

text \<open>
  A JSON document as \<open>json.Unmarshal\<close> sees it. Strings are decoded; numbers and booleans
  keep their text (\<open>JRaw\<close>); the text of a nested array or object is \<open>raw_text\<close>, which
  depends on who wrote the document. A \<open>json.RawMessage\<close> that does not hold a document
  (\<open>nil\<close> included) is \<open>None\<close>.
\<close>

datatype json = JNull | JStr string | JRaw string | JArr "json list" | JObj "(string \<times> json) list"

type_synonym RawMessage = "json option"

text \<open>The parts of the Go library that are data or depend on the writer of a document.\<close>

record golib =
  ucd :: unicode
  raw_text :: "json \<Rightarrow> string"

section \<open>Queries and stored records\<close>

record AnchorQuery =
  aq_Field :: string
  aq_Value :: string

record QueryFilter =
  qf_Tags :: "string list"
  qf_AnyTags :: "string list"
  qf_ExcludeTag :: string
  qf_UnlessTags :: "string list"
  qf_EntityTypes :: "string list"

definition empty_QueryFilter :: QueryFilter where
  "empty_QueryFilter = \<lparr>qf_Tags = [], qf_AnyTags = [], qf_ExcludeTag = [], qf_UnlessTags = [],
     qf_EntityTypes = []\<rparr>"

record StoredEntity =
  se_ID :: string
  se_EntityType :: string
  se_Data :: RawMessage
  se_Confidence :: float64
  se_Tags :: "string list"
  se_DisplayName :: string
  se_Version :: int
  se_CreatedAt :: time
  se_UpdatedAt :: time

record StoredRelation =
  sr_ID :: string
  sr_SourceID :: string
  sr_TargetID :: string
  sr_RelationType :: string
  sr_Confidence :: float64
  sr_Evidence :: string
  sr_Implied :: bool
  sr_SourceURN :: string
  sr_DataType :: string
  sr_Data :: RawMessage
  sr_CreatedAt :: time

section \<open>Errors\<close>

record PreCondition =
  pc_EntityType :: string
  pc_Anchors :: "AnchorQuery list"
  pc_MustExist :: bool
  pc_MustNotExist :: bool
  pc_TagRequired :: string
  pc_TagForbidden :: string

datatype db_error = StatementFailed | TxAborted | NoRows | UniqueViolation | ForeignKeyViolation
  | IntegerOutOfRange | NotNullViolation | NegativeLimit | VectorDimension | CommitRollback

text \<open>
  \<open>fmt.Errorf\<close> with \<open>%w\<close> is \<open>Wrap\<close> (with the operation index, \<open>WrapOp\<close>); without it,
  \<open>Msg\<close> with the numbers it prints. \<open>Panic\<close> is a run-time panic.
\<close>

datatype err = ErrNotFound | ErrConflict | ErrAccessDenied | ErrDb db_error | Panic
  | PreConditionError nat PreCondition string
  | Msg string "int list"
  | Wrap string err
  | WrapOp nat string err

fun errors_root :: "err \<Rightarrow> err" where
  "errors_root (Wrap _ e) = errors_root e"
| "errors_root (WrapOp _ _ e) = errors_root e"
| "errors_root e = e"

text \<open>\<open>errors.Is\<close> against an error that wraps nothing.\<close>

definition errors_Is :: "err \<Rightarrow> err \<Rightarrow> bool" where
  "errors_Is e target \<longleftrightarrow> errors_root e = target"

lemma errors_Is_simps [simp]:
  "errors_Is (Wrap m e) t = errors_Is e t" "errors_Is (WrapOp i m e) t = errors_Is e t"
  "errors_Is ErrNotFound t \<longleftrightarrow> t = ErrNotFound" "errors_Is ErrConflict t \<longleftrightarrow> t = ErrConflict"
  "errors_Is ErrAccessDenied t \<longleftrightarrow> t = ErrAccessDenied" "errors_Is (ErrDb d) t \<longleftrightarrow> t = ErrDb d"
  "errors_Is (Msg m ns) t \<longleftrightarrow> t = Msg m ns" "errors_Is Panic t \<longleftrightarrow> t = Panic"
  "errors_Is (PreConditionError i c v) t \<longleftrightarrow> t = PreConditionError i c v"
  by (auto simp: errors_Is_def)

text \<open>A Go call \<open>v, err := f(); if err != nil \<dots>\<close> on result values.\<close>

definition bind_res :: "'e + 'a \<Rightarrow> ('a \<Rightarrow> 'e + 'b) \<Rightarrow> 'e + 'b" where
  "bind_res r f = (case r of Inl e \<Rightarrow> Inl e | Inr x \<Rightarrow> f x)"

definition wrap_res :: "(err \<Rightarrow> err) \<Rightarrow> err + 'a \<Rightarrow> err + 'a" where
  "wrap_res w r = (case r of Inl e \<Rightarrow> Inl (w e) | Inr x \<Rightarrow> Inr x)"

lemma bind_res_simps [simp]: "bind_res (Inl e) f = Inl e" "bind_res (Inr x) f = f x"
  by (simp_all add: bind_res_def)

lemma wrap_res_simps [simp]: "wrap_res w (Inl e) = Inl (w e)" "wrap_res w (Inr x) = Inr x"
  by (simp_all add: wrap_res_def)

lemma bind_res_Inr_iff: "bind_res r f = Inr y \<longleftrightarrow> (\<exists>x. r = Inr x \<and> f x = Inr y)"
  by (cases r) auto

lemma wrap_res_Inr_iff [simp]: "wrap_res w r = Inr y \<longleftrightarrow> r = Inr y"
  by (cases r) auto

section \<open>Decisions and merge plans\<close>

datatype MatchAction = ActionCreate | ActionUpdate | ActionPartialUpdate | ActionConflict | ActionReview

datatype MergeOp = MergeKeep | MergeWrite | MergeConflict

record FieldMergeOp =
  fm_Field :: string
  fm_Op :: MergeOp
  fm_ExistingValue :: string
  fm_ExtractedValue :: string
  fm_Reason :: string

record MatchCandidate =
  mc_Entity :: StoredEntity
  mc_Score :: float64
  mc_Method :: string

record MatchDecision =
  md_EntityType :: string
  md_Data :: RawMessage
  md_Action :: MatchAction
  md_MatchedRecordID :: string
  md_MatchConfidence :: float64
  md_MatchMethod :: string
  md_MergePlan :: "FieldMergeOp list"
  md_Candidates :: "MatchCandidate list"

section \<open>Configuration\<close>

record AnchorField =
  af_ProtoFieldName :: string
  af_Normalizer :: "(string \<Rightarrow> string) option"

record AnchorConfig =
  ac_SingleAnchors :: "AnchorField list"
  ac_CompositeAnchors :: "AnchorField list list"

record MatchThresholds =
  mt_AutoMatch :: float64
  mt_ReviewZone :: float64

definition DefaultMatchThresholds :: MatchThresholds where
  "DefaultMatchThresholds = \<lparr>mt_AutoMatch = f64 (85 / 100), mt_ReviewZone = f64 (60 / 100)\<rparr>"

datatype ConflictStrategy = ConflictFlagForReview | ConflictLatestWins | ConflictHighestConf
  | ConflictOther string

record FieldWeight =
  fw_ProtoFieldName :: string
  fw_Weight :: float64
  fw_Similarity :: SimilarityFunc

text \<open>Go maps that are iterated over are association lists, those only looked up are maps.\<close>

record EntityMatchConfig =
  em_EntityType :: string
  em_Anchors :: AnchorConfig
  em_FieldWeights :: "FieldWeight list"
  em_ConflictStrategies :: "(string \<times> ConflictStrategy) list"
  em_Thresholds :: MatchThresholds
  em_EmbedFields :: "string list"
  em_TokenFields :: "string list"
  em_AllowedRelations :: "string list"
  em_Normalizers :: "string \<rightharpoonup> (string \<Rightarrow> string)"

section \<open>The configuration registry\<close>

text \<open>
  \<open>MatchConfigRegistry\<close>, and with the same methods \<open>MatcherRegistry\<close> and
  \<open>ExtractionSchemaRegistry\<close>: a map keyed by entity type behind a lock. The interface the
  users of a registry rely on is the locale \<open>registry\<close>; \<open>All\<close> returns a copy of the map.
\<close>

type_synonym MatchConfigRegistry = "string \<rightharpoonup> EntityMatchConfig"

definition NewMatchConfigRegistry :: MatchConfigRegistry where
  "NewMatchConfigRegistry = Map.empty"

definition Register :: "MatchConfigRegistry \<Rightarrow> EntityMatchConfig \<Rightarrow> MatchConfigRegistry" where
  "Register r cfg = r(em_EntityType cfg \<mapsto> cfg)"

definition Get :: "MatchConfigRegistry \<Rightarrow> string \<Rightarrow> EntityMatchConfig option" where
  "Get r entityType = r entityType"

definition All :: "MatchConfigRegistry \<Rightarrow> MatchConfigRegistry" where
  "All r = (\<lambda>k. r k)"

locale registry =
  fixes new :: 'r
    and register :: "'r \<Rightarrow> 'c \<Rightarrow> 'r"
    and get :: "'r \<Rightarrow> string \<Rightarrow> 'c option"
    and key :: "'c \<Rightarrow> string"
  assumes get_new: "get new t = None"
    and get_register: "get (register r c) t = (if t = key c then Some c else get r t)"
begin

lemma get_register_same: "get (register r c) (key c) = Some c"
  by (simp add: get_register)

lemma get_foldl:
  "get (foldl register r cs) t =
     (case find (\<lambda>c. key c = t) (rev cs) of Some c \<Rightarrow> Some c | None \<Rightarrow> get r t)"
proof (induction cs rule: rev_induct)
  case (snoc c cs)
  then show ?case by (auto simp: get_register)
qed simp

text \<open>A registry answers for a type with the last configuration registered for it.\<close>

lemma get_last_registered:
  "get (foldl register new cs) t = find (\<lambda>c. key c = t) (rev cs)"
  by (simp add: get_foldl get_new split: option.split)

end

interpretation cfgs: registry NewMatchConfigRegistry Register Get em_EntityType
  by unfold_locales (auto simp: NewMatchConfigRegistry_def Register_def Get_def)

section \<open>Normalizers\<close>

definition NormalizeLowercaseTrim :: "unicode \<Rightarrow> string \<Rightarrow> string" where
  "NormalizeLowercaseTrim U s = strings_to_lower U (trim_space s)"

text \<open>The loop over \<open>range s\<close>: only the first rune has index 0.\<close>

definition phone_loop :: "unicode \<Rightarrow> rune list \<Rightarrow> rune list" where
  "phone_loop U rs = (case rs of [] \<Rightarrow> []
     | r # rs' \<Rightarrow> (if r = 43 then [r] else if is_digit U r then [r] else [])
                    @ filter (is_digit U) rs')"

definition NormalizePhone :: "unicode \<Rightarrow> string \<Rightarrow> string" where
  "NormalizePhone U s =
     (let s = trim_space s in if s = [] then [] else encode (phone_loop U (runes s)))"

subsection \<open>A normalized value is a fixed point\<close>

lemma phone_loop_id:
  "list_all (is_digit U) rs \<Longrightarrow> phone_loop U rs = rs"
  by (cases rs) (auto simp: phone_loop_def is_digit_def list_all_iff intro: filter_True)

lemma phone_loop_plus: "phone_loop U (43 # rs) = 43 # filter (is_digit U) rs"
  by (simp add: phone_loop_def)

lemma phone_loop_idem: "phone_loop U (phone_loop U rs) = phone_loop U rs"
proof (cases "\<exists>rs'. rs = 43 # rs'")
  case True
  then show ?thesis by (auto simp: phone_loop_plus)
next
  case False
  then have "list_all (is_digit U) (phone_loop U rs)"
    by (cases rs) (auto simp: phone_loop_def list_all_iff)
  then show ?thesis by (rule phone_loop_id)
qed

lemma phone_loop_valid: "list_all valid_rune rs \<Longrightarrow> list_all valid_rune (phone_loop U rs)"
  by (cases rs) (auto simp: phone_loop_def list_all_iff)

lemma trim_space_encode:
  assumes "list_all valid_rune rs"
  shows "trim_space (encode rs) = encode (trim_both is_space rs)"
proof -
  have d: "dropWhile (\<lambda>(r, _). is_space r) (map (\<lambda>r. (r, encode_rune r)) qs)
      = map (\<lambda>r. (r, encode_rune r)) (dropWhile is_space qs)" for qs
    by (induction qs) auto
  have "trim_both (\<lambda>(r, _). is_space r) (map (\<lambda>r. (r, encode_rune r)) rs)
      = map (\<lambda>r. (r, encode_rune r)) (trim_both is_space rs)"
    by (simp only: trim_both_def trim_right_def rev_map d)
  then show ?thesis
    unfolding trim_space_def chunks_encode [OF assms] by (simp add: encode_def comp_def)
qed

text \<open>Digits and the plus sign are not spaces, in whatever table.\<close>

definition digits_not_space :: "unicode \<Rightarrow> bool" where
  "digits_not_space U \<longleftrightarrow> (\<forall>r. uni_digit U r \<longrightarrow> \<not> is_space r)"

lemma trim_both_id: "list_all (\<lambda>x. \<not> P x) xs \<Longrightarrow> trim_both P xs = xs"
proof -
  assume a: "list_all (\<lambda>x. \<not> P x) xs"
  have "dropWhile P ys = ys" if "list_all (\<lambda>x. \<not> P x) ys" for ys
    using that by (cases ys) auto
  then show ?thesis using a by (simp add: trim_both_def trim_right_def)
qed

lemma phone_loop_not_space:
  assumes "digits_not_space U"
  shows "list_all (\<lambda>r. \<not> is_space r) (phone_loop U rs)"
proof -
  have "\<not> is_space r" if "is_digit U r" for r
    using that assms by (auto simp: is_digit_def digits_not_space_def is_space_def split: if_splits)
  moreover have "\<not> is_space 43" by (simp add: is_space_def)
  ultimately show ?thesis by (cases rs) (auto simp: phone_loop_def list_all_iff)
qed

lemma phone_loop_digits:
  "list_all (is_digit U) (if take 1 (phone_loop U rs) = [43] then tl (phone_loop U rs)
     else phone_loop U rs)"
proof (cases rs)
  case (Cons r rs')
  show ?thesis
  proof (cases "r = 43")
    case True
    then show ?thesis by (simp add: Cons phone_loop_plus list_all_iff)
  next
    case False
    then have "list_all (is_digit U) (phone_loop U rs)"
      by (auto simp: Cons phone_loop_def list_all_iff)
    then show ?thesis by (cases "phone_loop U rs") simp_all
  qed
qed (simp add: phone_loop_def)

lemma encode_Nil_iff: "encode rs = [] \<longleftrightarrow> rs = []"
  by (cases rs) (simp_all add: encode_rune_nonempty)

text \<open>\<open>NormalizePhone\<close> is idempotent, so that a stored anchor value is matched again when it
  is normalized a second time, and its result holds only digits after an optional leading
  plus sign.\<close>

theorem NormalizePhone_normal_form:
  assumes "digits_not_space U"
  shows "NormalizePhone U (NormalizePhone U s) = NormalizePhone U s
    \<and> (\<exists>rs. runes (NormalizePhone U s) = rs \<and> list_all (is_digit U) (if take 1 rs = [43] then tl rs else rs))"
proof -
  define rs where "rs = phone_loop U (runes (trim_space s))"
  have v: "list_all valid_rune rs"
    unfolding rs_def by (intro phone_loop_valid list_all_valid_runes)
  have ns: "list_all (\<lambda>r. \<not> is_space r) rs"
    unfolding rs_def by (rule phone_loop_not_space [OF assms])
  have e: "NormalizePhone U s = encode rs"
    by (simp add: NormalizePhone_def rs_def Let_def phone_loop_def)
  have "NormalizePhone U (encode rs) = encode (phone_loop U rs)"
    using v ns by (auto simp: NormalizePhone_def trim_space_encode trim_both_id runes_encode Let_def
        encode_Nil_iff phone_loop_def)
  moreover have "phone_loop U rs = rs" by (simp add: rs_def phone_loop_idem)
  moreover have "list_all (is_digit U) (if take 1 rs = [43] then tl rs else rs)"
    unfolding rs_def by (rule phone_loop_digits)
  ultimately show ?thesis using e v by (simp add: runes_encode)
qed

theorem NormalizePhone_normal_form_witness:
  "digits_not_space latin1 \<and>
   NormalizePhone latin1 (NormalizePhone latin1 '' +32 (0)2'') = NormalizePhone latin1 '' +32 (0)2''"
proof -
  have d: "digits_not_space latin1" by (simp add: digits_not_space_def latin1_def)
  show ?thesis using d NormalizePhone_normal_form [OF d, of "'' +32 (0)2''"] by blast
qed

text \<open>After any sequence of registrations, the registry answers for an entity type with
  the configuration registered last for it, and with none when none was; \<open>All\<close> agrees with
  \<open>Get\<close>.\<close>

theorem registry_last_wins:
  "Get (foldl Register NewMatchConfigRegistry cs) t = find (\<lambda>c. em_EntityType c = t) (rev cs)
   \<and> All (foldl Register NewMatchConfigRegistry cs) t = Get (foldl Register NewMatchConfigRegistry cs) t"
  using cfgs.get_last_registered [of cs t] by (simp add: All_def Get_def)

end
