(* ===== verification/Resolve.thy ===== *)
theory Resolve
  imports Matching_Types "HOL-Library.AList"
begin

text \<open>
  \<open>src/matching/resolve.go\<close> and \<open>src/matching/embedding.go\<close>: what the matcher reads from an
  entity's JSON document. Field values by snake case or camel case name, normalized anchors,
  the token index of a field, and the text handed to the embedder.

  The map that \<open>buildTokens\<close> returns is iterated over, in Go in an unspecified order; the
  association list has the order of insertion.
\<close>

section \<open>Fields of a document\<close>

text \<open>\<open>json.Unmarshal\<close> into a \<open>map[string]json.RawMessage\<close>: of duplicate keys the last
  stays, \<open>null\<close> leaves the nil map, anything but an object is an error.\<close>

definition unmarshal_map :: "RawMessage \<Rightarrow> (string \<rightharpoonup> json) option" where
  "unmarshal_map data = (case data of
     Some (JObj kvs) \<Rightarrow> Some (map_of (rev kvs))
   | Some JNull \<Rightarrow> Some Map.empty
   | _ \<Rightarrow> None)"

text \<open>\<open>json.Unmarshal\<close> into a \<open>string\<close>; \<open>null\<close> leaves it empty.\<close>

definition unmarshal_string :: "json \<Rightarrow> string option" where
  "unmarshal_string j = (case j of JStr s \<Rightarrow> Some s | JNull \<Rightarrow> Some [] | _ \<Rightarrow> None)"

definition text_of :: "golib \<Rightarrow> json \<Rightarrow> string" where
  "text_of L j = (case j of JRaw t \<Rightarrow> t | _ \<Rightarrow> raw_text L j)"

definition string_value :: "golib \<Rightarrow> json \<Rightarrow> string" where
  "string_value L j = (case unmarshal_string j of
     Some s \<Rightarrow> s
   | None \<Rightarrow> trim_quotes (trim_space (text_of L j)))"

definition extractFields :: "golib \<Rightarrow> RawMessage \<Rightarrow> (string \<rightharpoonup> string)" where
  "extractFields L data = (case unmarshal_map data of
     None \<Rightarrow> Map.empty
   | Some obj \<Rightarrow> (\<lambda>k. map_option (string_value L) (obj k)))"

text \<open>\<open>[]rune\<close> and back; an empty part is left alone.\<close>

definition upper_first :: "unicode \<Rightarrow> string \<Rightarrow> string" where
  "upper_first U part = (case runes part of [] \<Rightarrow> part | r # rs \<Rightarrow> encode (to_upper U r # rs))"

definition snakeToCamel :: "golib \<Rightarrow> string \<Rightarrow> string" where
  "snakeToCamel L s = (case split_on CHR ''_'' s of
     [] \<Rightarrow> []
   | p # ps \<Rightarrow> concat (p # map (upper_first (ucd L)) ps))"

definition fieldValue :: "golib \<Rightarrow> (string \<rightharpoonup> string) \<Rightarrow> string \<Rightarrow> string \<times> bool" where
  "fieldValue L fs protoName = (case fs protoName of
     Some v \<Rightarrow> (v, True)
   | None \<Rightarrow> (case fs (snakeToCamel L protoName) of
       Some v \<Rightarrow> (v, True)
     | None \<Rightarrow> ([], False)))"

definition NormalizeField :: "string \<Rightarrow> string \<Rightarrow> EntityMatchConfig \<Rightarrow> string" where
  "NormalizeField value field config = (case em_Normalizers config field of
     None \<Rightarrow> value | Some fn \<Rightarrow> fn value)"

section \<open>Anchors\<close>

definition apply_normalizer :: "AnchorField \<Rightarrow> string \<Rightarrow> string" where
  "apply_normalizer af v = (case af_Normalizer af of None \<Rightarrow> v | Some f \<Rightarrow> f v)"

fun single_anchors :: "golib \<Rightarrow> (string \<rightharpoonup> string) \<Rightarrow> AnchorField list \<Rightarrow> AnchorQuery list" where
  "single_anchors L fs [] = []"
| "single_anchors L fs (af # afs) =
     (let (raw, ok) = fieldValue L fs (af_ProtoFieldName af) in
      if \<not> ok \<or> raw = [] then single_anchors L fs afs
      else let v = apply_normalizer af raw in
        if v = [] then single_anchors L fs afs
        else \<lparr>aq_Field = af_ProtoFieldName af, aq_Value = v\<rparr> # single_anchors L fs afs)"

text \<open>The inner loop; \<open>None\<close> when a field is missing (\<open>allPresent = false\<close>).\<close>

fun composite_parts :: "golib \<Rightarrow> (string \<rightharpoonup> string) \<Rightarrow> AnchorField list \<Rightarrow> (string list \<times> string list) option" where
  "composite_parts L fs [] = Some ([], [])"
| "composite_parts L fs (af # afs) =
     (let (raw, ok) = fieldValue L fs (af_ProtoFieldName af) in
      if \<not> ok \<or> raw = [] then None
      else map_option (\<lambda>(ns, vs). (af_ProtoFieldName af # ns, apply_normalizer af raw # vs))
             (composite_parts L fs afs))"

fun composite_anchors :: "golib \<Rightarrow> (string \<rightharpoonup> string) \<Rightarrow> AnchorField list list \<Rightarrow> AnchorQuery list" where
  "composite_anchors L fs [] = []"
| "composite_anchors L fs (composite # cs) =
     (case composite_parts L fs composite of
        Some (fieldNames, values) \<Rightarrow>
          if values \<noteq> [] then
            \<lparr>aq_Field = join ''|'' fieldNames, aq_Value = join ''|'' values\<rparr> # composite_anchors L fs cs
          else composite_anchors L fs cs
      | None \<Rightarrow> composite_anchors L fs cs)"

definition buildAnchors :: "golib \<Rightarrow> RawMessage \<Rightarrow> EntityMatchConfig \<Rightarrow> AnchorQuery list" where
  "buildAnchors L data config =
     (let fs = extractFields L data in
      single_anchors L fs (ac_SingleAnchors (em_Anchors config))
      @ composite_anchors L fs (ac_CompositeAnchors (em_Anchors config)))"

section \<open>Tokens\<close>

definition letter_or_space :: "unicode \<Rightarrow> rune \<Rightarrow> rune" where
  "letter_or_space U r = (if is_letter U r \<or> is_digit U r then r else 32)"

definition Tokenize :: "unicode \<Rightarrow> string \<Rightarrow> string list" where
  "Tokenize U s =
     (let s = strings_to_lower U s;
          s = strings_map (letter_or_space U) s;
          parts = strings_fields s
      in dedup_by (\<lambda>p. p) parts)"

fun tokens_loop :: "golib \<Rightarrow> (string \<rightharpoonup> string) \<Rightarrow> string list \<Rightarrow> (string \<times> string list) list \<Rightarrow>
    (string \<times> string list) list" where
  "tokens_loop L fs [] result = result"
| "tokens_loop L fs (tf # tfs) result =
     (let (raw, ok) = fieldValue L fs tf in
      if \<not> ok \<or> raw = [] then tokens_loop L fs tfs result
      else let toks = Tokenize (ucd L) raw in
        tokens_loop L fs tfs (if toks \<noteq> [] then AList.update tf toks result else result))"

definition buildTokens :: "golib \<Rightarrow> RawMessage \<Rightarrow> EntityMatchConfig \<Rightarrow> (string \<times> string list) list option" where
  "buildTokens L data config =
     (if em_TokenFields config = [] then None
      else let result = tokens_loop L (extractFields L data) (em_TokenFields config) [] in
        if result = [] then None else Some result)"

section \<open>Embedding\<close>

text \<open>The embedder returns one vector per text; \<open>None\<close> is a nil vector.\<close>

type_synonym Embedder = "string list \<Rightarrow> err + vec option list"

definition embed_field :: "golib \<Rightarrow> (string \<rightharpoonup> json) \<Rightarrow> string \<Rightarrow> json option" where
  "embed_field L obj field = (case obj field of
     Some raw \<Rightarrow> Some raw | None \<Rightarrow> obj (snakeToCamel L field))"

fun embed_parts :: "golib \<Rightarrow> (string \<rightharpoonup> json) \<Rightarrow> string list \<Rightarrow> string list" where
  "embed_parts L obj [] = []"
| "embed_parts L obj (field # fs) = (case embed_field L obj field of
     None \<Rightarrow> embed_parts L obj fs
   | Some raw \<Rightarrow>
       (let s = trim_space (string_value L raw) in
        if s \<noteq> [] then s # embed_parts L obj fs else embed_parts L obj fs))"

definition TextToEmbed :: "golib \<Rightarrow> RawMessage \<Rightarrow> string list \<Rightarrow> string" where
  "TextToEmbed L data fs = (case unmarshal_map data of
     None \<Rightarrow> [] | Some obj \<Rightarrow> join '' '' (embed_parts L obj fs))"

definition ComputeEmbedding ::
    "golib \<Rightarrow> RawMessage \<Rightarrow> EntityMatchConfig \<Rightarrow> Embedder option \<Rightarrow> err + vec option" where
  "ComputeEmbedding L data config embedder =
     (if em_EmbedFields config = [] then Inr None
      else case embedder of None \<Rightarrow> Inr None
      | Some em \<Rightarrow>
         (let text = TextToEmbed L data (em_EmbedFields config) in
          if text = [] then Inr None
          else bind_res (wrap_res (Wrap ''embed'') (em [text]))
            (\<lambda>vecs. case vecs of [] \<Rightarrow> Inr None | v # _ \<Rightarrow> Inr v)))"

section \<open>What anchors are made of\<close>

text \<open>A field is present when it has a value that is not empty.\<close>

definition present :: "golib \<Rightarrow> (string \<rightharpoonup> string) \<Rightarrow> AnchorField \<Rightarrow> bool" where
  "present L fs af \<longleftrightarrow> snd (fieldValue L fs (af_ProtoFieldName af))
     \<and> fst (fieldValue L fs (af_ProtoFieldName af)) \<noteq> []"

definition norm_value :: "golib \<Rightarrow> (string \<rightharpoonup> string) \<Rightarrow> AnchorField \<Rightarrow> string" where
  "norm_value L fs af = apply_normalizer af (fst (fieldValue L fs (af_ProtoFieldName af)))"

lemma single_anchors_eq:
  "single_anchors L fs afs =
     map (\<lambda>af. \<lparr>aq_Field = af_ProtoFieldName af, aq_Value = norm_value L fs af\<rparr>)
       (filter (\<lambda>af. present L fs af \<and> norm_value L fs af \<noteq> []) afs)"
  by (induction afs) (auto simp: present_def norm_value_def Let_def split: prod.splits)

lemma composite_parts_eq:
  "composite_parts L fs afs =
     (if list_all (present L fs) afs
      then Some (map af_ProtoFieldName afs, map (norm_value L fs) afs) else None)"
  by (induction afs) (auto simp: present_def norm_value_def Let_def split: prod.splits)

lemma composite_anchors_eq:
  "composite_anchors L fs cs =
     map (\<lambda>c. \<lparr>aq_Field = join ''|'' (map af_ProtoFieldName c),
                aq_Value = join ''|'' (map (norm_value L fs) c)\<rparr>)
       (filter (\<lambda>c. c \<noteq> [] \<and> list_all (present L fs) c) cs)"
  by (induction cs) (auto simp: composite_parts_eq)

text \<open>The anchors of a document, in closed form: for every configured single anchor whose field
  is present (by its own name or in camel case) and does not normalize to the empty string, the
  normalized value; for every non-empty composite whose fields are all present, the joined
  names with the joined normalized values; in the order of the configuration.\<close>

theorem buildAnchors_characterization:
  "buildAnchors L data config =
     map (\<lambda>af. \<lparr>aq_Field = af_ProtoFieldName af, aq_Value = norm_value L (extractFields L data) af\<rparr>)
       (filter (\<lambda>af. present L (extractFields L data) af \<and> norm_value L (extractFields L data) af \<noteq> [])
         (ac_SingleAnchors (em_Anchors config)))
   @ map (\<lambda>c. \<lparr>aq_Field = join ''|'' (map af_ProtoFieldName c),
                aq_Value = join ''|'' (map (norm_value L (extractFields L data)) c)\<rparr>)
       (filter (\<lambda>c. c \<noteq> [] \<and> list_all (present L (extractFields L data)) c)
         (ac_CompositeAnchors (em_Anchors config)))"
  by (simp add: buildAnchors_def Let_def single_anchors_eq composite_anchors_eq)

section \<open>Tokens are a normal form\<close>

lemma words_acc_no_sep:
  "list_all (\<lambda>x. \<not> P x) w \<Longrightarrow> words_acc P acc (w @ xs) = words_acc P (acc @ w) xs"
  by (induction w arbitrary: acc) auto

lemma words_acc_join:
  assumes "P c" "\<forall>w\<in>set ws. w \<noteq> [] \<and> list_all (\<lambda>x. \<not> P x) w"
  shows "words_acc P [] (join [c] ws) = ws"
  using assms(2)
proof (induction "[c]" ws rule: join.induct)
  case (2 w)
  then show ?case using words_acc_no_sep [of P w "[]" "[]"] by simp
next
  case (3 w w' ws)
  then show ?case using assms(1)
    by (simp add: words_acc_no_sep [of P w "[]"])
qed simp

lemma encode_join: "encode (join sep rss) = join (encode sep) (map encode rss)"
  by (induction sep rss rule: join.induct) auto

lemma map_join: "f c = c \<Longrightarrow> map f (join [c] ws) = join [c] (map (map f) ws)"
  by (induction "[c]" ws rule: join.induct) auto

lemma list_all_join:
  "P c \<Longrightarrow> \<forall>w\<in>set ws. list_all P w \<Longrightarrow> list_all P (join [c] ws)"
  by (induction "[c]" ws rule: join.induct) auto

text \<open>What the tables of package unicode satisfy: lowering a rune twice is lowering it once,
  a lowered valid rune is valid, and the letters and digits beyond Latin-1 are not spaces.\<close>

definition unicode_ok :: "unicode \<Rightarrow> bool" where
  "unicode_ok U \<longleftrightarrow>
     (\<forall>r. to_lower U (to_lower U r) = to_lower U r)
   \<and> (\<forall>r. valid_rune r \<longrightarrow> valid_rune (to_lower U r))
   \<and> (\<forall>r. 255 < r \<and> (uni_letter U r \<or> uni_digit U r) \<longrightarrow> \<not> is_space r)"

lemma unicode_ok_latin1: "unicode_ok latin1"
  by (auto simp: unicode_ok_def latin1_def to_lower_def valid_rune_def)

definition letdig :: "unicode \<Rightarrow> rune \<Rightarrow> bool" where
  "letdig U r \<longleftrightarrow> is_letter U r \<or> is_digit U r"

lemma letdig_not_space: "unicode_ok U \<Longrightarrow> letdig U r \<Longrightarrow> \<not> is_space r"
  by (auto simp: letdig_def is_letter_def is_digit_def unicode_ok_def is_space_def split: if_splits)

definition token_runes :: "unicode \<Rightarrow> string \<Rightarrow> rune list list" where
  "token_runes U s =
     words_acc is_space [] (map (letter_or_space U) (map (to_lower U) (runes s)))"

lemma letter_or_space_valid: "valid_rune r \<Longrightarrow> valid_rune (letter_or_space U r)"
  by (simp add: letter_or_space_def valid_rune_def)

lemma lowered_valid:
  "unicode_ok U \<Longrightarrow> list_all valid_rune (map (to_lower U) (runes s))"
  using list_all_valid_runes [of s] by (auto simp: unicode_ok_def list_all_iff)

lemma Tokenize_runes:
  assumes "unicode_ok U"
  shows "Tokenize U s = dedup_by (\<lambda>p. p) (map encode (token_runes U s))"
proof -
  have v: "list_all valid_rune (map (letter_or_space U) (map (to_lower U) (runes s)))"
    using lowered_valid [OF assms, of s] by (auto simp: list_all_iff letter_or_space_valid)
  show ?thesis
    unfolding Tokenize_def token_runes_def Let_def strings_to_lower_def strings_map_def
    by (simp only: runes_encode [OF lowered_valid [OF assms]] strings_fields_encode [OF v])
qed

text \<open>A token: a non-empty run of letters and digits that lowering leaves alone.\<close>

definition is_token :: "unicode \<Rightarrow> rune list \<Rightarrow> bool" where
  "is_token U w \<longleftrightarrow> w \<noteq> [] \<and> list_all (\<lambda>r. letdig U r \<and> to_lower U r = r \<and> valid_rune r) w"

lemma token_runes_elem:
  assumes ok: "unicode_ok U" and w: "w \<in> set (token_runes U s)"
  shows "is_token U w"
proof -
  let ?rs = "map (letter_or_space U) (map (to_lower U) (runes s))"
  have e: "w \<noteq> []" "list_all (\<lambda>r. \<not> is_space r) w" "set w \<subseteq> set ?rs"
    using words_acc_elem [OF w [unfolded token_runes_def]] by auto
  have "letdig U r \<and> to_lower U r = r \<and> valid_rune r" if "r \<in> set w" for r
  proof -
    from that e obtain q where q: "r = letter_or_space U (to_lower U q)" "q \<in> set (runes s)" by auto
    have "\<not> is_space r" using that e by (auto simp: list_all_iff)
    then have "r = to_lower U q \<and> letdig U r"
      using q by (auto simp: letter_or_space_def letdig_def is_space_def split: if_splits)
    moreover have "valid_rune q" using q list_all_valid_runes [of s] by (auto simp: list_all_iff)
    ultimately show ?thesis using ok by (auto simp: unicode_ok_def)
  qed
  with e show ?thesis by (auto simp: is_token_def list_all_iff)
qed

lemma token_runes_join:
  assumes ok: "unicode_ok U" and ws: "\<forall>w\<in>set ws. is_token U w"
  shows "token_runes U (encode (join [32] ws)) = ws"
proof -
  have 32: "to_lower U 32 = 32" "letter_or_space U 32 = 32" "is_space 32" "valid_rune 32"
    by (simp_all add: to_lower_def letter_or_space_def is_space_def valid_rune_def)
  have "list_all valid_rune (join [32] ws)"
    using ws 32 by (intro list_all_join) (auto simp: is_token_def list_all_iff)
  moreover have "map (map (letter_or_space U \<circ> to_lower U)) ws = ws"
    using ws by (intro map_idI map_idI)
      (auto simp: is_token_def list_all_iff letter_or_space_def letdig_def)
  moreover have "\<forall>w\<in>set ws. w \<noteq> [] \<and> list_all (\<lambda>r. \<not> is_space r) w"
    using ws letdig_not_space [OF ok] by (auto simp: is_token_def list_all_iff)
  ultimately show ?thesis
    using words_acc_join [of is_space 32 ws] map_join [of "letter_or_space U \<circ> to_lower U" 32 ws] 32
    by (simp add: token_runes_def runes_encode)
qed

lemma encode_rune_32: "encode_rune 32 = '' ''"
  using encode_rune_ascii [of "CHR '' ''"] by simp

lemma dedup_map:
  "inj_on f (set xs) \<Longrightarrow> dedup_by (\<lambda>p. p) (map f xs) = map f (dedup_by (\<lambda>p. p) xs)"
proof -
  have "dedup_from (\<lambda>p. p) (f ` seen) (map f xs) = map f (dedup_from (\<lambda>p. p) seen xs)"
    if "inj_on f (set xs \<union> seen)" for seen
    using that
  proof (induction xs arbitrary: seen)
    case (Cons x xs)
    have "f x \<in> f ` seen \<longleftrightarrow> x \<in> seen" using Cons.prems by (auto simp: inj_on_def)
    moreover have "inj_on f (set xs \<union> insert x seen)" "inj_on f (set xs \<union> seen)"
      using Cons.prems by (auto simp: inj_on_def)
    ultimately show ?case using Cons.IH [of seen] Cons.IH [of "insert x seen"] by auto
  qed simp
  from this [of "{}"] show "inj_on f (set xs) \<Longrightarrow> ?thesis" by simp
qed

lemma encode_inj: "inj_on encode {rs. list_all valid_rune rs}"
  by (rule inj_onI) (metis mem_Collect_eq runes_encode)

text \<open>The tokens of a string are distinct, none is empty, each consists of lowercase letters and
  digits, and tokenizing the tokens joined with spaces gives the same tokens again.\<close>

theorem Tokenize_normal_form:
  assumes ok: "unicode_ok U"
  shows "distinct (Tokenize U s)
    \<and> (\<forall>t\<in>set (Tokenize U s). \<exists>w. t = encode w \<and> is_token U w)
    \<and> Tokenize U (join '' '' (Tokenize U s)) = Tokenize U s"
proof -
  have tk: "\<forall>w\<in>set (token_runes U s). is_token U w" using token_runes_elem [OF ok] by blast
  have "inj_on encode (set (token_runes U s))"
    by (rule inj_on_subset [OF encode_inj]) (use tk in \<open>auto simp: is_token_def list_all_iff\<close>)
  then have e: "Tokenize U s = map encode (dedup_by (\<lambda>p. p) (token_runes U s))"
    by (simp add: Tokenize_runes [OF ok] dedup_map)
  let ?ws = "dedup_by (\<lambda>p. p) (token_runes U s)"
  have ws: "\<forall>w\<in>set ?ws. is_token U w" using tk by (auto dest: dedup_memD)
  have "token_runes U (join '' '' (map encode ?ws)) = ?ws"
    using token_runes_join [OF ok ws] by (simp add: encode_join encode_rune_32)
  then have "Tokenize U (join '' '' (Tokenize U s)) = dedup_by (\<lambda>p. p) (map encode ?ws)"
    by (simp add: Tokenize_runes [OF ok] flip: e)
  also have "\<dots> = map encode ?ws"
    using dedup_idem [of "\<lambda>p. p" "{}" "map encode (token_runes U s)"] Tokenize_runes [OF ok, of s]
    by (simp add: e)
  finally have "Tokenize U (join '' '' (Tokenize U s)) = map encode ?ws" .
  moreover have "distinct (Tokenize U s)" by (simp only: Tokenize_runes [OF ok] dedup_id_distinct)
  ultimately show ?thesis using ws by (auto simp: e)
qed

theorem Tokenize_normal_form_witness:
  "Tokenize latin1 ''Foo, bar foo!'' = [''foo'', ''bar'']
   \<and> Tokenize latin1 (join '' '' (Tokenize latin1 ''Foo, bar foo!'')) = Tokenize latin1 ''Foo, bar foo!''"
proof
  show "Tokenize latin1 ''Foo, bar foo!'' = [''foo'', ''bar'']"
    by (simp add: Tokenize_def strings_to_lower_def strings_map_def ascii_eval to_lower_def
        letter_or_space_def is_letter_def is_digit_def is_space_def strings_fields_def)
  show "Tokenize latin1 (join '' '' (Tokenize latin1 ''Foo, bar foo!'')) = Tokenize latin1 ''Foo, bar foo!''"
    using Tokenize_normal_form [OF unicode_ok_latin1, of "''Foo, bar foo!''"] by blast
qed

end
