(* ===== verification/Matcher.thy ===== *)
theory Matcher
  imports Resolve
begin

text \<open>
  \<open>src/matching/matcher.go\<close>: the decision procedure. A \<open>Matcher\<close> looks up the anchors of
  a document, falls back to candidates found by tokens and by embedding, scores them field by
  field and applies two thresholds.

  The store the matcher calls is an interface (\<open>EntityStore\<close>, and \<open>EmbeddingStore\<close> where
  the value has the extra method): a record of functions. The laws a store promises are the
  locale \<open>candidate_source\<close>, which the database-backed store interprets. A panic inside
  a similarity function makes \<open>Match\<close> return \<open>Panic\<close>.

  \<open>sort.Slice\<close> orders candidates with equal scores in an unspecified way; the model has them in the
  order of retrieval. \<open>flattenTokens\<close> iterates over a Go map, in an unspecified order: the model's order
  is that of the configuration, and the queries it feeds depend on the set of tokens only.
\<close>

section \<open>Options and construction\<close>

record EntityStoreI =
  es_FindByAnchors :: "string \<Rightarrow> AnchorQuery list \<Rightarrow> QueryFilter option \<Rightarrow> err + StoredEntity list"
  es_FindByTokens :: "string \<Rightarrow> string list \<Rightarrow> int \<Rightarrow> QueryFilter option \<Rightarrow> err + StoredEntity list"
  es_FindByEmbedding :: "(string \<Rightarrow> vec \<Rightarrow> int \<Rightarrow> QueryFilter option \<Rightarrow> err + StoredEntity list) option"

record matcherOptions =
  mo_embedder :: "Embedder option"
  mo_tokenLimit :: int
  mo_embeddingTopK :: int

datatype MatcherOption = WithEmbedder Embedder | WithTokenLimit int | WithEmbeddingTopK int

fun apply_MatcherOption :: "matcherOptions \<Rightarrow> MatcherOption \<Rightarrow> matcherOptions" where
  "apply_MatcherOption opts (WithEmbedder e) = opts\<lparr>mo_embedder := Some e\<rparr>"
| "apply_MatcherOption opts (WithTokenLimit n) = opts\<lparr>mo_tokenLimit := n\<rparr>"
| "apply_MatcherOption opts (WithEmbeddingTopK n) = opts\<lparr>mo_embeddingTopK := n\<rparr>"

record Matcher =
  mr_config :: EntityMatchConfig
  mr_store :: EntityStoreI
  mr_embedder :: "Embedder option"
  mr_tokenLimit :: int
  mr_embeddingTopK :: int

definition NewMatcher :: "EntityMatchConfig \<Rightarrow> EntityStoreI \<Rightarrow> MatcherOption list \<Rightarrow> Matcher" where
  "NewMatcher config store opts =
     (let opt = foldl apply_MatcherOption
            \<lparr>mo_embedder = None, mo_tokenLimit = 20, mo_embeddingTopK = 10\<rparr> opts
      in \<lparr>mr_config = config, mr_store = store, mr_embedder = mo_embedder opt,
          mr_tokenLimit = mo_tokenLimit opt, mr_embeddingTopK = mo_embeddingTopK opt\<rparr>)"

section \<open>Candidate retrieval\<close>

definition flattenTokens :: "(string \<times> string list) list \<Rightarrow> string list" where
  "flattenTokens tokens = dedup_by (\<lambda>t. t) (concat (map snd tokens))"

definition token_candidates :: "golib \<Rightarrow> Matcher \<Rightarrow> string \<Rightarrow> RawMessage \<Rightarrow> err + StoredEntity list" where
  "token_candidates L m entityType data = (case buildTokens L data (mr_config m) of
     None \<Rightarrow> Inr []
   | Some tokens \<Rightarrow>
       (let flat = flattenTokens tokens in
        if flat = [] then Inr []
        else wrap_res (Wrap ''token lookup'')
          (es_FindByTokens (mr_store m) entityType flat (mr_tokenLimit m) None)))"

definition embedding_candidates :: "golib \<Rightarrow> Matcher \<Rightarrow> string \<Rightarrow> RawMessage \<Rightarrow> err + StoredEntity list" where
  "embedding_candidates L m entityType data = (case es_FindByEmbedding (mr_store m) of
     None \<Rightarrow> Inr []
   | Some findByEmbedding \<Rightarrow> (case mr_embedder m of
       None \<Rightarrow> Inr []
     | Some _ \<Rightarrow> bind_res (wrap_res (Wrap ''compute embedding'')
                (ComputeEmbedding L data (mr_config m) (mr_embedder m)))
         (\<lambda>v. case v of
            None \<Rightarrow> Inr []
          | Some vec \<Rightarrow> wrap_res (Wrap ''embedding lookup'')
              (findByEmbedding entityType vec (mr_embeddingTopK m) None))))"

text \<open>\<open>addUnique\<close> runs over the token results, then over the embedding results, with one
  \<open>seen\<close> map.\<close>

definition retrieveFuzzyCandidates :: "golib \<Rightarrow> Matcher \<Rightarrow> string \<Rightarrow> RawMessage \<Rightarrow> err + StoredEntity list" where
  "retrieveFuzzyCandidates L m entityType data =
     bind_res (token_candidates L m entityType data) (\<lambda>found1.
     bind_res (embedding_candidates L m entityType data) (\<lambda>found2.
     Inr (dedup_by se_ID (found1 @ found2))))"

section \<open>Scoring\<close>

fun score_loop :: "golib \<Rightarrow> EntityMatchConfig \<Rightarrow> (string \<rightharpoonup> string) \<Rightarrow> (string \<rightharpoonup> string) \<Rightarrow>
    FieldWeight list \<Rightarrow> float64 \<Rightarrow> float64 option" where
  "score_loop L config xs cs [] totalScore = Some totalScore"
| "score_loop L config xs cs (fw # fws) totalScore =
     (if fw_Weight fw \<le> 0 then score_loop L config xs cs fws totalScore
      else let ev = NormalizeField (fst (fieldValue L xs (fw_ProtoFieldName fw))) (fw_ProtoFieldName fw) config;
               cv = NormalizeField (fst (fieldValue L cs (fw_ProtoFieldName fw))) (fw_ProtoFieldName fw) config
        in case computeSimilarity (ucd L) (fw_Similarity fw) ev cv of
             None \<Rightarrow> None
           | Some score \<Rightarrow> score_loop L config xs cs fws (fadd totalScore (fmul score (fw_Weight fw))))"

definition scoreCandidate :: "golib \<Rightarrow> Matcher \<Rightarrow> RawMessage \<Rightarrow> RawMessage \<Rightarrow> float64 option" where
  "scoreCandidate L m extracted candidate =
     score_loop L (mr_config m) (extractFields L extracted) (extractFields L candidate)
       (em_FieldWeights (mr_config m)) 0"

section \<open>Merge plan\<close>

definition em_dash :: string where
  "em_dash = [CHR 0xE2, CHR 0x80, CHR 0x94]"

definition field_op :: "golib \<Rightarrow> EntityMatchConfig \<Rightarrow> (string \<rightharpoonup> string) \<Rightarrow> (string \<rightharpoonup> string) \<Rightarrow> string \<Rightarrow> FieldMergeOp" where
  "field_op L config extractedFields existingFields field =
     (let ev = fst (fieldValue L extractedFields field);
          xv = fst (fieldValue L existingFields field);
          mk = (\<lambda>oper reason. \<lparr>fm_Field = field, fm_Op = oper, fm_ExistingValue = xv,
                  fm_ExtractedValue = ev, fm_Reason = reason\<rparr>)
      in if ev = [] then mk MergeKeep ''extracted value is empty''
      else if NormalizeField ev field config = NormalizeField xv field config
        then mk MergeKeep ''values match after normalization''
      else if xv = [] then mk MergeWrite ''new value fills empty field''
      else case map_of (em_ConflictStrategies config) field of
          Some ConflictLatestWins \<Rightarrow> mk MergeWrite ''latest_wins strategy''
        | Some ConflictHighestConf \<Rightarrow> mk MergeConflict (''highest_confidence '' @ em_dash @ '' requires confidence comparison'')
        | Some ConflictFlagForReview \<Rightarrow> mk MergeConflict (''flag_for_review '' @ em_dash @ '' human decision needed'')
        | _ \<Rightarrow> mk MergeWrite (''no conflict strategy '' @ em_dash @ '' defaulting to write''))"

definition merge_fields :: "EntityMatchConfig \<Rightarrow> string list" where
  "merge_fields config = dedup_by (\<lambda>f. f)
     (map fw_ProtoFieldName (em_FieldWeights config) @ map fst (em_ConflictStrategies config))"

definition buildMergePlan :: "golib \<Rightarrow> Matcher \<Rightarrow> RawMessage \<Rightarrow> RawMessage \<Rightarrow> FieldMergeOp list" where
  "buildMergePlan L m extracted existing =
     sort_key fm_Field
       (map (field_op L (mr_config m) (extractFields L extracted) (extractFields L existing))
         (merge_fields (mr_config m)))"

definition hasConflictOps :: "FieldMergeOp list \<Rightarrow> bool" where
  "hasConflictOps plan = list_ex (\<lambda>oper. fm_Op oper = MergeConflict) plan"

definition toMatchCandidates :: "StoredEntity list \<Rightarrow> float64 \<Rightarrow> string \<Rightarrow> MatchCandidate list" where
  "toMatchCandidates entities score method =
     map (\<lambda>e. \<lparr>mc_Entity = e, mc_Score = score, mc_Method = method\<rparr>) entities"

section \<open>Match\<close>

text \<open>The fields a \<open>MatchDecision\<close> literal leaves out.\<close>

definition decision :: "string \<Rightarrow> RawMessage \<Rightarrow> MatchAction \<Rightarrow> string \<Rightarrow> MatchDecision" where
  "decision entityType data action method =
     \<lparr>md_EntityType = entityType, md_Data = data, md_Action = action, md_MatchedRecordID = [],
      md_MatchConfidence = 0, md_MatchMethod = method, md_MergePlan = [], md_Candidates = []\<rparr>"

definition merge_action :: "FieldMergeOp list \<Rightarrow> MatchAction" where
  "merge_action plan = (if hasConflictOps plan then ActionConflict else ActionUpdate)"

fun score_all :: "golib \<Rightarrow> Matcher \<Rightarrow> RawMessage \<Rightarrow> StoredEntity list \<Rightarrow> err + (StoredEntity \<times> float64) list" where
  "score_all L m data [] = Inr []"
| "score_all L m data (c # cs) = (case scoreCandidate L m data (se_Data c) of
     None \<Rightarrow> Inl Panic
   | Some score \<Rightarrow> bind_res (score_all L m data cs) (\<lambda>scs. Inr ((c, score) # scs)))"

definition apply_thresholds :: "golib \<Rightarrow> Matcher \<Rightarrow> RawMessage \<Rightarrow> (StoredEntity \<times> float64) list \<Rightarrow> MatchDecision" where
  "apply_thresholds L m data scoredCandidates =
     (let entityType = em_EntityType (mr_config m);
          best = hd scoredCandidates;
          matchCandidates = map (\<lambda>(e, s). \<lparr>mc_Entity = e, mc_Score = s, mc_Method = ''composite''\<rparr>) scoredCandidates;
          thresholds = em_Thresholds (mr_config m)
      in if snd best < mt_ReviewZone thresholds then
           (decision entityType data ActionCreate ''composite'')\<lparr>md_Candidates := matchCandidates\<rparr>
         else if mt_AutoMatch thresholds \<le> snd best then
           (let mergePlan = buildMergePlan L m data (se_Data (fst best)) in
            (decision entityType data (merge_action mergePlan) ''composite'')
              \<lparr>md_MatchedRecordID := se_ID (fst best), md_MatchConfidence := snd best,
               md_MergePlan := mergePlan, md_Candidates := matchCandidates\<rparr>)
         else
           (decision entityType data ActionReview ''composite'')
             \<lparr>md_MatchedRecordID := se_ID (fst best), md_MatchConfidence := snd best,
              md_Candidates := matchCandidates\<rparr>)"

definition match_fuzzy :: "golib \<Rightarrow> Matcher \<Rightarrow> RawMessage \<Rightarrow> err + MatchDecision" where
  "match_fuzzy L m data =
     bind_res (wrap_res (Wrap ''candidate retrieval'')
         (retrieveFuzzyCandidates L m (em_EntityType (mr_config m)) data)) (\<lambda>candidates.
     if candidates = [] then
       Inr (decision (em_EntityType (mr_config m)) data ActionCreate ''none'')
     else bind_res (score_all L m data candidates) (\<lambda>scs.
       Inr (apply_thresholds L m data (sort_key (\<lambda>sc. - snd sc) scs))))"

definition Match :: "golib \<Rightarrow> Matcher \<Rightarrow> RawMessage \<Rightarrow> err + MatchDecision" where
  "Match L m data =
     (let entityType = em_EntityType (mr_config m);
          anchors = buildAnchors L data (mr_config m)
      in if anchors = [] then match_fuzzy L m data
      else bind_res (wrap_res (Wrap ''anchor lookup'')
               (es_FindByAnchors (mr_store m) entityType anchors None)) (\<lambda>anchorMatches.
        case anchorMatches of
          [] \<Rightarrow> match_fuzzy L m data
        | [e] \<Rightarrow>
            (let mergePlan = buildMergePlan L m data (se_Data e) in
             Inr ((decision entityType data (merge_action mergePlan) ''anchor'')
               \<lparr>md_MatchedRecordID := se_ID e, md_MatchConfidence := 1, md_MergePlan := mergePlan,
                md_Candidates := toMatchCandidates anchorMatches 1 ''anchor''\<rparr>))
        | _ \<Rightarrow>
            Inr ((decision entityType data ActionConflict ''anchor'')
               \<lparr>md_Candidates := toMatchCandidates anchorMatches 1 ''anchor''\<rparr>)))"

section \<open>The registry of matchers\<close>

type_synonym MatcherRegistry = "string \<rightharpoonup> Matcher"

definition NewMatcherRegistry :: MatcherRegistry where
  "NewMatcherRegistry = Map.empty"

definition MatcherRegistry_Register :: "MatcherRegistry \<Rightarrow> Matcher \<Rightarrow> MatcherRegistry" where
  "MatcherRegistry_Register r m = r(em_EntityType (mr_config m) \<mapsto> m)"

definition MatcherRegistry_Get :: "MatcherRegistry \<Rightarrow> string \<Rightarrow> Matcher option" where
  "MatcherRegistry_Get r entityType = r entityType"

definition MatcherRegistry_Match :: "golib \<Rightarrow> MatcherRegistry \<Rightarrow> string \<Rightarrow> RawMessage \<Rightarrow> err + MatchDecision" where
  "MatcherRegistry_Match L r entityType data = (case r entityType of
     None \<Rightarrow> Inl (Msg (''no matcher registered for '' @ entityType) [])
   | Some m \<Rightarrow> Match L m data)"

interpretation matchers: registry NewMatcherRegistry MatcherRegistry_Register MatcherRegistry_Get
  "\<lambda>m. em_EntityType (mr_config m)"
  by unfold_locales
    (auto simp: NewMatcherRegistry_def MatcherRegistry_Register_def MatcherRegistry_Get_def)

subsection \<open>A matcher to evaluate\<close>

text \<open>Companies are identified by their VAT number; the store knows one.\<close>

definition sample_lib :: golib where
  "sample_lib = \<lparr>ucd = latin1, raw_text = (\<lambda>_. [])\<rparr>"

definition sample_doc :: RawMessage where
  "sample_doc = Some (JObj [(''vat'', JStr ''BE1'')])"

definition sample_entity :: StoredEntity where
  "sample_entity = \<lparr>se_ID = ''e1'', se_EntityType = ''company'', se_Data = sample_doc,
     se_Confidence = 1, se_Tags = [], se_DisplayName = [], se_Version = 1, se_CreatedAt = 0,
     se_UpdatedAt = 0\<rparr>"

definition sample_config :: EntityMatchConfig where
  "sample_config = \<lparr>em_EntityType = ''company'',
     em_Anchors = \<lparr>ac_SingleAnchors = [\<lparr>af_ProtoFieldName = ''vat'', af_Normalizer = None\<rparr>],
                    ac_CompositeAnchors = []\<rparr>,
     em_FieldWeights = [\<lparr>fw_ProtoFieldName = ''vat'', fw_Weight = 1, fw_Similarity = SimilarityExact\<rparr>],
     em_ConflictStrategies = [], em_Thresholds = DefaultMatchThresholds, em_EmbedFields = [],
     em_TokenFields = [], em_AllowedRelations = [], em_Normalizers = Map.empty\<rparr>"

definition sample_store :: EntityStoreI where
  "sample_store = \<lparr>es_FindByAnchors = (\<lambda>_ _ _. Inr [sample_entity]),
     es_FindByTokens = (\<lambda>_ _ _ _. Inr []), es_FindByEmbedding = None\<rparr>"

definition sample_matcher :: Matcher where
  "sample_matcher = NewMatcher sample_config sample_store []"

lemmas sample_defs = sample_lib_def sample_doc_def sample_entity_def sample_config_def
  sample_store_def sample_matcher_def NewMatcher_def

lemma sample_fields:
  "extractFields sample_lib sample_doc = [''vat'' \<mapsto> ''BE1'']"
  by (auto simp: sample_defs extractFields_def unmarshal_map_def string_value_def unmarshal_string_def)

section \<open>Scores are bounded by the weights\<close>

text \<open>The float64 sum of the weights the loop does not skip, in the order of the loop.\<close>

definition weight_sum :: "FieldWeight list \<Rightarrow> float64" where
  "weight_sum fws = foldl (\<lambda>t w. fadd t (fmul 1 w)) 0 (filter (\<lambda>w. 0 < w) (map fw_Weight fws))"

lemma score_loop_bounds:
  assumes "0 \<le> t" "t \<le> u"
  shows "\<exists>x. score_loop L config xs cs fws t = Some x \<and> 0 \<le> x
     \<and> x \<le> foldl (\<lambda>t w. fadd t (fmul 1 w)) u (filter (\<lambda>w. 0 < w) (map fw_Weight fws))"
  using assms
proof (induction fws arbitrary: t u)
  case (Cons fw fws)
  show ?case
  proof (cases "fw_Weight fw \<le> 0")
    case True
    then show ?thesis using Cons by simp
  next
    case False
    let ?v = "\<lambda>ds. NormalizeField (fst (fieldValue L ds (fw_ProtoFieldName fw))) (fw_ProtoFieldName fw) config"
    obtain s where s: "computeSimilarity (ucd L) (fw_Similarity fw) (?v xs) (?v cs) = Some s" "0 \<le> s" "s \<le> 1"
      using computeSimilarity_bounds by blast
    have "0 \<le> fadd t (fmul s (fw_Weight fw))"
      using False s Cons.prems by (intro fl_intros) auto
    moreover have "fadd t (fmul s (fw_Weight fw)) \<le> fadd u (fmul 1 (fw_Weight fw))"
      using False s Cons.prems by (intro fadd_mono fmul_mono) auto
    ultimately show ?thesis using Cons.IH False s(1) by (simp add: Let_def)
  qed
qed simp

lemma scoreCandidate_bounds:
  "\<exists>x. scoreCandidate L m d c = Some x \<and> 0 \<le> x \<and> x \<le> weight_sum (em_FieldWeights (mr_config m))"
  using score_loop_bounds [of 0 0] by (simp add: scoreCandidate_def weight_sum_def)

lemma scoreCandidate_Some: "scoreCandidate L m d c \<noteq> None"
  using scoreCandidate_bounds [of L m d c] by auto

lemma score_loop_max:
  assumes "\<forall>fw\<in>set fws. 0 < fw_Weight fw \<longrightarrow> known_similarity (fw_Similarity fw)
    \<and> NormalizeField (fst (fieldValue L xs (fw_ProtoFieldName fw))) (fw_ProtoFieldName fw) config \<noteq> []"
  shows "score_loop L config xs xs fws t =
    Some (foldl (\<lambda>t w. fadd t (fmul 1 w)) t (filter (\<lambda>w. 0 < w) (map fw_Weight fws)))"
  using assms by (induction fws arbitrary: t) (simp_all add: computeSimilarity_same Let_def)

text \<open>The composite score is total, never negative, and at most the float64 sum of the
  positive weights; a document compared with itself reaches that sum when every weighted field
  is there and its similarity function is one of the four.\<close>

theorem scoreCandidate_range:
  "(\<exists>x. scoreCandidate L m d c = Some x \<and> 0 \<le> x \<and> x \<le> weight_sum (em_FieldWeights (mr_config m)))
   \<and> ((\<forall>fw\<in>set (em_FieldWeights (mr_config m)). 0 < fw_Weight fw \<longrightarrow>
          known_similarity (fw_Similarity fw)
        \<and> NormalizeField (fst (fieldValue L (extractFields L d) (fw_ProtoFieldName fw)))
             (fw_ProtoFieldName fw) (mr_config m) \<noteq> [])
     \<longrightarrow> scoreCandidate L m d d = Some (weight_sum (em_FieldWeights (mr_config m))))"
  using scoreCandidate_bounds [of L m d c] score_loop_max
  unfolding scoreCandidate_def weight_sum_def by blast

theorem scoreCandidate_range_witness:
  "scoreCandidate sample_lib sample_matcher sample_doc sample_doc
     = Some (weight_sum (em_FieldWeights (mr_config sample_matcher)))"
  using scoreCandidate_range [of sample_lib sample_matcher sample_doc sample_doc]
  by (simp add: sample_fields fieldValue_def NormalizeField_def known_similarity_def sample_config_def
      sample_matcher_def NewMatcher_def)

section \<open>Merge plans\<close>

lemma field_op_Field [simp]: "fm_Field (field_op L config xs es f) = f"
  by (simp add: field_op_def Let_def split: option.splits ConflictStrategy.splits)

lemma distinct_merge_fields: "distinct (merge_fields config)"
  unfolding merge_fields_def by (rule dedup_id_distinct)

lemma set_merge_fields:
  "set (merge_fields config) =
     fw_ProtoFieldName ` set (em_FieldWeights config) \<union> fst ` set (em_ConflictStrategies config)"
  by (simp add: merge_fields_def dedup_id_set)

lemma plan_fields:
  "map fm_Field (buildMergePlan L m d x) = sort (merge_fields (mr_config m))"
proof -
  let ?f = "field_op L (mr_config m) (extractFields L d) (extractFields L x)"
  have "mset (map fm_Field (buildMergePlan L m d x)) = mset (merge_fields (mr_config m))"
    by (simp add: buildMergePlan_def multiset.map_comp comp_def)
  then show ?thesis
    by (metis buildMergePlan_def properties_for_sort sorted_sort_key)
qed

lemma in_plan_iff:
  "oper \<in> set (buildMergePlan L m d x) \<longleftrightarrow>
     (\<exists>f \<in> set (merge_fields (mr_config m)).
        oper = field_op L (mr_config m) (extractFields L d) (extractFields L x) f)"
  by (auto simp: buildMergePlan_def)

text \<open>The merge plan has exactly one operation per weighted or strategy field, in strictly
  increasing order of the field name, so that it does not depend on the order in which Go
  iterates over the field map.\<close>

theorem buildMergePlan_fields:
  "sorted_wrt (<) (map fm_Field (buildMergePlan L m d x))
   \<and> fm_Field ` set (buildMergePlan L m d x) =
       fw_ProtoFieldName ` set (em_FieldWeights (mr_config m)) \<union> fst ` set (em_ConflictStrategies (mr_config m))"
proof -
  have "distinct (map fm_Field (buildMergePlan L m d x))"
    by (simp add: plan_fields distinct_merge_fields)
  moreover have "sorted (map fm_Field (buildMergePlan L m d x))" by (simp add: plan_fields)
  moreover have "set (map fm_Field (buildMergePlan L m d x)) = set (merge_fields (mr_config m))"
    by (simp only: plan_fields set_sort)
  ultimately show ?thesis by (simp add: strict_sorted_iff set_merge_fields)
qed

text \<open>What the merge plan does to a field: it never writes an empty value over an existing one
  nor a value that equals the existing one after normalization; a conflict is raised exactly when
  two non-empty values differ after normalization and the strategy of the field is to review or
  to compare confidences.\<close>

theorem buildMergePlan_ops:
  assumes "oper \<in> set (buildMergePlan L m d x)"
  defines "N \<equiv> \<lambda>v. NormalizeField v (fm_Field oper) (mr_config m)"
    and "strategy \<equiv> map_of (em_ConflictStrategies (mr_config m)) (fm_Field oper)"
  shows "(fm_Op oper = MergeKeep \<longleftrightarrow> fm_ExtractedValue oper = [] \<or>
            N (fm_ExtractedValue oper) = N (fm_ExistingValue oper))
    \<and> (fm_Op oper = MergeConflict \<longleftrightarrow> fm_ExtractedValue oper \<noteq> [] \<and> fm_ExistingValue oper \<noteq> []
         \<and> N (fm_ExtractedValue oper) \<noteq> N (fm_ExistingValue oper)
         \<and> strategy \<in> {Some ConflictHighestConf, Some ConflictFlagForReview})
    \<and> fm_ExtractedValue oper = fst (fieldValue L (extractFields L d) (fm_Field oper))
    \<and> fm_ExistingValue oper = fst (fieldValue L (extractFields L x) (fm_Field oper))"
proof -
  from assms(1) obtain f where
    f: "oper = field_op L (mr_config m) (extractFields L d) (extractFields L x) f"
    by (auto simp: in_plan_iff)
  then show ?thesis
    unfolding N_def strategy_def f field_op_Field
    by (simp add: field_op_def Let_def split: option.splits ConflictStrategy.splits)
qed

lemma sample_plan:
  "buildMergePlan sample_lib sample_matcher sample_doc sample_doc =
     [\<lparr>fm_Field = ''vat'', fm_Op = MergeKeep, fm_ExistingValue = ''BE1'', fm_ExtractedValue = ''BE1'',
       fm_Reason = ''values match after normalization''\<rparr>]"
  by (simp add: buildMergePlan_def merge_fields_def field_op_def Let_def sample_fields fieldValue_def
      NormalizeField_def sample_config_def sample_matcher_def NewMatcher_def)

theorem buildMergePlan_ops_witness:
  "\<exists>oper. oper \<in> set (buildMergePlan sample_lib sample_matcher sample_doc sample_doc)
     \<and> fm_Op oper \<noteq> MergeConflict \<and> fm_ExtractedValue oper = fm_ExistingValue oper"
proof -
  have m: "hd (buildMergePlan sample_lib sample_matcher sample_doc sample_doc)
      \<in> set (buildMergePlan sample_lib sample_matcher sample_doc sample_doc)"
    by (simp add: sample_plan)
  from buildMergePlan_ops [OF m] m show ?thesis by auto
qed

section \<open>What a decision says\<close>

lemma score_all_Inr:
  "\<exists>scs. score_all L m d cs = Inr scs \<and> map fst scs = cs
     \<and> (\<forall>(e, s)\<in>set scs. scoreCandidate L m d (se_Data e) = Some s)"
proof (induction cs)
  case (Cons c cs)
  obtain s where "scoreCandidate L m d (se_Data c) = Some s" using scoreCandidate_Some by blast
  with Cons.IH show ?case by auto
qed simp

lemma score_all_mset: "score_all L m d cs = Inr scs \<Longrightarrow> map fst scs = cs"
  using score_all_Inr [of L m d cs] by auto

lemma sorted_desc: "sorted_wrt (\<lambda>a b. snd b \<le> snd a) (sort_key (\<lambda>sc. - snd sc) (scs :: ('a \<times> float64) list))"
  using sorted_sort_key [of "\<lambda>sc. - snd sc" scs] by (simp add: sorted_map)

text \<open>The candidates are the scored list, by decreasing score, and the best is its head.\<close>

definition ranked :: "golib \<Rightarrow> Matcher \<Rightarrow> RawMessage \<Rightarrow> StoredEntity list \<Rightarrow> (StoredEntity \<times> float64) list \<Rightarrow> bool" where
  "ranked L m d candidates scs \<longleftrightarrow> mset (map fst scs) = mset candidates
     \<and> sorted_wrt (\<lambda>a b. snd b \<le> snd a) scs
     \<and> list_all (\<lambda>(e, s). scoreCandidate L m d (se_Data e) = Some s) scs"

lemma match_fuzzy_ranked:
  assumes "match_fuzzy L m d = Inr dec"
  obtains "retrieveFuzzyCandidates L m (em_EntityType (mr_config m)) d = Inr []"
      "dec = decision (em_EntityType (mr_config m)) d ActionCreate ''none''"
  | candidates scs where "retrieveFuzzyCandidates L m (em_EntityType (mr_config m)) d = Inr candidates"
      "candidates \<noteq> []" "ranked L m d candidates scs" "scs \<noteq> []" "dec = apply_thresholds L m d scs"
proof -
  from assms obtain cs where
    cs: "retrieveFuzzyCandidates L m (em_EntityType (mr_config m)) d = Inr cs"
    by (auto simp: match_fuzzy_def bind_res_Inr_iff)
  show thesis
  proof (cases "cs = []")
    case True
    then show ?thesis using that(1) cs assms by (simp add: match_fuzzy_def)
  next
    case False
    obtain scs where scs: "score_all L m d cs = Inr scs" "map fst scs = cs"
        "\<forall>(e, s)\<in>set scs. scoreCandidate L m d (se_Data e) = Some s"
      using score_all_Inr by blast
    let ?r = "sort_key (\<lambda>sc. - snd sc) scs"
    have "ranked L m d cs ?r"
      using scs by (auto simp: ranked_def sorted_desc list_all_iff)
    moreover have "?r \<noteq> []" using False scs(2) by (metis list.map_disc_iff set_empty set_sort)
    moreover have "dec = apply_thresholds L m d ?r"
      using assms cs False scs(1) by (simp add: match_fuzzy_def)
    ultimately show ?thesis using that(2) [of cs ?r] cs False by blast
  qed
qed

definition selected :: "MatchDecision \<Rightarrow> MatchCandidate \<Rightarrow> bool" where
  "selected dec c \<longleftrightarrow> c \<in> set (md_Candidates dec)
     \<and> md_MatchedRecordID dec = se_ID (mc_Entity c) \<and> md_MatchConfidence dec = mc_Score c
     \<and> (\<forall>c'\<in>set (md_Candidates dec). mc_Score c' \<le> mc_Score c)"

definition decision_ok :: "golib \<Rightarrow> Matcher \<Rightarrow> RawMessage \<Rightarrow> MatchDecision \<Rightarrow> bool" where
  "decision_ok L m d dec \<longleftrightarrow> (let th = em_Thresholds (mr_config m) in case md_Action dec of
     ActionCreate \<Rightarrow> md_MatchedRecordID dec = [] \<and> md_MergePlan dec = []
       \<and> (\<forall>c\<in>set (md_Candidates dec). mc_Score c < mt_ReviewZone th)
   | ActionUpdate \<Rightarrow> \<not> hasConflictOps (md_MergePlan dec)
       \<and> (\<exists>c. selected dec c \<and> md_MergePlan dec = buildMergePlan L m d (se_Data (mc_Entity c))
            \<and> (md_MatchMethod dec = ''anchor'' \<or> mt_AutoMatch th \<le> mc_Score c))
   | ActionConflict \<Rightarrow>
       (md_MatchMethod dec = ''anchor'' \<and> 2 \<le> length (md_Candidates dec) \<and> md_MatchedRecordID dec = [])
       \<or> hasConflictOps (md_MergePlan dec)
         \<and> (\<exists>c. selected dec c \<and> md_MergePlan dec = buildMergePlan L m d (se_Data (mc_Entity c))
              \<and> (md_MatchMethod dec = ''anchor'' \<or> mt_AutoMatch th \<le> mc_Score c))
   | ActionReview \<Rightarrow> md_MergePlan dec = []
       \<and> (\<exists>c. selected dec c \<and> mt_ReviewZone th \<le> mc_Score c \<and> mc_Score c < mt_AutoMatch th)
   | ActionPartialUpdate \<Rightarrow> False)"

lemma decision_simps [simp]:
  "md_Action (decision t d a me) = a" "md_MatchedRecordID (decision t d a me) = []"
  "md_MergePlan (decision t d a me) = []" "md_MatchMethod (decision t d a me) = me"
  "md_Candidates (decision t d a me) = []" "md_EntityType (decision t d a me) = t"
  "md_Data (decision t d a me) = d" "md_MatchConfidence (decision t d a me) = 0"
  by (simp_all add: decision_def)

lemma apply_thresholds_ok:
  assumes "ranked L m d candidates scs" "scs \<noteq> []"
  shows "decision_ok L m d (apply_thresholds L m d scs)"
proof -
  obtain e s rest where scs: "scs = (e, s) # rest" using assms(2) by (cases scs) auto
  have le: "\<forall>(e', s')\<in>set rest. s' \<le> s" using assms(1) by (auto simp: ranked_def scs)
  let ?dec = "apply_thresholds L m d scs"
  let ?c = "\<lparr>mc_Entity = e, mc_Score = s, mc_Method = ''composite''\<rparr>"
  show ?thesis
  proof (cases "s < mt_ReviewZone (em_Thresholds (mr_config m))")
    case True
    then show ?thesis using le by (auto simp: apply_thresholds_def scs decision_ok_def Let_def)
  next
    case False
    then have sel: "selected ?dec ?c"
      using le by (auto simp: selected_def apply_thresholds_def scs Let_def)
    show ?thesis
    proof (cases "mt_AutoMatch (em_Thresholds (mr_config m)) \<le> s")
      case True
      then have "md_MergePlan ?dec = buildMergePlan L m d (se_Data e)"
        "md_Action ?dec = merge_action (md_MergePlan ?dec)"
        using False by (simp_all add: apply_thresholds_def scs Let_def)
      with sel True show ?thesis
        by (auto simp: decision_ok_def merge_action_def Let_def intro!: exI [of _ ?c])
    next
      case not_auto: False
      then have "md_MergePlan ?dec = []" "md_Action ?dec = ActionReview"
        using False by (simp_all add: apply_thresholds_def scs Let_def)
      with sel False not_auto show ?thesis
        by (auto simp: decision_ok_def Let_def intro!: exI [of _ ?c])
    qed
  qed
qed

lemma match_fuzzy_ok: "match_fuzzy L m d = Inr dec \<Longrightarrow> decision_ok L m d dec"
  by (erule match_fuzzy_ranked) (auto simp: apply_thresholds_ok, simp add: decision_ok_def)

lemma anchor_single_ok:
  "decision_ok L m d ((decision t d (merge_action (buildMergePlan L m d (se_Data e))) ''anchor'')
     \<lparr>md_MatchedRecordID := se_ID e, md_MatchConfidence := 1,
      md_MergePlan := buildMergePlan L m d (se_Data e),
      md_Candidates := toMatchCandidates [e] 1 ''anchor''\<rparr>)"
  by (auto simp: decision_ok_def merge_action_def selected_def toMatchCandidates_def Let_def)

text \<open>C4. Every decision is justified by its candidates. \<open>Create\<close>: no candidate reaches the review
  zone and nothing is referenced. \<open>Update\<close> and a merge conflict: the referenced record is a
  candidate of maximal score, found by its anchor or at least at the auto-match threshold, and
  the merge plan is the one against that record, with or without conflicting fields. \<open>Review\<close>:
  the best candidate lies between the thresholds. The only other conflict is an anchor that
  matches several records. A partial update is never decided.\<close>

theorem Match_decision_sound:
  assumes "Match L m d = Inr dec"
  shows "decision_ok L m d dec"
proof (cases "buildAnchors L d (mr_config m) = []")
  case True
  then show ?thesis using assms match_fuzzy_ok by (simp add: Match_def)
next
  case False
  then obtain es where
    es: "es_FindByAnchors (mr_store m) (em_EntityType (mr_config m)) (buildAnchors L d (mr_config m)) None = Inr es"
    using assms by (auto simp: Match_def bind_res_Inr_iff Let_def)
  consider "es = []" | e where "es = [e]" | e e' es' where "es = e # e' # es'"
    by (metis neq_Nil_conv)
  then show ?thesis
  proof cases
    case 1
    then show ?thesis using assms es False match_fuzzy_ok by (simp add: Match_def)
  next
    case 2
    then show ?thesis using assms es False anchor_single_ok by (auto simp: Match_def Let_def)
  next
    case 3
    then have "dec = (decision (em_EntityType (mr_config m)) d ActionConflict ''anchor'')
        \<lparr>md_Candidates := toMatchCandidates es 1 ''anchor''\<rparr>"
      using assms es False by (simp add: Match_def Let_def)
    with 3 show ?thesis by (simp add: decision_ok_def toMatchCandidates_def)
  qed
qed

theorem Match_decision_sound_witness:
  "\<exists>dec. Match sample_lib sample_matcher sample_doc = Inr dec \<and> md_Action dec = ActionUpdate
     \<and> (\<exists>c. selected dec c \<and> mc_Entity c = sample_entity)"
proof -
  have a: "buildAnchors sample_lib sample_doc (mr_config sample_matcher) \<noteq> []"
    by (simp add: buildAnchors_def sample_fields sample_matcher_def NewMatcher_def sample_config_def
        fieldValue_def apply_normalizer_def)
  define dec where "dec = (decision ''company'' sample_doc
      (merge_action (buildMergePlan sample_lib sample_matcher sample_doc sample_doc)) ''anchor'')
     \<lparr>md_MatchedRecordID := ''e1'', md_MatchConfidence := 1,
      md_MergePlan := buildMergePlan sample_lib sample_matcher sample_doc sample_doc,
      md_Candidates := toMatchCandidates [sample_entity] 1 ''anchor''\<rparr>"
  have m: "Match sample_lib sample_matcher sample_doc = Inr dec"
    using a by (simp add: Match_def dec_def Let_def) (simp add: sample_defs Let_def)
  have u: "md_Action dec = ActionUpdate"
    by (simp add: dec_def merge_action_def hasConflictOps_def sample_plan)
  from Match_decision_sound [OF m] u obtain c where c: "selected dec c"
    by (auto simp: decision_ok_def Let_def)
  then have "mc_Entity c = sample_entity" by (simp add: selected_def dec_def toMatchCandidates_def)
  with m u c show ?thesis by blast
qed

text \<open>C37. \<open>Match\<close> returns a decision whenever the store and the embedder answer: no similarity
  computation panics and no other error is made up.\<close>

theorem Match_total:
  assumes "\<forall>t as. \<exists>es. es_FindByAnchors (mr_store m) t as None = Inr es"
    and "\<forall>t ts n. \<exists>es. es_FindByTokens (mr_store m) t ts n None = Inr es"
    and "\<forall>f t v n. es_FindByEmbedding (mr_store m) = Some f \<longrightarrow> (\<exists>es. f t v n None = Inr es)"
    and "\<forall>e texts. mr_embedder m = Some e \<longrightarrow> (\<exists>vs. e texts = Inr vs)"
  shows "\<exists>dec. Match L m d = Inr dec"
proof -
  have t: "\<exists>es. token_candidates L m ty d = Inr es" for ty
    using assms(2) by (fastforce simp: token_candidates_def Let_def split: option.split)
  have ce: "\<exists>v. ComputeEmbedding L d (mr_config m) (mr_embedder m) = Inr v"
  proof (cases "mr_embedder m")
    case (Some em)
    obtain vs where "em [TextToEmbed L d (em_EmbedFields (mr_config m))] = Inr vs"
      using assms(4) Some by blast
    then show ?thesis by (cases vs) (simp_all add: ComputeEmbedding_def Let_def Some)
  qed (simp add: ComputeEmbedding_def)
  have e: "\<exists>es. embedding_candidates L m ty d = Inr es" for ty
  proof (cases "es_FindByEmbedding (mr_store m)")
    case (Some f)
    obtain v where v: "ComputeEmbedding L d (mr_config m) (mr_embedder m) = Inr v" using ce by blast
    have "\<exists>es. f ty w (mr_embeddingTopK m) None = Inr es" for w using assms(3) Some by blast
    with v show ?thesis
      by (cases "mr_embedder m"; cases v) (auto simp: embedding_candidates_def Some)
  qed (simp add: embedding_candidates_def)
  have r: "\<exists>cs. retrieveFuzzyCandidates L m ty d = Inr cs" for ty
    using t [of ty] e [of ty] by (auto simp: retrieveFuzzyCandidates_def)
  have s: "\<exists>scs. score_all L m d cs = Inr scs" for cs using score_all_Inr by blast
  have f: "\<exists>dec. match_fuzzy L m d = Inr dec"
  proof -
    obtain cs where cs: "retrieveFuzzyCandidates L m (em_EntityType (mr_config m)) d = Inr cs"
      using r by blast
    obtain scs where "score_all L m d cs = Inr scs" using s by blast
    with cs show ?thesis by (simp add: match_fuzzy_def)
  qed
  obtain es where
    "es_FindByAnchors (mr_store m) (em_EntityType (mr_config m)) (buildAnchors L d (mr_config m)) None = Inr es"
    using assms(1) by blast
  with f show ?thesis by (auto simp: Match_def Let_def split: list.split)
qed

theorem Match_total_witness:
  "\<exists>dec. Match sample_lib sample_matcher None = Inr dec"
  by (rule Match_total) (simp_all add: sample_matcher_def sample_store_def NewMatcher_def)

section \<open>The store behind the matcher\<close>

text \<open>What the matcher needs of a store: one answer to an anchor lookup names no record twice.
  (Token and embedding answers need not be free of duplicates, \<open>addUnique\<close> removes them.)\<close>

locale candidate_source =
  fixes store :: EntityStoreI
  assumes anchors_distinct: "es_FindByAnchors store t as q = Inr es \<Longrightarrow> distinct (map se_ID es)"
begin

lemma fuzzy_distinct:
  assumes "match_fuzzy L m d = Inr dec"
  shows "distinct (map (se_ID \<circ> mc_Entity) (md_Candidates dec))"
  using assms
proof (cases rule: match_fuzzy_ranked)
  case 1
  then show ?thesis by simp
next
  case (2 candidates scs)
  have "map mc_Entity (md_Candidates dec) = map fst scs"
    using 2 by (auto simp: apply_thresholds_def Let_def)
  moreover have "mset (map fst scs) = mset candidates" using 2 by (simp add: ranked_def)
  ultimately have "mset (map mc_Entity (md_Candidates dec)) = mset candidates" by simp
  then have "mset (map se_ID (map mc_Entity (md_Candidates dec))) = mset (map se_ID candidates)"
    by (simp only: mset_map)
  moreover have "distinct (map se_ID candidates)"
    using 2(1) by (auto simp: retrieveFuzzyCandidates_def bind_res_Inr_iff distinct_keys_dedup)
  ultimately show ?thesis by (metis list.map_comp mset_eq_imp_distinct_iff)
qed

text \<open>The candidates of a decision are distinct records.\<close>

lemma Match_candidates_distinct:
  assumes "mr_store m = store" "Match L m d = Inr dec"
  shows "distinct (map (se_ID \<circ> mc_Entity) (md_Candidates dec))"
proof (cases "buildAnchors L d (mr_config m) = []")
  case True
  then show ?thesis using assms(2) fuzzy_distinct by (simp add: Match_def)
next
  case False
  then obtain es where
    es: "es_FindByAnchors store (em_EntityType (mr_config m)) (buildAnchors L d (mr_config m)) None = Inr es"
    using assms by (auto simp: Match_def bind_res_Inr_iff Let_def)
  have "match_fuzzy L m d = Inr dec \<or> md_Candidates dec = toMatchCandidates es 1 ''anchor''"
    using assms es False by (auto simp: Match_def Let_def split: list.splits)
  then show ?thesis
    using fuzzy_distinct anchors_distinct [OF es] by (auto simp: toMatchCandidates_def comp_def)
qed

end

end
