(* ===== verification/Db.thy ===== *)
theory Db
  imports Matcher
begin

text \<open>
  The database below the store: the tables of \<open>src/store/db/migrations\<close>, statement execution
  with and without a transaction, and what the store sees of third-party packages.

  A statement is a function from the transaction timestamp, a fresh UUID and the tables to an
  error or to new tables and a result. \<open>exec\<close> runs it: outside a transaction it commits by
  itself; inside one, the first failure aborts the transaction and every later statement fails.
  Which external calls fail, what UUIDs are generated and what the clock shows is given by an
  environment, so that the theorems hold for every pattern of failures. A failed statement
  outside a transaction, like a failed commit, may or may not have reached the disk
  (\<open>landed\<close>).

  Primary keys, the partial unique index on relations, foreign keys with their cascade, the
  \<open>int32\<close> version column and \<open>NOT NULL\<close> arrays are checked by the statements; the order of
  rows without \<open>ORDER BY\<close> is the order of the table, ties are kept in that order.
\<close>

section \<open>Third-party packages\<close>

text \<open>\<open>uuid.Parse\<close> and \<open>UUID.String\<close> of github.com/google/uuid: parsing what was printed gives
  the identifier back. The type carries this law; unary numerals show it has elements.\<close>

definition unary_parse :: "string \<Rightarrow> uuid option" where
  "unary_parse s = (if list_all (\<lambda>c. c = CHR ''u'') s then Some (of_nat (length s)) else None)"

definition unary_string :: "uuid \<Rightarrow> string" where
  "unary_string u = replicate (unat u) CHR ''u''"

lemma unary_roundtrip: "unary_parse (unary_string u) = Some u"
  by (simp add: unary_parse_def unary_string_def list_all_iff)

typedef uuid_codec = "{c :: (string \<Rightarrow> uuid option) \<times> (uuid \<Rightarrow> string). \<forall>u. fst c (snd c u) = Some u}"
  by (rule exI [of _ "(unary_parse, unary_string)"]) (simp add: unary_roundtrip)

definition codec_Parse :: "uuid_codec \<Rightarrow> string \<Rightarrow> uuid option" where
  "codec_Parse c = fst (Rep_uuid_codec c)"

definition codec_String :: "uuid_codec \<Rightarrow> uuid \<Rightarrow> string" where
  "codec_String c = snd (Rep_uuid_codec c)"

definition unary_codec :: uuid_codec where
  "unary_codec = Abs_uuid_codec (unary_parse, unary_string)"

lemma unary_codec_simps [simp]:
  "codec_Parse unary_codec = unary_parse" "codec_String unary_codec = unary_string"
  by (simp_all add: codec_Parse_def codec_String_def unary_codec_def Abs_uuid_codec_inverse
      unary_roundtrip)

lemma codec_roundtrip [simp]: "codec_Parse c (codec_String c u) = Some u"
  using Rep_uuid_codec [of c] by (simp add: codec_Parse_def codec_String_def)

lemma codec_String_inject [simp]: "codec_String c u = codec_String c v \<longleftrightarrow> u = v"
  by (metis codec_roundtrip option.inject)

text \<open>Protobuf messages: the events of \<open>src/proto/entitystore/events/v1\<close> with the fields the
  store sets, and the callers' own messages with their full name.\<close>

datatype proto_msg =
    EntityCreated string string float64 "string list"
  | EntityUpdated string string float64 "string list"
  | EntityMerged string string
  | EntityDeleted string string
  | EntityHardDeleted string string
  | RelationCreated string string string float64
  | RelationDeleted string string string
  | OtherMessage string json

fun MessageName :: "proto_msg \<Rightarrow> string" where
  "MessageName (EntityCreated _ _ _ _) = ''entitystore.events.v1.EntityCreated''"
| "MessageName (EntityUpdated _ _ _ _) = ''entitystore.events.v1.EntityUpdated''"
| "MessageName (EntityMerged _ _) = ''entitystore.events.v1.EntityMerged''"
| "MessageName (EntityDeleted _ _) = ''entitystore.events.v1.EntityDeleted''"
| "MessageName (EntityHardDeleted _ _) = ''entitystore.events.v1.EntityHardDeleted''"
| "MessageName (RelationCreated _ _ _ _) = ''entitystore.events.v1.RelationCreated''"
| "MessageName (RelationDeleted _ _ _) = ''entitystore.events.v1.RelationDeleted''"
| "MessageName (OtherMessage n _) = n"

text \<open>\<open>protojson\<close>, the message registry, and the PostgreSQL functions the queries call.\<close>

record lib =
  lib_go :: golib
  lib_codec :: uuid_codec
  protojson_Marshal :: "proto_msg \<Rightarrow> json option"
  protojson_Unmarshal :: "string \<Rightarrow> json \<Rightarrow> proto_msg option"
  pg_ilike :: "string \<Rightarrow> string \<Rightarrow> bool"
  pg_similarity :: "string \<Rightarrow> string \<Rightarrow> rat"
  vec_distance :: "vec \<Rightarrow> vec \<Rightarrow> rat"

abbreviation uuid_Parse :: "lib \<Rightarrow> string \<Rightarrow> uuid option" where
  "uuid_Parse L \<equiv> codec_Parse (lib_codec L)"

abbreviation uuid_String :: "lib \<Rightarrow> uuid \<Rightarrow> string" where
  "uuid_String L \<equiv> codec_String (lib_codec L)"

section \<open>Tables\<close>

record Entity =
  e_id :: uuid
  e_type :: string
  e_data :: json
  e_confidence :: float64
  e_tags :: "string list"
  e_embedding :: "vec option"
  e_created_at :: time
  e_updated_at :: time
  e_deleted_at :: "time option"
  e_display_name :: string
  e_version :: int

record EntityAnchor =
  a_entity_id :: uuid
  a_type :: string
  a_field :: string
  a_value :: string

record EntityToken =
  t_entity_id :: uuid
  t_type :: string
  t_field :: string
  t_tokens :: "string list"

record EntityRelation =
  r_id :: uuid
  r_source :: uuid
  r_target :: uuid
  r_type :: string
  r_confidence :: float64
  r_evidence :: "string option"
  r_implied :: bool
  r_urn :: "string option"
  r_data :: json
  r_created_at :: time
  r_data_type :: string

record EntityEvent =
  v_id :: uuid
  v_event_type :: string
  v_payload_type :: string
  v_payload :: json
  v_entity_id :: "uuid option"
  v_relation_key :: "string option"
  v_tags :: "string list"
  v_occurred_at :: time
  v_published_at :: "time option"
  v_entity_type :: string

record EntityEventConsumer =
  c_name :: string
  c_last_event_at :: time
  c_last_event_id :: "uuid option"
  c_holder :: "string option"
  c_acquired_at :: "time option"
  c_expires_at :: "time option"
  c_updated_at :: time
  c_failures :: int
  c_last_error :: "string option"
  c_backoff_until :: "time option"

record EntityEventDeadLetter =
  d_id :: int
  d_consumer :: string
  d_event_id :: uuid
  d_event_type :: string
  d_payload_type :: string
  d_entity_id :: "string option"
  d_payload :: "json option"
  d_error :: string
  d_retry_count :: int
  d_created_at :: time

record tables =
  entities :: "Entity list"
  anchors :: "EntityAnchor list"
  tokens :: "EntityToken list"
  relations :: "EntityRelation list"
  events :: "EntityEvent list"
  consumers :: "EntityEventConsumer list"
  dead_letters :: "EntityEventDeadLetter list"
  dead_letter_seq :: int

definition empty_tables :: tables where
  "empty_tables = \<lparr>entities = [], anchors = [], tokens = [], relations = [], events = [],
     consumers = [], dead_letters = [], dead_letter_seq = 1\<rparr>"

section \<open>Execution\<close>

text \<open>A transaction: the tables to return to, its timestamp, and whether it is aborted.\<close>

record transaction =
  tx_snapshot :: tables
  tx_now :: time
  tx_aborted :: bool

record db =
  tabs :: tables
  tx :: "transaction option"
  tick :: nat
  fault :: "nat \<Rightarrow> bool"
  landed :: "nat \<Rightarrow> bool"
  uuids :: "nat \<Rightarrow> uuid"
  clock :: "nat \<Rightarrow> time"

type_synonym 'a dbm = "db \<Rightarrow> db \<times> (err + 'a)"
type_synonym 'a stmt = "time \<Rightarrow> uuid \<Rightarrow> tables \<Rightarrow> db_error + tables \<times> 'a"

definition dret :: "'a \<Rightarrow> 'a dbm" where "dret x s = (s, Inr x)"

definition dfail :: "err \<Rightarrow> 'a dbm" where "dfail e s = (s, Inl e)"

text \<open>\<open>v, err := m(); if err != nil { return err }\<close>\<close>

definition dbind :: "'a dbm \<Rightarrow> ('a \<Rightarrow> 'b dbm) \<Rightarrow> 'b dbm" where
  "dbind m f s = (case m s of (s', Inl e) \<Rightarrow> (s', Inl e) | (s', Inr x) \<Rightarrow> f x s')"

definition dwrap :: "(err \<Rightarrow> err) \<Rightarrow> 'a dbm \<Rightarrow> 'a dbm" where
  "dwrap w m s = (case m s of (s', r) \<Rightarrow> (s', wrap_res w r))"

definition dlift :: "err + 'a \<Rightarrow> 'a dbm" where
  "dlift r s = (s, r)"

definition dmap :: "('a \<Rightarrow> 'b) \<Rightarrow> 'a dbm \<Rightarrow> 'b dbm" where
  "dmap f m = dbind m (\<lambda>x. dret (f x))"

definition next_tick :: "db \<Rightarrow> db" where
  "next_tick s = s\<lparr>tick := Suc (tick s)\<rparr>"

definition exec_tx :: "'a stmt \<Rightarrow> transaction \<Rightarrow> 'a dbm" where
  "exec_tx f T s =
     (if tx_aborted T then (next_tick s, Inl (ErrDb TxAborted))
      else if fault s (tick s) then
        ((next_tick s)\<lparr>tx := Some (T\<lparr>tx_aborted := True\<rparr>)\<rparr>, Inl (ErrDb StatementFailed))
      else case f (tx_now T) (uuids s (tick s)) (tabs s) of
        Inl e \<Rightarrow> ((next_tick s)\<lparr>tx := Some (T\<lparr>tx_aborted := True\<rparr>)\<rparr>, Inl (ErrDb e))
      | Inr (t, x) \<Rightarrow> ((next_tick s)\<lparr>tabs := t\<rparr>, Inr x))"

definition exec_auto :: "'a stmt \<Rightarrow> 'a dbm" where
  "exec_auto f s =
     (case f (clock s (tick s)) (uuids s (tick s)) (tabs s) of
        Inl e \<Rightarrow> (next_tick s, Inl (ErrDb (if fault s (tick s) then StatementFailed else e)))
      | Inr (t, x) \<Rightarrow>
          if fault s (tick s) then
            (if landed s (tick s) then (next_tick s)\<lparr>tabs := t\<rparr> else next_tick s, Inl (ErrDb StatementFailed))
          else ((next_tick s)\<lparr>tabs := t\<rparr>, Inr x))"

definition exec :: "'a stmt \<Rightarrow> 'a dbm" where
  "exec f s = (case tx s of Some T \<Rightarrow> exec_tx f T s | None \<Rightarrow> exec_auto f s)"

text \<open>\<open>QueryRow\<close> of a query that may return no row: the driver's error leaves the
  transaction alive.\<close>

definition exec_one :: "'a list stmt \<Rightarrow> 'a dbm" where
  "exec_one f = dbind (exec f) (\<lambda>rows. case rows of [] \<Rightarrow> dfail (ErrDb NoRows) | r # _ \<Rightarrow> dret r)"

text \<open>\<open>pool.BeginTx\<close>, \<open>tx.Rollback\<close> (a no-op after a commit) and \<open>tx.Commit\<close>; the commit of an
  aborted transaction rolls back.\<close>

definition begin_tx :: "unit dbm" where
  "begin_tx s = (if fault s (tick s) then (next_tick s, Inl (ErrDb StatementFailed))
     else ((next_tick s)\<lparr>tx := Some \<lparr>tx_snapshot = tabs s, tx_now = clock s (tick s),
                                        tx_aborted = False\<rparr>\<rparr>, Inr ()))"

definition rollback_tx :: "db \<Rightarrow> db" where
  "rollback_tx s = (case tx s of None \<Rightarrow> s
     | Some T \<Rightarrow> s\<lparr>tabs := tx_snapshot T, tx := None\<rparr>)"

definition commit_tx :: "unit dbm" where
  "commit_tx s = (case tx s of
     None \<Rightarrow> (s, Inl (ErrDb StatementFailed))
   | Some T \<Rightarrow>
       if tx_aborted T then (rollback_tx (next_tick s), Inl (ErrDb CommitRollback))
       else if fault s (tick s) then
         (if landed s (tick s) then (next_tick s)\<lparr>tx := None\<rparr> else rollback_tx (next_tick s),
          Inl (ErrDb StatementFailed))
       else ((next_tick s)\<lparr>tx := None\<rparr>, Inr ()))"

text \<open>The pattern \<open>if s.tx != nil { return f(s.queries) }; tx := begin; defer tx.Rollback;
  if err := f(tx) \<dots>; tx.Commit\<close>. \<open>wc\<close> is how the caller wraps the error of the commit.\<close>

definition in_tx :: "bool \<Rightarrow> (err \<Rightarrow> err) \<Rightarrow> 'a dbm \<Rightarrow> 'a dbm" where
  "in_tx external wc body s =
     (if external then body s
      else case dwrap (Wrap ''begin tx'') begin_tx s of
        (s1, Inl e) \<Rightarrow> (s1, Inl e)
      | (s1, Inr _) \<Rightarrow> (case body s1 of
          (s2, Inl e) \<Rightarrow> (rollback_tx s2, Inl e)
        | (s2, Inr x) \<Rightarrow> (case dwrap wc commit_tx s2 of
            (s3, Inl e) \<Rightarrow> (s3, Inl e)
          | (s3, Inr _) \<Rightarrow> (s3, Inr x))))"

section \<open>Laws of sequencing\<close>

lemma dbind_simps [stm_simps]:
  "dbind (dret x) f = f x" "dbind (dfail e) f = dfail e"
  "dbind (dlift (Inr x)) f = f x" "dbind (dlift (Inl e)) f = dfail e"
  by (auto simp: dbind_def dret_def dfail_def dlift_def)

lemma dbind_assoc: "dbind (dbind m f) g = dbind m (\<lambda>x. dbind (f x) g)"
  by (rule ext) (auto simp: dbind_def split: prod.split sum.split)

lemma dbind_Inr_iff:
  "dbind m f s = (s', Inr y) \<longleftrightarrow> (\<exists>s1 x. m s = (s1, Inr x) \<and> f x s1 = (s', Inr y))"
  by (auto simp: dbind_def split: prod.splits sum.splits)

lemma dbindE:
  assumes "dbind m f s = (s', Inr y)"
  obtains s1 x where "m s = (s1, Inr x)" "f x s1 = (s', Inr y)"
  using assms by (auto simp: dbind_Inr_iff)

lemma dwrap_Inr_iff [simp]: "dwrap w m s = (s', Inr y) \<longleftrightarrow> m s = (s', Inr y)"
  by (auto simp: dwrap_def split: prod.splits)

lemma dret_Inr_iff [simp]: "dret x s = (s', Inr y) \<longleftrightarrow> s' = s \<and> y = x"
  by (auto simp: dret_def)

lemma dfail_Inr_iff [simp]: "dfail e s = (s', Inr y) \<longleftrightarrow> False"
  by (simp add: dfail_def)

lemma dlift_Inr_iff [simp]: "dlift r s = (s', Inr y) \<longleftrightarrow> s' = s \<and> r = Inr y"
  by (auto simp: dlift_def)

lemma dmap_Inr_iff: "dmap f m s = (s', Inr y) \<longleftrightarrow> (\<exists>x. m s = (s', Inr x) \<and> y = f x)"
  by (auto simp: dmap_def dbind_Inr_iff)

section \<open>An environment to evaluate in\<close>

definition demo_lib :: lib where
  "demo_lib = \<lparr>lib_go = sample_lib, lib_codec = unary_codec,
     protojson_Marshal = (\<lambda>m. case m of OtherMessage n j \<Rightarrow> Some j | _ \<Rightarrow> Some (JObj [])),
     protojson_Unmarshal = (\<lambda>_ _. None), pg_ilike = (\<lambda>name q. name = q),
     pg_similarity = (\<lambda>_ _. 1), vec_distance = (\<lambda>_ _. 0)\<rparr>"

definition demo_db :: db where
  "demo_db = \<lparr>tabs = empty_tables, tx = None, tick = 0, fault = (\<lambda>_. False), landed = (\<lambda>_. False),
     uuids = (\<lambda>k. of_nat (k + 1)), clock = (\<lambda>k. 1000 + int k)\<rparr>"

lemma demo_lib_simps [simp]:
  "lib_codec demo_lib = unary_codec" "protojson_Marshal demo_lib (OtherMessage n j) = Some j"
  "protojson_Marshal demo_lib (EntityCreated a b c d) = Some (JObj [])"
  "protojson_Marshal demo_lib (EntityUpdated a b c d) = Some (JObj [])"
  "protojson_Marshal demo_lib (EntityDeleted a b) = Some (JObj [])"
  "protojson_Marshal demo_lib (RelationCreated a b e c) = Some (JObj [])"
  by (simp_all add: demo_lib_def)

lemma demo_db_simps [simp]:
  "tabs demo_db = empty_tables" "tx demo_db = None" "tick demo_db = 0" "fault demo_db k = False"
  "uuids demo_db k = of_nat (k + 1)" "clock demo_db k = 1000 + int k"
  by (simp_all add: demo_db_def)

end
