(* ===== verification/Queries.thy ===== *)
theory Queries
  imports Db
begin

text \<open>
  The statements of \<open>src/store/internal/dbgen\<close>, one definition per generated query, from the
  SQL text it carries. The prefix \<open>q_\<close> separates them from the store's methods of the same name.
\<close>

section \<open>Building blocks\<close>

definition max_int32 :: int where "max_int32 = 2147483647"

text \<open>The Go conversion \<open>int32(n)\<close>.\<close>

definition int32 :: "int \<Rightarrow> int" where
  "int32 n = sint (word_of_int n :: 32 word)"

definition select :: "(tables \<Rightarrow> 'a) \<Rightarrow> 'a dbm" where
  "select r = exec (\<lambda>_ _ t. Inr (t, r t))"

definition select_one :: "(tables \<Rightarrow> 'a list) \<Rightarrow> 'a dbm" where
  "select_one r = exec_one (\<lambda>_ _ t. Inr (t, r t))"

definition select_limit :: "int \<Rightarrow> (tables \<Rightarrow> 'a list) \<Rightarrow> 'a list dbm" where
  "select_limit n r = exec (\<lambda>_ _ t. if n < 0 then Inl NegativeLimit else Inr (t, take (nat n) (r t)))"

definition live :: "Entity \<Rightarrow> bool" where "live e \<longleftrightarrow> e_deleted_at e = None"

definition overlaps :: "string list \<Rightarrow> string list \<Rightarrow> bool" where
  "overlaps xs ys \<longleftrightarrow> list_ex (\<lambda>x. x \<in> set ys) xs"

text \<open>The tag conditions that the filtered queries share.\<close>

definition tag_filter :: "string list \<Rightarrow> string list \<Rightarrow> string \<Rightarrow> string list \<Rightarrow> string list \<Rightarrow> bool" where
  "tag_filter tags any_tags exclude_tag unless_tags row_tags \<longleftrightarrow>
     (tags = [] \<or> list_all (\<lambda>x. x \<in> set row_tags) tags)
   \<and> (any_tags = [] \<or> overlaps any_tags row_tags)
   \<and> (exclude_tag = [] \<or> exclude_tag \<notin> set row_tags \<or> overlaps unless_tags row_tags)"

definition before_cursor :: "time option \<Rightarrow> time \<Rightarrow> bool" where
  "before_cursor cursor stamp \<longleftrightarrow> (case cursor of None \<Rightarrow> True | Some c \<Rightarrow> stamp < c)"

definition entity_exists :: "tables \<Rightarrow> uuid \<Rightarrow> bool" where
  "entity_exists t u \<longleftrightarrow> u \<in> e_id ` set (entities t)"

definition update_entities :: "(Entity \<Rightarrow> bool) \<Rightarrow> (Entity \<Rightarrow> Entity) \<Rightarrow> tables \<Rightarrow> tables" where
  "update_entities P f t = t\<lparr>entities := map (\<lambda>e. if P e then f e else e) (entities t)\<rparr>"

text \<open>The jsonb operator \<open>||\<close>: objects are merged, the right one wins; anything else is
  concatenated as arrays.\<close>

definition json_elems :: "json \<Rightarrow> json list" where
  "json_elems j = (case j of JArr js \<Rightarrow> js | _ \<Rightarrow> [j])"

fun jsonb_concat :: "json \<Rightarrow> json \<Rightarrow> json" where
  "jsonb_concat (JObj a) (JObj b) = JObj (filter (\<lambda>(k, _). k \<notin> fst ` set b) a @ b)"
| "jsonb_concat a b = JArr (json_elems a @ json_elems b)"

section \<open>entities.sql.go\<close>

definition new_entity :: "uuid \<Rightarrow> time \<Rightarrow> string \<Rightarrow> json \<Rightarrow> float64 \<Rightarrow> string list \<Rightarrow> string \<Rightarrow> Entity" where
  "new_entity uid now entityType data confidence tags displayName =
     \<lparr>e_id = uid, e_type = entityType, e_data = data, e_confidence = confidence, e_tags = tags,
      e_embedding = None, e_created_at = now, e_updated_at = now, e_deleted_at = None,
      e_display_name = displayName, e_version = 0\<rparr>"

definition insert_entity_row :: "Entity \<Rightarrow> tables \<Rightarrow> db_error + tables \<times> Entity" where
  "insert_entity_row e t = (if entity_exists t (e_id e) then Inl UniqueViolation
     else Inr (t\<lparr>entities := entities t @ [e]\<rparr>, e))"

definition q_InsertEntity :: "string \<Rightarrow> json \<Rightarrow> float64 \<Rightarrow> string list \<Rightarrow> string \<Rightarrow> Entity dbm" where
  "q_InsertEntity entityType data confidence tags displayName =
     exec (\<lambda>now uid. insert_entity_row (new_entity uid now entityType data confidence tags displayName))"

definition q_InsertEntityWithID :: "uuid \<Rightarrow> string \<Rightarrow> json \<Rightarrow> float64 \<Rightarrow> string list \<Rightarrow> string \<Rightarrow> Entity dbm" where
  "q_InsertEntityWithID uid entityType data confidence tags displayName =
     exec (\<lambda>now _. insert_entity_row (new_entity uid now entityType data confidence tags displayName))"

text \<open>The two versioned updates differ in the new document only; the result is the number of
  rows they change.\<close>

definition versioned_update :: "uuid \<Rightarrow> (json \<Rightarrow> json) \<Rightarrow> float64 \<Rightarrow> string \<Rightarrow> int \<Rightarrow> time \<Rightarrow> tables \<Rightarrow>
    db_error + tables \<times> nat" where
  "versioned_update uid newData confidence displayName expectedVersion now t =
     (let P = (\<lambda>e. e_id e = uid \<and> e_version e = expectedVersion \<and> live e);
          hits = filter P (entities t)
      in if list_ex (\<lambda>e. e_version e = max_int32) hits then Inl IntegerOutOfRange
         else Inr (update_entities P
             (\<lambda>e. e\<lparr>e_data := newData (e_data e), e_confidence := confidence,
                     e_display_name := displayName, e_version := e_version e + 1,
                     e_updated_at := now\<rparr>) t, length hits))"

definition q_UpdateEntityData :: "uuid \<Rightarrow> json \<Rightarrow> float64 \<Rightarrow> string \<Rightarrow> int \<Rightarrow> nat dbm" where
  "q_UpdateEntityData uid data confidence displayName expectedVersion =
     exec (\<lambda>now _. versioned_update uid (\<lambda>_. data) confidence displayName expectedVersion now)"

definition q_MergeEntityData :: "uuid \<Rightarrow> json \<Rightarrow> float64 \<Rightarrow> string \<Rightarrow> int \<Rightarrow> nat dbm" where
  "q_MergeEntityData uid data confidence displayName expectedVersion =
     exec (\<lambda>now _. versioned_update uid (\<lambda>old. jsonb_concat old data) confidence displayName expectedVersion now)"

definition q_DeleteEntity :: "uuid \<Rightarrow> unit dbm" where
  "q_DeleteEntity uid = exec (\<lambda>now _ t.
     Inr (update_entities (\<lambda>e. e_id e = uid \<and> live e) (\<lambda>e. e\<lparr>e_deleted_at := Some now\<rparr>) t, ()))"

text \<open>The foreign keys of anchors, tokens and relations cascade; events have none.\<close>

definition q_HardDeleteEntity :: "uuid \<Rightarrow> unit dbm" where
  "q_HardDeleteEntity uid = exec (\<lambda>_ _ t.
     Inr (t\<lparr>entities := filter (\<lambda>e. e_id e \<noteq> uid) (entities t),
            anchors := filter (\<lambda>a. a_entity_id a \<noteq> uid) (anchors t),
            tokens := filter (\<lambda>k. t_entity_id k \<noteq> uid) (tokens t),
            relations := filter (\<lambda>r. r_source r \<noteq> uid \<and> r_target r \<noteq> uid) (relations t)\<rparr>, ()))"

definition q_GetEntity :: "uuid \<Rightarrow> Entity dbm" where
  "q_GetEntity uid = select_one (\<lambda>t. filter (\<lambda>e. e_id e = uid \<and> live e) (entities t))"

definition q_GetEntitiesByType :: "string \<Rightarrow> time option \<Rightarrow> int \<Rightarrow> Entity list dbm" where
  "q_GetEntitiesByType entityType cursor pageSize = select_limit pageSize (\<lambda>t.
     sort_key (\<lambda>e. - e_updated_at e)
       (filter (\<lambda>e. e_type e = entityType \<and> live e \<and> before_cursor cursor (e_updated_at e)) (entities t)))"

definition q_GetEntitiesByTypeFiltered :: "string \<Rightarrow> time option \<Rightarrow> string list \<Rightarrow> string list \<Rightarrow> string \<Rightarrow>
    string list \<Rightarrow> int \<Rightarrow> Entity list dbm" where
  "q_GetEntitiesByTypeFiltered entityType cursor tags anyTags excludeTag unlessTags pageSize =
     select_limit pageSize (\<lambda>t. sort_key (\<lambda>e. - e_updated_at e)
       (filter (\<lambda>e. e_type e = entityType \<and> live e \<and> before_cursor cursor (e_updated_at e)
             \<and> tag_filter tags anyTags excludeTag unlessTags (e_tags e)) (entities t)))"

definition q_SearchByDisplayName :: "lib \<Rightarrow> string \<Rightarrow> string list \<Rightarrow> int \<Rightarrow> Entity list dbm" where
  "q_SearchByDisplayName L query tags maxResults = select_limit maxResults (\<lambda>t.
     sort_key (\<lambda>e. - pg_similarity L (e_display_name e) query)
       (sort_key (\<lambda>e. - e_updated_at e)
         (filter (\<lambda>e. pg_ilike L (e_display_name e) query \<and> live e
               \<and> (tags = [] \<or> list_all (\<lambda>x. x \<in> set (e_tags e)) tags)) (entities t))))"

definition q_CountEntitiesByType :: "string \<Rightarrow> nat dbm" where
  "q_CountEntitiesByType entityType =
     select (\<lambda>t. length (filter (\<lambda>e. e_type e = entityType \<and> live e) (entities t)))"

definition q_CountAllEntities :: "nat dbm" where
  "q_CountAllEntities = select (\<lambda>t. length (filter live (entities t)))"

definition q_CountRelationsForEntity :: "uuid \<Rightarrow> nat dbm" where
  "q_CountRelationsForEntity uid =
     select (\<lambda>t. length (filter (\<lambda>r. r_source r = uid \<or> r_target r = uid) (relations t)))"

definition q_CountAllRelations :: "nat dbm" where
  "q_CountAllRelations = select (\<lambda>t. length (relations t))"

text \<open>\<open>GROUP BY k ORDER BY count DESC\<close>.\<close>

definition group_counts :: "string list \<Rightarrow> (string \<times> nat) list" where
  "group_counts ks = sort_key (\<lambda>(_, n). - int n)
     (map (\<lambda>k. (k, length (filter (\<lambda>k'. k' = k) ks))) (dedup_by (\<lambda>k. k) ks))"

definition q_CountEntityTypes :: "(string \<times> nat) list dbm" where
  "q_CountEntityTypes = select (\<lambda>t. group_counts (map e_type (filter live (entities t))))"

definition q_CountRelationTypes :: "(string \<times> nat) list dbm" where
  "q_CountRelationTypes = select (\<lambda>t. group_counts (map r_type (relations t)))"

definition q_CountSoftDeleted :: "nat dbm" where
  "q_CountSoftDeleted = select (\<lambda>t. length (filter (\<lambda>e. \<not> live e) (entities t)))"

section \<open>tags.sql.go\<close>

text \<open>A nil slice is sent as \<open>NULL\<close>, which the column does not take if a row is updated.\<close>

definition q_SetEntityTags :: "uuid \<Rightarrow> string list option \<Rightarrow> unit dbm" where
  "q_SetEntityTags uid tags = exec (\<lambda>now _ t. case tags of
     None \<Rightarrow> if entity_exists t uid then Inl NotNullViolation else Inr (t, ())
   | Some ts \<Rightarrow> Inr (update_entities (\<lambda>e. e_id e = uid)
                       (\<lambda>e. e\<lparr>e_tags := ts, e_updated_at := now\<rparr>) t, ()))"

definition q_AddEntityTags :: "uuid \<Rightarrow> string list \<Rightarrow> unit dbm" where
  "q_AddEntityTags uid tags = exec (\<lambda>now _ t.
     Inr (update_entities (\<lambda>e. e_id e = uid)
       (\<lambda>e. e\<lparr>e_tags := dedup_by (\<lambda>x. x) (e_tags e @ tags), e_updated_at := now\<rparr>) t, ()))"

definition q_RemoveEntityTag :: "uuid \<Rightarrow> string \<Rightarrow> unit dbm" where
  "q_RemoveEntityTag uid tag = exec (\<lambda>now _ t.
     Inr (update_entities (\<lambda>e. e_id e = uid)
       (\<lambda>e. e\<lparr>e_tags := removeAll tag (e_tags e), e_updated_at := now\<rparr>) t, ()))"

section \<open>anchors.sql.go, tokens.sql.go, embeddings.sql.go\<close>

definition anchor_key :: "EntityAnchor \<Rightarrow> string \<times> string \<times> string" where
  "anchor_key a = (a_type a, a_field a, a_value a)"

text \<open>\<open>ON CONFLICT \<dots> DO UPDATE SET entity_id\<close>: an anchor moves to its last writer.\<close>

definition q_UpsertAnchor :: "uuid \<Rightarrow> string \<Rightarrow> string \<Rightarrow> string \<Rightarrow> unit dbm" where
  "q_UpsertAnchor uid entityType field value = exec (\<lambda>_ _ t.
     let row = \<lparr>a_entity_id = uid, a_type = entityType, a_field = field, a_value = value\<rparr> in
     if \<not> entity_exists t uid then Inl ForeignKeyViolation
     else if anchor_key row \<in> anchor_key ` set (anchors t) then
       Inr (t\<lparr>anchors := map (\<lambda>a. if anchor_key a = anchor_key row then row else a) (anchors t)\<rparr>, ())
     else Inr (t\<lparr>anchors := anchors t @ [row]\<rparr>, ()))"

definition q_FindByAnchors :: "string \<Rightarrow> string \<Rightarrow> string \<Rightarrow> string list \<Rightarrow> string list \<Rightarrow> string \<Rightarrow> string list \<Rightarrow>
    Entity list dbm" where
  "q_FindByAnchors entityType field value tags anyTags excludeTag unlessTags = select (\<lambda>t.
     concat (map (\<lambda>a. filter (\<lambda>e. e_id e = a_entity_id a \<and> live e
                          \<and> tag_filter tags anyTags excludeTag unlessTags (e_tags e)) (entities t))
       (filter (\<lambda>a. anchor_key a = (entityType, field, value)) (anchors t))))"

definition q_GetAnchorsForEntity :: "uuid \<Rightarrow> (string \<times> string) list dbm" where
  "q_GetAnchorsForEntity uid = select (\<lambda>t.
     sort_key fst (map (\<lambda>a. (a_field a, a_value a)) (filter (\<lambda>a. a_entity_id a = uid) (anchors t))))"

definition token_key :: "EntityToken \<Rightarrow> uuid \<times> string" where
  "token_key k = (t_entity_id k, t_field k)"

definition q_UpsertTokens :: "uuid \<Rightarrow> string \<Rightarrow> string \<Rightarrow> string list option \<Rightarrow> unit dbm" where
  "q_UpsertTokens uid entityType field toks = exec (\<lambda>_ _ t. case toks of
     None \<Rightarrow> Inl NotNullViolation
   | Some ts \<Rightarrow>
     (let row = \<lparr>t_entity_id = uid, t_type = entityType, t_field = field, t_tokens = ts\<rparr> in
      if \<not> entity_exists t uid then Inl ForeignKeyViolation
      else if token_key row \<in> token_key ` set (tokens t) then
        Inr (t\<lparr>tokens := map (\<lambda>k. if token_key k = token_key row then k\<lparr>t_tokens := ts\<rparr> else k) (tokens t)\<rparr>, ())
      else Inr (t\<lparr>tokens := tokens t @ [row]\<rparr>, ())))"

definition overlap_count :: "string list \<Rightarrow> string list \<Rightarrow> nat" where
  "overlap_count xs ys = length (filter (\<lambda>x. x \<in> set ys) (dedup_by (\<lambda>x. x) xs))"

definition q_FindByTokenOverlap :: "string \<Rightarrow> string list \<Rightarrow> string list \<Rightarrow> string list \<Rightarrow> string \<Rightarrow> string list \<Rightarrow>
    int \<Rightarrow> Entity list dbm" where
  "q_FindByTokenOverlap entityType toks tags anyTags excludeTag unlessTags maxResults =
     select_limit maxResults (\<lambda>t. map snd (sort_key (\<lambda>(k, _). - int (overlap_count (t_tokens k) toks))
       (concat (map (\<lambda>k. map (Pair k) (filter (\<lambda>e. e_id e = t_entity_id k \<and> live e
                            \<and> tag_filter tags anyTags excludeTag unlessTags (e_tags e)) (entities t)))
         (filter (\<lambda>k. (entityType = [] \<or> t_type k = entityType) \<and> overlaps (t_tokens k) toks) (tokens t))))))"

definition vector_dim :: nat where "vector_dim = 768"

definition q_UpdateEntityEmbedding :: "uuid \<Rightarrow> vec \<Rightarrow> unit dbm" where
  "q_UpdateEntityEmbedding uid vec = exec (\<lambda>now _ t.
     if vec = [] \<or> entity_exists t uid \<and> length vec \<noteq> vector_dim then Inl VectorDimension
     else Inr (update_entities (\<lambda>e. e_id e = uid)
            (\<lambda>e. e\<lparr>e_embedding := Some vec, e_updated_at := now\<rparr>) t, ()))"

definition q_FindByEmbedding :: "lib \<Rightarrow> string list \<Rightarrow> vec \<Rightarrow> string list \<Rightarrow> string list \<Rightarrow> string \<Rightarrow> string list \<Rightarrow>
    int \<Rightarrow> Entity list dbm" where
  "q_FindByEmbedding L entityTypes vec tags anyTags excludeTag unlessTags topK = exec (\<lambda>_ _ t.
     let rows = filter (\<lambda>e. (entityTypes = [] \<or> e_type e \<in> set entityTypes) \<and> live e
                   \<and> e_embedding e \<noteq> None
                   \<and> tag_filter tags anyTags excludeTag unlessTags (e_tags e)) (entities t) in
     if vec = [] \<or> rows \<noteq> [] \<and> length vec \<noteq> vector_dim then Inl VectorDimension
     else if topK < 0 then Inl NegativeLimit
     else Inr (t, take (nat topK) (sort_key (\<lambda>e. vec_distance L (the (e_embedding e)) vec) rows)))"

section \<open>relations.sql.go\<close>

definition relation_key :: "EntityRelation \<Rightarrow> uuid \<times> uuid \<times> string" where
  "relation_key r = (r_source r, r_target r, r_type r)"

text \<open>The conflict target is the partial unique index: only rows without a source URN conflict.\<close>

definition upsert_relation_row :: "EntityRelation \<Rightarrow> tables \<Rightarrow> db_error + tables \<times> EntityRelation" where
  "upsert_relation_row row t =
     (let conflicts = (\<lambda>r. relation_key r = relation_key row \<and> r_urn r = None \<and> r_urn row = None);
          upd = (\<lambda>r. r\<lparr>r_confidence := r_confidence row, r_evidence := r_evidence row,
                        r_data_type := r_data_type row, r_data := r_data row\<rparr>)
      in if \<not> entity_exists t (r_source row) \<or> \<not> entity_exists t (r_target row) then Inl ForeignKeyViolation
      else case find conflicts (relations t) of
        Some r \<Rightarrow> Inr (t\<lparr>relations := map (\<lambda>r'. if conflicts r' then upd r' else r') (relations t)\<rparr>, upd r)
      | None \<Rightarrow> if r_id row \<in> r_id ` set (relations t) then Inl UniqueViolation
               else Inr (t\<lparr>relations := relations t @ [row]\<rparr>, row))"

definition q_UpsertRelation :: "uuid \<Rightarrow> uuid \<Rightarrow> string \<Rightarrow> float64 \<Rightarrow> string option \<Rightarrow> bool \<Rightarrow> string option \<Rightarrow>
    string \<Rightarrow> json \<Rightarrow> EntityRelation dbm" where
  "q_UpsertRelation source target relationType confidence evidence implied urn dataType data =
     exec (\<lambda>now uid. upsert_relation_row
       \<lparr>r_id = uid, r_source = source, r_target = target, r_type = relationType,
        r_confidence = confidence, r_evidence = evidence, r_implied = implied, r_urn = urn,
        r_data = data, r_created_at = now, r_data_type = dataType\<rparr>)"

definition newest_relations :: "(EntityRelation \<Rightarrow> bool) \<Rightarrow> tables \<Rightarrow> EntityRelation list" where
  "newest_relations P t = sort_key (\<lambda>r. - r_created_at r) (filter P (relations t))"

definition q_GetRelationsFromEntity :: "uuid \<Rightarrow> time option \<Rightarrow> int \<Rightarrow> EntityRelation list dbm" where
  "q_GetRelationsFromEntity source cursor pageSize = select_limit pageSize
     (newest_relations (\<lambda>r. r_source r = source \<and> before_cursor cursor (r_created_at r)))"

definition q_GetRelationsToEntity :: "uuid \<Rightarrow> time option \<Rightarrow> int \<Rightarrow> EntityRelation list dbm" where
  "q_GetRelationsToEntity target cursor pageSize = select_limit pageSize
     (newest_relations (\<lambda>r. r_target r = target \<and> before_cursor cursor (r_created_at r)))"

definition q_DeleteRelationByKey :: "uuid \<Rightarrow> uuid \<Rightarrow> string \<Rightarrow> unit dbm" where
  "q_DeleteRelationByKey source target relationType = exec (\<lambda>_ _ t.
     Inr (t\<lparr>relations := filter (\<lambda>r. relation_key r \<noteq> (source, target, relationType)) (relations t)\<rparr>, ()))"

text \<open>\<open>UPDATE \<dots> RETURNING\<close> read with \<open>QueryRow\<close>: every matching row is updated, the first one
  is returned.\<close>

definition q_UpdateRelationData :: "uuid \<Rightarrow> uuid \<Rightarrow> string \<Rightarrow> string \<Rightarrow> json \<Rightarrow> EntityRelation dbm" where
  "q_UpdateRelationData source target relationType dataType data =
     exec_one (\<lambda>_ _ t.
       let P = (\<lambda>r. relation_key r = (source, target, relationType));
           upd = (\<lambda>r. r\<lparr>r_data_type := dataType, r_data := data\<rparr>) in
       Inr (t\<lparr>relations := map (\<lambda>r. if P r then upd r else r) (relations t)\<rparr>,
            map upd (filter P (relations t))))"

definition q_ConnectedEntities :: "uuid \<Rightarrow> int \<Rightarrow> Entity list dbm" where
  "q_ConnectedEntities uid pageSize = select_limit pageSize (\<lambda>t.
     let conns = dedup_by (\<lambda>c. c) (map r_target (filter (\<lambda>r. r_source r = uid) (relations t))
                   @ map r_source (filter (\<lambda>r. r_target r = uid) (relations t))) in
     dedup_by (\<lambda>e. e) (concat (map (\<lambda>c. filter (\<lambda>e. e_id e = c \<and> live e) (entities t)) conns)))"

text \<open>The four joins of relations with the entity at one end; \<open>side\<close> is that end.\<close>

definition join_end :: "(EntityRelation \<Rightarrow> uuid) \<Rightarrow> (Entity \<Rightarrow> bool) \<Rightarrow> tables \<Rightarrow> EntityRelation list \<Rightarrow> Entity list" where
  "join_end side P t rs = concat (map (\<lambda>r. filter (\<lambda>e. e_id e = side r \<and> live e \<and> P e) (entities t)) rs)"

definition q_FindConnectedByTypeOutbound :: "uuid \<Rightarrow> string \<Rightarrow> string list \<Rightarrow> string list \<Rightarrow> string list \<Rightarrow> string \<Rightarrow>
    string list \<Rightarrow> time option \<Rightarrow> int \<Rightarrow> Entity list dbm" where
  "q_FindConnectedByTypeOutbound uid entityType relationTypes tags anyTags excludeTag unlessTags cursor pageSize =
     select_limit pageSize (\<lambda>t. join_end r_target
       (\<lambda>e. (entityType = [] \<or> e_type e = entityType) \<and> tag_filter tags anyTags excludeTag unlessTags (e_tags e)) t
       (newest_relations (\<lambda>r. r_source r = uid \<and> (relationTypes = [] \<or> r_type r \<in> set relationTypes)
           \<and> before_cursor cursor (r_created_at r)) t))"

definition q_FindConnectedByTypeInbound :: "uuid \<Rightarrow> string \<Rightarrow> string list \<Rightarrow> string list \<Rightarrow> string list \<Rightarrow> string \<Rightarrow>
    string list \<Rightarrow> time option \<Rightarrow> int \<Rightarrow> Entity list dbm" where
  "q_FindConnectedByTypeInbound uid entityType relationTypes tags anyTags excludeTag unlessTags cursor pageSize =
     select_limit pageSize (\<lambda>t. join_end r_source
       (\<lambda>e. (entityType = [] \<or> e_type e = entityType) \<and> tag_filter tags anyTags excludeTag unlessTags (e_tags e)) t
       (newest_relations (\<lambda>r. r_target r = uid \<and> (relationTypes = [] \<or> r_type r \<in> set relationTypes)
           \<and> before_cursor cursor (r_created_at r)) t))"

definition q_FindEntitiesByRelationSource :: "string \<Rightarrow> string \<Rightarrow> string list \<Rightarrow> string list \<Rightarrow> string \<Rightarrow> string list \<Rightarrow>
    int \<Rightarrow> Entity list dbm" where
  "q_FindEntitiesByRelationSource entityType relationType tags anyTags excludeTag unlessTags pageSize =
     select_limit pageSize (\<lambda>t. join_end r_source
       (\<lambda>e. e_type e = entityType \<and> tag_filter tags anyTags excludeTag unlessTags (e_tags e)) t
       (filter (\<lambda>r. r_type r = relationType) (relations t)))"

definition q_FindEntitiesByRelationTarget :: "string \<Rightarrow> string \<Rightarrow> string list \<Rightarrow> string list \<Rightarrow> string \<Rightarrow> string list \<Rightarrow>
    int \<Rightarrow> Entity list dbm" where
  "q_FindEntitiesByRelationTarget entityType relationType tags anyTags excludeTag unlessTags pageSize =
     select_limit pageSize (\<lambda>t. join_end r_target
       (\<lambda>e. e_type e = entityType \<and> tag_filter tags anyTags excludeTag unlessTags (e_tags e)) t
       (filter (\<lambda>r. r_type r = relationType) (relations t)))"

section \<open>events.sql.go\<close>

definition q_InsertEvent :: "uuid \<Rightarrow> string \<Rightarrow> string \<Rightarrow> json \<Rightarrow> uuid option \<Rightarrow> string option \<Rightarrow> string list \<Rightarrow>
    string \<Rightarrow> unit dbm" where
  "q_InsertEvent uid eventType payloadType payloadJSON entityID relationKey tags entityType =
     exec (\<lambda>now _ t.
       if (uid, now) \<in> (\<lambda>v. (v_id v, v_occurred_at v)) ` set (events t) then Inl UniqueViolation
       else Inr (t\<lparr>events := events t @
         [\<lparr>v_id = uid, v_event_type = eventType, v_payload_type = payloadType, v_payload = payloadJSON,
           v_entity_id = entityID, v_relation_key = relationKey, v_tags = tags, v_occurred_at = now,
           v_published_at = None, v_entity_type = entityType\<rparr>]\<rparr>, ()))"

definition newest_events :: "(EntityEvent \<Rightarrow> bool) \<Rightarrow> tables \<Rightarrow> EntityEvent list" where
  "newest_events P t = sort_key (\<lambda>v. - v_occurred_at v) (filter P (events t))"

definition q_GetLastEventTime :: "time dbm" where
  "q_GetLastEventTime = select_one (\<lambda>t. map v_occurred_at (take 1 (newest_events (\<lambda>_. True) t)))"

definition q_GetEventByID :: "uuid \<Rightarrow> EntityEvent dbm" where
  "q_GetEventByID uid = select_one (\<lambda>t. filter (\<lambda>v. v_id v = uid) (events t))"

text \<open>The left join with entities supplies the display name.\<close>

definition q_GetAllEvents :: "string list \<Rightarrow> time option \<Rightarrow> int \<Rightarrow> (EntityEvent \<times> string) list dbm" where
  "q_GetAllEvents eventTypes cursor maxResults = select_limit maxResults (\<lambda>t.
     map (\<lambda>v. (v, case find (\<lambda>e. Some (e_id e) = v_entity_id v) (entities t) of
                     Some e \<Rightarrow> e_display_name e | None \<Rightarrow> []))
       (newest_events (\<lambda>v. (eventTypes = [] \<or> v_event_type v \<in> set eventTypes)
          \<and> before_cursor cursor (v_occurred_at v)) t))"

definition q_GetEventsForEntity :: "uuid \<Rightarrow> string list \<Rightarrow> time \<Rightarrow> int \<Rightarrow> EntityEvent list dbm" where
  "q_GetEventsForEntity uid eventTypes since maxResults = select_limit maxResults
     (newest_events (\<lambda>v. v_entity_id v = Some uid
        \<and> (eventTypes = [] \<or> v_event_type v \<in> set eventTypes)
        \<and> (since = 0 \<or> since < v_occurred_at v)))"

section \<open>consumer.sql.go\<close>

text \<open>Events are delivered in the order of their time, then of their identifier.\<close>

definition event_before :: "time \<times> uuid \<Rightarrow> EntityEvent \<Rightarrow> bool" where
  "event_before c v \<longleftrightarrow> fst c < v_occurred_at v \<or> (fst c = v_occurred_at v \<and> snd c < v_id v)"

definition event_order :: "tables \<Rightarrow> EntityEvent list" where
  "event_order t = sort_key v_occurred_at (sort_key v_id (events t))"

definition q_GetEventsAfterCursor :: "time \<Rightarrow> uuid \<Rightarrow> int \<Rightarrow> EntityEvent list dbm" where
  "q_GetEventsAfterCursor afterAt afterID batchSize =
     select_limit batchSize (\<lambda>t. filter (event_before (afterAt, afterID)) (event_order t))"

definition q_GetConsumerCursor :: "string \<Rightarrow> EntityEventConsumer dbm" where
  "q_GetConsumerCursor name = select_one (\<lambda>t. filter (\<lambda>c. c_name c = name) (consumers t))"

definition update_consumers :: "(EntityEventConsumer \<Rightarrow> bool) \<Rightarrow> (EntityEventConsumer \<Rightarrow> EntityEventConsumer) \<Rightarrow>
    tables \<Rightarrow> tables" where
  "update_consumers P f t = t\<lparr>consumers := map (\<lambda>c. if P c then f c else c) (consumers t)\<rparr>"

definition held_by :: "string \<Rightarrow> string \<Rightarrow> EntityEventConsumer \<Rightarrow> bool" where
  "held_by name holder c \<longleftrightarrow> c_name c = name \<and> c_holder c = Some holder"

definition q_AdvanceConsumerCursor :: "string \<Rightarrow> string \<Rightarrow> time \<Rightarrow> uuid \<Rightarrow> unit dbm" where
  "q_AdvanceConsumerCursor name holder lastEventAt lastEventID = exec (\<lambda>now _ t.
     Inr (update_consumers (held_by name holder)
       (\<lambda>c. c\<lparr>c_last_event_at := lastEventAt, c_last_event_id := Some lastEventID, c_failures := 0,
               c_last_error := None, c_backoff_until := None, c_updated_at := now\<rparr>) t, ()))"

definition q_UpdateConsumerFailureState :: "string \<Rightarrow> string \<Rightarrow> int \<Rightarrow> string option \<Rightarrow> time option \<Rightarrow> unit dbm" where
  "q_UpdateConsumerFailureState name holder failures lastError backoffUntil = exec (\<lambda>now _ t.
     Inr (update_consumers (held_by name holder)
       (\<lambda>c. c\<lparr>c_failures := failures, c_last_error := lastError, c_backoff_until := backoffUntil,
               c_updated_at := now\<rparr>) t, ()))"

definition unix_epoch :: time where "unix_epoch = 62135596800000000000"

definition q_TryAcquireConsumerLock :: "string \<Rightarrow> string \<Rightarrow> time \<Rightarrow> nat dbm" where
  "q_TryAcquireConsumerLock name holder ttl = exec (\<lambda>now _ t.
     let free = (\<lambda>c. c_name c = name
                   \<and> (case c_expires_at c of None \<Rightarrow> True | Some e \<Rightarrow> e < now)) in
     if name \<in> c_name ` set (consumers t) then
       Inr (update_consumers free (\<lambda>c. c\<lparr>c_holder := Some holder, c_acquired_at := Some now,
              c_expires_at := Some (now + ttl)\<rparr>) t, length (filter free (consumers t)))
     else Inr (t\<lparr>consumers := consumers t @
       [\<lparr>c_name = name, c_last_event_at = unix_epoch, c_last_event_id = None, c_holder = Some holder,
         c_acquired_at = Some now, c_expires_at = Some (now + ttl), c_updated_at = now, c_failures = 0,
         c_last_error = None, c_backoff_until = None\<rparr>]\<rparr>, 1))"

definition q_RenewConsumerLock :: "string \<Rightarrow> string \<Rightarrow> time \<Rightarrow> nat dbm" where
  "q_RenewConsumerLock name holder ttl = exec (\<lambda>now _ t.
     Inr (update_consumers (held_by name holder) (\<lambda>c. c\<lparr>c_expires_at := Some (now + ttl)\<rparr>) t,
          length (filter (held_by name holder) (consumers t))))"

definition q_ReleaseConsumerLock :: "string \<Rightarrow> string \<Rightarrow> unit dbm" where
  "q_ReleaseConsumerLock name holder = exec (\<lambda>_ _ t.
     Inr (update_consumers (held_by name holder) (\<lambda>c. c\<lparr>c_holder := None, c_expires_at := None\<rparr>) t, ()))"

definition q_ListConsumers :: "EntityEventConsumer list dbm" where
  "q_ListConsumers = select (\<lambda>t. sort_key c_name (consumers t))"

section \<open>deadletter.sql.go\<close>

definition q_InsertDeadLetter :: "string \<Rightarrow> uuid \<Rightarrow> string \<Rightarrow> string \<Rightarrow> string option \<Rightarrow> json option \<Rightarrow> string \<Rightarrow>
    int \<Rightarrow> unit dbm" where
  "q_InsertDeadLetter name eventID eventType payloadType entityID payloadJSON errorMessage retryCount =
     exec (\<lambda>now _ t. Inr (t\<lparr>dead_letters := dead_letters t @
       [\<lparr>d_id = dead_letter_seq t, d_consumer = name, d_event_id = eventID, d_event_type = eventType,
         d_payload_type = payloadType, d_entity_id = entityID, d_payload = payloadJSON,
         d_error = errorMessage, d_retry_count = retryCount, d_created_at = now\<rparr>],
       dead_letter_seq := dead_letter_seq t + 1\<rparr>, ()))"

definition q_ListDeadLetters :: "string \<Rightarrow> string list \<Rightarrow> int \<Rightarrow> EntityEventDeadLetter list dbm" where
  "q_ListDeadLetters name eventTypes maxResults = select_limit maxResults (\<lambda>t.
     sort_key (\<lambda>d. - d_created_at d) (filter (\<lambda>d. d_consumer d = name
       \<and> (eventTypes = [] \<or> d_event_type d \<in> set eventTypes)) (dead_letters t)))"

definition q_CountDeadLetters :: "string \<Rightarrow> nat dbm" where
  "q_CountDeadLetters name = select (\<lambda>t. length (filter (\<lambda>d. d_consumer d = name) (dead_letters t)))"

definition q_DeleteDeadLetter :: "int \<Rightarrow> unit dbm" where
  "q_DeleteDeadLetter i = exec (\<lambda>_ _ t.
     Inr (t\<lparr>dead_letters := filter (\<lambda>d. d_id d \<noteq> i) (dead_letters t)\<rparr>, ()))"

definition q_PurgeOldDeadLetters :: "time \<Rightarrow> unit dbm" where
  "q_PurgeOldDeadLetters before = exec (\<lambda>_ _ t.
     Inr (t\<lparr>dead_letters := filter (\<lambda>d. \<not> d_created_at d < before) (dead_letters t)\<rparr>, ()))"

end
