(* ===== verification/Invariant.thy ===== *)
theory Invariant
  imports Queries
begin

text \<open>
  Properties of the tables that every statement keeps are kept by every program built from
  statements and transactions, whatever fails in between. \<open>pres I m\<close> says that \<open>m\<close> keeps
  \<open>I\<close> of the tables and of the snapshot of an open transaction.

  The interface between the statements and the store is a chain of locales: a
  \<open>plain_invariant\<close> is kept by every statement but those that insert, rewrite or delete an entity
  or append an event, a \<open>history_invariant\<close> by every statement except the hard delete, a
  \<open>table_invariant\<close> by that one too. They are interpreted for the constraints of the schema,
  for the append-only event log and for the life of an entity, and in \<open>Event_Trail\<close> for leaving entities
  and events alone; the store's operations are shown to keep such invariants once, inside the locales.
\<close>

named_theorems pres_intros \<open>programs that keep an invariant\<close>

definition good :: "(tables \<Rightarrow> bool) \<Rightarrow> db \<Rightarrow> bool" where
  "good I s \<longleftrightarrow> I (tabs s) \<and> (case tx s of None \<Rightarrow> True | Some T \<Rightarrow> I (tx_snapshot T))"

definition pres :: "(tables \<Rightarrow> bool) \<Rightarrow> 'a dbm \<Rightarrow> bool" where
  "pres I m \<longleftrightarrow> (\<forall>s. good I s \<longrightarrow> good I (fst (m s)))"

lemma presD: "pres I m \<Longrightarrow> good I s \<Longrightarrow> m s = (s', r) \<Longrightarrow> good I s'"
  by (metis pres_def fst_conv)

lemma presI: "(\<And>s s' r. good I s \<Longrightarrow> m s = (s', r) \<Longrightarrow> good I s') \<Longrightarrow> pres I m"
  unfolding pres_def by (metis prod.collapse)

lemma pres_dret [pres_intros]: "pres I (dret x)"
  by (rule presI) (simp add: dret_def)

lemma pres_dfail [pres_intros]: "pres I (dfail e)"
  by (rule presI) (simp add: dfail_def)

lemma pres_dlift [pres_intros]: "pres I (dlift r)"
  by (rule presI) (simp add: dlift_def)

lemma pres_dbind [pres_intros]: "pres I m \<Longrightarrow> (\<And>x. pres I (f x)) \<Longrightarrow> pres I (dbind m f)"
  by (rule presI) (auto simp: dbind_def split: prod.splits sum.splits dest: presD)

lemma pres_dwrap [pres_intros]: "pres I m \<Longrightarrow> pres I (dwrap w m)"
  by (rule presI) (auto simp: dwrap_def split: prod.splits dest: presD)

lemma pres_dmap [pres_intros]: "pres I m \<Longrightarrow> pres I (dmap f m)"
  unfolding dmap_def by (intro pres_intros)

lemma pres_if [pres_intros]: "pres I m \<Longrightarrow> pres I m' \<Longrightarrow> pres I (if b then m else m')"
  by simp

lemma pres_option [pres_intros]:
  "pres I m \<Longrightarrow> (\<And>x. pres I (f x)) \<Longrightarrow> pres I (case v of None \<Rightarrow> m | Some x \<Rightarrow> f x)"
  by (cases v) simp_all

lemma pres_list [pres_intros]:
  "pres I m \<Longrightarrow> (\<And>x xs. pres I (f x xs)) \<Longrightarrow> pres I (case v of [] \<Rightarrow> m | x # xs \<Rightarrow> f x xs)"
  by (cases v) simp_all

lemma pres_prod [pres_intros]: "(\<And>x y. pres I (f x y)) \<Longrightarrow> pres I (case v of (x, y) \<Rightarrow> f x y)"
  by (cases v) simp

lemma pres_let [pres_intros]: "(\<And>x. pres I (f x)) \<Longrightarrow> pres I (let x = v in f x)"
  by simp

lemma good_next_tick [simp]: "good I (next_tick s) = good I s"
  by (simp add: good_def next_tick_def)

lemma pres_exec:
  assumes "\<And>now uid t t' x. I t \<Longrightarrow> f now uid t = Inr (t', x) \<Longrightarrow> I t'"
  shows "pres I (exec f)"
proof (rule presI)
  fix s s' r
  assume g: "good I s" and e: "exec f s = (s', r)"
  show "good I s'"
  proof (cases "tx s")
    case None
    then show ?thesis using g e assms
      by (auto simp: exec_def exec_auto_def good_def next_tick_def split: sum.splits if_splits)
  next
    case (Some T)
    then show ?thesis using g e assms
      by (auto simp: exec_def exec_tx_def good_def next_tick_def split: sum.splits if_splits)
  qed
qed

lemma pres_exec_one:
  assumes "\<And>now uid t t' x. I t \<Longrightarrow> f now uid t = Inr (t', x) \<Longrightarrow> I t'"
  shows "pres I (exec_one f)"
  unfolding exec_one_def by (intro pres_intros pres_exec) (rule assms)

lemma pres_select [pres_intros]: "pres I (select r)"
  unfolding select_def by (rule pres_exec) simp

lemma pres_select_one [pres_intros]: "pres I (select_one r)"
  unfolding select_one_def by (rule pres_exec_one) simp

lemma pres_select_limit [pres_intros]: "pres I (select_limit n r)"
  unfolding select_limit_def by (rule pres_exec) (simp split: if_splits)

lemma pres_begin [pres_intros]: "pres I begin_tx"
  by (rule presI) (auto simp: begin_tx_def good_def next_tick_def split: if_splits)

lemma good_rollback: "good I s \<Longrightarrow> good I (rollback_tx s)"
  by (auto simp: rollback_tx_def good_def split: option.splits)

lemma pres_commit [pres_intros]: "pres I commit_tx"
  by (rule presI)
    (auto simp: commit_tx_def rollback_tx_def good_def next_tick_def split: option.splits if_splits)

lemma pres_in_tx [pres_intros]:
  assumes "pres I body"
  shows "pres I (in_tx external wc body)"
proof (rule presI)
  fix s s' r
  assume g: "good I s" and e: "in_tx external wc body s = (s', r)"
  have b: "pres I (dwrap (Wrap ''begin tx'') begin_tx)" and c: "pres I (dwrap wc commit_tx)"
    by (intro pres_intros)+
  show "good I s'"
  proof (cases external)
    case True
    then show ?thesis using e g presD [OF assms] by (simp add: in_tx_def)
  next
    case False
    obtain s1 r1 where 1: "dwrap (Wrap ''begin tx'') begin_tx s = (s1, r1)" by fastforce
    obtain s2 r2 where 2: "body s1 = (s2, r2)" by fastforce
    obtain s3 r3 where 3: "dwrap wc commit_tx s2 = (s3, r3)" by fastforce
    have g1: "good I s1" using presD [OF b g 1] .
    have g2: "good I s2" using presD [OF assms g1 2] .
    have g3: "good I s3" using presD [OF c g2 3] .
    have "s' \<in> {s1, rollback_tx s2, s3}"
      using e False 1 2 3 by (simp add: in_tx_def split: sum.splits)
    with g1 g2 g3 good_rollback show ?thesis by auto
  qed
qed

section \<open>The interface\<close>

locale plain_invariant =
  fixes I :: "tables \<Rightarrow> bool"
  assumes keeps_SetEntityTags [pres_intros]: "pres I (q_SetEntityTags u mts)"
    and keeps_AddEntityTags [pres_intros]: "pres I (q_AddEntityTags u ts)"
    and keeps_RemoveEntityTag [pres_intros]: "pres I (q_RemoveEntityTag u tag)"
    and keeps_UpsertAnchor [pres_intros]: "pres I (q_UpsertAnchor u ty f v)"
    and keeps_UpsertTokens [pres_intros]: "pres I (q_UpsertTokens u ty f mts)"
    and keeps_UpdateEntityEmbedding [pres_intros]: "pres I (q_UpdateEntityEmbedding u vec)"
    and keeps_UpsertRelation [pres_intros]: "pres I (q_UpsertRelation src tgt ty c ev imp urn dt d)"
    and keeps_DeleteRelationByKey [pres_intros]: "pres I (q_DeleteRelationByKey src tgt ty)"
    and keeps_UpdateRelationData [pres_intros]: "pres I (q_UpdateRelationData src tgt ty dt d)"
    and keeps_AdvanceConsumerCursor [pres_intros]: "pres I (q_AdvanceConsumerCursor name h stamp u)"
    and keeps_UpdateConsumerFailureState [pres_intros]: "pres I (q_UpdateConsumerFailureState name h k me mb)"
    and keeps_TryAcquireConsumerLock [pres_intros]: "pres I (q_TryAcquireConsumerLock name h ttl)"
    and keeps_RenewConsumerLock [pres_intros]: "pres I (q_RenewConsumerLock name h ttl)"
    and keeps_ReleaseConsumerLock [pres_intros]: "pres I (q_ReleaseConsumerLock name h)"
    and keeps_InsertDeadLetter [pres_intros]: "pres I (q_InsertDeadLetter name u et pt mk md f k)"
    and keeps_DeleteDeadLetter [pres_intros]: "pres I (q_DeleteDeadLetter i)"
    and keeps_PurgeOldDeadLetters [pres_intros]: "pres I (q_PurgeOldDeadLetters before)"

locale history_invariant = plain_invariant +
  assumes keeps_InsertEntity [pres_intros]: "pres I (q_InsertEntity ty d c ts n)"
    and keeps_InsertEntityWithID [pres_intros]: "pres I (q_InsertEntityWithID u ty d c ts n)"
    and keeps_UpdateEntityData [pres_intros]: "pres I (q_UpdateEntityData u d c n ver)"
    and keeps_MergeEntityData [pres_intros]: "pres I (q_MergeEntityData u d c n ver)"
    and keeps_DeleteEntity [pres_intros]: "pres I (q_DeleteEntity u)"
    and keeps_InsertEvent [pres_intros]: "pres I (q_InsertEvent u et pt d mu mk ts ty)"

locale table_invariant = history_invariant +
  assumes keeps_HardDeleteEntity [pres_intros]: "pres I (q_HardDeleteEntity u)"

section \<open>The constraints of the schema\<close>

definition row_ok :: "Entity \<Rightarrow> bool" where
  "row_ok e \<longleftrightarrow> 0 \<le> e_version e \<and> e_version e \<le> max_int32
     \<and> (\<forall>v. e_embedding e = Some v \<longrightarrow> length v = vector_dim)"

definition entities_ok :: "tables \<Rightarrow> bool" where
  "entities_ok t \<longleftrightarrow> distinct (map e_id (entities t)) \<and> (\<forall>e\<in>set (entities t). row_ok e)"

definition anchors_ok :: "tables \<Rightarrow> bool" where
  "anchors_ok t \<longleftrightarrow> distinct (map anchor_key (anchors t))
     \<and> (\<forall>a\<in>set (anchors t). entity_exists t (a_entity_id a))"

definition tokens_ok :: "tables \<Rightarrow> bool" where
  "tokens_ok t \<longleftrightarrow> distinct (map token_key (tokens t))
     \<and> (\<forall>k\<in>set (tokens t). entity_exists t (t_entity_id k))"

definition relations_ok :: "tables \<Rightarrow> bool" where
  "relations_ok t \<longleftrightarrow> distinct (map r_id (relations t))
     \<and> distinct (map relation_key (filter (\<lambda>r. r_urn r = None) (relations t)))
     \<and> (\<forall>r\<in>set (relations t). entity_exists t (r_source r) \<and> entity_exists t (r_target r))"

definition events_ok :: "tables \<Rightarrow> bool" where
  "events_ok t \<longleftrightarrow> distinct (map (\<lambda>v. (v_id v, v_occurred_at v)) (events t))"

definition consumers_ok :: "tables \<Rightarrow> bool" where
  "consumers_ok t \<longleftrightarrow> distinct (map c_name (consumers t))"

definition letters_ok :: "tables \<Rightarrow> bool" where
  "letters_ok t \<longleftrightarrow> distinct (map d_id (dead_letters t))
     \<and> (\<forall>d\<in>set (dead_letters t). d_id d < dead_letter_seq t)"

definition schema :: "tables \<Rightarrow> bool" where
  "schema t \<longleftrightarrow> entities_ok t \<and> anchors_ok t \<and> tokens_ok t \<and> relations_ok t \<and> events_ok t
     \<and> consumers_ok t \<and> letters_ok t"

lemmas schema_defs = schema_def entities_ok_def anchors_ok_def tokens_ok_def relations_ok_def
  events_ok_def consumers_ok_def letters_ok_def

lemma schema_empty: "schema empty_tables"
  by (simp add: schema_defs empty_tables_def)

text \<open>Rewriting rows without touching their key.\<close>

lemma map_if_key:
  "(\<And>x. x \<in> set xs \<Longrightarrow> P x \<Longrightarrow> key (f x) = key x) \<Longrightarrow>
     map key (map (\<lambda>x. if P x then f x else x) xs) = map key xs"
  by (induction xs) auto

lemma key_image_if:
  "(\<And>x. x \<in> set xs \<Longrightarrow> P x \<Longrightarrow> key (f x) = key x) \<Longrightarrow>
     key ` set (map (\<lambda>x. if P x then f x else x) xs) = key ` set xs"
  using map_if_key [of xs P key f] by (metis (no_types, lifting) list.set_map)

lemma distinct_map_if:
  "distinct (map key xs) \<Longrightarrow> (\<And>x. P x \<Longrightarrow> key (f x) = key x) \<Longrightarrow>
     distinct (map key (map (\<lambda>x. if P x then f x else x) xs))"
  by (simp only: map_if_key)

lemma distinct_map_filter2:
  "distinct (map key (filter Q xs)) \<Longrightarrow> distinct (map key (filter Q (filter P xs)))"
  by (induction xs) auto

lemma entity_exists_update [simp]:
  "(\<And>e. e_id (f e) = e_id e) \<Longrightarrow> entity_exists (update_entities P f t) u = entity_exists t u"
  using key_image_if [of "entities t" P e_id f]
  unfolding entity_exists_def update_entities_def by (simp del: set_map)

lemma schema_update_entities:
  assumes "schema t" "\<And>e. e_id (f e) = e_id e" "\<And>e. e \<in> set (entities t) \<Longrightarrow> P e \<Longrightarrow> row_ok (f e)"
  shows "schema (update_entities P f t)"
proof -
  have k: "map e_id (entities (update_entities P f t)) = map e_id (entities t)"
    using map_if_key [of "entities t" P e_id f] assms(2) by (simp add: update_entities_def)
  have "entities_ok (update_entities P f t)"
    unfolding entities_ok_def k
    using assms(1,3) by (auto simp: schema_defs update_entities_def)
  moreover have "anchors (update_entities P f t) = anchors t" "tokens (update_entities P f t) = tokens t"
    "relations (update_entities P f t) = relations t" "events (update_entities P f t) = events t"
    "consumers (update_entities P f t) = consumers t" "dead_letters (update_entities P f t) = dead_letters t"
    "dead_letter_seq (update_entities P f t) = dead_letter_seq t"
    by (simp_all add: update_entities_def)
  ultimately show ?thesis using assms(1) entity_exists_update [OF assms(2)]
    by (simp add: schema_def anchors_ok_def tokens_ok_def relations_ok_def events_ok_def
        consumers_ok_def letters_ok_def)
qed

lemma schema_insert_entity:
  assumes "schema t" "insert_entity_row e t = Inr (t', x)" "row_ok e"
  shows "schema t'"
proof -
  have n: "e_id e \<notin> e_id ` set (entities t)" and t': "t' = t\<lparr>entities := entities t @ [e]\<rparr>"
    using assms(2) by (auto simp: insert_entity_row_def entity_exists_def split: if_splits)
  have "entity_exists t u \<Longrightarrow> entity_exists t' u" for u by (auto simp: entity_exists_def t')
  with assms(1,3) n show ?thesis
    by (simp add: schema_defs t')
qed

lemma row_ok_new: "row_ok (new_entity u now ty d c ts n)"
  by (simp add: row_ok_def new_entity_def max_int32_def)

lemma schema_versioned_update:
  assumes "schema t" "versioned_update u nd c n ver now t = Inr (t', k)"
  shows "schema t'"
proof -
  let ?P = "\<lambda>e. e_id e = u \<and> e_version e = ver \<and> live e"
  let ?f = "\<lambda>e. e\<lparr>e_data := nd (e_data e), e_confidence := c, e_display_name := n,
    e_version := e_version e + 1, e_updated_at := now\<rparr>"
  have nm: "\<not> list_ex (\<lambda>e. e_version e = max_int32) (filter ?P (entities t))"
    and t': "t' = update_entities ?P ?f t"
    using assms(2) by (auto simp: versioned_update_def Let_def split: if_splits)
  show ?thesis unfolding t'
  proof (rule schema_update_entities [OF assms(1)])
    fix e assume e: "e \<in> set (entities t)" "?P e"
    have "row_ok e" using assms(1) e by (simp add: schema_defs)
    moreover have "e_version e \<noteq> max_int32" using nm e by (auto simp: list_ex_iff)
    ultimately show "row_ok (?f e)" by (simp add: row_ok_def)
  qed simp
qed

lemma schema_replace_anchors:
  assumes "schema t" "distinct (map anchor_key as)" "\<And>a. a \<in> set as \<Longrightarrow> entity_exists t (a_entity_id a)"
  shows "schema (t\<lparr>anchors := as\<rparr>)"
  using assms by (simp add: schema_defs entity_exists_def)

lemma schema_replace_tokens:
  assumes "schema t" "distinct (map token_key ks)" "\<And>k. k \<in> set ks \<Longrightarrow> entity_exists t (t_entity_id k)"
  shows "schema (t\<lparr>tokens := ks\<rparr>)"
  using assms by (simp add: schema_defs entity_exists_def)

lemma schema_replace_relations:
  assumes "schema t" "distinct (map r_id rs)"
    "distinct (map relation_key (filter (\<lambda>r. r_urn r = None) rs))"
    "\<And>r. r \<in> set rs \<Longrightarrow> entity_exists t (r_source r) \<and> entity_exists t (r_target r)"
  shows "schema (t\<lparr>relations := rs\<rparr>)"
  using assms by (simp add: schema_defs entity_exists_def)

lemma schema_update_consumers:
  assumes "schema t" "\<And>c. c_name (f c) = c_name c"
  shows "schema (update_consumers P f t)"
proof -
  have "map c_name (consumers (update_consumers P f t)) = map c_name (consumers t)"
    using map_if_key [of "consumers t" P c_name f] assms(2) by (simp add: update_consumers_def)
  then have "consumers_ok (update_consumers P f t)"
    using assms(1) by (simp add: consumers_ok_def schema_def)
  with assms(1) show ?thesis
    by (simp add: schema_def update_consumers_def entities_ok_def anchors_ok_def tokens_ok_def
        relations_ok_def events_ok_def letters_ok_def entity_exists_def)
qed

lemma schema_UpsertAnchor: "pres schema (q_UpsertAnchor u ty f v)"
  unfolding q_UpsertAnchor_def
proof (rule pres_exec, goal_cases)
  case (1 now uid t t' x)
  let ?row = "\<lparr>a_entity_id = u, a_type = ty, a_field = f, a_value = v\<rparr>"
  let ?up = "map (\<lambda>a. if anchor_key a = anchor_key ?row then ?row else a) (anchors t)"
  have ok: "distinct (map anchor_key (anchors t))" "\<forall>a\<in>set (anchors t). entity_exists t (a_entity_id a)"
    using 1 by (simp_all add: schema_def anchors_ok_def)
  have ex: "entity_exists t u" and t': "t' = t\<lparr>anchors := ?up\<rparr> \<or>
      anchor_key ?row \<notin> anchor_key ` set (anchors t) \<and> t' = t\<lparr>anchors := anchors t @ [?row]\<rparr>"
    using 1(2) by (auto simp: Let_def split: if_splits)
  have up: "distinct (map anchor_key ?up)"
    using ok(1) by (rule distinct_map_if) simp
  from t' show ?case
  proof (elim disjE conjE, goal_cases)
    case 1
    then show ?case using \<open>schema t\<close> up ok ex by (auto intro!: schema_replace_anchors)
  next
    case 2
    then show ?case using \<open>schema t\<close> ok ex by (auto intro!: schema_replace_anchors)
  qed
qed

lemma schema_UpsertTokens: "pres schema (q_UpsertTokens u ty f mts)"
  unfolding q_UpsertTokens_def
proof (rule pres_exec, goal_cases)
  case (1 now uid t t' x)
  obtain ts where ts: "mts = Some ts" using 1(2) by (cases mts) auto
  let ?row = "\<lparr>t_entity_id = u, t_type = ty, t_field = f, t_tokens = ts\<rparr>"
  let ?up = "map (\<lambda>k. if token_key k = token_key ?row then k\<lparr>t_tokens := ts\<rparr> else k) (tokens t)"
  have ok: "distinct (map token_key (tokens t))" "\<forall>k\<in>set (tokens t). entity_exists t (t_entity_id k)"
    using 1 by (simp_all add: schema_def tokens_ok_def)
  have ex: "entity_exists t u" and t': "t' = t\<lparr>tokens := ?up\<rparr> \<or>
      token_key ?row \<notin> token_key ` set (tokens t) \<and> t' = t\<lparr>tokens := tokens t @ [?row]\<rparr>"
    using 1(2) by (auto simp: Let_def ts split: if_splits)
  have up: "distinct (map token_key ?up)"
    using ok(1) by (rule distinct_map_if) (simp add: token_key_def)
  from t' show ?case
  proof (elim disjE conjE, goal_cases)
    case 1
    then show ?case using \<open>schema t\<close> up ok by (auto intro!: schema_replace_tokens)
  next
    case 2
    then show ?case using \<open>schema t\<close> ok ex by (auto intro!: schema_replace_tokens)
  qed
qed

text \<open>Updating rows without touching identity, key and URN; what a relation upsert and a data
  update do.\<close>

lemma schema_update_relations:
  assumes "schema t"
    and "\<And>r. r_id (f r) = r_id r \<and> relation_key (f r) = relation_key r \<and> r_urn (f r) = r_urn r"
  shows "schema (t\<lparr>relations := map (\<lambda>r. if P r then f r else r) (relations t)\<rparr>)"
proof (rule schema_replace_relations [OF assms(1)])
  let ?g = "\<lambda>r. if P r then f r else r"
  have ok: "distinct (map r_id (relations t))"
    "distinct (map relation_key (filter (\<lambda>r. r_urn r = None) (relations t)))"
    "\<forall>r\<in>set (relations t). entity_exists t (r_source r) \<and> entity_exists t (r_target r)"
    using assms(1) by (simp_all add: schema_def relations_ok_def)
  show "distinct (map r_id (map ?g (relations t)))"
    using ok(1) by (rule distinct_map_if) (simp add: assms(2))
  have "map relation_key (filter (\<lambda>r. r_urn r = None) (map ?g rs))
      = map relation_key (filter (\<lambda>r. r_urn r = None) rs)" for rs
    using assms(2) by (induction rs) auto
  then show "distinct (map relation_key (filter (\<lambda>r. r_urn r = None) (map ?g (relations t))))"
    using ok(2) by simp
  show "entity_exists t (r_source r) \<and> entity_exists t (r_target r)"
    if r: "r \<in> set (map ?g (relations t))" for r
  proof -
    from r obtain q where q: "q \<in> set (relations t)" "r = ?g q" by auto
    then have "relation_key r = relation_key q" using assms(2) by simp
    then show ?thesis using q ok(3) by (simp add: relation_key_def)
  qed
qed

lemma schema_UpsertRelation: "pres schema (q_UpsertRelation src tgt ty c ev imp urn dt d)"
  unfolding q_UpsertRelation_def
proof (rule pres_exec, goal_cases)
  case (1 now uid t t' x)
  let ?row = "\<lparr>r_id = uid, r_source = src, r_target = tgt, r_type = ty, r_confidence = c,
    r_evidence = ev, r_implied = imp, r_urn = urn, r_data = d, r_created_at = now, r_data_type = dt\<rparr>"
  let ?conf = "\<lambda>r. relation_key r = relation_key ?row \<and> r_urn r = None \<and> r_urn ?row = None"
  let ?upd = "\<lambda>r. r\<lparr>r_confidence := c, r_evidence := ev, r_data_type := dt, r_data := d\<rparr>"
  have ex: "entity_exists t src" "entity_exists t tgt"
    using 1(2) by (auto simp: upsert_relation_row_def Let_def split: if_splits)
  show ?case
  proof (cases "find ?conf (relations t)")
    case None
    then have n: "\<forall>r\<in>set (relations t). \<not> ?conf r" by (simp add: find_None_iff)
    have t': "uid \<notin> r_id ` set (relations t)" "t' = t\<lparr>relations := relations t @ [?row]\<rparr>"
      using 1(2) ex None by (auto simp: upsert_relation_row_def Let_def split: if_splits)
    have ok: "relations_ok t" using 1(1) by (simp add: schema_def)
    show ?thesis unfolding t'(2)
      by (rule schema_replace_relations [OF 1(1)])
        (use ok n t'(1) ex in \<open>auto simp: relations_ok_def\<close>)
  next
    case (Some r)
    then have "t' = t\<lparr>relations := map (\<lambda>r. if ?conf r then ?upd r else r) (relations t)\<rparr>"
      using 1(2) ex by (auto simp: upsert_relation_row_def Let_def split: if_splits)
    then show ?thesis
      using schema_update_relations [OF 1(1), of ?upd ?conf] by (simp add: relation_key_def)
  qed
qed

lemma schema_DeleteRelationByKey: "pres schema (q_DeleteRelationByKey src tgt ty)"
  unfolding q_DeleteRelationByKey_def
proof (rule pres_exec, goal_cases)
  case (1 now uid t t' x)
  have ok: "relations_ok t" using 1(1) by (simp add: schema_def)
  have t': "t' = t\<lparr>relations := filter (\<lambda>r. relation_key r \<noteq> (src, tgt, ty)) (relations t)\<rparr>"
    using 1(2) by simp
  show ?case unfolding t'
    by (rule schema_replace_relations [OF 1(1) distinct_map_filter distinct_map_filter2])
      (use ok in \<open>auto simp: relations_ok_def\<close>)
qed

lemma schema_UpdateRelationData: "pres schema (q_UpdateRelationData src tgt ty dt d)"
  unfolding q_UpdateRelationData_def Let_def
  by (rule pres_exec_one) (auto intro!: schema_update_relations simp: relation_key_def)

lemma schema_HardDeleteEntity: "pres schema (q_HardDeleteEntity u)"
  unfolding q_HardDeleteEntity_def
proof (rule pres_exec, goal_cases)
  case (1 now uid t t' x)
  have t': "t' = t\<lparr>entities := filter (\<lambda>e. e_id e \<noteq> u) (entities t),
      anchors := filter (\<lambda>a. a_entity_id a \<noteq> u) (anchors t),
      tokens := filter (\<lambda>k. t_entity_id k \<noteq> u) (tokens t),
      relations := filter (\<lambda>r. r_source r \<noteq> u \<and> r_target r \<noteq> u) (relations t)\<rparr>"
    using 1(2) by simp
  then have ex': "entity_exists t' w \<longleftrightarrow> entity_exists t w \<and> w \<noteq> u" for w
    by (auto simp: entity_exists_def)
  have "entities_ok t'" using 1(1) by (simp add: t' schema_def entities_ok_def distinct_map_filter)
  moreover have "anchors_ok t'" using 1(1) ex' by (simp add: t' schema_def anchors_ok_def distinct_map_filter)
  moreover have "tokens_ok t'" using 1(1) ex' by (simp add: t' schema_def tokens_ok_def distinct_map_filter)
  moreover have "relations_ok t'"
    using 1(1) ex' distinct_map_filter2 [of relation_key "\<lambda>r. r_urn r = None" "relations t"]
    by (simp add: t' schema_def relations_ok_def distinct_map_filter del: filter_filter)
  ultimately show ?case using 1(1) by (simp add: t' schema_def events_ok_def consumers_ok_def letters_ok_def)
qed

lemma schema_InsertEntity: "pres schema (q_InsertEntity ty d c ts n)"
  unfolding q_InsertEntity_def by (rule pres_exec) (erule (1) schema_insert_entity, rule row_ok_new)

lemma schema_InsertEntityWithID: "pres schema (q_InsertEntityWithID u ty d c ts n)"
  unfolding q_InsertEntityWithID_def
  by (rule pres_exec) (erule (1) schema_insert_entity, rule row_ok_new)

lemma schema_UpdateEntityData: "pres schema (q_UpdateEntityData u d c n ver)"
  unfolding q_UpdateEntityData_def by (rule pres_exec) (rule schema_versioned_update)

lemma schema_MergeEntityData: "pres schema (q_MergeEntityData u d c n ver)"
  unfolding q_MergeEntityData_def by (rule pres_exec) (rule schema_versioned_update)

lemma row_ok_cong:
  "row_ok e \<Longrightarrow> e_version e' = e_version e \<Longrightarrow> e_embedding e' = e_embedding e \<Longrightarrow> row_ok e'"
  by (simp add: row_ok_def)

lemma schema_update_entities_plain:
  assumes "schema t"
    and "\<And>e. e_id (f e) = e_id e \<and> e_version (f e) = e_version e \<and> e_embedding (f e) = e_embedding e"
  shows "schema (update_entities P f t)"
proof (rule schema_update_entities [OF assms(1)])
  show "row_ok (f e)" if "e \<in> set (entities t)" for e
    using assms that by (auto simp: schema_def entities_ok_def intro: row_ok_cong)
qed (simp add: assms(2))

lemma schema_DeleteEntity: "pres schema (q_DeleteEntity u)"
  unfolding q_DeleteEntity_def by (rule pres_exec) (auto intro!: schema_update_entities_plain)

lemma schema_SetEntityTags: "pres schema (q_SetEntityTags u mts)"
  unfolding q_SetEntityTags_def
  by (rule pres_exec) (auto intro!: schema_update_entities_plain split: option.splits if_splits)

lemma schema_AddEntityTags: "pres schema (q_AddEntityTags u ts)"
  unfolding q_AddEntityTags_def by (rule pres_exec) (auto intro!: schema_update_entities_plain)

lemma schema_RemoveEntityTag: "pres schema (q_RemoveEntityTag u tag)"
  unfolding q_RemoveEntityTag_def by (rule pres_exec) (auto intro!: schema_update_entities_plain)

lemma schema_UpdateEntityEmbedding: "pres schema (q_UpdateEntityEmbedding u vec)"
  unfolding q_UpdateEntityEmbedding_def
proof (rule pres_exec, goal_cases)
  case (1 now uid t t' x)
  have t': "t' = update_entities (\<lambda>e. e_id e = u) (\<lambda>e. e\<lparr>e_embedding := Some vec, e_updated_at := now\<rparr>) t"
    and v: "entity_exists t u \<longrightarrow> length vec = vector_dim"
    using 1(2) by (auto split: if_splits)
  show ?case unfolding t'
  proof (rule schema_update_entities [OF 1(1)])
    fix e assume e: "e \<in> set (entities t)" "e_id e = u"
    then have "row_ok e" "entity_exists t u" using 1(1) by (auto simp: schema_defs entity_exists_def)
    then show "row_ok (e\<lparr>e_embedding := Some vec, e_updated_at := now\<rparr>)"
      using v by (simp add: row_ok_def)
  qed simp
qed

lemma schema_InsertEvent: "pres schema (q_InsertEvent u et pt d mu mk ts ty)"
  unfolding q_InsertEvent_def
  by (rule pres_exec) (auto simp: schema_defs entity_exists_def split: if_splits)

lemma schema_AdvanceConsumerCursor: "pres schema (q_AdvanceConsumerCursor name h stamp u)"
  unfolding q_AdvanceConsumerCursor_def by (rule pres_exec) (auto intro!: schema_update_consumers)

lemma schema_UpdateConsumerFailureState: "pres schema (q_UpdateConsumerFailureState name h k me mb)"
  unfolding q_UpdateConsumerFailureState_def by (rule pres_exec) (auto intro!: schema_update_consumers)

lemma schema_TryAcquireConsumerLock: "pres schema (q_TryAcquireConsumerLock name h ttl)"
  unfolding q_TryAcquireConsumerLock_def Let_def
proof (rule pres_exec, goal_cases)
  case (1 now uid t t' x)
  show ?case
  proof (cases "name \<in> c_name ` set (consumers t)")
    case True
    then show ?thesis using 1 by (auto intro!: schema_update_consumers)
  next
    case False
    then show ?thesis using 1
      by (auto simp: schema_defs entity_exists_def split: if_splits)
  qed
qed

lemma schema_RenewConsumerLock: "pres schema (q_RenewConsumerLock name h ttl)"
  unfolding q_RenewConsumerLock_def by (rule pres_exec) (auto intro!: schema_update_consumers)

lemma schema_ReleaseConsumerLock: "pres schema (q_ReleaseConsumerLock name h)"
  unfolding q_ReleaseConsumerLock_def by (rule pres_exec) (auto intro!: schema_update_consumers)

lemma schema_InsertDeadLetter: "pres schema (q_InsertDeadLetter name u et pt mk md f k)"
  unfolding q_InsertDeadLetter_def
proof (rule pres_exec, goal_cases)
  case (1 now uid t t' x)
  then have "letters_ok t" by (simp add: schema_def)
  then have "letters_ok t'" using 1(2) by (fastforce simp: letters_ok_def)
  with 1 show ?case
    by (auto simp: schema_def entities_ok_def anchors_ok_def tokens_ok_def relations_ok_def
        events_ok_def consumers_ok_def entity_exists_def)
qed

lemma schema_filter_letters: "schema t \<Longrightarrow> schema (t\<lparr>dead_letters := filter P (dead_letters t)\<rparr>)"
  by (simp add: schema_defs entity_exists_def distinct_map_filter)

lemma schema_DeleteDeadLetter: "pres schema (q_DeleteDeadLetter i)"
  unfolding q_DeleteDeadLetter_def by (rule pres_exec) (auto intro: schema_filter_letters)

lemma schema_PurgeOldDeadLetters: "pres schema (q_PurgeOldDeadLetters before)"
  unfolding q_PurgeOldDeadLetters_def by (rule pres_exec) (auto intro: schema_filter_letters)

lemmas schema_keeps = schema_InsertEntity schema_InsertEntityWithID schema_UpdateEntityData
  schema_MergeEntityData schema_DeleteEntity schema_SetEntityTags schema_AddEntityTags
  schema_RemoveEntityTag schema_UpsertAnchor schema_UpsertTokens schema_UpdateEntityEmbedding
  schema_UpsertRelation schema_DeleteRelationByKey schema_UpdateRelationData schema_InsertEvent
  schema_AdvanceConsumerCursor schema_UpdateConsumerFailureState schema_TryAcquireConsumerLock
  schema_RenewConsumerLock schema_ReleaseConsumerLock schema_InsertDeadLetter
  schema_DeleteDeadLetter schema_PurgeOldDeadLetters schema_HardDeleteEntity

interpretation constraints: table_invariant schema
  by unfold_locales (rule schema_keeps)+

section \<open>The event log only grows\<close>

definition log_extends :: "tables \<Rightarrow> tables \<Rightarrow> bool" where
  "log_extends t0 t \<longleftrightarrow> (\<exists>vs. events t = events t0 @ vs)"

lemma log_extends_refl: "log_extends t t"
  by (simp add: log_extends_def)

lemma log_extends_events: "log_extends t0 t \<Longrightarrow> events t' = events t \<Longrightarrow> log_extends t0 t'"
  by (simp add: log_extends_def)

lemma insert_entity_row_events: "insert_entity_row e t = Inr (t', x) \<Longrightarrow> events t' = events t"
  by (auto simp: insert_entity_row_def split: if_splits)

lemma upsert_relation_row_events: "upsert_relation_row r t = Inr (t', x) \<Longrightarrow> events t' = events t"
  by (auto simp: upsert_relation_row_def Let_def split: if_splits option.splits)

lemma versioned_update_events:
  "versioned_update u nd c n ver now t = Inr (t', k) \<Longrightarrow> events t' = events t"
  by (auto simp: versioned_update_def Let_def update_entities_def split: if_splits)

lemmas write_stmts = q_InsertEntity_def q_InsertEntityWithID_def q_UpdateEntityData_def
  q_MergeEntityData_def q_DeleteEntity_def q_SetEntityTags_def q_AddEntityTags_def
  q_RemoveEntityTag_def q_UpsertAnchor_def q_UpsertTokens_def q_UpdateEntityEmbedding_def
  q_UpsertRelation_def q_DeleteRelationByKey_def q_UpdateRelationData_def
  q_AdvanceConsumerCursor_def q_UpdateConsumerFailureState_def q_TryAcquireConsumerLock_def
  q_RenewConsumerLock_def q_ReleaseConsumerLock_def q_InsertDeadLetter_def
  q_DeleteDeadLetter_def q_PurgeOldDeadLetters_def q_HardDeleteEntity_def

text \<open>A statement that leaves the event table alone.\<close>

lemma pres_log_exec:
  "(\<And>now uid t t' x. f now uid t = Inr (t', x) \<Longrightarrow> events t' = events t) \<Longrightarrow> pres (log_extends t0) (exec f)"
  by (rule pres_exec) (blast intro: log_extends_events)

lemma pres_log_exec_one:
  "(\<And>now uid t t' x. f now uid t = Inr (t', x) \<Longrightarrow> events t' = events t) \<Longrightarrow> pres (log_extends t0) (exec_one f)"
  by (rule pres_exec_one) (blast intro: log_extends_events)

lemma log_InsertEvent: "pres (log_extends t0) (q_InsertEvent u et pt d mu mk ts ty)"
  unfolding q_InsertEvent_def by (rule pres_exec) (auto simp: log_extends_def split: if_splits)

interpretation log: table_invariant "log_extends t0" for t0
  by unfold_locales
    (rule log_InsertEvent | unfold write_stmts Let_def, rule pres_log_exec pres_log_exec_one,
      auto simp: update_entities_def update_consumers_def dest: insert_entity_row_events
        upsert_relation_row_events versioned_update_events split: if_splits option.splits; fail)+

section \<open>The life of an entity\<close>

text \<open>What a row may become: identity, type and time of creation stay, the version never
  decreases, and a deleted row is not revived.\<close>

definition outlives :: "Entity \<Rightarrow> Entity \<Rightarrow> bool" where
  "outlives e e' \<longleftrightarrow> e_id e' = e_id e \<and> e_type e' = e_type e \<and> e_created_at e' = e_created_at e
     \<and> e_version e \<le> e_version e' \<and> (live e' \<longrightarrow> live e)"

definition lives_on :: "tables \<Rightarrow> tables \<Rightarrow> bool" where
  "lives_on t0 t \<longleftrightarrow> (\<forall>e\<in>set (entities t0). \<exists>e'\<in>set (entities t). outlives e e')"

lemma outlives_trans: "outlives e e' \<Longrightarrow> outlives e' e'' \<Longrightarrow> outlives e e''"
  by (auto simp: outlives_def)

lemma outlives_refl [simp]: "outlives e e"
  by (simp add: outlives_def)

lemma lives_on_refl: "lives_on t t"
  unfolding lives_on_def using outlives_refl by blast

lemma lives_on_same: "lives_on t0 t \<Longrightarrow> entities t' = entities t \<Longrightarrow> lives_on t0 t'"
  by (simp add: lives_on_def)

lemma lives_on_update:
  assumes "lives_on t0 t" "\<And>e. P e \<Longrightarrow> outlives e (f e)"
  shows "lives_on t0 (update_entities P f t)"
  unfolding lives_on_def
proof
  fix e assume "e \<in> set (entities t0)"
  then obtain e' where e': "e' \<in> set (entities t)" "outlives e e'"
    using assms(1) by (auto simp: lives_on_def)
  let ?e = "if P e' then f e' else e'"
  have "?e \<in> set (entities (update_entities P f t))"
    using e'(1) by (auto simp: update_entities_def)
  moreover have "outlives e ?e" using e' assms(2) by (auto intro: outlives_trans)
  ultimately show "\<exists>e'\<in>set (entities (update_entities P f t)). outlives e e'" by blast
qed

lemma lives_on_insert: "lives_on t0 t \<Longrightarrow> insert_entity_row e t = Inr (t', x) \<Longrightarrow> lives_on t0 t'"
  by (fastforce simp: insert_entity_row_def lives_on_def split: if_splits)

lemma lives_on_versioned:
  "lives_on t0 t \<Longrightarrow> versioned_update u nd c n ver now t = Inr (t', k) \<Longrightarrow> lives_on t0 t'"
  by (auto simp: versioned_update_def Let_def outlives_def live_def split: if_splits
      intro!: lives_on_update)

lemma upsert_relation_row_entities: "upsert_relation_row r t = Inr (t', x) \<Longrightarrow> entities t' = entities t"
  by (auto simp: upsert_relation_row_def Let_def split: if_splits option.splits)

lemma life_entity_stmts:
  "pres (lives_on t0) (q_InsertEntity ty d c ts n)" "pres (lives_on t0) (q_InsertEntityWithID u ty d c ts n)"
  "pres (lives_on t0) (q_UpdateEntityData u d c n ver)" "pres (lives_on t0) (q_MergeEntityData u d c n ver)"
  unfolding q_InsertEntity_def q_InsertEntityWithID_def q_UpdateEntityData_def q_MergeEntityData_def
  by (rule pres_exec, erule (1) lives_on_insert lives_on_versioned)+

lemma life_tag_stmts:
  "pres (lives_on t0) (q_DeleteEntity u)" "pres (lives_on t0) (q_SetEntityTags u mts)"
  "pres (lives_on t0) (q_AddEntityTags u ts)" "pres (lives_on t0) (q_RemoveEntityTag u tag)"
  "pres (lives_on t0) (q_UpdateEntityEmbedding u vec)"
  unfolding q_DeleteEntity_def q_SetEntityTags_def q_AddEntityTags_def q_RemoveEntityTag_def
    q_UpdateEntityEmbedding_def
  by (rule pres_exec, auto intro!: lives_on_update simp: outlives_def live_def
      split: option.splits if_splits)+

lemma pres_life_exec:
  "(\<And>now uid t t' x. f now uid t = Inr (t', x) \<Longrightarrow> entities t' = entities t) \<Longrightarrow> pres (lives_on t0) (exec f)"
  by (rule pres_exec) (blast intro: lives_on_same)

lemma pres_life_exec_one:
  "(\<And>now uid t t' x. f now uid t = Inr (t', x) \<Longrightarrow> entities t' = entities t) \<Longrightarrow> pres (lives_on t0) (exec_one f)"
  by (rule pres_exec_one) (blast intro: lives_on_same)

interpretation life: history_invariant "lives_on t0" for t0
  by unfold_locales
    (rule life_entity_stmts life_tag_stmts | unfold write_stmts q_InsertEvent_def Let_def,
      rule pres_life_exec pres_life_exec_one,
      auto simp: update_consumers_def dest: upsert_relation_row_entities
        split: if_splits option.splits; fail)+

end
