(* ===== verification/Transactions.thy ===== *)
theory Transactions
  imports Queries
begin

text \<open>
  All or nothing. A program is \<open>steady\<close> when it leaves the open transaction open, with its
  snapshot and its timestamp, and does not look at the snapshot; every program built from statements
  is. Wrapped by \<open>in_tx\<close>, such
  a program either has its whole effect or none, and nothing of it is visible before the commit.
\<close>

named_theorems steady_intros \<open>programs that stay inside the open transaction\<close>

definition same_tx :: "transaction \<Rightarrow> transaction \<Rightarrow> bool" where
  "same_tx T T' \<longleftrightarrow> tx_snapshot T' = tx_snapshot T \<and> tx_now T' = tx_now T \<and> (tx_aborted T \<longrightarrow> tx_aborted T')"

definition resnap :: "tables \<Rightarrow> db \<Rightarrow> db" where
  "resnap t s = s\<lparr>tx := map_option (\<lambda>T. T\<lparr>tx_snapshot := t\<rparr>) (tx s)\<rparr>"

definition steady :: "'a dbm \<Rightarrow> bool" where
  "steady m \<longleftrightarrow> (\<forall>s T. tx s = Some T \<longrightarrow> (\<exists>T'. tx (fst (m s)) = Some T' \<and> same_tx T T')
     \<and> (\<forall>t. m (resnap t s) = (resnap t (fst (m s)), snd (m s))))"

lemma resnap_simps [simp]:
  "tabs (resnap t s) = tabs s" "tick (resnap t s) = tick s" "fault (resnap t s) = fault s"
  "uuids (resnap t s) = uuids s" "clock (resnap t s) = clock s" "landed (resnap t s) = landed s"
  "tx (resnap t s) = map_option (\<lambda>T. T\<lparr>tx_snapshot := t\<rparr>) (tx s)"
  "next_tick (resnap t s) = resnap t (next_tick s)"
  by (simp_all add: resnap_def next_tick_def)

lemma same_tx_refl [simp]: "same_tx T T"
  by (simp add: same_tx_def)

lemma same_tx_trans: "same_tx T T' \<Longrightarrow> same_tx T' T'' \<Longrightarrow> same_tx T T''"
  by (simp add: same_tx_def)

lemma steadyI:
  "(\<And>s s' r T. tx s = Some T \<Longrightarrow> m s = (s', r) \<Longrightarrow> \<exists>T'. tx s' = Some T' \<and> same_tx T T') \<Longrightarrow>
   (\<And>s s' r T t. tx s = Some T \<Longrightarrow> m s = (s', r) \<Longrightarrow> m (resnap t s) = (resnap t s', r)) \<Longrightarrow> steady m"
  unfolding steady_def by (metis prod.collapse)

lemma steadyD: "steady m \<Longrightarrow> tx s = Some T \<Longrightarrow> m s = (s', r) \<Longrightarrow> \<exists>T'. tx s' = Some T' \<and> same_tx T T'"
  unfolding steady_def by (metis fst_conv)

lemma steady_resnap: "steady m \<Longrightarrow> tx s = Some T \<Longrightarrow> m s = (s', r) \<Longrightarrow> m (resnap t s) = (resnap t s', r)"
  unfolding steady_def by (metis fst_conv snd_conv)

lemma steady_resnap_eq: "steady m \<Longrightarrow> tx s \<noteq> None \<Longrightarrow> m (resnap t s) = (resnap t (fst (m s)), snd (m s))"
  unfolding steady_def by auto

lemma steady_dret [steady_intros]: "steady (dret x)"
  by (rule steadyI) (auto simp: dret_def)

lemma steady_dfail [steady_intros]: "steady (dfail e)"
  by (rule steadyI) (auto simp: dfail_def)

lemma steady_dlift [steady_intros]: "steady (dlift r)"
  by (rule steadyI) (auto simp: dlift_def)

lemma steady_dbind [steady_intros]:
  assumes "steady m" "\<And>x. steady (f x)"
  shows "steady (dbind m f)"
proof (rule steadyI)
  fix s s' r T
  assume t: "tx s = Some T" and d: "dbind m f s = (s', r)"
  obtain s1 r1 where m: "m s = (s1, r1)" by fastforce
  obtain T1 where T1: "tx s1 = Some T1" "same_tx T T1" using steadyD [OF assms(1) t m] by blast
  show "\<exists>T'. tx s' = Some T' \<and> same_tx T T'"
  proof (cases r1)
    case (Inl e)
    then show ?thesis using d m T1 by (simp add: dbind_def)
  next
    case (Inr x)
    then have "f x s1 = (s', r)" using d m by (simp add: dbind_def)
    with steadyD [OF assms(2) T1(1)] T1(2) show ?thesis by (metis same_tx_trans)
  qed
next
  fix s s' r T t
  assume t: "tx s = Some T" and d: "dbind m f s = (s', r)"
  obtain s1 r1 where m: "m s = (s1, r1)" by fastforce
  obtain T1 where T1: "tx s1 = Some T1" using steadyD [OF assms(1) t m] by blast
  have m': "m (resnap t s) = (resnap t s1, r1)" by (rule steady_resnap [OF assms(1) t m])
  show "dbind m f (resnap t s) = (resnap t s', r)"
    using d m m' steady_resnap [OF assms(2) T1] by (cases r1) (auto simp: dbind_def)
qed

lemma steady_dwrap [steady_intros]: "steady m \<Longrightarrow> steady (dwrap w m)"
  by (rule steadyI) (auto simp: dwrap_def steady_resnap_eq split: prod.splits dest: steadyD)

lemma steady_dmap [steady_intros]: "steady m \<Longrightarrow> steady (dmap f m)"
  unfolding dmap_def by (intro steady_intros)

lemma steady_if [steady_intros]: "steady m \<Longrightarrow> steady m' \<Longrightarrow> steady (if b then m else m')"
  by simp

lemma steady_option [steady_intros]:
  "steady m \<Longrightarrow> (\<And>x. steady (f x)) \<Longrightarrow> steady (case v of None \<Rightarrow> m | Some x \<Rightarrow> f x)"
  by (cases v) simp_all

lemma steady_list [steady_intros]:
  "steady m \<Longrightarrow> (\<And>x xs. steady (f x xs)) \<Longrightarrow> steady (case v of [] \<Rightarrow> m | x # xs \<Rightarrow> f x xs)"
  by (cases v) simp_all

lemma steady_prod [steady_intros]: "(\<And>x y. steady (f x y)) \<Longrightarrow> steady (case v of (x, y) \<Rightarrow> f x y)"
  by (cases v) simp

lemma steady_let [steady_intros]: "(\<And>x. steady (f x)) \<Longrightarrow> steady (let x = v in f x)"
  by simp

text \<open>Every statement is steady.\<close>

lemma steady_exec [steady_intros]: "steady (exec f)"
  by (rule steadyI)
    (auto simp: exec_def exec_tx_def next_tick_def same_tx_def resnap_def split: if_splits sum.splits)

lemma steady_exec_one [steady_intros]: "steady (exec_one f)"
  unfolding exec_one_def by (intro steady_intros)

lemmas stmt_defs = select_def select_one_def select_limit_def
  q_InsertEntity_def q_InsertEntityWithID_def q_UpdateEntityData_def q_MergeEntityData_def
  q_DeleteEntity_def q_HardDeleteEntity_def q_GetEntity_def q_GetEntitiesByType_def
  q_GetEntitiesByTypeFiltered_def q_SearchByDisplayName_def q_SetEntityTags_def q_AddEntityTags_def
  q_RemoveEntityTag_def q_UpsertAnchor_def q_FindByAnchors_def q_GetAnchorsForEntity_def
  q_UpsertTokens_def q_FindByTokenOverlap_def q_UpdateEntityEmbedding_def q_FindByEmbedding_def
  q_UpsertRelation_def q_GetRelationsFromEntity_def q_GetRelationsToEntity_def
  q_DeleteRelationByKey_def q_UpdateRelationData_def q_ConnectedEntities_def
  q_FindConnectedByTypeOutbound_def q_FindConnectedByTypeInbound_def
  q_FindEntitiesByRelationSource_def q_FindEntitiesByRelationTarget_def q_InsertEvent_def
  q_GetEventByID_def q_GetAllEvents_def q_GetEventsForEntity_def q_GetEventsAfterCursor_def
  q_GetConsumerCursor_def q_AdvanceConsumerCursor_def q_InsertDeadLetter_def

section \<open>The transaction bracket\<close>

definition started :: "db \<Rightarrow> db" where
  "started s = (next_tick s)\<lparr>tx := Some \<lparr>tx_snapshot = tabs s, tx_now = clock s (tick s), tx_aborted = False\<rparr>\<rparr>"

lemma in_tx_cases:
  assumes "in_tx False wc body s = (s', r)" "steady body" "tx s = None"
  obtains (not_begun) "r = Inl (Wrap ''begin tx'' (ErrDb StatementFailed))" "s' = next_tick s"
  | (rolled_back) s2 e where "body (started s) = (s2, Inl e)" "r = Inl e" "tabs s' = tabs s" "tx s' = None"
  | (not_committed) s2 x e where "body (started s) = (s2, Inr x)" "r = Inl (wc (ErrDb e))"
      "tabs s' = tabs s \<or> tabs s' = tabs s2 \<and> e = StatementFailed" "tx s' = None"
  | (committed) s2 x where "body (started s) = (s2, Inr x)" "r = Inr x" "tabs s' = tabs s2" "tx s' = None"
proof (cases "fault s (tick s)")
  case True
  then show thesis using assms(1) not_begun
    by (simp add: in_tx_def dwrap_def begin_tx_def)
next
  case False
  then have b: "dwrap (Wrap ''begin tx'') begin_tx s = (started s, Inr ())"
    by (simp add: dwrap_def begin_tx_def started_def)
  obtain s2 r2 where s2: "body (started s) = (s2, r2)" by fastforce
  obtain T where T: "tx s2 = Some T" "tx_snapshot T = tabs s"
    using steadyD [OF assms(2) _ s2] by (fastforce simp: started_def same_tx_def)
  show thesis
  proof (cases r2)
    case (Inl e)
    then have "s' = rollback_tx s2" "r = Inl e" using assms(1) b s2 by (simp_all add: in_tx_def)
    with T s2 Inl show ?thesis by (auto simp: rollback_tx_def intro: rolled_back)
  next
    case (Inr x)
    obtain s3 r3 where c: "commit_tx s2 = (s3, r3)" by fastforce
    have s': "s' = s3" "r = (case r3 of Inl e \<Rightarrow> Inl (wc e) | Inr _ \<Rightarrow> Inr x)"
      using assms(1) b s2 Inr c by (auto simp: in_tx_def dwrap_def split: sum.splits)
    show ?thesis
    proof (cases r3)
      case (Inl e)
      then obtain d where d: "e = ErrDb d" "tx s3 = None"
          "tabs s3 = tabs s \<or> tabs s3 = tabs s2 \<and> d = StatementFailed"
        using c T by (auto simp: commit_tx_def rollback_tx_def next_tick_def split: if_splits)
      then show ?thesis using not_committed [of s2 x d] s2 Inr Inl s' by simp
    next
      case (Inr _)
      then have "tx s3 = None" "tabs s3 = tabs s2"
        using c T by (auto simp: commit_tx_def next_tick_def split: if_splits)
      then show ?thesis using committed [of s2 x] s2 \<open>r2 = Inr x\<close> Inr s' by simp
    qed
  qed
qed

end
