(* ===== verification/Events.thy ===== *)
theory Events
  imports Invariant Transactions
begin

text \<open>
  \<open>src/store/events.go\<close>: the event records handed to callers, event names, the insertion of a
  list of events within the current transaction, and the event queries.
\<close>

section \<open>Event records\<close>

record Event =
  ev_ID :: string
  ev_EventType :: string
  ev_PayloadType :: string
  ev_Payload :: "proto_msg option"
  ev_RawPayload :: RawMessage
  ev_EntityID :: string
  ev_EntityType :: string
  ev_EntityDisplayName :: string
  ev_RelationKey :: string
  ev_Tags :: "string list"
  ev_OccurredAt :: time
  ev_PublishedAt :: "time option"

record EventQueryOpts =
  eo_EventTypes :: "string list"
  eo_Since :: time
  eo_Limit :: int

definition text_or_empty :: "string option \<Rightarrow> string" where
  "text_or_empty v = (case v of None \<Rightarrow> [] | Some s \<Rightarrow> s)"

definition toEvent :: "lib \<Rightarrow> EntityEvent \<Rightarrow> Event" where
  "toEvent L row =
     \<lparr>ev_ID = uuid_String L (v_id row), ev_EventType = v_event_type row,
      ev_PayloadType = v_payload_type row,
      ev_Payload = protojson_Unmarshal L (v_payload_type row) (v_payload row),
      ev_RawPayload = Some (v_payload row),
      ev_EntityID = text_or_empty (map_option (uuid_String L) (v_entity_id row)),
      ev_EntityType = v_entity_type row, ev_EntityDisplayName = [],
      ev_RelationKey = text_or_empty (v_relation_key row), ev_Tags = v_tags row,
      ev_OccurredAt = v_occurred_at row, ev_PublishedAt = v_published_at row\<rparr>"

definition eventFromAllEventsRow :: "lib \<Rightarrow> EntityEvent \<times> string \<Rightarrow> Event" where
  "eventFromAllEventsRow L row = (toEvent L (fst row))\<lparr>ev_EntityDisplayName := snd row\<rparr>"

section \<open>Event names\<close>

definition deriveEventType :: "string \<Rightarrow> string" where
  "deriveEventType fullName =
     (let parts = split_on CHR ''.'' fullName in
      if length parts < 3 then fullName
      else join ''.'' (take (length parts - 2) parts @ [parts ! (length parts - 1)]))"

definition relationKeyStr :: "lib \<Rightarrow> uuid \<Rightarrow> uuid \<Rightarrow> string \<Rightarrow> string" where
  "relationKeyStr L source target relationType =
     uuid_String L source @ '':'' @ uuid_String L target @ '':'' @ relationType"

section \<open>Insertion\<close>

text \<open>\<open>uuid.NewV7\<close> is no statement: its failure leaves the transaction alive.\<close>

definition NewV7 :: "uuid dbm" where
  "NewV7 s = (next_tick s, if fault s (tick s) then Inl (Msg ''rand'' []) else Inr (uuids s (tick s)))"

fun insertEvents :: "lib \<Rightarrow> uuid \<Rightarrow> string \<Rightarrow> string list \<Rightarrow> string \<Rightarrow> proto_msg list \<Rightarrow> unit dbm" where
  "insertEvents L entityID relationKey tags entityType [] = dret ()"
| "insertEvents L entityID relationKey tags entityType (evt # evts) =
     (case protojson_Marshal L evt of
        None \<Rightarrow> dfail (Wrap ''marshal event'' (Msg ''protojson'' []))
      | Some body \<Rightarrow>
          dbind (dwrap (Wrap ''generate event id'') NewV7) (\<lambda>uid.
          dbind (dwrap (Wrap ''insert event'')
            (q_InsertEvent uid (deriveEventType (MessageName evt)) (MessageName evt) body
               (if entityID \<noteq> uuid_Nil then Some entityID else None)
               (if relationKey \<noteq> [] then Some relationKey else None) tags entityType)) (\<lambda>_.
          insertEvents L entityID relationKey tags entityType evts)))"

section \<open>Queries\<close>

definition parse_id :: "lib \<Rightarrow> string \<Rightarrow> string \<Rightarrow> uuid dbm" where
  "parse_id L what s = (case uuid_Parse L s of
     None \<Rightarrow> dfail (Wrap (''parse '' @ what) (Msg ''invalid UUID'' []))
   | Some u \<Rightarrow> dret u)"

definition GetEventByID :: "lib \<Rightarrow> string \<Rightarrow> Event dbm" where
  "GetEventByID L eventID = dbind (parse_id L ''event id'' eventID) (\<lambda>uid.
     dmap (toEvent L) (dwrap (Wrap ''get event'') (q_GetEventByID uid)))"

definition event_limit :: "int \<Rightarrow> EventQueryOpts option \<Rightarrow> int" where
  "event_limit dflt opts = (case opts of None \<Rightarrow> dflt
     | Some q \<Rightarrow> if 0 < eo_Limit q then int32 (eo_Limit q) else dflt)"

definition event_types :: "EventQueryOpts option \<Rightarrow> string list" where
  "event_types opts = (case opts of None \<Rightarrow> [] | Some q \<Rightarrow> eo_EventTypes q)"

definition event_since :: "EventQueryOpts option \<Rightarrow> time" where
  "event_since opts = (case opts of None \<Rightarrow> 0 | Some q \<Rightarrow> eo_Since q)"

definition GetEventsForEntity :: "lib \<Rightarrow> string \<Rightarrow> EventQueryOpts option \<Rightarrow> Event list dbm" where
  "GetEventsForEntity L entityID opts = dbind (parse_id L ''entity id'' entityID) (\<lambda>uid.
     dmap (map (toEvent L)) (dwrap (Wrap ''get events'')
       (q_GetEventsForEntity uid (event_types opts) (event_since opts) (event_limit 100 opts))))"

definition GetAllEvents :: "lib \<Rightarrow> EventQueryOpts option \<Rightarrow> time option \<Rightarrow> Event list dbm" where
  "GetAllEvents L opts cursor =
     dmap (map (eventFromAllEventsRow L)) (dwrap (Wrap ''get all events'')
       (q_GetAllEvents (event_types opts) cursor (event_limit 50 opts)))"

section \<open>What insertion does\<close>

text \<open>A program that succeeded inside a transaction ran every statement: none was aborted.\<close>

definition in_live_tx :: "db \<Rightarrow> bool" where
  "in_live_tx s \<longleftrightarrow> (\<exists>T. tx s = Some T \<and> \<not> tx_aborted T)"

text \<open>A statement never looks at the snapshot, so that an invariant of the tables alone is kept.\<close>

lemma keeps_in_tx:
  assumes "steady m" "pres I m" "m s = (s', r)" "tx s = Some T" "I (tabs s)"
  shows "I (tabs s')"
proof -
  have "good I (resnap (tabs s) s)" using assms(4,5) by (simp add: good_def)
  from presD [OF assms(2) this steady_resnap [OF assms(1,4,3)]] show ?thesis by (simp add: good_def)
qed

lemma exec_Inr:
  assumes "exec f s = (s', Inr x)"
  obtains now t where "f now (uuids s (tick s)) (tabs s) = Inr (t, x)" "s' = (next_tick s)\<lparr>tabs := t\<rparr>"
    "now = (case tx s of Some T \<Rightarrow> tx_now T | None \<Rightarrow> clock s (tick s))"
    "case tx s of Some T \<Rightarrow> \<not> tx_aborted T | None \<Rightarrow> True"
  using assms
  by (auto simp: exec_def exec_tx_def exec_auto_def split: option.splits if_splits sum.splits)

lemma exec_one_Inr:
  assumes "exec_one f s = (s', Inr x)"
  obtains now t rows where "f now (uuids s (tick s)) (tabs s) = Inr (t, x # rows)"
    "s' = (next_tick s)\<lparr>tabs := t\<rparr>"
    "now = (case tx s of Some T \<Rightarrow> tx_now T | None \<Rightarrow> clock s (tick s))"
proof -
  from assms obtain s1 rows where 1: "exec f s = (s1, Inr rows)"
    and 2: "(case rows of [] \<Rightarrow> dfail (ErrDb NoRows) | r # _ \<Rightarrow> dret r) s1 = (s', Inr x)"
    by (auto simp: exec_one_def dbind_Inr_iff)
  from 2 obtain rs where rs: "rows = x # rs" "s' = s1" by (auto split: list.splits)
  show thesis by (rule exec_Inr [OF 1]) (use rs that in auto)
qed

lemma select_Inr: "select r s = (s', Inr x) \<Longrightarrow> s' = next_tick s \<and> x = r (tabs s)"
  unfolding select_def by (erule exec_Inr) (auto simp: next_tick_def)

lemma select_one_Inr:
  "select_one r s = (s', Inr x) \<Longrightarrow> s' = next_tick s \<and> (\<exists>rest. r (tabs s) = x # rest)"
  unfolding select_one_def by (erule exec_one_Inr) (auto simp: next_tick_def)

lemma select_limit_Inr:
  "select_limit n r s = (s', Inr x) \<Longrightarrow> s' = next_tick s \<and> 0 \<le> n \<and> x = take (nat n) (r (tabs s))"
  unfolding select_limit_def by (erule exec_Inr) (auto simp: next_tick_def split: if_splits)

definition event_row_for :: "lib \<Rightarrow> uuid \<Rightarrow> string \<Rightarrow> string list \<Rightarrow> string \<Rightarrow> time \<Rightarrow> proto_msg \<Rightarrow> EntityEvent \<Rightarrow> bool" where
  "event_row_for L entityID relationKey tags entityType now evt v \<longleftrightarrow>
     v_event_type v = deriveEventType (MessageName evt) \<and> v_payload_type v = MessageName evt
   \<and> Some (v_payload v) = protojson_Marshal L evt
   \<and> v_entity_id v = (if entityID \<noteq> uuid_Nil then Some entityID else None)
   \<and> v_relation_key v = (if relationKey \<noteq> [] then Some relationKey else None)
   \<and> v_tags v = tags \<and> v_entity_type v = entityType \<and> v_occurred_at v = now \<and> v_published_at v = None"

lemma insertEvents_appends:
  assumes "insertEvents L u rk tags ty evts s = (s', Inr ())" "tx s = Some T"
  shows "tx s' = Some T \<and> (\<exists>vs. tabs s' = (tabs s)\<lparr>events := events (tabs s) @ vs\<rparr>
     \<and> list_all2 (event_row_for L u rk tags ty (tx_now T)) evts vs)"
  using assms
proof (induction evts arbitrary: s)
  case Nil
  then show ?case by simp
next
  case (Cons evt evts)
  obtain body where body: "protojson_Marshal L evt = Some body"
    using Cons.prems(1) by (auto split: option.splits)
  obtain s1 uid s2 where 1: "NewV7 s = (s1, Inr uid)"
    and 2: "q_InsertEvent uid (deriveEventType (MessageName evt)) (MessageName evt) body
        (if u \<noteq> uuid_Nil then Some u else None) (if rk \<noteq> [] then Some rk else None) tags ty s1 = (s2, Inr ())"
    and 3: "insertEvents L u rk tags ty evts s2 = (s', Inr ())"
    using Cons.prems(1) body by (auto simp: dbind_Inr_iff)
  have s1: "s1 = next_tick s" using 1 by (auto simp: NewV7_def split: if_splits)
  obtain v where s2: "s2 = (next_tick s1)\<lparr>tabs := (tabs s)\<lparr>events := events (tabs s) @ [v]\<rparr>\<rparr>"
    and v: "event_row_for L u rk tags ty (tx_now T) evt v"
    using 2 unfolding q_InsertEvent_def
    by (elim exec_Inr) (auto simp: event_row_for_def body s1 Cons.prems(2) next_tick_def split: if_splits)
  have "tx s2 = Some T" using Cons.prems(2) by (simp add: s2 s1 next_tick_def)
  from Cons.IH [OF 3 this] obtain vs where vs: "tx s' = Some T"
    "tabs s' = (tabs s2)\<lparr>events := events (tabs s2) @ vs\<rparr>"
    "list_all2 (event_row_for L u rk tags ty (tx_now T)) evts vs" by blast
  have "tabs s' = (tabs s)\<lparr>events := events (tabs s) @ (v # vs)\<rparr>" using vs(2) by (simp add: s2)
  then show ?case using vs(1,3) v by blast
qed

lemma steady_NewV7 [steady_intros]: "steady NewV7"
  by (rule steadyI) (auto simp: NewV7_def next_tick_def resnap_def)

lemma steady_insertEvents [steady_intros]: "steady (insertEvents L u rk tags ty evts)"
  by (induction evts) (simp_all only: insertEvents.simps q_InsertEvent_def, (intro steady_intros; assumption?)+)

lemma steady_parse_id [steady_intros]: "steady (parse_id L what s)"
  unfolding parse_id_def by (intro steady_intros)

lemma pres_parse_id [pres_intros]: "pres I (parse_id L what s)"
  unfolding parse_id_def by (intro pres_intros)

lemma parse_id_Inr [simp]: "parse_id L what i s = (s', Inr u) \<longleftrightarrow> s' = s \<and> uuid_Parse L i = Some u"
  by (auto simp: parse_id_def split: option.splits)

context history_invariant
begin

lemma keeps_NewV7 [pres_intros]: "pres I NewV7"
  by (rule presI) (auto simp: NewV7_def)

lemma keeps_insertEvents [pres_intros]: "pres I (insertEvents L u rk tags ty evts)"
proof (induction evts)
  case (Cons evt evts)
  then show ?case
    by (simp only: insertEvents.simps) (intro pres_intros)
qed (simp add: pres_dret)

end

section \<open>Names and queries\<close>

text \<open>The event type of a message is its full name without the version segment, the one
  before the last; the other segments keep their order.\<close>

theorem deriveEventType_strips:
  assumes "ps \<noteq> []" "\<forall>p\<in>set (ps @ [v, n]). CHR ''.'' \<notin> set p"
  shows "deriveEventType (join ''.'' (ps @ [v, n])) = join ''.'' (ps @ [n])"
proof -
  have "split_on CHR ''.'' (join [CHR ''.''] (ps @ [v, n])) = ps @ [v, n]"
    using assms by (intro split_join) auto
  moreover have "\<not> length (ps @ [v, n]) < 3" using assms(1) by (cases ps) auto
  ultimately show ?thesis by (simp add: deriveEventType_def Let_def nth_append)
qed

theorem deriveEventType_strips_witness:
  "deriveEventType ''entitystore.events.v1.EntityCreated'' = ''entitystore.events.EntityCreated''"
  using deriveEventType_strips [of "[''entitystore'', ''events'']" "''v1''" "''EntityCreated''"]
  by simp

lemma sort_key_neg_desc: "sorted_wrt (\<lambda>x y. f y \<le> f x) (sort_key (\<lambda>x. - f x :: int) xs)"
  using sorted_sort_key [of "\<lambda>x. - f x" xs] by (simp add: sorted_map)

text \<open>The \<open>n\<close> first rows of a descending order: what they leave out is not newer.\<close>

lemma take_sort_key_complete:
  fixes f :: "'a \<Rightarrow> int" and n :: nat
  assumes "x \<in> set xs"
  defines "ys \<equiv> take n (sort_key (\<lambda>x. - f x) xs)"
  shows "x \<in> set ys \<or> length ys = n \<and> (\<forall>y\<in>set ys. f x \<le> f y)"
proof (rule disjCI)
  let ?zs = "sort_key (\<lambda>x. - f x) xs"
  assume n: "\<not> (length ys = n \<and> (\<forall>y\<in>set ys. f x \<le> f y))"
  have x: "x \<in> set ?zs" using assms(1) by simp
  show "x \<in> set ys"
  proof (rule ccontr)
    assume "x \<notin> set ys"
    then have d: "x \<in> set (drop n ?zs)" using x unfolding ys_def by (metis Un_iff append_take_drop_id set_append)
    then have "n \<le> length ?zs" by (cases "n \<le> length ?zs") auto
    then have "length ys = n" by (simp add: ys_def)
    moreover have "\<forall>y\<in>set ys. f x \<le> f y"
      using sort_key_neg_desc [of f xs] d unfolding ys_def
      by (metis append_take_drop_id sorted_wrt_append)
    ultimately show False using n by blast
  qed
qed

text \<open>\<open>GetEventsForEntity\<close> reads only: on success it returns events of that entity and of
  the wanted types, newest first, at most the limit (100 by default), and an event of the entity
  it leaves out is not newer than any event returned, with a full page.\<close>

theorem GetEventsForEntity_newest:
  assumes "GetEventsForEntity L entityID opts s = (s', Inr es)"
  shows "tabs s' = tabs s \<and> (\<exists>u. uuid_Parse L entityID = Some u
    \<and> sorted_wrt (\<lambda>a b. ev_OccurredAt b \<le> ev_OccurredAt a) es
    \<and> int (length es) \<le> event_limit 100 opts
    \<and> (\<forall>e\<in>set es. ev_EntityID e = uuid_String L u)
    \<and> (\<forall>v\<in>set (events (tabs s)). v_entity_id v = Some u
         \<and> (event_types opts = [] \<or> v_event_type v \<in> set (event_types opts))
         \<and> (event_since opts = 0 \<or> event_since opts < v_occurred_at v)
       \<longrightarrow> toEvent L v \<in> set es
         \<or> int (length es) = event_limit 100 opts \<and> (\<forall>e\<in>set es. v_occurred_at v \<le> ev_OccurredAt e)))"
proof -
  let ?n = "event_limit 100 opts"
  from assms obtain u rows where u: "uuid_Parse L entityID = Some u"
    and q: "q_GetEventsForEntity u (event_types opts) (event_since opts) ?n s = (s', Inr rows)"
    and es: "es = map (toEvent L) rows"
    by (auto simp: GetEventsForEntity_def parse_id_def dbind_Inr_iff dmap_Inr_iff split: option.splits)
  let ?P = "\<lambda>v. v_entity_id v = Some u \<and> (event_types opts = [] \<or> v_event_type v \<in> set (event_types opts))
    \<and> (event_since opts = 0 \<or> event_since opts < v_occurred_at v)"
  have r: "rows = take (nat ?n) (sort_key (\<lambda>v. - v_occurred_at v) (filter ?P (events (tabs s))))"
    and n: "0 \<le> ?n" and s': "tabs s' = tabs s"
    using select_limit_Inr [OF q [unfolded q_GetEventsForEntity_def]]
    by (auto simp: newest_events_def next_tick_def)
  have "sorted_wrt (\<lambda>a b. v_occurred_at b \<le> v_occurred_at a) rows"
    unfolding r by (intro sorted_wrt_take sort_key_neg_desc)
  then have "sorted_wrt (\<lambda>a b. ev_OccurredAt b \<le> ev_OccurredAt a) es"
    by (simp add: es sorted_wrt_map toEvent_def)
  moreover have "int (length es) \<le> ?n" using n by (simp add: es r)
  moreover have "\<forall>e\<in>set es. ev_EntityID e = uuid_String L u"
    using r by (auto simp: es toEvent_def text_or_empty_def dest!: in_set_takeD)
  moreover have "toEvent L v \<in> set es
      \<or> int (length es) = ?n \<and> (\<forall>e\<in>set es. v_occurred_at v \<le> ev_OccurredAt e)"
    if "v \<in> set (events (tabs s))" "?P v" for v
  proof -
    have "v \<in> set (filter ?P (events (tabs s)))" using that by simp
    from take_sort_key_complete [OF this, of "nat ?n" v_occurred_at] show ?thesis
      using n unfolding r [symmetric] by (auto simp: es toEvent_def)
  qed
  ultimately show ?thesis using s' u by blast
qed

theorem GetEventsForEntity_newest_witness:
  "\<exists>s' es. GetEventsForEntity demo_lib ''u'' None demo_db = (s', Inr es)
     \<and> tabs s' = empty_tables \<and> sorted_wrt (\<lambda>a b. ev_OccurredAt b \<le> ev_OccurredAt a) es"
proof -
  have "GetEventsForEntity demo_lib ''u'' None demo_db = (next_tick demo_db, Inr [])"
    by (simp add: GetEventsForEntity_def parse_id_def unary_parse_def dbind_simps dmap_def dbind_def
        dwrap_def dret_def q_GetEventsForEntity_def select_limit_def exec_def exec_auto_def
        event_limit_def newest_events_def empty_tables_def next_tick_def)
  from GetEventsForEntity_newest [OF this] this show ?thesis by auto
qed

end
