(* ===== verification/Store_Write.thy ===== *)
theory Store_Write
  imports Events
begin

text \<open>
  \<open>src/store/store_write.go\<close>, \<open>validate.go\<close>, \<open>write_options.go\<close> and the row conversions of
  \<open>store.go\<close>: batches of entity writes and relation upserts with preconditions and optimistic
  locking, deletion, and the events written in the same transaction.

  A \<open>Store\<close> has the fields of the struct; its transaction is reduced to what the methods branch on: whether it runs
  inside a transaction of the caller (\<open>s.tx != nil\<close>). Pools and loggers are opaque handles.
\<close>

section \<open>Rows to records\<close>

type_synonym pool = nat
type_synonym logger = nat

record Store =
  st_pool :: pool
  st_ownPool :: bool
  st_external :: bool
  st_log :: logger

text \<open>The copy does not own the pool: the struct literal leaves \<open>ownPool\<close> at its zero value.\<close>

definition WithTx :: "Store \<Rightarrow> Store" where
  "WithTx s = \<lparr>st_pool = st_pool s, st_ownPool = False, st_external = True, st_log = st_log s\<rparr>"

definition demo_store :: Store where
  "demo_store = \<lparr>st_pool = 0, st_ownPool = False, st_external = False, st_log = 0\<rparr>"

lemma demo_store_simps [simp]: "\<not> st_external demo_store"
  by (simp add: demo_store_def)

definition entityFromRow :: "lib \<Rightarrow> Entity \<Rightarrow> StoredEntity" where
  "entityFromRow L e =
     \<lparr>se_ID = uuid_String L (e_id e), se_EntityType = e_type e, se_Data = Some (e_data e),
      se_Confidence = e_confidence e, se_Tags = e_tags e, se_DisplayName = e_display_name e,
      se_Version = e_version e, se_CreatedAt = e_created_at e, se_UpdatedAt = e_updated_at e\<rparr>"

definition relationFromRow :: "lib \<Rightarrow> EntityRelation \<Rightarrow> StoredRelation" where
  "relationFromRow L r =
     \<lparr>sr_ID = uuid_String L (r_id r), sr_SourceID = uuid_String L (r_source r),
      sr_TargetID = uuid_String L (r_target r), sr_RelationType = r_type r,
      sr_Confidence = r_confidence r, sr_Evidence = text_or_empty (r_evidence r),
      sr_Implied = r_implied r, sr_SourceURN = text_or_empty (r_urn r), sr_DataType = r_data_type r,
      sr_Data = (if r_data r \<noteq> JObj [] then Some (r_data r) else None),
      sr_CreatedAt = r_created_at r\<rparr>"

section \<open>Validation\<close>

definition MaxBatchSize :: nat where "MaxBatchSize = 1000"
definition maxTagLength :: nat where "maxTagLength = 255"
definition maxTagsPerEntity :: nat where "maxTagsPerEntity = 100"
definition maxRelationType :: nat where "maxRelationType = 255"

fun validate_each_tag :: "string list \<Rightarrow> err + unit" where
  "validate_each_tag [] = Inr ()"
| "validate_each_tag (t # ts) =
     (if t = [] then Inl (Msg ''empty tag not allowed'' [])
      else if maxTagLength < length t then Inl (Msg ''tag too long'' [int (length t), int maxTagLength])
      else validate_each_tag ts)"

definition validateTags :: "string list \<Rightarrow> err + unit" where
  "validateTags tags =
     (if maxTagsPerEntity < length tags
      then Inl (Msg ''too many tags'' [int (length tags), int maxTagsPerEntity])
      else validate_each_tag tags)"

definition validateRelationType :: "string \<Rightarrow> err + unit" where
  "validateRelationType rt =
     (if rt = [] then Inl (Msg ''relation type must not be empty'' [])
      else if maxRelationType < length rt
      then Inl (Msg ''relation type too long'' [int (length rt), int maxRelationType])
      else Inr ())"

section \<open>Operations\<close>

text \<open>\<open>WriteAction\<close> is an \<open>int\<close>; values other than the three constants are possible.\<close>

type_synonym WriteAction = int

definition WriteActionCreate :: WriteAction where "WriteActionCreate = 1"
definition WriteActionUpdate :: WriteAction where "WriteActionUpdate = 2"
definition WriteActionMerge :: WriteAction where "WriteActionMerge = 3"

record WriteEntityOp =
  wo_Action :: WriteAction
  wo_ID :: string
  wo_Data :: "proto_msg option"
  wo_Confidence :: float64
  wo_Tags :: "string list"
  wo_MatchedEntityID :: string
  wo_Anchors :: "AnchorQuery list"
  wo_Tokens :: "(string \<times> string list option) list"
  wo_Embedding :: "vec option"
  wo_DisplayName :: string
  wo_Version :: int
  wo_Events :: "proto_msg list"

record UpsertRelationOp =
  ur_SourceID :: string
  ur_TargetID :: string
  ur_RelationType :: string
  ur_Confidence :: float64
  ur_Evidence :: string
  ur_Implied :: bool
  ur_SourceURN :: string
  ur_Data :: "proto_msg option"
  ur_Events :: "proto_msg list"

record BatchWriteOp =
  bo_WriteEntity :: "WriteEntityOp option"
  bo_UpsertRelation :: "UpsertRelationOp option"
  bo_PreConditions :: "PreCondition list"

record BatchWriteResult =
  br_Entity :: "StoredEntity option"
  br_Relation :: "StoredRelation option"

datatype WriteOpOption = WithMatchedEntityID string | WithConfidence float64 | WithTags "string list"
  | WithEmbedding "vec option" | WithID string | WithVersion int | WithDisplayName string
  | WithEvents "proto_msg list"

fun apply_WriteOpOption :: "WriteEntityOp \<Rightarrow> WriteOpOption \<Rightarrow> WriteEntityOp" where
  "apply_WriteOpOption opr (WithMatchedEntityID i) = opr\<lparr>wo_MatchedEntityID := i\<rparr>"
| "apply_WriteOpOption opr (WithConfidence c) = opr\<lparr>wo_Confidence := c\<rparr>"
| "apply_WriteOpOption opr (WithTags ts) = opr\<lparr>wo_Tags := ts\<rparr>"
| "apply_WriteOpOption opr (WithEmbedding v) = opr\<lparr>wo_Embedding := v\<rparr>"
| "apply_WriteOpOption opr (WithID i) = opr\<lparr>wo_ID := i\<rparr>"
| "apply_WriteOpOption opr (WithVersion v) = opr\<lparr>wo_Version := v\<rparr>"
| "apply_WriteOpOption opr (WithDisplayName n) = opr\<lparr>wo_DisplayName := n\<rparr>"
| "apply_WriteOpOption opr (WithEvents es) = opr\<lparr>wo_Events := wo_Events opr @ es\<rparr>"

section \<open>Preconditions\<close>

fun find_anchor_rows :: "string \<Rightarrow> string list \<Rightarrow> string list \<Rightarrow> string \<Rightarrow> string list \<Rightarrow> AnchorQuery list \<Rightarrow>
    Entity list dbm" where
  "find_anchor_rows ty tags anyTags excl unless [] = dret []"
| "find_anchor_rows ty tags anyTags excl unless (aq # aqs) =
     dbind (dwrap (Wrap (''find by anchor '' @ aq_Field aq @ ''='' @ aq_Value aq))
       (q_FindByAnchors ty (aq_Field aq) (aq_Value aq) tags anyTags excl unless)) (\<lambda>rows.
     dbind (find_anchor_rows ty tags anyTags excl unless aqs) (\<lambda>rest. dret (rows @ rest)))"

text \<open>One \<open>seen\<close> map over all anchors.\<close>

definition findByAnchorsTx :: "lib \<Rightarrow> string \<Rightarrow> AnchorQuery list \<Rightarrow> StoredEntity list dbm" where
  "findByAnchorsTx L entityType as =
     dmap (\<lambda>rows. map (entityFromRow L) (dedup_by e_id rows))
       (find_anchor_rows entityType [] [] [] [] as)"

definition entitiesHaveTag :: "StoredEntity list \<Rightarrow> string \<Rightarrow> bool" where
  "entitiesHaveTag es tag = list_ex (\<lambda>e. tag \<in> set (se_Tags e)) es"

fun evaluatePreConditions :: "lib \<Rightarrow> nat \<Rightarrow> PreCondition list \<Rightarrow> unit dbm" where
  "evaluatePreConditions L opIndex [] = dret ()"
| "evaluatePreConditions L opIndex (pc # pcs) =
     (if pc_MustExist pc \<and> pc_MustNotExist pc
      then dfail (Msg ''precondition: MustExist and MustNotExist are mutually exclusive'' [int opIndex])
      else dbind (dwrap (WrapOp opIndex ''precondition query'')
                   (findByAnchorsTx L (pc_EntityType pc) (pc_Anchors pc))) (\<lambda>es.
        if pc_MustExist pc \<and> es = [] then dfail (PreConditionError opIndex pc ''not_found'')
        else if pc_MustNotExist pc \<and> es \<noteq> [] then dfail (PreConditionError opIndex pc ''already_exists'')
        else if pc_TagRequired pc \<noteq> [] \<and> \<not> entitiesHaveTag es (pc_TagRequired pc)
          then dfail (PreConditionError opIndex pc ''tag_required'')
        else if pc_TagForbidden pc \<noteq> [] \<and> entitiesHaveTag es (pc_TagForbidden pc)
          then dfail (PreConditionError opIndex pc ''tag_forbidden'')
        else evaluatePreConditions L opIndex pcs))"

section \<open>Entity writes\<close>

definition marshalEntityData :: "lib \<Rightarrow> WriteEntityOp \<Rightarrow> err + string \<times> json" where
  "marshalEntityData L opr = (case wo_Data opr of
     None \<Rightarrow> Inl (Msg ''Data must not be nil'' [])
   | Some msg \<Rightarrow>
       if MessageName msg = [] then Inl (Msg ''could not derive entity type from proto message'' [])
       else case protojson_Marshal L msg of
           None \<Rightarrow> Inl (Wrap ''marshal entity data'' (Msg ''protojson'' []))
         | Some j \<Rightarrow> Inr (MessageName msg, j))"

fun upsertAnchors :: "uuid \<Rightarrow> string \<Rightarrow> AnchorQuery list \<Rightarrow> unit dbm" where
  "upsertAnchors uid entityType [] = dret ()"
| "upsertAnchors uid entityType (aq # aqs) =
     dbind (dwrap (Wrap (''upsert anchor '' @ aq_Field aq @ ''='' @ aq_Value aq))
       (q_UpsertAnchor uid entityType (aq_Field aq) (aq_Value aq))) (\<lambda>_.
     upsertAnchors uid entityType aqs)"

fun upsertTokens :: "uuid \<Rightarrow> string \<Rightarrow> (string \<times> string list option) list \<Rightarrow> unit dbm" where
  "upsertTokens uid entityType [] = dret ()"
| "upsertTokens uid entityType ((field, toks) # ks) =
     dbind (dwrap (Wrap (''upsert tokens '' @ field)) (q_UpsertTokens uid entityType field toks)) (\<lambda>_.
     upsertTokens uid entityType ks)"

definition updateEmbedding :: "uuid \<Rightarrow> vec option \<Rightarrow> unit dbm" where
  "updateEmbedding uid embedding = (case embedding of
     None \<Rightarrow> dret ()
   | Some v \<Rightarrow> dwrap (Wrap ''update embedding'') (q_UpdateEntityEmbedding uid v))"

text \<open>The inserts of \<open>applyCreate\<close>: with a client-generated identifier or without.\<close>

definition create_row :: "lib \<Rightarrow> WriteEntityOp \<Rightarrow> string \<Rightarrow> json \<Rightarrow> Entity dbm" where
  "create_row L opr entityType data =
     (if wo_ID opr \<noteq> [] then
        dbind (parse_id L ''client id'' (wo_ID opr)) (\<lambda>uid.
          dwrap (Wrap ''insert entity with id'')
            (q_InsertEntityWithID uid entityType data (wo_Confidence opr) (wo_Tags opr) (wo_DisplayName opr)))
      else dwrap (Wrap ''insert entity'')
            (q_InsertEntity entityType data (wo_Confidence opr) (wo_Tags opr) (wo_DisplayName opr)))"

definition applyCreate :: "lib \<Rightarrow> WriteEntityOp \<Rightarrow> StoredEntity dbm" where
  "applyCreate L opr =
     dbind (dlift (marshalEntityData L opr)) (\<lambda>(entityType, data).
     dbind (create_row L opr entityType data) (\<lambda>row.
     dbind (upsertAnchors (e_id row) entityType (wo_Anchors opr)) (\<lambda>_.
     dbind (upsertTokens (e_id row) entityType (wo_Tokens opr)) (\<lambda>_.
     dbind (updateEmbedding (e_id row) (wo_Embedding opr)) (\<lambda>_.
     dbind (insertEvents L (e_id row) [] (wo_Tags opr) entityType
         (EntityCreated (uuid_String L (e_id row)) entityType (wo_Confidence opr) (wo_Tags opr)
          # wo_Events opr)) (\<lambda>_.
     dret (entityFromRow L row)))))))"

definition require_rows :: "nat dbm \<Rightarrow> unit dbm" where
  "require_rows m = dbind m (\<lambda>n. if n = 0 then dfail ErrConflict else dret ())"

definition write_data :: "WriteEntityOp \<Rightarrow> uuid \<Rightarrow> json \<Rightarrow> unit dbm" where
  "write_data opr uid data =
     (if wo_Action opr = WriteActionUpdate then
        require_rows (dwrap (Wrap ''update entity'') (q_UpdateEntityData uid data (wo_Confidence opr)
          (wo_DisplayName opr) (int32 (wo_Version opr))))
      else if wo_Action opr = WriteActionMerge then
        require_rows (dwrap (Wrap ''merge entity'') (q_MergeEntityData uid data (wo_Confidence opr)
          (wo_DisplayName opr) (int32 (wo_Version opr))))
      else dret ())"

definition add_tags :: "uuid \<Rightarrow> string list \<Rightarrow> unit dbm" where
  "add_tags uid tags = (if tags \<noteq> [] then dwrap (Wrap ''add tags'') (q_AddEntityTags uid tags) else dret ())"

definition applyUpdateOrMerge :: "lib \<Rightarrow> WriteEntityOp \<Rightarrow> StoredEntity dbm" where
  "applyUpdateOrMerge L opr =
     dbind (dlift (marshalEntityData L opr)) (\<lambda>(entityType, data).
     dbind (parse_id L ''entity id'' (wo_MatchedEntityID opr)) (\<lambda>uid.
     dbind (write_data opr uid data) (\<lambda>_.
     dbind (add_tags uid (wo_Tags opr)) (\<lambda>_.
     dbind (upsertAnchors uid entityType (wo_Anchors opr)) (\<lambda>_.
     dbind (upsertTokens uid entityType (wo_Tokens opr)) (\<lambda>_.
     dbind (updateEmbedding uid (wo_Embedding opr)) (\<lambda>_.
     dbind (dwrap (Wrap ''get entity'') (q_GetEntity uid)) (\<lambda>row.
     dbind (insertEvents L uid [] (e_tags row) entityType
         ((if wo_Action opr = WriteActionUpdate
           then EntityUpdated (uuid_String L uid) entityType (wo_Confidence opr) (e_tags row)
           else EntityMerged (uuid_String L uid) entityType)
          # wo_Events opr)) (\<lambda>_.
     dret (entityFromRow L row))))))))))"

definition applyEntityWrite :: "lib \<Rightarrow> WriteEntityOp \<Rightarrow> StoredEntity dbm" where
  "applyEntityWrite L opr =
     (if wo_Action opr = WriteActionCreate then applyCreate L opr
      else if wo_Action opr = WriteActionUpdate \<or> wo_Action opr = WriteActionMerge
      then applyUpdateOrMerge L opr
      else dfail (Msg ''unknown write action'' [wo_Action opr]))"

section \<open>Relation writes\<close>

definition marshal_relation_data :: "lib \<Rightarrow> proto_msg option \<Rightarrow> err + string \<times> RawMessage" where
  "marshal_relation_data L data = (case data of
     None \<Rightarrow> Inr ([], None)
   | Some msg \<Rightarrow> (case protojson_Marshal L msg of
       None \<Rightarrow> Inl (Wrap ''marshal relation data'' (Msg ''protojson'' []))
     | Some j \<Rightarrow> Inr (MessageName msg, Some j)))"

definition toStoredRelation :: "lib \<Rightarrow> UpsertRelationOp \<Rightarrow> err + StoredRelation" where
  "toStoredRelation L opr = bind_res (marshal_relation_data L (ur_Data opr)) (\<lambda>(dataType, data). Inr
     \<lparr>sr_ID = [], sr_SourceID = ur_SourceID opr, sr_TargetID = ur_TargetID opr,
      sr_RelationType = ur_RelationType opr, sr_Confidence = ur_Confidence opr,
      sr_Evidence = ur_Evidence opr, sr_Implied = ur_Implied opr, sr_SourceURN = ur_SourceURN opr,
      sr_DataType = dataType, sr_Data = data, sr_CreatedAt = 0\<rparr>)"

definition null_if_empty :: "string \<Rightarrow> string option" where
  "null_if_empty s = (if s = [] then None else Some s)"

definition upsertRelation :: "lib \<Rightarrow> StoredRelation \<Rightarrow> StoredRelation dbm" where
  "upsertRelation L rel =
     dbind (parse_id L ''source id'' (sr_SourceID rel)) (\<lambda>source.
     dbind (parse_id L ''target id'' (sr_TargetID rel)) (\<lambda>target.
     dmap (relationFromRow L) (dwrap (Wrap ''upsert relation'')
       (q_UpsertRelation source target (sr_RelationType rel) (sr_Confidence rel)
          (null_if_empty (sr_Evidence rel)) (sr_Implied rel) (null_if_empty (sr_SourceURN rel))
          (sr_DataType rel) (case sr_Data rel of None \<Rightarrow> JObj [] | Some j \<Rightarrow> j)))))"

text \<open>\<open>uid, _ := uuid.Parse(s)\<close>: the zero UUID on failure.\<close>

definition parse_or_Nil :: "lib \<Rightarrow> string \<Rightarrow> uuid" where
  "parse_or_Nil L s = (case uuid_Parse L s of None \<Rightarrow> uuid_Nil | Some u \<Rightarrow> u)"

section \<open>Batches\<close>

definition batch_op :: "lib \<Rightarrow> nat \<Rightarrow> BatchWriteOp \<Rightarrow> BatchWriteResult dbm" where
  "batch_op L i opr = (case bo_WriteEntity opr of
     Some we \<Rightarrow>
       dbind (dwrap (WrapOp i ''write_entity'') (applyEntityWrite L we)) (\<lambda>ent.
       dret \<lparr>br_Entity = Some ent, br_Relation = None\<rparr>)
   | None \<Rightarrow> (case bo_UpsertRelation opr of
       Some ur \<Rightarrow>
         dbind (dwrap (WrapOp i ''upsert_relation'') (dlift (toStoredRelation L ur))) (\<lambda>sr.
         dbind (dwrap (WrapOp i ''upsert_relation'') (upsertRelation L sr)) (\<lambda>rel.
         dbind (dwrap (WrapOp i ''upsert_relation events'') (insertEvents L uuid_Nil
             (relationKeyStr L (parse_or_Nil L (sr_SourceID rel)) (parse_or_Nil L (sr_TargetID rel))
                (sr_RelationType rel)) [] []
             (RelationCreated (sr_SourceID rel) (sr_TargetID rel) (sr_RelationType rel) (sr_Confidence rel)
              # ur_Events ur))) (\<lambda>_.
         dret \<lparr>br_Entity = None, br_Relation = Some rel\<rparr>)))
     | None \<Rightarrow> dfail (Msg ''empty operation'' [int i])))"

fun executeBatchOps :: "lib \<Rightarrow> nat \<Rightarrow> BatchWriteOp list \<Rightarrow> BatchWriteResult list dbm" where
  "executeBatchOps L i [] = dret []"
| "executeBatchOps L i (opr # ops) =
     dbind (evaluatePreConditions L i (bo_PreConditions opr)) (\<lambda>_.
     dbind (batch_op L i opr) (\<lambda>r.
     dbind (executeBatchOps L (Suc i) ops) (\<lambda>rs. dret (r # rs))))"

fun validate_ops :: "nat \<Rightarrow> BatchWriteOp list \<Rightarrow> err + unit" where
  "validate_ops i [] = Inr ()"
| "validate_ops i (opr # ops) =
     bind_res (case bo_WriteEntity opr of None \<Rightarrow> Inr ()
        | Some we \<Rightarrow> wrap_res (WrapOp i ''op'') (validateTags (wo_Tags we))) (\<lambda>_.
     bind_res (case bo_UpsertRelation opr of None \<Rightarrow> Inr ()
        | Some ur \<Rightarrow> wrap_res (WrapOp i ''op'') (validateRelationType (ur_RelationType ur))) (\<lambda>_.
     validate_ops (Suc i) ops))"

definition BatchWrite :: "lib \<Rightarrow> Store \<Rightarrow> BatchWriteOp list \<Rightarrow> BatchWriteResult list dbm" where
  "BatchWrite L st ops =
     (if MaxBatchSize < length ops
      then dfail (Msg ''batch size exceeds maximum'' [int (length ops), int MaxBatchSize])
      else dbind (dlift (validate_ops 0 ops)) (\<lambda>_.
        in_tx (st_external st) (Wrap ''tx commit'') (executeBatchOps L 0 ops)))"

section \<open>Deletion and relation data\<close>

definition DeleteEntity :: "lib \<Rightarrow> Store \<Rightarrow> string \<Rightarrow> unit dbm" where
  "DeleteEntity L st i = dbind (parse_id L ''entity id'' i) (\<lambda>uid.
     in_tx (st_external st) (\<lambda>e. e)
       (dbind (dwrap (Wrap ''get entity for delete event'') (q_GetEntity uid)) (\<lambda>row.
        dbind (dwrap (Wrap ''delete entity'') (q_DeleteEntity uid)) (\<lambda>_.
        insertEvents L uid [] (e_tags row) (e_type row) [EntityDeleted i (e_type row)]))))"

definition delete_relation :: "lib \<Rightarrow> uuid \<Rightarrow> uuid \<Rightarrow> string \<Rightarrow> string \<Rightarrow> string \<Rightarrow> unit dbm" where
  "delete_relation L source target sourceID targetID relationType =
     dbind (dwrap (Wrap ''delete relation'') (q_DeleteRelationByKey source target relationType)) (\<lambda>_.
     insertEvents L uuid_Nil (relationKeyStr L source target relationType) [] []
       [RelationDeleted sourceID targetID relationType])"

definition DeleteRelationByKey :: "lib \<Rightarrow> Store \<Rightarrow> string \<Rightarrow> string \<Rightarrow> string \<Rightarrow> unit dbm" where
  "DeleteRelationByKey L st sourceID targetID relationType =
     dbind (dlift (validateRelationType relationType)) (\<lambda>_.
     dbind (parse_id L ''source id'' sourceID) (\<lambda>source.
     dbind (parse_id L ''target id'' targetID) (\<lambda>target.
     in_tx (st_external st) (\<lambda>e. e) (delete_relation L source target sourceID targetID relationType))))"

definition update_relation_data :: "lib \<Rightarrow> string \<Rightarrow> string \<Rightarrow> string \<Rightarrow> proto_msg option \<Rightarrow> StoredRelation dbm" where
  "update_relation_data L sourceID targetID relationType data =
     dbind (parse_id L ''source id'' sourceID) (\<lambda>source.
     dbind (parse_id L ''target id'' targetID) (\<lambda>target.
     dbind (dlift (marshal_relation_data L data)) (\<lambda>(dataType, dataJSON).
     dmap (relationFromRow L) (dwrap (Wrap ''update relation data'')
       (q_UpdateRelationData source target relationType dataType
          (case dataJSON of None \<Rightarrow> JObj [] | Some j \<Rightarrow> j))))))"

definition UpdateRelationData :: "lib \<Rightarrow> string \<Rightarrow> string \<Rightarrow> string \<Rightarrow> proto_msg option \<Rightarrow> StoredRelation dbm" where
  "UpdateRelationData L sourceID targetID relationType data =
     dbind (dlift (validateRelationType relationType)) (\<lambda>_.
     update_relation_data L sourceID targetID relationType data)"

section \<open>Writes stay inside their transaction\<close>

lemma steady_find_anchor_rows [steady_intros]: "steady (find_anchor_rows ty ts as x us aqs)"
  by (induction aqs) (simp_all only: find_anchor_rows.simps stmt_defs, (intro steady_intros; assumption?)+)

lemma steady_findByAnchorsTx [steady_intros]: "steady (findByAnchorsTx L ty aqs)"
  unfolding findByAnchorsTx_def by (intro steady_intros)

lemma steady_evaluatePreConditions [steady_intros]: "steady (evaluatePreConditions L i pcs)"
  by (induction pcs) (simp_all only: evaluatePreConditions.simps, (intro steady_intros; assumption?)+)

lemma steady_upsertAnchors [steady_intros]: "steady (upsertAnchors u ty aqs)"
  by (induction aqs) (simp_all only: upsertAnchors.simps stmt_defs, (intro steady_intros; assumption?)+)

lemma steady_upsertTokens [steady_intros]: "steady (upsertTokens u ty ks)"
  by (induction ks rule: upsertTokens.induct)
    (simp_all only: upsertTokens.simps stmt_defs, (intro steady_intros; assumption?)+)

lemma steady_updateEmbedding [steady_intros]: "steady (updateEmbedding u v)"
  unfolding updateEmbedding_def stmt_defs by (intro steady_intros)

lemma steady_create_row [steady_intros]: "steady (create_row L opr ty d)"
  unfolding create_row_def stmt_defs by (intro steady_intros)

lemma steady_applyCreate [steady_intros]: "steady (applyCreate L opr)"
  unfolding applyCreate_def by (intro steady_intros)

lemma steady_write_data [steady_intros]: "steady (write_data opr u d)"
  unfolding write_data_def require_rows_def stmt_defs by (intro steady_intros)

lemma steady_applyUpdateOrMerge [steady_intros]: "steady (applyUpdateOrMerge L opr)"
  unfolding applyUpdateOrMerge_def add_tags_def stmt_defs by (intro steady_intros)

lemma steady_applyEntityWrite [steady_intros]: "steady (applyEntityWrite L opr)"
  unfolding applyEntityWrite_def by (intro steady_intros)

lemma steady_upsertRelation [steady_intros]: "steady (upsertRelation L rel)"
  unfolding upsertRelation_def stmt_defs by (intro steady_intros)

lemma steady_batch_op [steady_intros]: "steady (batch_op L i opr)"
  unfolding batch_op_def by (intro steady_intros)

lemma steady_executeBatchOps [steady_intros]: "steady (executeBatchOps L i ops)"
  by (induction ops arbitrary: i)
    (simp_all only: executeBatchOps.simps, (intro steady_intros; assumption?)+)

lemma steady_delete_relation [steady_intros]: "steady (delete_relation L a b c d e)"
  unfolding delete_relation_def stmt_defs by (intro steady_intros)

section \<open>Writes keep the invariants\<close>

lemma pres_find_anchor_rows [pres_intros]: "pres I (find_anchor_rows ty ts as x us aqs)"
  by (induction aqs)
    (simp_all only: find_anchor_rows.simps q_FindByAnchors_def, (intro pres_intros; assumption?)+)

lemma pres_evaluatePreConditions [pres_intros]: "pres I (evaluatePreConditions L i pcs)"
  by (induction pcs)
    (simp_all only: evaluatePreConditions.simps findByAnchorsTx_def, (intro pres_intros; assumption?)+)

context plain_invariant
begin

lemma keeps_upsertAnchors [pres_intros]: "pres I (upsertAnchors u ty aqs)"
  by (induction aqs) (simp_all only: upsertAnchors.simps, (intro pres_intros; assumption?)+)

lemma keeps_upsertTokens [pres_intros]: "pres I (upsertTokens u ty ks)"
  by (induction ks rule: upsertTokens.induct)
    (simp_all only: upsertTokens.simps, (intro pres_intros; assumption?)+)

lemma keeps_updateEmbedding [pres_intros]: "pres I (updateEmbedding u v)"
  unfolding updateEmbedding_def by (intro pres_intros)

lemma keeps_upsertRelation [pres_intros]: "pres I (upsertRelation L rel)"
  unfolding upsertRelation_def by (intro pres_intros)

lemma keeps_update_relation_data [pres_intros]: "pres I (update_relation_data L a b c d)"
  unfolding update_relation_data_def by (intro pres_intros)

lemma keeps_UpdateRelationDataOp [pres_intros]: "pres I (UpdateRelationData L a b c d)"
  unfolding UpdateRelationData_def by (intro pres_intros)

end

context history_invariant
begin

lemma keeps_applyCreate [pres_intros]: "pres I (applyCreate L opr)"
  unfolding applyCreate_def create_row_def by (intro pres_intros)

lemma keeps_applyUpdateOrMerge [pres_intros]: "pres I (applyUpdateOrMerge L opr)"
  unfolding applyUpdateOrMerge_def add_tags_def write_data_def require_rows_def q_GetEntity_def
  by (intro pres_intros)

lemma keeps_applyEntityWrite [pres_intros]: "pres I (applyEntityWrite L opr)"
  unfolding applyEntityWrite_def by (intro pres_intros)

lemma keeps_batch_op [pres_intros]: "pres I (batch_op L i opr)"
  unfolding batch_op_def by (intro pres_intros)

lemma keeps_executeBatchOps [pres_intros]: "pres I (executeBatchOps L i ops)"
  by (induction ops arbitrary: i)
    (simp_all only: executeBatchOps.simps, (intro pres_intros; assumption?)+)

lemma keeps_BatchWrite [pres_intros]: "pres I (BatchWrite L st ops)"
  unfolding BatchWrite_def by (intro pres_intros)

lemma keeps_DeleteEntityOp [pres_intros]: "pres I (DeleteEntity L st i)"
  unfolding DeleteEntity_def q_GetEntity_def by (intro pres_intros)

lemma keeps_delete_relation [pres_intros]: "pres I (delete_relation L a b c d e)"
  unfolding delete_relation_def by (intro pres_intros)

lemma keeps_DeleteRelationByKeyOp [pres_intros]: "pres I (DeleteRelationByKey L st a b c)"
  unfolding DeleteRelationByKey_def by (intro pres_intros)

end

end
