(* ===== verification/Store_Read.thy ===== *)
theory Store_Read
  imports Store_Write
begin

text \<open>
  The rest of \<open>src/store/store.go\<close>, with \<open>src/store/stats.go\<close> and \<open>src/store/tx.go\<close>: lookups by
  anchor, token, embedding, type and relation, search, tags, counts, the hard delete, and the
  operations inside a caller's transaction. \<open>Store\<close> and \<open>TxStore\<close> issue the same statements; a
  \<open>TxStore\<close> method runs them in the transaction that \<open>Tx\<close> opened.
\<close>

section \<open>Filters\<close>

definition tagsParam :: "QueryFilter option \<Rightarrow> string list" where
  "tagsParam filt = (case filt of None \<Rightarrow> [] | Some f \<Rightarrow> qf_Tags f)"

definition anyTagsParam :: "QueryFilter option \<Rightarrow> string list" where
  "anyTagsParam filt = (case filt of None \<Rightarrow> [] | Some f \<Rightarrow> qf_AnyTags f)"

definition excludeTagParam :: "QueryFilter option \<Rightarrow> string" where
  "excludeTagParam filt = (case filt of None \<Rightarrow> [] | Some f \<Rightarrow> qf_ExcludeTag f)"

definition unlessTagsParam :: "QueryFilter option \<Rightarrow> string list" where
  "unlessTagsParam filt = (case filt of None \<Rightarrow> [] | Some f \<Rightarrow> qf_UnlessTags f)"

definition entityTypesParam :: "string \<Rightarrow> QueryFilter option \<Rightarrow> string list" where
  "entityTypesParam entityType filt = (if entityType \<noteq> [] then [entityType]
     else case filt of None \<Rightarrow> [] | Some f \<Rightarrow> qf_EntityTypes f)"

section \<open>Lookups\<close>

definition FindByAnchors :: "lib \<Rightarrow> string \<Rightarrow> AnchorQuery list \<Rightarrow> QueryFilter option \<Rightarrow> StoredEntity list dbm" where
  "FindByAnchors L entityType as filt =
     dmap (\<lambda>rows. map (entityFromRow L) (dedup_by e_id rows))
       (find_anchor_rows entityType (tagsParam filt) (anyTagsParam filt) (excludeTagParam filt)
          (unlessTagsParam filt) as)"

definition FindByTokens :: "lib \<Rightarrow> string \<Rightarrow> string list \<Rightarrow> int \<Rightarrow> QueryFilter option \<Rightarrow> StoredEntity list dbm" where
  "FindByTokens L entityType toks limit filt =
     dmap (map (entityFromRow L)) (dwrap (Wrap ''find by tokens'')
       (q_FindByTokenOverlap entityType toks (tagsParam filt) (anyTagsParam filt)
          (excludeTagParam filt) (unlessTagsParam filt) (int32 limit)))"

definition FindByEmbedding :: "lib \<Rightarrow> string \<Rightarrow> vec \<Rightarrow> int \<Rightarrow> QueryFilter option \<Rightarrow> StoredEntity list dbm" where
  "FindByEmbedding L entityType vec topK filt =
     dmap (map (entityFromRow L)) (dwrap (Wrap ''find by embedding'')
       (q_FindByEmbedding L (entityTypesParam entityType filt) vec (tagsParam filt) (anyTagsParam filt)
          (excludeTagParam filt) (unlessTagsParam filt) (int32 topK)))"

definition Search :: "lib \<Rightarrow> string \<Rightarrow> int \<Rightarrow> QueryFilter option \<Rightarrow> StoredEntity list dbm" where
  "Search L query maxResults filt =
     (if query = [] then dret []
      else let maxResults = (if maxResults \<le> 0 then 20 else maxResults) in
        dbind (dwrap (Wrap ''search by display name'')
          (q_SearchByDisplayName L query (tagsParam filt) (int32 maxResults))) (\<lambda>rows.
        if rows \<noteq> [] then dret (map (entityFromRow L) rows)
        else let toks = Tokenize (ucd (lib_go L)) query in
          if toks = [] then dret []
          else FindByTokens L [] toks maxResults filt))"

definition GetAnchorsForEntity :: "lib \<Rightarrow> string \<Rightarrow> (string \<times> string) list dbm" where
  "GetAnchorsForEntity L entityID = dbind (parse_id L ''entity id'' entityID) (\<lambda>uid.
     dwrap (Wrap ''get anchors for entity'') (q_GetAnchorsForEntity uid))"

definition GetByAnchor :: "lib \<Rightarrow> string \<Rightarrow> string \<Rightarrow> string \<Rightarrow> QueryFilter option \<Rightarrow> StoredEntity dbm" where
  "GetByAnchor L entityType field value filt =
     dbind (FindByAnchors L entityType [\<lparr>aq_Field = field, aq_Value = value\<rparr>] filt) (\<lambda>es.
     case es of [] \<Rightarrow> dfail ErrNotFound | e # _ \<Rightarrow> dret e)"

definition GetEntity :: "lib \<Rightarrow> string \<Rightarrow> StoredEntity dbm" where
  "GetEntity L i = dbind (parse_id L ''entity id'' i) (\<lambda>uid.
     dmap (entityFromRow L) (dwrap (Wrap ''get entity'') (q_GetEntity uid)))"

definition page_or :: "int \<Rightarrow> int \<Rightarrow> int" where
  "page_or dflt pageSize = (if pageSize \<le> 0 then dflt else pageSize)"

definition GetEntitiesByType :: "lib \<Rightarrow> string \<Rightarrow> int \<Rightarrow> time option \<Rightarrow> StoredEntity list dbm" where
  "GetEntitiesByType L entityType pageSize cursor =
     dmap (map (entityFromRow L)) (dwrap (Wrap ''get entities by type'')
       (q_GetEntitiesByType entityType cursor (page_or 100 pageSize)))"

definition GetEntitiesByTypeFiltered :: "lib \<Rightarrow> string \<Rightarrow> int \<Rightarrow> time option \<Rightarrow> QueryFilter option \<Rightarrow>
    StoredEntity list dbm" where
  "GetEntitiesByTypeFiltered L entityType pageSize cursor filt =
     dmap (map (entityFromRow L)) (dwrap (Wrap ''get entities by type filtered'')
       (q_GetEntitiesByTypeFiltered entityType cursor (tagsParam filt) (anyTagsParam filt)
          (excludeTagParam filt) (unlessTagsParam filt) (page_or 100 pageSize)))"

definition GetRelationsFromEntity :: "lib \<Rightarrow> string \<Rightarrow> int \<Rightarrow> time option \<Rightarrow> StoredRelation list dbm" where
  "GetRelationsFromEntity L entityID pageSize cursor = dbind (parse_id L ''entity id'' entityID) (\<lambda>uid.
     dmap (map (relationFromRow L)) (dwrap (Wrap ''get relations from'')
       (q_GetRelationsFromEntity uid cursor (page_or 1000 pageSize))))"

definition GetRelationsToEntity :: "lib \<Rightarrow> string \<Rightarrow> int \<Rightarrow> time option \<Rightarrow> StoredRelation list dbm" where
  "GetRelationsToEntity L entityID pageSize cursor = dbind (parse_id L ''entity id'' entityID) (\<lambda>uid.
     dmap (map (relationFromRow L)) (dwrap (Wrap ''get relations to'')
       (q_GetRelationsToEntity uid cursor (page_or 1000 pageSize))))"

definition ConnectedEntities :: "lib \<Rightarrow> string \<Rightarrow> StoredEntity list dbm" where
  "ConnectedEntities L entityID = dbind (parse_id L ''entity id'' entityID) (\<lambda>uid.
     dmap (map (entityFromRow L)) (dwrap (Wrap ''connected entities'') (q_ConnectedEntities uid 1000)))"

text \<open>Outbound rows, then inbound rows, with one \<open>seen\<close> map.\<close>

definition FindConnectedByType :: "lib \<Rightarrow> string \<Rightarrow> string \<Rightarrow> string list \<Rightarrow> QueryFilter option \<Rightarrow> int \<Rightarrow> time option \<Rightarrow>
    StoredEntity list dbm" where
  "FindConnectedByType L entityID entityType relationTypes filt pageSize cursor =
     dbind (parse_id L ''entity id'' entityID) (\<lambda>uid.
     dbind (dwrap (Wrap ''find connected by type outbound'')
       (q_FindConnectedByTypeOutbound uid entityType relationTypes (tagsParam filt) (anyTagsParam filt)
          (excludeTagParam filt) (unlessTagsParam filt) cursor (page_or 1000 pageSize))) (\<lambda>outRows.
     dbind (dwrap (Wrap ''find connected by type inbound'')
       (q_FindConnectedByTypeInbound uid entityType relationTypes (tagsParam filt) (anyTagsParam filt)
          (excludeTagParam filt) (unlessTagsParam filt) cursor (page_or 1000 pageSize))) (\<lambda>inRows.
     dret (map (entityFromRow L) (dedup_by e_id (outRows @ inRows))))))"

definition FindEntitiesByRelation :: "lib \<Rightarrow> string \<Rightarrow> string \<Rightarrow> QueryFilter option \<Rightarrow> StoredEntity list dbm" where
  "FindEntitiesByRelation L entityType relationType filt =
     dbind (dwrap (Wrap ''find entities by relation source'')
       (q_FindEntitiesByRelationSource entityType relationType (tagsParam filt) (anyTagsParam filt)
          (excludeTagParam filt) (unlessTagsParam filt) 1000)) (\<lambda>srcRows.
     dbind (dwrap (Wrap ''find entities by relation target'')
       (q_FindEntitiesByRelationTarget entityType relationType (tagsParam filt) (anyTagsParam filt)
          (excludeTagParam filt) (unlessTagsParam filt) 1000)) (\<lambda>tgtRows.
     dret (map (entityFromRow L) (dedup_by e_id (srcRows @ tgtRows)))))"

section \<open>Tags and embeddings\<close>

definition UpdateEmbedding :: "lib \<Rightarrow> string \<Rightarrow> vec \<Rightarrow> unit dbm" where
  "UpdateEmbedding L entityID vec = dbind (parse_id L ''entity id'' entityID) (\<lambda>uid.
     q_UpdateEntityEmbedding uid vec)"

definition SetTags :: "lib \<Rightarrow> string \<Rightarrow> string list option \<Rightarrow> unit dbm" where
  "SetTags L entityID tags =
     dbind (dlift (validateTags (case tags of None \<Rightarrow> [] | Some ts \<Rightarrow> ts))) (\<lambda>_.
     dbind (parse_id L ''entity id'' entityID) (\<lambda>uid. q_SetEntityTags uid tags))"

definition AddTags :: "lib \<Rightarrow> string \<Rightarrow> string list \<Rightarrow> unit dbm" where
  "AddTags L entityID tags = dbind (dlift (validateTags tags)) (\<lambda>_.
     dbind (parse_id L ''entity id'' entityID) (\<lambda>uid. q_AddEntityTags uid tags))"

definition RemoveTag :: "lib \<Rightarrow> string \<Rightarrow> string \<Rightarrow> unit dbm" where
  "RemoveTag L entityID tag = dbind (parse_id L ''entity id'' entityID) (\<lambda>uid.
     q_RemoveEntityTag uid tag)"

section \<open>Counts and hard deletion\<close>

definition CountEntitiesByType :: "string \<Rightarrow> nat dbm" where
  "CountEntitiesByType entityType = dwrap (Wrap ''count entities by type'') (q_CountEntitiesByType entityType)"

definition CountAllEntities :: "nat dbm" where
  "CountAllEntities = dwrap (Wrap ''count all entities'') q_CountAllEntities"

definition CountRelationsForEntity :: "lib \<Rightarrow> string \<Rightarrow> nat dbm" where
  "CountRelationsForEntity L entityID = dbind (parse_id L ''entity id'' entityID) (\<lambda>uid.
     dwrap (Wrap ''count relations for entity'') (q_CountRelationsForEntity uid))"

definition CountAllRelations :: "nat dbm" where
  "CountAllRelations = dwrap (Wrap ''count all relations'') q_CountAllRelations"

definition CountEntityTypes :: "(string \<times> nat) list dbm" where
  "CountEntityTypes = dwrap (Wrap ''count entity types'') q_CountEntityTypes"

definition CountRelationTypes :: "(string \<times> nat) list dbm" where
  "CountRelationTypes = dwrap (Wrap ''count relation types'') q_CountRelationTypes"

definition CountSoftDeleted :: "nat dbm" where
  "CountSoftDeleted = dwrap (Wrap ''count soft deleted'') q_CountSoftDeleted"

record StoreStats =
  ss_TotalEntities :: nat
  ss_TotalRelations :: nat
  ss_SoftDeleted :: nat
  ss_EntityTypes :: "(string \<times> nat) list"
  ss_RelationTypes :: "(string \<times> nat) list"

definition Stats :: "StoreStats dbm" where
  "Stats =
     dbind CountAllEntities (\<lambda>n.
     dbind CountAllRelations (\<lambda>r.
     dbind CountSoftDeleted (\<lambda>d.
     dbind CountEntityTypes (\<lambda>ets.
     dbind CountRelationTypes (\<lambda>rts.
     dret \<lparr>ss_TotalEntities = n, ss_TotalRelations = r, ss_SoftDeleted = d, ss_EntityTypes = ets,
           ss_RelationTypes = rts\<rparr>)))))"

text \<open>An error of the lookup is ignored: the event then carries neither type nor tags.\<close>

definition dtry :: "'a dbm \<Rightarrow> 'a option dbm" where
  "dtry m s = (case m s of (s', Inl _) \<Rightarrow> (s', Inr None) | (s', Inr x) \<Rightarrow> (s', Inr (Some x)))"

definition HardDeleteEntity :: "lib \<Rightarrow> Store \<Rightarrow> string \<Rightarrow> unit dbm" where
  "HardDeleteEntity L st i = dbind (parse_id L ''entity id'' i) (\<lambda>uid.
     in_tx (st_external st) (\<lambda>e. e)
       (dbind (dtry (q_GetEntity uid)) (\<lambda>got.
        let entityType = (case got of None \<Rightarrow> [] | Some row \<Rightarrow> e_type row);
            tags = (case got of None \<Rightarrow> [] | Some row \<Rightarrow> e_tags row) in
        dbind (dwrap (Wrap ''insert hard delete event'')
          (insertEvents L uid [] tags entityType [EntityHardDeleted i entityType])) (\<lambda>_.
        q_HardDeleteEntity uid))))"

section \<open>Inside the caller's transaction\<close>

definition Tx :: "unit dbm" where
  "Tx = dwrap (Wrap ''begin tx'') begin_tx"

definition TxStore_Commit :: "unit dbm" where
  "TxStore_Commit = commit_tx"

definition TxStore_Rollback :: "unit dbm" where
  "TxStore_Rollback s = (rollback_tx s, Inr ())"

definition TxStore_GetEntity :: "lib \<Rightarrow> string \<Rightarrow> StoredEntity dbm" where
  "TxStore_GetEntity L i = dbind (parse_id L ''entity id'' i) (\<lambda>uid.
     dmap (entityFromRow L) (dwrap (Wrap ''get entity'') (q_GetEntity uid)))"

definition TxStore_FindByAnchors :: "lib \<Rightarrow> string \<Rightarrow> AnchorQuery list \<Rightarrow> QueryFilter option \<Rightarrow>
    StoredEntity list dbm" where
  "TxStore_FindByAnchors L entityType as filt =
     dmap (\<lambda>rows. map (entityFromRow L) (dedup_by e_id rows))
       (find_anchor_rows entityType (tagsParam filt) (anyTagsParam filt) (excludeTagParam filt)
          (unlessTagsParam filt) as)"

definition TxStore_GetRelationsFromEntity :: "lib \<Rightarrow> string \<Rightarrow> int \<Rightarrow> time option \<Rightarrow> StoredRelation list dbm" where
  "TxStore_GetRelationsFromEntity L entityID pageSize cursor =
     dbind (parse_id L ''entity id'' entityID) (\<lambda>uid.
     dmap (map (relationFromRow L)) (dwrap (Wrap ''get relations from'')
       (q_GetRelationsFromEntity uid cursor (page_or 1000 pageSize))))"

definition TxStore_GetRelationsToEntity :: "lib \<Rightarrow> string \<Rightarrow> int \<Rightarrow> time option \<Rightarrow> StoredRelation list dbm" where
  "TxStore_GetRelationsToEntity L entityID pageSize cursor =
     dbind (parse_id L ''entity id'' entityID) (\<lambda>uid.
     dmap (map (relationFromRow L)) (dwrap (Wrap ''get relations to'')
       (q_GetRelationsToEntity uid cursor (page_or 1000 pageSize))))"

definition TxStore_WriteEntity :: "lib \<Rightarrow> WriteEntityOp \<Rightarrow> StoredEntity dbm" where
  "TxStore_WriteEntity L opr = applyEntityWrite L opr"

definition TxStore_UpsertRelation :: "lib \<Rightarrow> UpsertRelationOp \<Rightarrow> StoredRelation dbm" where
  "TxStore_UpsertRelation L opr =
     dbind (dlift (toStoredRelation L opr)) (\<lambda>sr. upsertRelation L sr)"

definition TxStore_DeleteRelationByKey :: "lib \<Rightarrow> string \<Rightarrow> string \<Rightarrow> string \<Rightarrow> unit dbm" where
  "TxStore_DeleteRelationByKey L sourceID targetID relationType =
     dbind (parse_id L ''source id'' sourceID) (\<lambda>source.
     dbind (parse_id L ''target id'' targetID) (\<lambda>target.
     delete_relation L source target sourceID targetID relationType))"

definition TxStore_GetEventsForEntity :: "lib \<Rightarrow> string \<Rightarrow> EventQueryOpts option \<Rightarrow> Event list dbm" where
  "TxStore_GetEventsForEntity L entityID opts = dbind (parse_id L ''entity id'' entityID) (\<lambda>uid.
     dmap (map (toEvent L)) (dwrap (Wrap ''get events'')
       (q_GetEventsForEntity uid (event_types opts) (event_since opts) (event_limit 100 opts))))"

definition TxStore_UpdateRelationData :: "lib \<Rightarrow> string \<Rightarrow> string \<Rightarrow> string \<Rightarrow> proto_msg option \<Rightarrow>
    StoredRelation dbm" where
  "TxStore_UpdateRelationData L sourceID targetID relationType data =
     update_relation_data L sourceID targetID relationType data"

section \<open>These operations keep the invariants, too\<close>

lemma pres_dtry [pres_intros]: "pres I m \<Longrightarrow> pres I (dtry m)"
  by (rule presI) (auto simp: dtry_def split: prod.splits sum.splits dest: presD)

lemma steady_dtry [steady_intros]: "steady m \<Longrightarrow> steady (dtry m)"
  by (rule steadyI) (auto simp: dtry_def steady_resnap_eq split: prod.splits sum.splits dest: steadyD)

context plain_invariant
begin

lemma keeps_tag_ops [pres_intros]:
  "pres I (UpdateEmbedding L i vec)" "pres I (SetTags L i mts)" "pres I (AddTags L i ts)" "pres I (RemoveTag L i tag)"
  unfolding UpdateEmbedding_def SetTags_def AddTags_def RemoveTag_def by (intro pres_intros)+

end

context history_invariant
begin

lemma keeps_TxStore [pres_intros]:
  "pres I (TxStore_WriteEntity L opr)" "pres I (TxStore_UpsertRelation L ur)"
  "pres I (TxStore_DeleteRelationByKey L a b c)" "pres I (TxStore_UpdateRelationData L a b c d)"
  "pres I Tx" "pres I TxStore_Commit"
  unfolding TxStore_WriteEntity_def TxStore_UpsertRelation_def TxStore_DeleteRelationByKey_def
    TxStore_UpdateRelationData_def Tx_def TxStore_Commit_def
  by (intro pres_intros)+

lemma keeps_TxStore_Rollback [pres_intros]: "pres I TxStore_Rollback"
  by (rule presI) (auto simp: TxStore_Rollback_def intro: good_rollback)

end

context table_invariant
begin

lemma keeps_HardDeleteEntityOp [pres_intros]: "pres I (HardDeleteEntity L st i)"
  unfolding HardDeleteEntity_def q_GetEntity_def by (intro pres_intros)

end

end
