(* ===== verification/Consumer.thy ===== *)
theory Consumer
  imports Store_Read
begin

text \<open>
  \<open>src/store/consumer.go\<close> and \<open>src/store/health.go\<close>: named event consumers. A consumer polls: it
  takes or renews the lease of its name, reads the events after its cursor, hands them to the
  caller's function and advances the cursor; on failure it backs off, and after \<open>MaxRetries\<close>
  failures it moves the batch to the dead letters.

  The caller's function is a parameter; it may answer differently at every call, so it also sees
  the step counter. \<open>time.Now\<close> is the clock at the current step, \<open>rand.Int63n\<close> a parameter. The
  loops \<open>Run\<close> and \<open>RunRealtime\<close> call \<open>poll\<close> again and again and end with \<open>releaseLock\<close>; logging and the
  notification channel are left out.
\<close>

section \<open>Configuration\<close>

record ConsumerConfig =
  cc_Name :: string
  cc_BatchSize :: int
  cc_PollInterval :: int
  cc_LockTTL :: int
  cc_HolderID :: string
  cc_MaxRetries :: int
  cc_InitialBackoff :: int
  cc_MaxBackoff :: int

definition second :: int where "second = 1000000000"

definition withDefaults :: "string \<Rightarrow> ConsumerConfig \<Rightarrow> ConsumerConfig" where
  "withDefaults generatedHolder c =
     (let c = (if cc_BatchSize c \<le> 0 then c\<lparr>cc_BatchSize := 100\<rparr> else c);
          c = (if cc_PollInterval c \<le> 0 then c\<lparr>cc_PollInterval := 5 * second\<rparr> else c);
          c = (if cc_LockTTL c \<le> 0 then c\<lparr>cc_LockTTL := 30 * second\<rparr> else c);
          c = (if cc_MaxBackoff c \<le> 0 \<and> 0 < cc_InitialBackoff c then c\<lparr>cc_MaxBackoff := 300 * second\<rparr> else c)
      in if cc_HolderID c = [] then c\<lparr>cc_HolderID := generatedHolder\<rparr> else c)"

record Consumer =
  co_cfg :: ConsumerConfig
  co_failures :: int
  co_backoffUntil :: time
  co_lastErr :: "err option"

definition NewConsumer :: "string \<Rightarrow> ConsumerConfig \<Rightarrow> Consumer" where
  "NewConsumer generatedHolder cfg =
     \<lparr>co_cfg = withDefaults generatedHolder cfg, co_failures = 0, co_backoffUntil = 0, co_lastErr = None\<rparr>"

type_synonym ConsumerFunc = "nat \<Rightarrow> Event list \<Rightarrow> err option"

definition call_process :: "ConsumerFunc \<Rightarrow> Event list \<Rightarrow> unit dbm" where
  "call_process process evs s =
     (next_tick s, case process (tick s) evs of None \<Rightarrow> Inr () | Some e \<Rightarrow> Inl e)"

section \<open>The lease\<close>

text \<open>The interval has a resolution of microseconds.\<close>

definition pgIntervalFromDuration :: "int \<Rightarrow> int" where
  "pgIntervalFromDuration d = (if d < 0 then - (- d div 1000) else d div 1000) * 1000"

definition tryAcquireOrRenew :: "ConsumerConfig \<Rightarrow> bool dbm" where
  "tryAcquireOrRenew c =
     (let ttl = pgIntervalFromDuration (cc_LockTTL c) in
      dbind (dwrap (Wrap ''renew lock'') (q_RenewConsumerLock (cc_Name c) (cc_HolderID c) ttl)) (\<lambda>n.
      if 0 < n then dret True
      else dbind (dwrap (Wrap ''acquire lock'') (q_TryAcquireConsumerLock (cc_Name c) (cc_HolderID c) ttl)) (\<lambda>n.
        dret (0 < n))))"

definition releaseLock :: "ConsumerConfig \<Rightarrow> unit dbm" where
  "releaseLock c = dmap (\<lambda>_. ()) (dtry (q_ReleaseConsumerLock (cc_Name c) (cc_HolderID c)))"

section \<open>A batch\<close>

definition after_id :: "EntityEventConsumer \<Rightarrow> uuid" where
  "after_id cursor = (case c_last_event_id cursor of None \<Rightarrow> uuid_Nil | Some u \<Rightarrow> u)"

definition processBatch :: "lib \<Rightarrow> ConsumerFunc \<Rightarrow> ConsumerConfig \<Rightarrow> unit dbm" where
  "processBatch L process c =
     dbind (dwrap (Wrap ''get cursor'') (q_GetConsumerCursor (cc_Name c))) (\<lambda>cursor.
     dbind (dwrap (Wrap ''get events'')
       (q_GetEventsAfterCursor (c_last_event_at cursor) (after_id cursor) (int32 (cc_BatchSize c)))) (\<lambda>rows.
     if rows = [] then dret ()
     else dbind (call_process process (map (toEvent L) rows)) (\<lambda>_.
       dwrap (Wrap ''advance cursor'')
         (q_AdvanceConsumerCursor (cc_Name c) (cc_HolderID c) (v_occurred_at (last rows)) (v_id (last rows))))))"

text \<open>\<open>err.Error()\<close>.\<close>

type_synonym error_text = "err \<Rightarrow> string"

fun insert_letters :: "lib \<Rightarrow> ConsumerConfig \<Rightarrow> string \<Rightarrow> int \<Rightarrow> EntityEvent list \<Rightarrow> unit dbm" where
  "insert_letters L c msg retries [] = dret ()"
| "insert_letters L c msg retries (row # rows) =
     dbind (dtry (q_InsertDeadLetter (cc_Name c) (v_id row) (v_event_type row) (v_payload_type row)
       (null_if_empty (text_or_empty (map_option (uuid_String L) (v_entity_id row)))) (Some (v_payload row))
       msg (int32 retries))) (\<lambda>_.
     insert_letters L c msg retries rows)"

text \<open>The errors of the single statements are ignored; after one, the commit fails.\<close>

definition dead_letter_tx :: "lib \<Rightarrow> ConsumerConfig \<Rightarrow> string \<Rightarrow> int \<Rightarrow> EntityEvent list \<Rightarrow> unit dbm" where
  "dead_letter_tx L c msg retries rows =
     dbind (insert_letters L c msg retries rows) (\<lambda>_.
     dmap (\<lambda>_. ()) (dtry (q_AdvanceConsumerCursor (cc_Name c) (cc_HolderID c)
       (v_occurred_at (last rows)) (v_id (last rows)))))"

definition deadLetterCurrentBatch :: "lib \<Rightarrow> ConsumerConfig \<Rightarrow> string \<Rightarrow> int \<Rightarrow> unit dbm" where
  "deadLetterCurrentBatch L c msg retries =
     dmap (\<lambda>_. ()) (dtry (dbind (q_GetConsumerCursor (cc_Name c)) (\<lambda>cursor.
       dbind (q_GetEventsAfterCursor (c_last_event_at cursor) (after_id cursor) (int32 (cc_BatchSize c))) (\<lambda>rows.
       if rows = [] then dret ()
       else in_tx False (\<lambda>e. e) (dead_letter_tx L c msg retries rows)))))"

definition persistFailureState :: "ConsumerConfig \<Rightarrow> int \<Rightarrow> string \<Rightarrow> time option \<Rightarrow> unit dbm" where
  "persistFailureState c failures errMsg backoffUntil =
     dmap (\<lambda>_. ()) (dtry (q_UpdateConsumerFailureState (cc_Name c) (cc_HolderID c) (int32 failures)
       (null_if_empty errMsg)
       (case backoffUntil of None \<Rightarrow> None | Some t \<Rightarrow> if t = 0 then None else Some t)))"

section \<open>Backoff\<close>

text \<open>The conversion of a float64 to a \<open>Duration\<close> truncates; out of range, amd64 yields the least
  int64. \<open>Int63n\<close> panics unless its argument is positive.\<close>

definition duration_of_float :: "float64 \<Rightarrow> int" where
  "duration_of_float x =
     (let n = (if x < 0 then \<lceil>x\<rceil> else \<lfloor>x\<rfloor>) in
      if - (2 ^ 63) \<le> n \<and> n < 2 ^ 63 then n else - (2 ^ 63))"

definition int_div :: "int \<Rightarrow> int \<Rightarrow> int" where
  "int_div a b = (if a < 0 then - (- a div b) else a div b)"

definition base_backoff :: "ConsumerConfig \<Rightarrow> int \<Rightarrow> int" where
  "base_backoff c failures =
     (let e = min (failures - 1) 10;
          backoff = duration_of_float (fmul (f64 (of_int (cc_InitialBackoff c))) (2 ^ nat e))
      in if 0 < cc_MaxBackoff c \<and> cc_MaxBackoff c < backoff then cc_MaxBackoff c else backoff)"

definition jittered :: "(int \<Rightarrow> int) \<Rightarrow> int \<Rightarrow> int option" where
  "jittered int63n backoff =
     (let n = int_div backoff 5 in
      if n \<le> 0 then None else Some (backoff - int_div backoff 10 + int63n n))"

section \<open>Polling\<close>

type_synonym poll_result = "(Consumer \<times> db) \<times> (err + unit)"

definition poll_failed :: "lib \<Rightarrow> error_text \<Rightarrow> (nat \<Rightarrow> int \<Rightarrow> int) \<Rightarrow> Consumer \<Rightarrow> err \<Rightarrow> db \<Rightarrow> poll_result" where
  "poll_failed L etext int63n co e s =
     (let c = co_cfg co;
          k = co_failures co + 1;
          co = co\<lparr>co_failures := k, co_lastErr := Some e\<rparr> in
      if 0 < cc_MaxRetries c \<and> cc_MaxRetries c \<le> k then
        (let s = fst (deadLetterCurrentBatch L c (etext e) k s);
             s = fst (persistFailureState c 0 [] None s) in
         ((co\<lparr>co_failures := 0, co_backoffUntil := 0, co_lastErr := None\<rparr>, s), Inr ()))
      else if 0 < cc_InitialBackoff c then
        (case jittered (int63n (tick s)) (base_backoff c k) of
           None \<Rightarrow> ((co, s), Inl Panic)
         | Some b \<Rightarrow>
             (let until = clock s (tick s) + b;
                  co = co\<lparr>co_backoffUntil := until\<rparr> in
              ((co, fst (persistFailureState c k (etext e) (Some until) s)), Inr ())))
      else ((co, fst (persistFailureState c k (etext e) (Some (co_backoffUntil co)) s)), Inr ()))"

definition poll :: "lib \<Rightarrow> ConsumerFunc \<Rightarrow> error_text \<Rightarrow> (nat \<Rightarrow> int \<Rightarrow> int) \<Rightarrow> Consumer \<Rightarrow> db \<Rightarrow> poll_result" where
  "poll L process etext int63n co s =
     (if clock s (tick s) < co_backoffUntil co then ((co, s), Inr ())
      else case tryAcquireOrRenew (co_cfg co) s of
        (s, Inl e) \<Rightarrow> ((co, s), Inl (Wrap ''lock'' e))
      | (s, Inr False) \<Rightarrow> ((co, s), Inr ())
      | (s, Inr True) \<Rightarrow> (case processBatch L process (co_cfg co) s of
          (s, Inr _) \<Rightarrow>
            (if 0 < co_failures co then
               ((co\<lparr>co_failures := 0, co_backoffUntil := 0, co_lastErr := None\<rparr>,
                 fst (persistFailureState (co_cfg co) 0 [] None s)), Inr ())
             else ((co, s), Inr ()))
        | (s, Inl e) \<Rightarrow> poll_failed L etext int63n co e s))"

text \<open>\<open>Run\<close> until its context is cancelled after \<open>k\<close> ticks: every tick takes time, the errors of
  \<open>poll\<close> are logged, a panic ends the loop, and the lock is released at the end in any case.\<close>

fun run_polls :: "lib \<Rightarrow> ConsumerFunc \<Rightarrow> error_text \<Rightarrow> (nat \<Rightarrow> int \<Rightarrow> int) \<Rightarrow> nat \<Rightarrow> Consumer \<Rightarrow> db \<Rightarrow> poll_result" where
  "run_polls L process etext int63n 0 co s = ((co, s), Inr ())"
| "run_polls L process etext int63n (Suc k) co s =
     (case poll L process etext int63n co (next_tick s) of
        ((co, s), r) \<Rightarrow> if r = Inl Panic then ((co, s), Inl Panic)
                        else run_polls L process etext int63n k co s)"

definition Run :: "lib \<Rightarrow> ConsumerFunc \<Rightarrow> error_text \<Rightarrow> (nat \<Rightarrow> int \<Rightarrow> int) \<Rightarrow> nat \<Rightarrow> Consumer \<Rightarrow> db \<Rightarrow> poll_result" where
  "Run L process etext int63n k co s =
     (case run_polls L process etext int63n k co s of
        ((co, s), r) \<Rightarrow> ((co, fst (releaseLock (co_cfg co) s)), case r of
           Inl e \<Rightarrow> Inl e | Inr _ \<Rightarrow> Inl (Msg ''context canceled'' [])))"

section \<open>Dead letters\<close>

definition letter_event :: "lib \<Rightarrow> EntityEventDeadLetter \<Rightarrow> Event" where
  "letter_event L d =
     \<lparr>ev_ID = uuid_String L (d_event_id d), ev_EventType = d_event_type d, ev_PayloadType = d_payload_type d,
      ev_Payload = None, ev_RawPayload = d_payload d, ev_EntityID = text_or_empty (d_entity_id d),
      ev_EntityType = [], ev_EntityDisplayName = [], ev_RelationKey = [], ev_Tags = [],
      ev_OccurredAt = 0, ev_PublishedAt = None\<rparr>"

fun replay_letters :: "lib \<Rightarrow> ConsumerFunc \<Rightarrow> EntityEventDeadLetter list \<Rightarrow> nat \<times> nat \<Rightarrow> (nat \<times> nat) dbm" where
  "replay_letters L process [] acc s = (s, Inr acc)"
| "replay_letters L process (d # ds) (replayed, failed) s =
     (case call_process process [letter_event L d] s of
        (s, Inl _) \<Rightarrow> replay_letters L process ds (replayed, failed + 1) s
      | (s, Inr _) \<Rightarrow> replay_letters L process ds (replayed + 1, failed) (fst (q_DeleteDeadLetter (d_id d) s)))"

definition ReplayDeadLetters :: "lib \<Rightarrow> ConsumerFunc \<Rightarrow> ConsumerConfig \<Rightarrow> (int \<times> string list) option \<Rightarrow> (nat \<times> nat) dbm" where
  "ReplayDeadLetters L process c opts =
     (let limit = (case opts of None \<Rightarrow> 100 | Some (n, _) \<Rightarrow> if 0 < n then n else 100);
          eventTypes = (case opts of None \<Rightarrow> [] | Some (_, ts) \<Rightarrow> ts) in
      dbind (dwrap (Wrap ''list dead letters'') (q_ListDeadLetters (cc_Name c) eventTypes (int32 limit))) (\<lambda>letters.
      replay_letters L process letters (0, 0)))"

definition PurgeDeadLetters :: "int \<Rightarrow> unit dbm" where
  "PurgeDeadLetters olderThan s = q_PurgeOldDeadLetters (clock s (tick s) - olderThan) s"

end
