(* ===== verification/Write_Effects.thy ===== *)
theory Write_Effects
  imports Store_Write
begin

text \<open>
  What the writes of \<open>src/store/store_write.go\<close> do: batches are atomic, events are appended with
  the writes they describe, versions detect lost updates, preconditions hold when an operation
  runs, and anchors lead back to the entity that was written last with them.
\<close>

section \<open>Validation\<close>

lemma validate_each_tag_iff:
  "validate_each_tag ts = Inr () \<longleftrightarrow> (\<forall>t\<in>set ts. t \<noteq> [] \<and> length t \<le> maxTagLength)"
  by (induction ts) auto

lemma validateTags_iff:
  "validateTags ts = Inr () \<longleftrightarrow>
     length ts \<le> maxTagsPerEntity \<and> (\<forall>t\<in>set ts. t \<noteq> [] \<and> length t \<le> maxTagLength)"
  by (auto simp: validateTags_def validate_each_tag_iff)

lemma validateRelationType_iff:
  "validateRelationType rt = Inr () \<longleftrightarrow> rt \<noteq> [] \<and> length rt \<le> maxRelationType"
  by (auto simp: validateRelationType_def)

definition op_valid :: "BatchWriteOp \<Rightarrow> bool" where
  "op_valid opr \<longleftrightarrow> (\<forall>we. bo_WriteEntity opr = Some we \<longrightarrow> validateTags (wo_Tags we) = Inr ())
     \<and> (\<forall>ur. bo_UpsertRelation opr = Some ur \<longrightarrow> validateRelationType (ur_RelationType ur) = Inr ())"

lemma validate_ops_iff: "validate_ops i ops = Inr () \<longleftrightarrow> (\<forall>opr\<in>set ops. op_valid opr)"
  by (induction ops arbitrary: i) (auto simp: op_valid_def bind_res_Inr_iff split: option.splits)

section \<open>Batches are atomic\<close>

lemma executeBatchOps_length: "executeBatchOps L i ops s = (s', Inr rs) \<Longrightarrow> length rs = length ops"
  by (induction ops arbitrary: i s s' rs) (auto simp: dbind_Inr_iff)

text \<open>C1. A batch outside an external transaction is all or nothing. When it succeeds, there is one
  result per operation and the tables are those of the whole batch; when it fails, at validation,
  at a precondition, at any statement or at the commit, the tables are the old ones. The only
  exception is a commit whose acknowledgement was lost: then the tables are the old ones or
  those of the whole batch. No transaction stays open.\<close>

theorem BatchWrite_atomic:
  assumes "BatchWrite L st ops s = (s', r)" "\<not> st_external st" "tx s = None"
  shows "tx s' = None \<and> (case r of
     Inr rs \<Rightarrow> length rs = length ops
       \<and> (\<exists>s2. executeBatchOps L 0 ops (started s) = (s2, Inr rs) \<and> tabs s' = tabs s2)
   | Inl e \<Rightarrow> tabs s' = tabs s
       \<or> e = Wrap ''tx commit'' (ErrDb StatementFailed)
         \<and> (\<exists>s2 rs. executeBatchOps L 0 ops (started s) = (s2, Inr rs) \<and> tabs s' = tabs s2))"
proof -
  consider (early) e where "s' = s" "r = Inl e"
    | (run) "in_tx False (Wrap ''tx commit'') (executeBatchOps L 0 ops) s = (s', r)"
    using assms(1,2)
    by (auto simp: BatchWrite_def dfail_def dbind_def dlift_def split: if_splits sum.splits)
  then show ?thesis
  proof cases
    case early
    then show ?thesis using assms(3) by simp
  next
    case run
    then show ?thesis
      by (cases rule: in_tx_cases [OF _ steady_executeBatchOps assms(3)])
        (auto simp: next_tick_def assms(3) executeBatchOps_length)
  qed
qed

section \<open>Events are written with the operations\<close>

text \<open>\<open>emits m names\<close>: when \<open>m\<close> succeeds in a transaction, it has appended events with these
  payload types and the transaction's time, and nothing else to the event log.\<close>

definition emits :: "'a dbm \<Rightarrow> string list \<Rightarrow> bool" where
  "emits m names \<longleftrightarrow> (\<forall>s s' x T. tx s = Some T \<longrightarrow> m s = (s', Inr x) \<longrightarrow> tx s' = Some T
     \<and> (\<exists>vs. events (tabs s') = events (tabs s) @ vs \<and> map v_payload_type vs = names
          \<and> (\<forall>v\<in>set vs. v_occurred_at v = tx_now T)))"

lemma emits_dbind:
  assumes "emits m as" "\<And>x. emits (f x) bs"
  shows "emits (dbind m f) (as @ bs)"
  unfolding emits_def
proof (intro allI impI)
  fix s s' y T
  assume t: "tx s = Some T" and d: "dbind m f s = (s', Inr y)"
  then obtain s1 x where 1: "m s = (s1, Inr x)" and 2: "f x s1 = (s', Inr y)"
    by (auto simp: dbind_Inr_iff)
  obtain vs where vs: "tx s1 = Some T" "events (tabs s1) = events (tabs s) @ vs"
      "map v_payload_type vs = as" "\<forall>v\<in>set vs. v_occurred_at v = tx_now T"
    using assms(1) t 1 unfolding emits_def by blast
  obtain ws where ws: "tx s' = Some T" "events (tabs s') = events (tabs s1) @ ws"
      "map v_payload_type ws = bs" "\<forall>v\<in>set ws. v_occurred_at v = tx_now T"
    using assms(2) [of x] vs(1) 2 unfolding emits_def by blast
  have "events (tabs s') = events (tabs s) @ (vs @ ws)" "map v_payload_type (vs @ ws) = as @ bs"
    "\<forall>v\<in>set (vs @ ws). v_occurred_at v = tx_now T" using vs ws by auto
  with ws(1) show "tx s' = Some T \<and> (\<exists>vs. events (tabs s') = events (tabs s) @ vs \<and> map v_payload_type vs = as @ bs
          \<and> (\<forall>v\<in>set vs. v_occurred_at v = tx_now T))" by blast
qed

lemma emits_seq: "emits m [] \<Longrightarrow> (\<And>x. emits (f x) bs) \<Longrightarrow> emits (dbind m f) bs"
  using emits_dbind [of m "[]" f bs] by simp

lemma emits_end: "emits m as \<Longrightarrow> (\<And>x. emits (f x) []) \<Longrightarrow> emits (dbind m f) as"
  using emits_dbind [of m as f "[]"] by simp

lemma emits_dret: "emits (dret x) []"
  by (auto simp: emits_def)

lemma emits_dfail: "emits (dfail e) ns"
  by (auto simp: emits_def)

lemma emits_dlift: "emits (dlift r) []"
  by (auto simp: emits_def)

lemma emits_dwrap: "emits m ns \<Longrightarrow> emits (dwrap w m) ns"
  unfolding emits_def dwrap_Inr_iff by assumption

lemma emits_dmap: "emits m ns \<Longrightarrow> emits (dmap f m) ns"
  unfolding dmap_def by (erule emits_end) (rule emits_dret)

lemma emits_if: "(b \<Longrightarrow> emits m ns) \<Longrightarrow> (\<not> b \<Longrightarrow> emits m' ns) \<Longrightarrow> emits (if b then m else m') ns"
  by simp

lemma emits_option:
  "(v = None \<Longrightarrow> emits m ns) \<Longrightarrow> (\<And>x. v = Some x \<Longrightarrow> emits (f x) ns) \<Longrightarrow>
     emits (case v of None \<Rightarrow> m | Some x \<Rightarrow> f x) ns"
  by (cases v) simp_all

lemma emits_prod: "(\<And>x y. emits (f x y) ns) \<Longrightarrow> emits (case v of (x, y) \<Rightarrow> f x y) ns"
  by (cases v) simp

lemma emits_exec:
  "(\<And>now uid t t' x. f now uid t = Inr (t', x) \<Longrightarrow> events t' = events t) \<Longrightarrow> emits (exec f) []"
  unfolding emits_def by (auto elim!: exec_Inr simp: next_tick_def)

lemma emits_exec_one:
  "(\<And>now uid t t' x. f now uid t = Inr (t', x) \<Longrightarrow> events t' = events t) \<Longrightarrow> emits (exec_one f) []"
  unfolding emits_def by (auto elim!: exec_one_Inr simp: next_tick_def)

lemma emits_insertEvents: "emits (insertEvents L u rk tags ty evts) (map MessageName evts)"
  unfolding emits_def
proof (intro allI impI)
  fix s s' x T
  assume t: "tx s = Some T" and i: "insertEvents L u rk tags ty evts s = (s', Inr x)"
  obtain vs where vs: "tx s' = Some T" "tabs s' = (tabs s)\<lparr>events := events (tabs s) @ vs\<rparr>"
      "list_all2 (event_row_for L u rk tags ty (tx_now T)) evts vs"
    using insertEvents_appends [OF _ t, of L u rk tags ty evts s'] i by auto
  have "map v_payload_type vs = map MessageName evts" "\<forall>v\<in>set vs. v_occurred_at v = tx_now T"
    using vs(3) by (induction rule: list_all2_induct) (auto simp: event_row_for_def)
  with vs show "tx s' = Some T \<and> (\<exists>vs. events (tabs s') = events (tabs s) @ vs
      \<and> map v_payload_type vs = map MessageName evts \<and> (\<forall>v\<in>set vs. v_occurred_at v = tx_now T))"
    by auto
qed

lemmas emits_rules = emits_dret emits_dfail emits_dlift emits_dwrap emits_dmap emits_if emits_option
  emits_prod

lemma emits_write_stmts:
  "emits (q_InsertEntity ty d c ts n) []" "emits (q_InsertEntityWithID u ty d c ts n) []"
  "emits (q_UpdateEntityData u d c n ver) []" "emits (q_MergeEntityData u d c n ver) []"
  "emits (q_AddEntityTags u ts) []" "emits (q_UpsertAnchor u ty f v) []"
  "emits (q_UpsertTokens u ty f mts) []" "emits (q_UpdateEntityEmbedding u vec) []"
  "emits (q_UpsertRelation src tgt ty c ev imp urn dt d) []"
  "emits (q_GetEntity u) []" "emits (q_FindByAnchors ty f v ts as x us) []"
  unfolding write_stmts q_GetEntity_def q_FindByAnchors_def select_def select_one_def Let_def
  by (rule emits_exec emits_exec_one, auto simp: update_entities_def dest: insert_entity_row_events
        upsert_relation_row_events versioned_update_events split: if_splits option.splits)+

lemma emits_parse_id: "emits (parse_id L what i) []"
  unfolding parse_id_def by (intro emits_rules)

lemma emits_find_anchor_rows: "emits (find_anchor_rows ty ts as x us aqs) []"
  by (induction aqs)
    (simp_all only: find_anchor_rows.simps, (intro emits_seq emits_rules emits_write_stmts; assumption?)+)

lemma emits_evaluatePreConditions: "emits (evaluatePreConditions L i pcs) []"
  by (induction pcs)
    (simp_all only: evaluatePreConditions.simps findByAnchorsTx_def,
      (intro emits_seq emits_rules emits_find_anchor_rows; assumption?)+)

lemma emits_upserts:
  "emits (upsertAnchors u ty aqs) []" "emits (upsertTokens u ty ks) []" "emits (updateEmbedding u v) []"
proof -
  show "emits (upsertAnchors u ty aqs) []"
    by (induction aqs)
      (simp_all only: upsertAnchors.simps, (intro emits_seq emits_rules emits_write_stmts; assumption?)+)
  show "emits (upsertTokens u ty ks) []"
    by (induction ks rule: upsertTokens.induct)
      (simp_all only: upsertTokens.simps, (intro emits_seq emits_rules emits_write_stmts; assumption?)+)
  show "emits (updateEmbedding u v) []"
    unfolding updateEmbedding_def by (intro emits_rules emits_write_stmts)
qed

lemma emits_applyCreate:
  "emits (applyCreate L opr) (''entitystore.events.v1.EntityCreated'' # map MessageName (wo_Events opr))"
proof -
  have "emits (insertEvents L u [] ts ty (EntityCreated a b c d # wo_Events opr))
      (''entitystore.events.v1.EntityCreated'' # map MessageName (wo_Events opr))" for u ts ty a b c d
    using emits_insertEvents [of L u "[]" ts ty "EntityCreated a b c d # wo_Events opr"] by simp
  then show ?thesis
    unfolding applyCreate_def create_row_def
    by (intro emits_seq emits_end emits_rules emits_upserts emits_write_stmts emits_parse_id)
qed

definition std_event :: "WriteEntityOp \<Rightarrow> string" where
  "std_event opr = (if wo_Action opr = WriteActionCreate then ''entitystore.events.v1.EntityCreated''
     else if wo_Action opr = WriteActionUpdate then ''entitystore.events.v1.EntityUpdated''
     else ''entitystore.events.v1.EntityMerged'')"

lemma emits_write_data: "emits (write_data opr u d) []"
  unfolding write_data_def require_rows_def
  by (intro emits_rules emits_seq emits_write_stmts)

lemma emits_applyUpdateOrMerge:
  assumes "wo_Action opr \<noteq> WriteActionCreate"
  shows "emits (applyUpdateOrMerge L opr) (std_event opr # map MessageName (wo_Events opr))"
proof -
  let ?e = "\<lambda>a b c d. if wo_Action opr = WriteActionUpdate then EntityUpdated a b c d else EntityMerged a b"
  have "emits (insertEvents L u [] ts ty (?e a b c d # wo_Events opr))
      (std_event opr # map MessageName (wo_Events opr))" for u ts ty a b c d
    using emits_insertEvents [of L u "[]" ts ty "?e a b c d # wo_Events opr"] assms
    by (simp add: std_event_def split: if_splits)
  then show ?thesis
    unfolding applyUpdateOrMerge_def add_tags_def
    by (intro emits_seq emits_end emits_rules emits_upserts emits_write_stmts emits_parse_id
        emits_write_data)
qed

text \<open>The events an operation of a batch writes: the one that describes it, then the caller's.\<close>

definition op_events :: "BatchWriteOp \<Rightarrow> string list" where
  "op_events opr = (case bo_WriteEntity opr of
     Some we \<Rightarrow> std_event we # map MessageName (wo_Events we)
   | None \<Rightarrow> (case bo_UpsertRelation opr of
       Some ur \<Rightarrow> ''entitystore.events.v1.RelationCreated'' # map MessageName (ur_Events ur)
     | None \<Rightarrow> []))"

lemma emits_applyEntityWrite: "emits (applyEntityWrite L we) (std_event we # map MessageName (wo_Events we))"
proof (cases "wo_Action we = WriteActionCreate")
  case True
  then show ?thesis using emits_applyCreate [of L we] by (simp add: applyEntityWrite_def std_event_def)
next
  case False
  then show ?thesis
    unfolding applyEntityWrite_def by (simp add: emits_applyUpdateOrMerge emits_dfail)
qed

lemma emits_batch_op: "emits (batch_op L i opr) (op_events opr)"
proof (cases "bo_WriteEntity opr")
  case (Some we)
  have "emits (dbind (dwrap (WrapOp i ''write_entity'') (applyEntityWrite L we))
      (\<lambda>ent. dret \<lparr>br_Entity = Some ent, br_Relation = None\<rparr>)) (op_events opr)"
    by (intro emits_end emits_dwrap emits_dret) (simp add: op_events_def Some emits_applyEntityWrite)
  then show ?thesis by (simp add: batch_op_def Some)
next
  case None
  show ?thesis
  proof (cases "bo_UpsertRelation opr")
    case (Some ur)
    have ie: "emits (insertEvents L uuid_Nil k [] [] (RelationCreated a b c d # ur_Events ur)) (op_events opr)"
      for k a b c d
      using emits_insertEvents [of L uuid_Nil k "[]" "[]" "RelationCreated a b c d # ur_Events ur"]
      by (simp add: op_events_def None Some)
    have ur: "emits (upsertRelation L sr) []" for sr
      unfolding upsertRelation_def by (intro emits_seq emits_rules emits_parse_id emits_write_stmts)
    show ?thesis
      unfolding batch_op_def None Some option.simps
      by (intro emits_seq [OF emits_dwrap [OF emits_dlift]] emits_seq [OF emits_dwrap [OF ur]]
          emits_end [OF emits_dwrap [OF ie]] emits_dret)
  qed (simp add: batch_op_def None emits_dfail)
qed

lemma emits_executeBatchOps: "emits (executeBatchOps L i ops) (concat (map op_events ops))"
proof (induction ops arbitrary: i)
  case (Cons opr ops)
  show ?case
    by (simp only: executeBatchOps.simps list.simps concat.simps)
      (intro emits_seq [OF emits_evaluatePreConditions] emits_dbind [OF emits_batch_op]
        emits_end [OF Cons.IH] emits_dret)
qed (simp add: emits_dret)

text \<open>C22. A batch that succeeds appends to the event log, for each operation in order, the event that
  describes it followed by the caller's own events, all stamped with the time the transaction
  began, and nothing else. (A batch that fails appends nothing, see the atomicity theorem.)\<close>

theorem BatchWrite_events:
  assumes "BatchWrite L st ops s = (s', Inr rs)" "\<not> st_external st" "tx s = None"
  shows "\<exists>vs. events (tabs s') = events (tabs s) @ vs
    \<and> map v_payload_type vs = concat (map op_events ops)
    \<and> (\<forall>v\<in>set vs. v_occurred_at v = clock s (tick s))"
proof -
  have "in_tx False (Wrap ''tx commit'') (executeBatchOps L 0 ops) s = (s', Inr rs)"
    using assms(1,2) by (auto simp: BatchWrite_def dbind_Inr_iff split: if_splits)
  then obtain s2 where s2: "executeBatchOps L 0 ops (started s) = (s2, Inr rs)" "tabs s' = tabs s2"
    by (cases rule: in_tx_cases [OF _ steady_executeBatchOps assms(3)]) auto
  let ?T = "\<lparr>tx_snapshot = tabs s, tx_now = clock s (tick s), tx_aborted = False\<rparr>"
  have "tx (started s) = Some ?T" "tabs (started s) = tabs s" by (simp_all add: started_def next_tick_def)
  with emits_executeBatchOps [of L 0 ops] s2 show ?thesis
    unfolding emits_def by (metis transaction.select_convs(2))
qed

section \<open>Optimistic locking\<close>

text \<open>What tags, anchors, tokens, embeddings and events leave alone in an entity row.\<close>

definition same_core :: "Entity \<Rightarrow> Entity \<Rightarrow> bool" where
  "same_core e e' \<longleftrightarrow> e_id e' = e_id e \<and> e_type e' = e_type e \<and> e_data e' = e_data e
     \<and> e_confidence e' = e_confidence e \<and> e_display_name e' = e_display_name e
     \<and> e_version e' = e_version e \<and> e_deleted_at e' = e_deleted_at e \<and> e_created_at e' = e_created_at e"

definition core_eq :: "tables \<Rightarrow> tables \<Rightarrow> bool" where
  "core_eq t t' \<longleftrightarrow> list_all2 same_core (entities t) (entities t')"

definition frames :: "'a dbm \<Rightarrow> bool" where
  "frames m \<longleftrightarrow> (\<forall>s s' x. m s = (s', Inr x) \<longrightarrow> core_eq (tabs s) (tabs s'))"

lemma same_core_refl [simp]: "same_core e e"
  by (simp add: same_core_def)

lemma core_eq_refl [simp]: "core_eq t t"
  by (simp add: core_eq_def list.rel_refl)

lemma core_eq_same: "entities t' = entities t \<Longrightarrow> core_eq t t'"
  by (simp add: core_eq_def list.rel_refl)

lemma core_eq_trans: "core_eq t t' \<Longrightarrow> core_eq t' t'' \<Longrightarrow> core_eq t t''"
  unfolding core_eq_def
  by (rule list_all2_trans [of same_core same_core same_core]) (auto simp: same_core_def)

lemma core_eq_update: "(\<And>e. same_core e (f e)) \<Longrightarrow> core_eq t (update_entities P f t)"
  by (auto simp: core_eq_def update_entities_def list_all2_conv_all_nth)

lemma framesD: "frames m \<Longrightarrow> m s = (s', Inr x) \<Longrightarrow> core_eq (tabs s) (tabs s')"
  unfolding frames_def by blast

lemma frames_dbind: "frames m \<Longrightarrow> (\<And>x. frames (f x)) \<Longrightarrow> frames (dbind m f)"
  unfolding frames_def dbind_Inr_iff by (blast intro: core_eq_trans)

lemma frames_dret: "frames (dret x)"
  by (auto simp: frames_def)

lemma frames_dfail: "frames (dfail e)"
  by (auto simp: frames_def)

lemma frames_dwrap: "frames m \<Longrightarrow> frames (dwrap w m)"
  unfolding frames_def dwrap_Inr_iff by assumption

lemma frames_if: "frames m \<Longrightarrow> frames m' \<Longrightarrow> frames (if b then m else m')"
  by simp

lemma frames_option: "frames m \<Longrightarrow> (\<And>x. frames (f x)) \<Longrightarrow> frames (case v of None \<Rightarrow> m | Some x \<Rightarrow> f x)"
  by (cases v) simp_all

lemma frames_exec: "(\<And>now uid t t' x. f now uid t = Inr (t', x) \<Longrightarrow> core_eq t t') \<Longrightarrow> frames (exec f)"
  unfolding frames_def by (auto elim!: exec_Inr simp: next_tick_def)

lemma frames_exec_one:
  "(\<And>now uid t t' x. f now uid t = Inr (t', x) \<Longrightarrow> core_eq t t') \<Longrightarrow> frames (exec_one f)"
  unfolding frames_def by (auto elim!: exec_one_Inr simp: next_tick_def)

lemmas frames_rules = frames_dbind frames_dret frames_dfail frames_dwrap frames_if frames_option

lemma frames_index_stmts:
  "frames (q_UpsertAnchor u ty f v)" "frames (q_UpsertTokens u ty f mts)"
  "frames (q_InsertEvent w et pt d mu mk ts ty)" "frames (q_GetEntity u)"
  unfolding q_UpsertAnchor_def q_UpsertTokens_def q_InsertEvent_def q_GetEntity_def select_one_def Let_def
  by (rule frames_exec frames_exec_one, auto split: if_splits option.splits intro!: core_eq_same)+

lemma frames_entity_stmts:
  "frames (q_AddEntityTags u ts)" "frames (q_UpdateEntityEmbedding u vec)"
  unfolding q_AddEntityTags_def q_UpdateEntityEmbedding_def
  by (rule frames_exec, auto simp: same_core_def split: if_splits intro!: core_eq_update)+

lemmas frames_stmts = frames_index_stmts frames_entity_stmts

lemma frames_NewV7: "frames NewV7"
  by (auto simp: frames_def NewV7_def next_tick_def split: if_splits)

lemma frames_insertEvents: "frames (insertEvents L u rk ts ty evts)"
  by (induction evts)
    (simp_all only: insertEvents.simps, (intro frames_rules frames_stmts frames_NewV7; assumption?)+)

lemma frames_upserts:
  "frames (upsertAnchors u ty aqs)" "frames (upsertTokens u ty ks)" "frames (updateEmbedding u v)"
proof -
  show "frames (upsertAnchors u ty aqs)"
    by (induction aqs)
      (simp_all only: upsertAnchors.simps, (intro frames_rules frames_stmts; assumption?)+)
  show "frames (upsertTokens u ty ks)"
    by (induction ks rule: upsertTokens.induct)
      (simp_all only: upsertTokens.simps, (intro frames_rules frames_stmts; assumption?)+)
  show "frames (updateEmbedding u v)"
    unfolding updateEmbedding_def by (intro frames_rules frames_stmts)
qed

lemma core_eq_member: "core_eq t t' \<Longrightarrow> e' \<in> set (entities t') \<Longrightarrow> \<exists>e\<in>set (entities t). same_core e e'"
  unfolding core_eq_def list_all2_conv_all_nth by (metis in_set_conv_nth)

lemma core_eq_forward: "core_eq t t' \<Longrightarrow> e \<in> set (entities t) \<Longrightarrow> \<exists>e'\<in>set (entities t'). same_core e e'"
  unfolding core_eq_def list_all2_conv_all_nth by (metis in_set_conv_nth)

definition new_data :: "WriteEntityOp \<Rightarrow> json \<Rightarrow> json \<Rightarrow> json" where
  "new_data opr d old = (if wo_Action opr = WriteActionUpdate then d else jsonb_concat old d)"

definition is_update :: "WriteEntityOp \<Rightarrow> bool" where
  "is_update opr \<longleftrightarrow> wo_Action opr = WriteActionUpdate \<or> wo_Action opr = WriteActionMerge"

lemma write_data_Inr:
  assumes "write_data opr u d s = (s', Inr ())" "is_update opr"
  obtains now where
    "\<exists>e\<in>set (entities (tabs s)). e_id e = u \<and> e_version e = int32 (wo_Version opr) \<and> live e"
    "tabs s' = update_entities (\<lambda>e. e_id e = u \<and> e_version e = int32 (wo_Version opr) \<and> live e)
       (\<lambda>e. e\<lparr>e_data := new_data opr d (e_data e), e_confidence := wo_Confidence opr,
               e_display_name := wo_DisplayName opr, e_version := e_version e + 1, e_updated_at := now\<rparr>) (tabs s)"
proof -
  have nd: "wo_Action opr = WriteActionUpdate \<Longrightarrow> new_data opr d = (\<lambda>_. d)"
    "wo_Action opr = WriteActionMerge \<Longrightarrow> new_data opr d = (\<lambda>old. jsonb_concat old d)"
    by (auto simp: new_data_def WriteActionUpdate_def WriteActionMerge_def)
  have "\<exists>k. exec (\<lambda>now _. versioned_update u (new_data opr d) (wo_Confidence opr) (wo_DisplayName opr)
        (int32 (wo_Version opr)) now) s = (s', Inr k) \<and> k \<noteq> 0"
    using assms
    by (auto simp: write_data_def is_update_def require_rows_def dbind_Inr_iff nd
        q_UpdateEntityData_def q_MergeEntityData_def split: if_splits)
  then obtain k where k: "exec (\<lambda>now _. versioned_update u (new_data opr d) (wo_Confidence opr)
        (wo_DisplayName opr) (int32 (wo_Version opr)) now) s = (s', Inr k)" "k \<noteq> 0" by blast
  obtain now t where t: "versioned_update u (new_data opr d) (wo_Confidence opr)
        (wo_DisplayName opr) (int32 (wo_Version opr)) now (tabs s) = Inr (t, k)" "s' = (next_tick s)\<lparr>tabs := t\<rparr>"
    by (rule exec_Inr [OF k(1)]) blast
  have "filter (\<lambda>e. e_id e = u \<and> e_version e = int32 (wo_Version opr) \<and> live e) (entities (tabs s)) \<noteq> []"
    using t(1) k(2) by (auto simp: versioned_update_def Let_def split: if_splits)
  then have "\<exists>e\<in>set (entities (tabs s)). e_id e = u \<and> e_version e = int32 (wo_Version opr) \<and> live e"
    by (auto simp: filter_empty_conv)
  then show thesis
    by (rule that [of now]) (use t in \<open>auto simp: versioned_update_def Let_def split: if_splits\<close>)
qed

lemma applyUpdateOrMerge_steps:
  assumes "applyUpdateOrMerge L opr s = (s', Inr ent)"
  obtains ty d u s1 t2 row where "marshalEntityData L opr = Inr (ty, d)"
    "uuid_Parse L (wo_MatchedEntityID opr) = Some u" "write_data opr u d s = (s1, Inr ())"
    "core_eq (tabs s1) t2" "core_eq t2 (tabs s')" "row \<in> set (entities t2)"
    "e_id row = u" "live row" "ent = entityFromRow L row"
proof -
  obtain ty d where md: "marshalEntityData L opr = Inr (ty, d)"
    using assms by (auto simp: applyUpdateOrMerge_def dbind_Inr_iff)
  obtain u s0 s1 sa sb sc sd s2 s3 row x1 x2 x3 x4 x5 x6 where
    raw: "parse_id L ''entity id'' (wo_MatchedEntityID opr) s = (s0, Inr u)"
      "write_data opr u d s0 = (s1, Inr x1)" "add_tags u (wo_Tags opr) s1 = (sa, Inr x2)"
      "upsertAnchors u ty (wo_Anchors opr) sa = (sb, Inr x3)"
      "upsertTokens u ty (wo_Tokens opr) sb = (sc, Inr x4)"
      "updateEmbedding u (wo_Embedding opr) sc = (sd, Inr x5)"
      "dwrap (Wrap ''get entity'') (q_GetEntity u) sd = (s2, Inr row)"
    and i: "insertEvents L u [] (e_tags row) ty ((if wo_Action opr = WriteActionUpdate
        then EntityUpdated (uuid_String L u) ty (wo_Confidence opr) (e_tags row)
        else EntityMerged (uuid_String L u) ty) # wo_Events opr) s2 = (s3, Inr x6)"
    and fin: "dret (entityFromRow L row) s3 = (s', Inr ent)"
    using assms unfolding applyUpdateOrMerge_def md dbind_simps case_prod_conv
    by (elim dbindE) blast
  have st: "uuid_Parse L (wo_MatchedEntityID opr) = Some u" "write_data opr u d s = (s1, Inr ())"
    using raw(1,2) by simp_all
  note m = raw(3-6)
  have g: "q_GetEntity u sd = (s2, Inr row)" and ent: "ent = entityFromRow L row" and s3: "s3 = s'"
    using raw(7) fin by simp_all
  have "frames (add_tags u (wo_Tags opr))" unfolding add_tags_def by (intro frames_rules frames_stmts)
  note fr = framesD [OF this m(1)] framesD [OF frames_upserts(1) m(2)] framesD [OF frames_upserts(2) m(3)]
    framesD [OF frames_upserts(3) m(4)] framesD [OF frames_index_stmts(4) g]
  have c1: "core_eq (tabs s1) (tabs s2)" using fr by (blast intro: core_eq_trans)
  have c2: "core_eq (tabs s2) (tabs s')" using framesD [OF frames_insertEvents i] by (simp add: s3)
  obtain rest where "filter (\<lambda>e. e_id e = u \<and> live e) (entities (tabs sd)) = row # rest" and s2: "tabs s2 = tabs sd"
    using select_one_Inr [OF g [unfolded q_GetEntity_def]] by (auto simp: next_tick_def)
  then have "row \<in> set (filter (\<lambda>e. e_id e = u \<and> live e) (entities (tabs sd)))" by simp
  then have r: "row \<in> set (entities (tabs s2))" "e_id row = u" "live row" by (simp_all add: s2)
  show thesis by (rule that [OF md st c1 c2 r ent])
qed

lemma distinct_id: "schema t \<Longrightarrow> e \<in> set (entities t) \<Longrightarrow> e' \<in> set (entities t) \<Longrightarrow> e_id e = e_id e' \<Longrightarrow> e = e'"
  by (auto simp: schema_def entities_ok_def distinct_map dest: inj_onD)

lemma update_effect:
  assumes "applyUpdateOrMerge L opr s = (s', Inr ent)" "is_update opr" "schema (tabs s)"
  shows "\<exists>u e ty d. marshalEntityData L opr = Inr (ty, d) \<and> uuid_Parse L (wo_MatchedEntityID opr) = Some u
    \<and> e \<in> set (entities (tabs s)) \<and> e_id e = u \<and> live e \<and> e_version e = int32 (wo_Version opr)
    \<and> se_ID ent = uuid_String L u \<and> se_EntityType ent = e_type e \<and> se_Version ent = e_version e + 1
    \<and> se_Data ent = Some (new_data opr d (e_data e)) \<and> se_Confidence ent = wo_Confidence opr
    \<and> se_DisplayName ent = wo_DisplayName opr
    \<and> (\<exists>e'\<in>set (entities (tabs s')). e_id e' = u \<and> e_version e' = e_version e + 1 \<and> live e')"
proof -
  obtain ty d u s1 t2 row where 1: "marshalEntityData L opr = Inr (ty, d)"
    "uuid_Parse L (wo_MatchedEntityID opr) = Some u" "write_data opr u d s = (s1, Inr ())"
    "core_eq (tabs s1) t2" "core_eq t2 (tabs s')" "row \<in> set (entities t2)"
    "e_id row = u" "live row" "ent = entityFromRow L row"
    by (rule applyUpdateOrMerge_steps [OF assms(1)])
  let ?P = "\<lambda>e. e_id e = u \<and> e_version e = int32 (wo_Version opr) \<and> live e"
  obtain now where ex: "\<exists>e\<in>set (entities (tabs s)). ?P e"
    and s1: "tabs s1 = update_entities ?P (\<lambda>e. e\<lparr>e_data := new_data opr d (e_data e),
        e_confidence := wo_Confidence opr, e_display_name := wo_DisplayName opr,
        e_version := e_version e + 1, e_updated_at := now\<rparr>) (tabs s)"
    using 1 assms(2) by (elim write_data_Inr) auto
  obtain e where e: "e \<in> set (entities (tabs s))" "?P e" using ex by blast
  obtain e1 where e1: "e1 \<in> set (entities (tabs s1))" "same_core e1 row"
    using core_eq_member 1 by blast
  obtain e0 where e0: "e0 \<in> set (entities (tabs s))"
    "e1 = (if ?P e0 then e0\<lparr>e_data := new_data opr d (e_data e0), e_confidence := wo_Confidence opr,
        e_display_name := wo_DisplayName opr, e_version := e_version e0 + 1, e_updated_at := now\<rparr> else e0)"
    using e1(1) by (auto simp: s1 update_entities_def)
  have "e_id e1 = u" using e1 1 by (simp add: same_core_def)
  then have "e_id e0 = u" using e0(2) by (auto split: if_splits)
  then have "e0 = e" using distinct_id [OF assms(3) e0(1) e(1)] e(2) by simp
  then have "e1 = e\<lparr>e_data := new_data opr d (e_data e), e_confidence := wo_Confidence opr,
        e_display_name := wo_DisplayName opr, e_version := e_version e + 1, e_updated_at := now\<rparr>"
    using e0(2) e(2) by simp
  then have "e_version row = e_version e + 1" "e_data row = new_data opr d (e_data e)"
    "e_type row = e_type e" "e_confidence row = wo_Confidence opr" "e_display_name row = wo_DisplayName opr"
    using e1(2) by (simp_all add: same_core_def)
  moreover obtain e' where "e' \<in> set (entities (tabs s'))" "same_core row e'"
    using core_eq_forward 1 by blast
  ultimately show ?thesis
    using 1 e by (intro exI [of _ u] exI [of _ e] exI [of _ ty] exI [of _ d])
      (auto simp: entityFromRow_def same_core_def live_def intro!: bexI [of _ e'])
qed

text \<open>C21. An update or a merge that succeeds found the live row of the given identifier at exactly the
  expected version (as an int32); it returns that row with the version one higher, the type
  unchanged, and the document replaced, or merged key by key.\<close>

theorem update_checks_version:
  assumes "applyUpdateOrMerge L opr s = (s', Inr ent)" "is_update opr" "schema (tabs s)"
  shows "\<exists>u e ty d. marshalEntityData L opr = Inr (ty, d) \<and> uuid_Parse L (wo_MatchedEntityID opr) = Some u
    \<and> e \<in> set (entities (tabs s)) \<and> e_id e = u \<and> live e \<and> e_version e = int32 (wo_Version opr)
    \<and> se_ID ent = uuid_String L u \<and> se_EntityType ent = e_type e \<and> se_Version ent = e_version e + 1
    \<and> se_Data ent = Some (new_data opr d (e_data e)) \<and> se_Confidence ent = wo_Confidence opr
    \<and> se_DisplayName ent = wo_DisplayName opr"
  using update_effect [OF assms] by blast

text \<open>Once an update or merge has succeeded at some expected version of an entity, no other update or
  merge of that entity succeeds with the same expected version in any later life of the tables.\<close>

lemma update_version_used:
  assumes "applyUpdateOrMerge L op1 s = (s1, Inr ent1)" "is_update op1" "schema (tabs s)"
    and "lives_on (tabs s1) (tabs s2)" "schema (tabs s2)"
    and "is_update op2" "uuid_Parse L (wo_MatchedEntityID op2) = uuid_Parse L (wo_MatchedEntityID op1)"
    and "int32 (wo_Version op2) = int32 (wo_Version op1)"
  shows "snd (applyUpdateOrMerge L op2 s2) \<noteq> Inr ent2"
proof
  assume "snd (applyUpdateOrMerge L op2 s2) = Inr ent2"
  then obtain s' where op2: "applyUpdateOrMerge L op2 s2 = (s', Inr ent2)" by (metis prod.collapse)
  obtain u e1 where 1: "uuid_Parse L (wo_MatchedEntityID op1) = Some u"
      "e1 \<in> set (entities (tabs s1))" "e_id e1 = u" "e_version e1 = int32 (wo_Version op1) + 1"
    using update_effect [OF assms(1-3)] by auto
  obtain e2 where 2: "e2 \<in> set (entities (tabs s2))" "e_id e2 = u" "e_version e1 \<le> e_version e2"
    using assms(4) 1(2,3) by (auto simp: lives_on_def outlives_def)
  obtain e3 where 3: "e3 \<in> set (entities (tabs s2))" "e_id e3 = u" "e_version e3 = int32 (wo_Version op2)"
    using update_effect [OF op2 assms(6,5)] assms(7) 1(1) by auto
  have "e2 = e3" using distinct_id [OF assms(5) 2(1) 3(1)] 2(2) 3(2) by simp
  then show False using 1(4) 2(3) 3(3) assms(8) by simp
qed

subsection \<open>A versioned update to evaluate\<close>

definition demo_tables :: tables where
  "demo_tables = empty_tables\<lparr>entities := [new_entity 1 500 ''t.v1.X'' (JObj []) 1 [] ''n'']\<rparr>"

definition demo_state :: db where
  "demo_state = demo_db\<lparr>tabs := demo_tables\<rparr>"

definition demo_update :: WriteEntityOp where
  "demo_update = \<lparr>wo_Action = WriteActionUpdate, wo_ID = [], wo_Data = Some (OtherMessage ''t.v1.X'' (JObj [])),
     wo_Confidence = 1, wo_Tags = [], wo_MatchedEntityID = ''u'', wo_Anchors = [], wo_Tokens = [],
     wo_Embedding = None, wo_DisplayName = ''m'', wo_Version = 0, wo_Events = []\<rparr>"

lemmas run_defs = dbind_def dret_def dfail_def dwrap_def dlift_def dmap_def exec_def exec_auto_def
  exec_tx_def exec_one_def next_tick_def parse_id_def unary_parse_def unary_string_def

lemma schema_demo: "schema (tabs demo_state)"
  by (simp add: demo_state_def demo_tables_def schema_defs empty_tables_def row_ok_new)

lemma int32_0 [simp]: "int32 0 = 0"
  by (simp add: int32_def)

lemma demo_update_runs: "\<exists>s' ent. applyUpdateOrMerge demo_lib demo_update demo_state = (s', Inr ent)"
  by (simp add: applyUpdateOrMerge_def marshalEntityData_def demo_update_def run_defs write_data_def
      require_rows_def q_UpdateEntityData_def versioned_update_def update_entities_def new_entity_def
      demo_state_def demo_tables_def empty_tables_def live_def add_tags_def updateEmbedding_def
      q_GetEntity_def select_one_def NewV7_def q_InsertEvent_def max_int32_def Let_def)

lemma is_update_demo: "is_update demo_update"
  by (simp add: is_update_def demo_update_def)

theorem update_checks_version_witness:
  "\<exists>s' ent. applyUpdateOrMerge demo_lib demo_update demo_state = (s', Inr ent) \<and> se_Version ent = 1"
proof -
  obtain s' ent where r: "applyUpdateOrMerge demo_lib demo_update demo_state = (s', Inr ent)"
    using demo_update_runs by blast
  have "int32 (wo_Version demo_update) = 0" by (simp add: demo_update_def)
  with update_checks_version [OF r is_update_demo schema_demo] have "se_Version ent = 1" by auto
  with r show ?thesis by blast
qed

text \<open>An update of a batch that succeeds ran on tables the batch reached, and the rest of the batch ran on its result.\<close>

lemma lives_on_trans: "lives_on t t' \<Longrightarrow> lives_on t' t'' \<Longrightarrow> lives_on t t''"
  unfolding lives_on_def by (meson outlives_trans)

lemma executeBatchOps_member:
  assumes "executeBatchOps L i ops s = (s', Inr rs)" "b \<in> set ops" "bo_WriteEntity b = Some we" "is_update we"
    "tx s = Some T" "schema (tabs s)"
  shows "\<exists>sa sb ent. applyUpdateOrMerge L we sa = (sb, Inr ent) \<and> lives_on (tabs s) (tabs sa) \<and> schema (tabs sa)
    \<and> lives_on (tabs sb) (tabs s')"
  using assms
proof (induction ops arbitrary: i s T rs)
  case (Cons c ops)
  obtain s1 where 1: "evaluatePreConditions L i (bo_PreConditions c) s = (s1, Inr ())"
    using Cons.prems(1) by (auto simp: dbind_Inr_iff)
  obtain s2 x where 2: "batch_op L i c s1 = (s2, Inr x)" and 3: "\<exists>rs. executeBatchOps L (Suc i) ops s2 = (s', Inr rs)"
    using Cons.prems(1) 1 by (auto simp: dbind_Inr_iff)
  obtain T1 where T1: "tx s1 = Some T1" using steadyD [OF steady_evaluatePreConditions Cons.prems(5) 1] by blast
  obtain T2 where T2: "tx s2 = Some T2" using steadyD [OF steady_batch_op T1 2] by blast
  have sc1: "schema (tabs s1)"
    by (rule keeps_in_tx [where I = schema, OF steady_evaluatePreConditions pres_evaluatePreConditions 1 Cons.prems(5,6)])
  have sc2: "schema (tabs s2)" by (rule keeps_in_tx [OF steady_batch_op constraints.keeps_batch_op 2 T1 sc1])
  have l1: "lives_on (tabs s) (tabs s1)"
    by (rule keeps_in_tx [where I = "lives_on (tabs s)", OF steady_evaluatePreConditions pres_evaluatePreConditions 1 Cons.prems(5) lives_on_refl])
  have l2: "lives_on (tabs s1) (tabs s2)"
    by (rule keeps_in_tx [where I = "lives_on (tabs s1)", OF steady_batch_op life.keeps_batch_op 2 T1 lives_on_refl])
  from 3 obtain rs' where 3: "executeBatchOps L (Suc i) ops s2 = (s', Inr rs')" by blast
  show ?case
  proof (cases "b = c")
    case True
    then have "bo_WriteEntity c = Some we" using Cons.prems(3) by simp
    then obtain ent where "applyEntityWrite L we s1 = (s2, Inr ent)"
      using 2 by (auto simp: batch_op_def dbind_Inr_iff)
    then have "applyUpdateOrMerge L we s1 = (s2, Inr ent)" using Cons.prems(4)
      by (auto simp: applyEntityWrite_def is_update_def WriteActionCreate_def WriteActionUpdate_def WriteActionMerge_def
          split: if_splits)
    moreover have "lives_on (tabs s2) (tabs s')"
      by (rule keeps_in_tx [where I = "lives_on (tabs s2)", OF steady_executeBatchOps life.keeps_executeBatchOps 3 T2 lives_on_refl])
    ultimately show ?thesis using l1 sc1 by blast
  next
    case False
    then have "b \<in> set ops" using Cons.prems(2) by simp
    from Cons.IH [OF 3 this Cons.prems(3,4) T2 sc2] show ?thesis using l1 l2 lives_on_trans by blast
  qed
qed simp

lemma BatchWrite_member:
  assumes "BatchWrite L st ops s = (s', Inr rs)" "\<not> st_external st" "tx s = None" "schema (tabs s)"
    "b \<in> set ops" "bo_WriteEntity b = Some we" "is_update we"
  shows "\<exists>sa sb ent. applyUpdateOrMerge L we sa = (sb, Inr ent) \<and> lives_on (tabs s) (tabs sa) \<and> schema (tabs sa)
    \<and> lives_on (tabs sb) (tabs s') \<and> tx s' = None"
proof -
  have "in_tx False (Wrap ''tx commit'') (executeBatchOps L 0 ops) s = (s', Inr rs)"
    using assms(1,2) by (auto simp: BatchWrite_def dbind_Inr_iff split: if_splits)
  then obtain s2 where s2: "executeBatchOps L 0 ops (started s) = (s2, Inr rs)" "tabs s' = tabs s2" "tx s' = None"
    by (cases rule: in_tx_cases [OF _ steady_executeBatchOps assms(3)]) auto
  have st: "tx (started s) = Some \<lparr>tx_snapshot = tabs s, tx_now = clock s (tick s), tx_aborted = False\<rparr>"
    "tabs (started s) = tabs s" by (simp_all add: started_def next_tick_def)
  show ?thesis using executeBatchOps_member [OF s2(1) assms(5-7) st(1)] assms(4) s2(2,3) st(2) by auto
qed

end
