(* ===== verification/Read_Effects.thy ===== *)
theory Read_Effects
  imports Store_Read Write_Effects
begin

text \<open>
  What the lookups of the store return: only live rows that pass the filter, all of them for an
  anchor lookup, and after a write what was written. The database-backed store is a
  \<open>candidate_source\<close> for the matcher.
\<close>

section \<open>Anchor lookups\<close>

definition passes :: "QueryFilter option \<Rightarrow> Entity \<Rightarrow> bool" where
  "passes filt e \<longleftrightarrow>
     tag_filter (tagsParam filt) (anyTagsParam filt) (excludeTagParam filt) (unlessTagsParam filt) (e_tags e)"

definition anchored :: "tables \<Rightarrow> string \<Rightarrow> AnchorQuery \<Rightarrow> uuid \<Rightarrow> bool" where
  "anchored t ty aq u \<longleftrightarrow> (\<exists>a\<in>set (anchors t). anchor_key a = (ty, aq_Field aq, aq_Value aq) \<and> a_entity_id a = u)"

lemma find_anchor_rows_Inr:
  assumes "find_anchor_rows ty ts as x us aqs s = (s', Inr rows)"
  shows "tabs s' = tabs s \<and> set rows = {e \<in> set (entities (tabs s)). live e
    \<and> tag_filter ts as x us (e_tags e) \<and> (\<exists>aq\<in>set aqs. anchored (tabs s) ty aq (e_id e))}"
  using assms
proof (induction aqs arbitrary: s rows)
  case (Cons aq aqs)
  then obtain s1 r1 r2 where 1: "q_FindByAnchors ty (aq_Field aq) (aq_Value aq) ts as x us s = (s1, Inr r1)"
    and 2: "find_anchor_rows ty ts as x us aqs s1 = (s', Inr r2)" and r: "rows = r1 @ r2"
    by (auto simp: dbind_Inr_iff)
  have t: "tabs s1 = tabs s" and r1: "set r1 = {e \<in> set (entities (tabs s)). live e
      \<and> tag_filter ts as x us (e_tags e) \<and> anchored (tabs s) ty aq (e_id e)}"
    using select_Inr [OF 1 [unfolded q_FindByAnchors_def]] by (auto simp: next_tick_def anchored_def)
  from Cons.IH [OF 2] t r1 show ?case by (auto simp: r)
qed simp

lemma entityFromRow_ID: "map se_ID (map (entityFromRow L) rows) = map (uuid_String L) (map e_id rows)"
  by (simp add: entityFromRow_def comp_def)

lemma distinct_entity_IDs:
  "distinct (map se_ID (map (entityFromRow L) (dedup_by e_id rows)))"
  unfolding entityFromRow_ID
  using distinct_keys_dedup [of e_id "{}" rows] by (subst distinct_map) (simp add: inj_on_def)

lemma FindByAnchors_set:
  assumes "FindByAnchors L ty as filt s = (s', Inr es)" "schema (tabs s)"
  shows "tabs s' = tabs s \<and> set es = entityFromRow L ` {e \<in> set (entities (tabs s)). live e
    \<and> passes filt e \<and> (\<exists>aq\<in>set as. anchored (tabs s) ty aq (e_id e))}"
proof -
  obtain rows where f: "find_anchor_rows ty (tagsParam filt) (anyTagsParam filt) (excludeTagParam filt)
      (unlessTagsParam filt) as s = (s', Inr rows)" and es: "es = map (entityFromRow L) (dedup_by e_id rows)"
    using assms(1) by (auto simp: FindByAnchors_def dmap_Inr_iff)
  have r: "tabs s' = tabs s" "set rows = {e \<in> set (entities (tabs s)). live e \<and> passes filt e
      \<and> (\<exists>aq\<in>set as. anchored (tabs s) ty aq (e_id e))}"
    using find_anchor_rows_Inr [OF f] by (auto simp: passes_def)
  have "inj_on e_id (set (entities (tabs s)))"
    using assms(2) by (simp add: schema_def entities_ok_def distinct_map)
  then have "set (dedup_by e_id rows) = set rows"
    using key_set_dedup [of e_id "{}" rows] set_dedup_subset [of e_id "{}" rows] r(2)
    by (intro inj_on_image_eq_iff [THEN iffD1, of e_id "set (entities (tabs s))"]) auto
  then show ?thesis using r es by simp
qed

text \<open>C20. An anchor lookup that succeeds is exact: it returns, each once, the live entities that pass the
  filter and are registered under one of the anchors for that entity type, and changes nothing.\<close>

theorem FindByAnchors_exact:
  assumes "FindByAnchors L ty as filt s = (s', Inr es)" "schema (tabs s)"
  shows "tabs s' = tabs s \<and> distinct (map se_ID es)
    \<and> set es = entityFromRow L ` {e \<in> set (entities (tabs s)). live e
         \<and> passes filt e \<and> (\<exists>aq\<in>set as. anchored (tabs s) ty aq (e_id e))}"
proof -
  have "distinct (map se_ID es)"
    using assms(1) distinct_entity_IDs by (auto simp: FindByAnchors_def dmap_Inr_iff)
  with FindByAnchors_set [OF assms] show ?thesis by simp
qed

text \<open>The demonstration store with an anchor.\<close>

definition anchored_state :: db where
  "anchored_state = demo_db\<lparr>tabs := demo_tables\<lparr>anchors := [\<lparr>a_entity_id = 1, a_type = ''t.v1.X'', a_field = ''vat'', a_value = ''1''\<rparr>]\<rparr>\<rparr>"

lemma schema_anchored: "schema (tabs anchored_state)"
proof -
  have "e_id (new_entity 1 500 ''t.v1.X'' (JObj []) 1 [] ''n'') = 1" by (simp add: new_entity_def)
  then show ?thesis by (simp add: anchored_state_def demo_tables_def schema_defs empty_tables_def row_ok_new entity_exists_def)
qed

lemmas anchor_run_defs = run_defs anchored_state_def demo_tables_def empty_tables_def new_entity_def live_def tag_filter_def select_def
  q_FindByAnchors_def anchor_key_def

theorem FindByAnchors_exact_witness:
  "\<exists>s' ent. FindByAnchors demo_lib ''t.v1.X'' [\<lparr>aq_Field = ''vat'', aq_Value = ''1''\<rparr>] None anchored_state = (s', Inr [ent])
     \<and> tabs s' = tabs anchored_state \<and> se_DisplayName ent = ''n''"
proof -
  let ?aq = "\<lparr>aq_Field = ''vat'', aq_Value = ''1''\<rparr>"
  have f: "\<exists>s' ent. FindByAnchors demo_lib ''t.v1.X'' [?aq] None anchored_state = (s', Inr [ent])"
    by (simp add: FindByAnchors_def anchor_run_defs tagsParam_def anyTagsParam_def excludeTagParam_def unlessTagsParam_def)
  then obtain s' ent where r: "FindByAnchors demo_lib ''t.v1.X'' [?aq] None anchored_state = (s', Inr [ent])" by blast
  have x: "tabs s' = tabs anchored_state" "ent \<in> entityFromRow demo_lib ` set (entities (tabs anchored_state))"
    using FindByAnchors_exact [OF r schema_anchored] by auto
  then have "se_DisplayName ent = ''n''"
    by (simp add: anchored_state_def demo_tables_def entityFromRow_def new_entity_def)
  with x(1) r show ?thesis by blast
qed

section \<open>The store behind the matcher\<close>

text \<open>Each call of the matcher may see another state of the database.\<close>

definition pg_store :: "lib \<Rightarrow> db \<Rightarrow> db \<Rightarrow> db \<Rightarrow> EntityStoreI" where
  "pg_store L s1 s2 s3 =
     \<lparr>es_FindByAnchors = (\<lambda>t as q. snd (FindByAnchors L t as q s1)),
      es_FindByTokens = (\<lambda>t ts n q. snd (FindByTokens L t ts n q s2)),
      es_FindByEmbedding = Some (\<lambda>t v n q. snd (FindByEmbedding L t v n q s3))\<rparr>"

interpretation pg: candidate_source "pg_store L s1 s2 s3" for L s1 s2 s3
proof
  fix t as q es
  assume "es_FindByAnchors (pg_store L s1 s2 s3) t as q = Inr es"
  then have "FindByAnchors L t as q s1 = (fst (FindByAnchors L t as q s1), Inr es)"
    by (simp add: pg_store_def prod_eq_iff)
  then show "distinct (map se_ID es)"
    using distinct_entity_IDs by (auto simp: FindByAnchors_def dmap_Inr_iff)
qed

text \<open>Matching against the PostgreSQL store: the candidates of a decision are distinct records,
  although a token search returns an entity once per matching token field.\<close>

theorem Match_pg_candidates_distinct:
  assumes "mr_store m = pg_store L s1 s2 s3" "Match (lib_go L) m d = Inr dec"
  shows "distinct (map (se_ID \<circ> mc_Entity) (md_Candidates dec))"
  using pg.Match_candidates_distinct [OF assms] .

theorem Match_pg_candidates_distinct_witness:
  "\<exists>dec. Match sample_lib (NewMatcher sample_config (pg_store demo_lib demo_db demo_db demo_db) []) None = Inr dec
     \<and> distinct (map (se_ID \<circ> mc_Entity) (md_Candidates dec))"
proof -
  let ?m = "NewMatcher sample_config (pg_store demo_lib demo_db demo_db demo_db) []"
  have "Match (lib_go demo_lib) ?m None = Inr (decision ''company'' None ActionCreate ''none'')"
    by (simp add: Match_def match_fuzzy_def buildAnchors_def retrieveFuzzyCandidates_def
        token_candidates_def embedding_candidates_def NewMatcher_def sample_config_def buildTokens_def
        extractFields_def unmarshal_map_def fieldValue_def pg_store_def Let_def)
  with Match_pg_candidates_distinct [OF _ this] show ?thesis
    by (auto simp: NewMatcher_def demo_lib_def)
qed

section \<open>Creation\<close>

text \<open>What an anchor upsert does to the anchor table.\<close>

lemma UpsertAnchor_Inr:
  assumes "q_UpsertAnchor u ty f v s = (s', Inr x)"
  shows "\<exists>as. tabs s' = (tabs s)\<lparr>anchors := as\<rparr>
    \<and> (\<exists>a\<in>set as. anchor_key a = (ty, f, v) \<and> a_entity_id a = u)
    \<and> (\<forall>a\<in>set (anchors (tabs s)). a_entity_id a = u \<longrightarrow> (\<exists>a'\<in>set as. anchor_key a' = anchor_key a \<and> a_entity_id a' = u))"
proof -
  let ?row = "\<lparr>a_entity_id = u, a_type = ty, a_field = f, a_value = v\<rparr>"
  let ?up = "map (\<lambda>a. if anchor_key a = anchor_key ?row then ?row else a) (anchors (tabs s))"
  have k: "anchor_key ?row = (ty, f, v)" by (simp add: anchor_key_def)
  have "tabs s' = (tabs s)\<lparr>anchors := ?up\<rparr> \<and> anchor_key ?row \<in> anchor_key ` set (anchors (tabs s))
      \<or> tabs s' = (tabs s)\<lparr>anchors := anchors (tabs s) @ [?row]\<rparr>"
    using assms unfolding q_UpsertAnchor_def Let_def
    by (elim exec_Inr) (auto simp: next_tick_def split: if_splits)
  then show ?thesis
  proof (elim disjE conjE)
    assume t: "tabs s' = (tabs s)\<lparr>anchors := ?up\<rparr>" and ex: "anchor_key ?row \<in> anchor_key ` set (anchors (tabs s))"
    from ex obtain a where "a \<in> set (anchors (tabs s))" "anchor_key a = anchor_key ?row" by auto
    then have "?row \<in> set ?up" by force
    then have new: "\<exists>a\<in>set ?up. anchor_key a = (ty, f, v) \<and> a_entity_id a = u" using k by force
    have "\<exists>a'\<in>set ?up. anchor_key a' = anchor_key a \<and> a_entity_id a' = u"
      if "a \<in> set (anchors (tabs s))" "a_entity_id a = u" for a
      using that by (intro bexI [of _ "if anchor_key a = anchor_key ?row then ?row else a"]) auto
    with t new show ?thesis by blast
  next
    assume t: "tabs s' = (tabs s)\<lparr>anchors := anchors (tabs s) @ [?row]\<rparr>"
    then show ?thesis
      using k by (intro exI [of _ "anchors (tabs s) @ [?row]"]) auto
  qed
qed

lemma upsertAnchors_Inr:
  assumes "upsertAnchors u ty aqs s = (s', Inr x)"
  shows "\<exists>as. tabs s' = (tabs s)\<lparr>anchors := as\<rparr>
    \<and> (\<forall>aq\<in>set aqs. anchored (tabs s') ty aq u)
    \<and> (\<forall>a\<in>set (anchors (tabs s)). a_entity_id a = u \<longrightarrow> (\<exists>a'\<in>set as. anchor_key a' = anchor_key a \<and> a_entity_id a' = u))"
  using assms
proof (induction aqs arbitrary: s)
  case Nil
  then show ?case by (intro exI [of _ "anchors (tabs s)"]) auto
next
  case (Cons aq aqs)
  then obtain s1 x1 where 1: "q_UpsertAnchor u ty (aq_Field aq) (aq_Value aq) s = (s1, Inr x1)"
    and 2: "upsertAnchors u ty aqs s1 = (s', Inr x)" by (auto simp: dbind_Inr_iff)
  from UpsertAnchor_Inr [OF 1] obtain as1 where as1: "tabs s1 = (tabs s)\<lparr>anchors := as1\<rparr>"
    "\<exists>a\<in>set as1. anchor_key a = (ty, aq_Field aq, aq_Value aq) \<and> a_entity_id a = u"
    "\<forall>a\<in>set (anchors (tabs s)). a_entity_id a = u \<longrightarrow> (\<exists>a'\<in>set as1. anchor_key a' = anchor_key a \<and> a_entity_id a' = u)"
    by blast
  from Cons.IH [OF 2] obtain as2 where as2: "tabs s' = (tabs s1)\<lparr>anchors := as2\<rparr>"
    "\<forall>aq\<in>set aqs. anchored (tabs s') ty aq u"
    "\<forall>a\<in>set as1. a_entity_id a = u \<longrightarrow> (\<exists>a'\<in>set as2. anchor_key a' = anchor_key a \<and> a_entity_id a' = u)"
    using as1(1) by auto
  have "anchored (tabs s') ty aq u" using as1(2) as2(1,3) by (fastforce simp: anchored_def)
  moreover have "tabs s' = (tabs s)\<lparr>anchors := as2\<rparr>" using as1(1) as2(1) by simp
  moreover have "\<forall>a\<in>set (anchors (tabs s)). a_entity_id a = u \<longrightarrow> (\<exists>a'\<in>set as2. anchor_key a' = anchor_key a \<and> a_entity_id a' = u)"
    using as1(3) as2(3) by metis
  ultimately show ?case using as2(2) by auto
qed

text \<open>Tokens, embeddings and events leave the anchor table alone.\<close>

lemma exec_anchors:
  assumes "exec f s = (s', Inr x)" "\<And>now uid t t' x. f now uid t = Inr (t', x) \<Longrightarrow> anchors t' = anchors t"
  shows "anchors (tabs s') = anchors (tabs s)"
  using assms(1) by (elim exec_Inr) (auto simp: next_tick_def dest: assms(2))

lemma upsertTokens_anchors: "upsertTokens u ty ks s = (s', Inr x) \<Longrightarrow> anchors (tabs s') = anchors (tabs s)"
proof (induction ks arbitrary: s rule: upsertTokens.induct)
  case (2 u ty field toks ks)
  then obtain s1 x1 where 1: "q_UpsertTokens u ty field toks s = (s1, Inr x1)"
    and r: "upsertTokens u ty ks s1 = (s', Inr x)" by (auto simp: dbind_Inr_iff)
  have "anchors (tabs s1) = anchors (tabs s)"
    using 1 unfolding q_UpsertTokens_def
    by (rule exec_anchors) (auto simp: Let_def split: option.splits if_splits)
  with 2(1) [OF r] show ?case by simp
qed simp

lemma updateEmbedding_anchors: "updateEmbedding u v s = (s', Inr x) \<Longrightarrow> anchors (tabs s') = anchors (tabs s)"
  by (cases v) (auto simp: updateEmbedding_def q_UpdateEntityEmbedding_def update_entities_def
      split: if_splits elim!: exec_anchors)

lemma insertEvents_anchors: "insertEvents L u rk ts ty evts s = (s', Inr x) \<Longrightarrow> anchors (tabs s') = anchors (tabs s)"
proof (induction evts arbitrary: s)
  case (Cons evt evts)
  then obtain body s1 s2 uid x2 where 1: "NewV7 s = (s1, Inr uid)"
    and 2: "q_InsertEvent uid (deriveEventType (MessageName evt)) (MessageName evt) body
        (if u \<noteq> uuid_Nil then Some u else None) (if rk \<noteq> [] then Some rk else None) ts ty s1 = (s2, Inr x2)"
    and 3: "insertEvents L u rk ts ty evts s2 = (s', Inr x)"
    by (auto simp: dbind_Inr_iff split: option.splits)
  have "anchors (tabs s2) = anchors (tabs s1)"
    using 2 unfolding q_InsertEvent_def by (rule exec_anchors) (auto split: if_splits)
  moreover have "tabs s1 = tabs s" using 1 by (auto simp: NewV7_def next_tick_def)
  ultimately show ?case using Cons.IH [OF 3] by simp
qed simp

text \<open>Anchors, tokens and events leave the entity table alone.\<close>

lemma exec_entities:
  assumes "exec f s = (s', Inr x)" "\<And>now uid t t' x. f now uid t = Inr (t', x) \<Longrightarrow> entities t' = entities t"
  shows "entities (tabs s') = entities (tabs s)"
  using assms(1) by (elim exec_Inr) (auto simp: next_tick_def dest: assms(2))

lemma upsertTokens_entities: "upsertTokens u ty ks s = (s', Inr x) \<Longrightarrow> entities (tabs s') = entities (tabs s)"
proof (induction ks arbitrary: s rule: upsertTokens.induct)
  case (2 u ty field toks ks)
  then obtain s1 x1 where 1: "q_UpsertTokens u ty field toks s = (s1, Inr x1)"
    and r: "upsertTokens u ty ks s1 = (s', Inr x)" by (auto simp: dbind_Inr_iff)
  have "entities (tabs s1) = entities (tabs s)"
    using 1 unfolding q_UpsertTokens_def
    by (rule exec_entities) (auto simp: Let_def split: option.splits if_splits)
  with 2(1) [OF r] show ?case by simp
qed simp

lemma updateEmbedding_entities:
  assumes "updateEmbedding u v s = (s', Inr x)" "tx s = Some T" "e \<in> set (entities (tabs s))" "e_updated_at e = tx_now T"
  shows "\<exists>e'\<in>set (entities (tabs s')). entityFromRow L e' = entityFromRow L e \<and> e_id e' = e_id e
    \<and> e_deleted_at e' = e_deleted_at e"
proof (cases v)
  case None
  then show ?thesis using assms by (auto simp: updateEmbedding_def)
next
  case (Some w)
  let ?f = "\<lambda>e. if e_id e = u then e\<lparr>e_embedding := Some w, e_updated_at := tx_now T\<rparr> else e"
  have "entities (tabs s') = map ?f (entities (tabs s))"
    using assms(1,2) unfolding updateEmbedding_def Some option.simps dwrap_Inr_iff q_UpdateEntityEmbedding_def
    by (elim exec_Inr) (auto simp: update_entities_def next_tick_def split: if_splits)
  then have "?f e \<in> set (entities (tabs s'))" using assms(3) by auto
  moreover have "entityFromRow L (?f e) = entityFromRow L e" "e_id (?f e) = e_id e" "e_deleted_at (?f e) = e_deleted_at e"
    using assms(4) by (auto simp: entityFromRow_def)
  ultimately show ?thesis by blast
qed

lemma create_row_Inr:
  assumes "create_row L opr ty d s = (s', Inr row)" "tx s = Some T"
  shows "tx s' = Some T \<and> tabs s' = (tabs s)\<lparr>entities := entities (tabs s) @ [row]\<rparr>
    \<and> \<not> entity_exists (tabs s) (e_id row) \<and> (wo_ID opr \<noteq> [] \<longrightarrow> uuid_Parse L (wo_ID opr) = Some (e_id row))
    \<and> row = new_entity (e_id row) (tx_now T) ty d (wo_Confidence opr) (wo_Tags opr) (wo_DisplayName opr)"
proof -
  have ins: "tx s' = Some T \<and> tabs s' = (tabs s)\<lparr>entities := entities (tabs s) @ [row]\<rparr>
      \<and> \<not> entity_exists (tabs s) (e_id row)
      \<and> row = new_entity (e_id row) (tx_now T) ty d (wo_Confidence opr) (wo_Tags opr) (wo_DisplayName opr)
      \<and> (\<forall>u. fixed = Some u \<longrightarrow> e_id row = u)"
    if "exec (\<lambda>now uid. insert_entity_row (new_entity (case fixed of None \<Rightarrow> uid | Some u \<Rightarrow> u) now ty d
      (wo_Confidence opr) (wo_Tags opr) (wo_DisplayName opr))) s = (s', Inr row)" for fixed
    using that assms(2)
    by (elim exec_Inr) (auto simp: insert_entity_row_def next_tick_def new_entity_def split: if_splits)
  show ?thesis
  proof (cases "wo_ID opr = []")
    case True
    then show ?thesis using assms(1) ins [of None] by (simp add: create_row_def q_InsertEntity_def)
  next
    case False
    then obtain u where "uuid_Parse L (wo_ID opr) = Some u"
      "exec (\<lambda>now uid. insert_entity_row (new_entity u now ty d (wo_Confidence opr) (wo_Tags opr) (wo_DisplayName opr))) s
        = (s', Inr row)"
      using assms(1) by (auto simp: create_row_def q_InsertEntityWithID_def dbind_Inr_iff)
    then show ?thesis using ins [of "Some u"] by auto
  qed
qed

lemma applyCreate_effect:
  assumes "applyCreate L opr s = (s', Inr ent)" "tx s = Some T"
  obtains ty d e where "marshalEntityData L opr = Inr (ty, d)" "\<not> entity_exists (tabs s) (e_id e)"
    "e \<in> set (entities (tabs s'))" "live e" "ent = entityFromRow L e" "e_type e = ty" "e_data e = d"
    "e_version e = 0" "e_tags e = wo_Tags opr"
    "\<forall>aq\<in>set (wo_Anchors opr). anchored (tabs s') ty aq (e_id e)"
    "wo_ID opr \<noteq> [] \<longrightarrow> uuid_Parse L (wo_ID opr) = Some (e_id e)"
proof -
  obtain ty d where md: "marshalEntityData L opr = Inr (ty, d)"
    using assms by (auto simp: applyCreate_def dbind_Inr_iff)
  obtain row s1 s2 s3 s4 s5 x2 x3 x4 x5 where
    1: "create_row L opr ty d s = (s1, Inr row)"
    and 2: "upsertAnchors (e_id row) ty (wo_Anchors opr) s1 = (s2, Inr x2)"
    and 3: "upsertTokens (e_id row) ty (wo_Tokens opr) s2 = (s3, Inr x3)"
    and 4: "updateEmbedding (e_id row) (wo_Embedding opr) s3 = (s4, Inr x4)"
    and 5: "insertEvents L (e_id row) [] (wo_Tags opr) ty
         (EntityCreated (uuid_String L (e_id row)) ty (wo_Confidence opr) (wo_Tags opr) # wo_Events opr) s4 = (s5, Inr x5)"
    and fin: "dret (entityFromRow L row) s5 = (s', Inr ent)"
    using assms unfolding applyCreate_def md dbind_simps case_prod_conv by (elim dbindE) blast
  have s5: "s5 = s'" "ent = entityFromRow L row" using fin by simp_all
  note row = create_row_Inr [OF 1 assms(2)]
  obtain T2 where T2: "tx s2 = Some T2" "same_tx T T2" using steadyD [OF steady_upsertAnchors _ 2] row by blast
  obtain T3 where T3: "tx s3 = Some T3" "same_tx T2 T3" using steadyD [OF steady_upsertTokens T2(1) 3] by blast
  have now: "tx_now T3 = tx_now T" using T2(2) T3(2) by (simp add: same_tx_def)
  have a2: "entities (tabs s2) = entities (tabs s1)" "\<forall>aq\<in>set (wo_Anchors opr). anchored (tabs s2) ty aq (e_id row)"
    using upsertAnchors_Inr [OF 2] by auto
  have row3: "row \<in> set (entities (tabs s3))" using row a2(1) upsertTokens_entities [OF 3] by simp
  have nowr: "e_updated_at row = tx_now T3" using row now by (metis Entity.select_convs(8) new_entity_def)
  obtain e where e: "e \<in> set (entities (tabs s4))" "entityFromRow L e = entityFromRow L row" "e_id e = e_id row"
      "e_deleted_at e = e_deleted_at row"
    using updateEmbedding_entities [OF 4 T3(1) row3 nowr, of L] by blast
  obtain T4 where T4: "tx s4 = Some T4" using steadyD [OF steady_updateEmbedding T3(1) 4] by blast
  have 5: "insertEvents L (e_id row) [] (wo_Tags opr) ty
         (EntityCreated (uuid_String L (e_id row)) ty (wo_Confidence opr) (wo_Tags opr) # wo_Events opr) s4 = (s', Inr ())"
    using 5 s5 by simp
  have ents: "entities (tabs s') = entities (tabs s4)" using insertEvents_appends [OF 5 T4] by force
  have anch: "anchors (tabs s') = anchors (tabs s2)"
    using insertEvents_anchors [OF 5] updateEmbedding_anchors [OF 4] upsertTokens_anchors [OF 3] s5 by simp
  have n: "e_type row = ty" "e_data row = d" "e_version row = 0" "e_tags row = wo_Tags opr" "e_deleted_at row = None"
    using row by (metis Entity.select_convs new_entity_def)+
  have ee: "e_type e = ty" "e_data e = d" "e_version e = 0" "e_tags e = wo_Tags opr"
    using e(2) n by (simp_all add: entityFromRow_def)
  show thesis
    by (rule that [of ty d e]) (use md row e ee n s5 ents a2(2) anch in \<open>auto simp: anchored_def live_def\<close>)
qed

lemma distinct_set_singleton:
  assumes "distinct xs" "set xs = {x}"
  shows "xs = [x]"
proof -
  have "length xs = 1" using distinct_card [OF assms(1)] assms(2) by simp
  then obtain y where "xs = [y]" by (auto simp: length_Suc_conv)
  then show ?thesis using assms(2) by simp
qed

lemma anchored_unique: "schema t \<Longrightarrow> anchored t ty aq u \<Longrightarrow> anchored t ty aq v \<Longrightarrow> u = v"
  unfolding anchored_def schema_def anchors_ok_def distinct_map by (metis inj_onD)

text \<open>C24. Create, then look up: the entity a create returns has version 0 and is what a lookup under any of
  its anchors returns, alone, and what a lookup by its identifier returns; its identifier was not
  in use before.\<close>

theorem create_then_lookup:
  assumes "applyCreate L opr s = (s1, Inr ent)" "tx s = Some T" "good schema s"
    and "tabs s2 = tabs s1"
  shows "se_Version ent = 0
    \<and> (\<forall>e\<in>set (entities (tabs s)). se_ID ent \<noteq> uuid_String L (e_id e))
    \<and> (\<forall>aq s' es. aq \<in> set (wo_Anchors opr) \<longrightarrow>
         FindByAnchors L (se_EntityType ent) [aq] None s2 = (s', Inr es) \<longrightarrow> es = [ent])
    \<and> (\<forall>s' ent'. GetEntity L (se_ID ent) s2 = (s', Inr ent') \<longrightarrow> ent' = ent)"
proof -
  obtain ty d e where e: "marshalEntityData L opr = Inr (ty, d)" "\<not> entity_exists (tabs s) (e_id e)"
    "e \<in> set (entities (tabs s1))" "live e" "ent = entityFromRow L e" "e_type e = ty" "e_data e = d"
    "e_version e = 0" "e_tags e = wo_Tags opr"
    "\<forall>aq\<in>set (wo_Anchors opr). anchored (tabs s1) ty aq (e_id e)"
    by (rule applyCreate_effect [OF assms(1,2)]) blast
  have sch: "schema (tabs s2)"
    using presD [OF constraints.keeps_applyCreate assms(3,1)] assms(4) by (simp add: good_def)
  have "es = [ent]" if aq: "aq \<in> set (wo_Anchors opr)"
    and f: "FindByAnchors L (se_EntityType ent) [aq] None s2 = (s', Inr es)" for aq s' es
  proof -
    have ty: "se_EntityType ent = ty" using e(5,6) by (simp add: entityFromRow_def)
    have an: "anchored (tabs s2) ty aq (e_id e)" using e(10) aq assms(4) by simp
    have "{x \<in> set (entities (tabs s2)). live x \<and> passes None x \<and> (\<exists>q\<in>set [aq]. anchored (tabs s2) ty q (e_id x))} = {e}"
      using e(3,4) an assms(4) distinct_id [OF sch] anchored_unique [OF sch an]
      by (auto simp: passes_def tag_filter_def tagsParam_def anyTagsParam_def excludeTagParam_def)
    then have "set es = {ent}" using FindByAnchors_set [OF f [unfolded ty] sch] e(5) by simp
    moreover have "distinct (map se_ID es)"
      using f distinct_entity_IDs by (auto simp: FindByAnchors_def dmap_Inr_iff)
    ultimately show ?thesis by (intro distinct_set_singleton) (auto simp: distinct_map)
  qed
  moreover have "ent' = ent" if g: "GetEntity L (se_ID ent) s2 = (s', Inr ent')" for s' ent'
  proof -
    have id: "uuid_Parse L (se_ID ent) = Some (e_id e)" using e(5) by (simp add: entityFromRow_def)
    obtain row where q: "q_GetEntity (e_id e) s2 = (s', Inr row)" and r: "ent' = entityFromRow L row"
      using g id by (auto simp: GetEntity_def dbind_Inr_iff dmap_Inr_iff)
    from select_one_Inr [OF q [unfolded q_GetEntity_def]] obtain rest where
      "filter (\<lambda>x. e_id x = e_id e \<and> live x) (entities (tabs s2)) = row # rest" by blast
    then have "row \<in> set (filter (\<lambda>x. e_id x = e_id e \<and> live x) (entities (tabs s2)))" by simp
    then have "row = e" using e(3) assms(4) distinct_id [OF sch] by auto
    then show ?thesis using r e(5) by simp
  qed
  moreover have "se_Version ent = 0" using e(5,8) by (simp add: entityFromRow_def)
  moreover have "\<forall>x\<in>set (entities (tabs s)). se_ID ent \<noteq> uuid_String L (e_id x)"
    using e(2,5) by (auto simp: entityFromRow_def entity_exists_def)
  ultimately show ?thesis by blast
qed

definition demo_create :: WriteEntityOp where
  "demo_create = \<lparr>wo_Action = WriteActionCreate, wo_ID = [], wo_Data = Some (OtherMessage ''t.v1.X'' (JObj [])),
     wo_Confidence = 1, wo_Tags = [''a''], wo_MatchedEntityID = [],
     wo_Anchors = [\<lparr>aq_Field = ''vat'', aq_Value = ''1''\<rparr>], wo_Tokens = [],
     wo_Embedding = None, wo_DisplayName = ''m'', wo_Version = 0, wo_Events = []\<rparr>"

lemma good_started: "good schema (started demo_db)"
  by (simp add: good_def started_def next_tick_def schema_empty)

lemma demo_create_runs: "\<exists>s' ent. applyCreate demo_lib demo_create (started demo_db) = (s', Inr ent)"
  by (simp add: applyCreate_def marshalEntityData_def demo_create_def run_defs create_row_def
      q_InsertEntity_def insert_entity_row_def entity_exists_def q_UpsertAnchor_def anchor_key_def
      new_entity_def updateEmbedding_def NewV7_def q_InsertEvent_def started_def empty_tables_def Let_def)

theorem create_then_lookup_witness:
  "\<exists>s1 ent. applyCreate demo_lib demo_create (started demo_db) = (s1, Inr ent) \<and> se_Version ent = 0
     \<and> (\<forall>s' es. FindByAnchors demo_lib (se_EntityType ent) [\<lparr>aq_Field = ''vat'', aq_Value = ''1''\<rparr>] None s1
          = (s', Inr es) \<longrightarrow> es = [ent])"
proof -
  obtain s1 ent where c: "applyCreate demo_lib demo_create (started demo_db) = (s1, Inr ent)"
    using demo_create_runs by blast
  have t: "tx (started demo_db) = Some \<lparr>tx_snapshot = empty_tables, tx_now = 1000, tx_aborted = False\<rparr>"
    by (simp add: started_def)
  have a: "\<lparr>aq_Field = ''vat'', aq_Value = ''1''\<rparr> \<in> set (wo_Anchors demo_create)" by (simp add: demo_create_def)
  from create_then_lookup [OF c t good_started refl] c a show ?thesis by blast
qed

section \<open>Preconditions\<close>

text \<open>Programs that read only.\<close>

definition readonly :: "'a dbm \<Rightarrow> bool" where
  "readonly m \<longleftrightarrow> (\<forall>s. tabs (fst (m s)) = tabs s)"

named_theorems readonly_intros \<open>programs that leave the tables alone\<close>

lemma readonlyI: "(\<And>s s' r. m s = (s', r) \<Longrightarrow> tabs s' = tabs s) \<Longrightarrow> readonly m"
  unfolding readonly_def by (metis prod.collapse)

lemma readonlyD: "readonly m \<Longrightarrow> m s = (s', r) \<Longrightarrow> tabs s' = tabs s"
  unfolding readonly_def by (metis fst_conv)

lemma readonly_exec:
  "(\<And>now uid t t' x. f now uid t = Inr (t', x) \<Longrightarrow> t' = t) \<Longrightarrow> readonly (exec f)"
  by (rule readonlyI) (auto simp: exec_def exec_tx_def exec_auto_def next_tick_def
      split: option.splits if_splits sum.splits)

lemma readonly_basic [readonly_intros]: "readonly (dret x)" "readonly (dfail e)" "readonly (dlift r)"
  by (auto intro: readonlyI simp: dret_def dfail_def dlift_def)

lemma readonly_select [readonly_intros]: "readonly (select r)"
  unfolding select_def by (rule readonly_exec) simp

lemma readonly_select_limit [readonly_intros]: "readonly (select_limit n r)"
  unfolding select_limit_def by (rule readonly_exec) (simp split: if_splits)

lemma readonly_dbind [readonly_intros]:
  assumes "readonly m" "\<And>x. readonly (f x)"
  shows "readonly (dbind m f)"
proof (rule readonlyI)
  fix s s' r assume d: "dbind m f s = (s', r)"
  obtain s1 q where m: "m s = (s1, q)" by fastforce
  show "tabs s' = tabs s"
    using d m readonlyD [OF assms(1) m] readonlyD [OF assms(2)] by (cases q) (auto simp: dbind_def)
qed

lemma readonly_dwrap [readonly_intros]: "readonly m \<Longrightarrow> readonly (dwrap w m)"
  by (rule readonlyI) (auto simp: dwrap_def split: prod.splits dest: readonlyD)

lemma readonly_dmap [readonly_intros]: "readonly m \<Longrightarrow> readonly (dmap f m)"
  unfolding dmap_def by (intro readonly_intros)

lemma readonly_cases [readonly_intros]:
  "readonly m \<Longrightarrow> readonly m' \<Longrightarrow> readonly (if b then m else m')"
  "readonly m \<Longrightarrow> (\<And>x. readonly (f x)) \<Longrightarrow> readonly (case v of None \<Rightarrow> m | Some x \<Rightarrow> f x)"
  "readonly m \<Longrightarrow> (\<And>x xs. readonly (g x xs)) \<Longrightarrow> readonly (case w of [] \<Rightarrow> m | x # xs \<Rightarrow> g x xs)"
  by (simp_all split: option.split list.split)

lemma readonly_select_one [readonly_intros]: "readonly (select_one r)"
  unfolding select_one_def exec_one_def by (intro readonly_intros readonly_exec) simp

lemma readonly_parse_id [readonly_intros]: "readonly (parse_id L what i)"
  unfolding parse_id_def by (intro readonly_intros)

lemma readonly_find_anchor_rows [readonly_intros]: "readonly (find_anchor_rows ty ts as x us aqs)"
  by (induction aqs)
    (simp_all only: find_anchor_rows.simps q_FindByAnchors_def, (intro readonly_intros; assumption?)+)

lemma readonly_findByAnchorsTx [readonly_intros]: "readonly (findByAnchorsTx L ty aqs)"
  unfolding findByAnchorsTx_def by (intro readonly_intros)

definition pc_matches :: "tables \<Rightarrow> PreCondition \<Rightarrow> Entity set" where
  "pc_matches t pc = {e \<in> set (entities t). live e \<and> (\<exists>aq\<in>set (pc_Anchors pc). anchored t (pc_EntityType pc) aq (e_id e))}"

definition pc_holds :: "tables \<Rightarrow> PreCondition \<Rightarrow> bool" where
  "pc_holds t pc \<longleftrightarrow> (pc_MustExist pc \<longrightarrow> pc_matches t pc \<noteq> {}) \<and> (pc_MustNotExist pc \<longrightarrow> pc_matches t pc = {})
     \<and> (pc_TagRequired pc \<noteq> [] \<longrightarrow> (\<exists>e\<in>pc_matches t pc. pc_TagRequired pc \<in> set (e_tags e)))
     \<and> (pc_TagForbidden pc \<noteq> [] \<longrightarrow> (\<forall>e\<in>pc_matches t pc. pc_TagForbidden pc \<notin> set (e_tags e)))"

lemma findByAnchorsTx_set:
  assumes "findByAnchorsTx L ty as s = (s', Inr es)" "schema (tabs s)"
  shows "set es = entityFromRow L ` {e \<in> set (entities (tabs s)). live e
    \<and> (\<exists>aq\<in>set as. anchored (tabs s) ty aq (e_id e))}"
proof -
  have "FindByAnchors L ty as None s = (s', Inr es)"
    using assms(1) by (simp add: FindByAnchors_def findByAnchorsTx_def tagsParam_def anyTagsParam_def
        excludeTagParam_def unlessTagsParam_def)
  from FindByAnchors_set [OF this assms(2)] show ?thesis
    by (simp add: passes_def tag_filter_def tagsParam_def anyTagsParam_def excludeTagParam_def)
qed

lemma entitiesHaveTag_iff:
  "set es = entityFromRow L ` E \<Longrightarrow> entitiesHaveTag es tag \<longleftrightarrow> (\<exists>e\<in>E. tag \<in> set (e_tags e))"
  by (auto simp: entitiesHaveTag_def list_ex_iff entityFromRow_def)

text \<open>One condition, once its entities have been found.\<close>

lemma evaluatePreConditions_step:
  assumes "findByAnchorsTx L (pc_EntityType pc) (pc_Anchors pc) s = (s1, Inr es)" "schema (tabs s)"
    and "\<not> (pc_MustExist pc \<and> pc_MustNotExist pc)"
  shows "if pc_holds (tabs s) pc then evaluatePreConditions L i (pc # pcs) s = evaluatePreConditions L i pcs s1
    else \<exists>v. evaluatePreConditions L i (pc # pcs) s = (s1, Inl (PreConditionError i pc v))"
proof -
  let ?E = "pc_matches (tabs s) pc"
  have es: "set es = entityFromRow L ` ?E" using findByAnchorsTx_set [OF assms(1,2)] by (simp add: pc_matches_def)
  have em: "es = [] \<longleftrightarrow> ?E = {}" using es by (metis image_is_empty set_empty)
  have ev: "evaluatePreConditions L i (pc # pcs) s =
    (if pc_MustExist pc \<and> es = [] then dfail (PreConditionError i pc ''not_found'')
      else if pc_MustNotExist pc \<and> es \<noteq> [] then dfail (PreConditionError i pc ''already_exists'')
      else if pc_TagRequired pc \<noteq> [] \<and> \<not> entitiesHaveTag es (pc_TagRequired pc)
        then dfail (PreConditionError i pc ''tag_required'')
      else if pc_TagForbidden pc \<noteq> [] \<and> entitiesHaveTag es (pc_TagForbidden pc)
        then dfail (PreConditionError i pc ''tag_forbidden'')
      else evaluatePreConditions L i pcs) s1"
    using assms(1,3) by (simp add: dbind_def dwrap_def)
  have holds: "pc_holds (tabs s) pc \<longleftrightarrow> \<not> (pc_MustExist pc \<and> es = []) \<and> \<not> (pc_MustNotExist pc \<and> es \<noteq> [])
     \<and> \<not> (pc_TagRequired pc \<noteq> [] \<and> \<not> entitiesHaveTag es (pc_TagRequired pc))
     \<and> \<not> (pc_TagForbidden pc \<noteq> [] \<and> entitiesHaveTag es (pc_TagForbidden pc))"
    unfolding pc_holds_def em entitiesHaveTag_iff [OF es] by blast
  show ?thesis unfolding ev holds by (auto simp: dfail_def)
qed

text \<open>C34. Preconditions are sound: their evaluation changes nothing; if it succeeds, every condition holds of the
  tables the operation is about to change; if it ends with a precondition error, the error names
  this operation and one of its conditions, and that condition does not hold.\<close>

theorem evaluatePreConditions_sound:
  assumes "evaluatePreConditions L i pcs s = (s', r)" "schema (tabs s)"
  shows "tabs s' = tabs s
    \<and> (r = Inr () \<longrightarrow> (\<forall>pc\<in>set pcs. pc_holds (tabs s) pc))
    \<and> (\<forall>j pc v. r = Inl (PreConditionError j pc v) \<longrightarrow> j = i \<and> pc \<in> set pcs \<and> \<not> pc_holds (tabs s) pc)"
  using assms
proof (induction pcs arbitrary: s)
  case Nil
  then show ?case by (auto simp: dret_def)
next
  case (Cons pc pcs)
  obtain s1 q where f: "findByAnchorsTx L (pc_EntityType pc) (pc_Anchors pc) s = (s1, q)" by fastforce
  have t1: "tabs s1 = tabs s" using readonlyD [OF readonly_findByAnchorsTx f] .
  show ?case
  proof (cases "pc_MustExist pc \<and> pc_MustNotExist pc \<or> (\<exists>e. q = Inl e)")
    case True
    then show ?thesis using Cons.prems(1) f t1
      by (auto simp: dfail_def dbind_def dwrap_def split: if_splits)
  next
    case False
    then obtain es where "q = Inr es" by (cases q) auto
    with evaluatePreConditions_step [of L pc s s1 es i pcs] f False Cons.prems
    have e: "if pc_holds (tabs s) pc then evaluatePreConditions L i pcs s1 = (s', r)
      else s' = s1 \<and> (\<exists>v. r = Inl (PreConditionError i pc v))"
      by (simp del: evaluatePreConditions.simps split: if_split_asm)
    show ?thesis
    proof (cases "pc_holds (tabs s) pc")
      case True
      with e Cons.IH [of s1] t1 Cons.prems(2) show ?thesis by simp
    next
      case False
      with e t1 show ?thesis by auto
    qed
  qed
qed

theorem evaluatePreConditions_sound_witness:
  "\<exists>s' pc. evaluatePreConditions demo_lib 3 [pc] anchored_state = (s', Inl (PreConditionError 3 pc ''already_exists''))
     \<and> tabs s' = tabs anchored_state \<and> \<not> pc_holds (tabs anchored_state) pc"
proof -
  let ?pc = "\<lparr>pc_EntityType = ''t.v1.X'', pc_Anchors = [\<lparr>aq_Field = ''vat'', aq_Value = ''1''\<rparr>], pc_MustExist = False, pc_MustNotExist = True,
    pc_TagRequired = [], pc_TagForbidden = []\<rparr>"
  have "\<exists>s'. evaluatePreConditions demo_lib 3 [?pc] anchored_state = (s', Inl (PreConditionError 3 ?pc ''already_exists''))"
    by (simp add: findByAnchorsTx_def anchor_run_defs)
  then obtain s' where e: "evaluatePreConditions demo_lib 3 [?pc] anchored_state = (s', Inl (PreConditionError 3 ?pc ''already_exists''))"
    by blast
  from evaluatePreConditions_sound [OF e schema_anchored] e show ?thesis by blast
qed

end
