(* ===== verification/Store_Theorems.thy ===== *)
theory Store_Theorems
  imports Read_Effects
begin

text \<open>
  Deletion, relations, pages, search and statistics of the store.
\<close>

section \<open>Reads\<close>

text \<open>The lookups of the store only read: whatever they return, and also when they fail, the tables
  are as before.\<close>

theorem reads_are_readonly:
  "readonly (FindByAnchors L ty as filt) \<and> readonly (FindByTokens L ty toks n filt)
   \<and> readonly (Search L query n filt) \<and> readonly (GetByAnchor L ty field value filt)
   \<and> readonly (GetEntity L i) \<and> readonly (GetEntitiesByType L ty pg cursor)
   \<and> readonly (GetEntitiesByTypeFiltered L ty pg cursor filt) \<and> readonly (GetRelationsFromEntity L i pg cursor)
   \<and> readonly (GetRelationsToEntity L i pg cursor) \<and> readonly (ConnectedEntities L i)
   \<and> readonly (FindConnectedByType L i ty rts filt pg cursor) \<and> readonly (FindEntitiesByRelation L ty rt filt)
   \<and> readonly Stats \<and> readonly (GetEventsForEntity L i opts) \<and> readonly (GetAllEvents L opts cursor)"
  unfolding FindByAnchors_def FindByTokens_def Search_def GetByAnchor_def GetEntity_def
    GetEntitiesByType_def GetEntitiesByTypeFiltered_def GetRelationsFromEntity_def
    GetRelationsToEntity_def ConnectedEntities_def FindConnectedByType_def FindEntitiesByRelation_def
    Stats_def CountAllEntities_def CountAllRelations_def CountSoftDeleted_def CountEntityTypes_def
    CountRelationTypes_def GetEventsForEntity_def GetAllEvents_def Let_def
    q_FindByTokenOverlap_def q_SearchByDisplayName_def q_GetEntity_def q_GetEntitiesByType_def
    q_GetEntitiesByTypeFiltered_def q_GetRelationsFromEntity_def q_GetRelationsToEntity_def
    q_ConnectedEntities_def q_FindConnectedByTypeOutbound_def q_FindConnectedByTypeInbound_def
    q_FindEntitiesByRelationSource_def q_FindEntitiesByRelationTarget_def q_CountAllEntities_def
    q_CountAllRelations_def q_CountSoftDeleted_def q_CountEntityTypes_def q_CountRelationTypes_def
    q_GetEventsForEntity_def q_GetAllEvents_def
  by (intro conjI readonly_intros)

section \<open>Filters\<close>

definition visible :: "lib \<Rightarrow> tables \<Rightarrow> QueryFilter option \<Rightarrow> StoredEntity \<Rightarrow> bool" where
  "visible L t filt x \<longleftrightarrow> (\<exists>e\<in>set (entities t). x = entityFromRow L e \<and> live e \<and> passes filt e)"

lemma FindByTokens_visible:
  assumes "FindByTokens L ty toks n filt s = (s', Inr es)"
  shows "list_all (visible L (tabs s) filt) es"
proof -
  obtain rows where q: "q_FindByTokenOverlap ty toks (tagsParam filt) (anyTagsParam filt)
      (excludeTagParam filt) (unlessTagsParam filt) (int32 n) s = (s', Inr rows)"
    and es: "es = map (entityFromRow L) rows" using assms by (auto simp: FindByTokens_def dmap_Inr_iff)
  have "set rows \<subseteq> {e \<in> set (entities (tabs s)). live e \<and> passes filt e}"
    using select_limit_Inr [OF q [unfolded q_FindByTokenOverlap_def]]
    by (auto simp: passes_def dest!: in_set_takeD)
  then show ?thesis by (auto simp: es list_all_iff visible_def)
qed

lemma FindByEmbedding_visible:
  assumes "FindByEmbedding L ty v n filt s = (s', Inr es)"
  shows "list_all (visible L (tabs s) filt) es"
proof -
  obtain rows where q: "q_FindByEmbedding L (entityTypesParam ty filt) v (tagsParam filt) (anyTagsParam filt)
      (excludeTagParam filt) (unlessTagsParam filt) (int32 n) s = (s', Inr rows)"
    and es: "es = map (entityFromRow L) rows" using assms by (auto simp: FindByEmbedding_def dmap_Inr_iff)
  have "set rows \<subseteq> {e \<in> set (entities (tabs s)). live e \<and> passes filt e}"
    using q unfolding q_FindByEmbedding_def
    by (elim exec_Inr) (auto simp: passes_def Let_def dest!: in_set_takeD split: if_splits)
  then show ?thesis by (auto simp: es list_all_iff visible_def)
qed

lemma GetEntitiesByTypeFiltered_visible:
  assumes "GetEntitiesByTypeFiltered L ty pg cursor filt s = (s', Inr es)"
  shows "list_all (visible L (tabs s) filt) es"
proof -
  obtain rows where q: "q_GetEntitiesByTypeFiltered ty cursor (tagsParam filt) (anyTagsParam filt)
      (excludeTagParam filt) (unlessTagsParam filt) (page_or 100 pg) s = (s', Inr rows)"
    and es: "es = map (entityFromRow L) rows" using assms by (auto simp: GetEntitiesByTypeFiltered_def dmap_Inr_iff)
  have "set rows \<subseteq> {e \<in> set (entities (tabs s)). live e \<and> passes filt e}"
    using select_limit_Inr [OF q [unfolded q_GetEntitiesByTypeFiltered_def]]
    by (auto simp: passes_def dest!: in_set_takeD)
  then show ?thesis by (auto simp: es list_all_iff visible_def)
qed

lemma join_end_sub: "set (join_end side P t rs) \<subseteq> {e \<in> set (entities t). live e \<and> P e}"
  by (auto simp: join_end_def)

lemma FindConnectedByType_visible:
  assumes "FindConnectedByType L i ty rts filt pg cursor s = (s', Inr es)"
  shows "list_all (visible L (tabs s) filt) es"
proof -
  obtain u s1 outs ins where
    q1: "q_FindConnectedByTypeOutbound u ty rts (tagsParam filt) (anyTagsParam filt)
      (excludeTagParam filt) (unlessTagsParam filt) cursor (page_or 1000 pg) s = (s1, Inr outs)"
    and q2: "q_FindConnectedByTypeInbound u ty rts (tagsParam filt) (anyTagsParam filt)
      (excludeTagParam filt) (unlessTagsParam filt) cursor (page_or 1000 pg) s1 = (s', Inr ins)"
    and es: "es = map (entityFromRow L) (dedup_by e_id (outs @ ins))"
    using assms by (auto simp: FindConnectedByType_def dbind_Inr_iff)
  have t: "tabs s1 = tabs s" and o: "set outs \<subseteq> {e \<in> set (entities (tabs s)). live e \<and> passes filt e}"
    using select_limit_Inr [OF q1 [unfolded q_FindConnectedByTypeOutbound_def]] join_end_sub
    by (auto simp: passes_def next_tick_def dest!: in_set_takeD) blast+
  have "set ins \<subseteq> {e \<in> set (entities (tabs s)). live e \<and> passes filt e}"
    using select_limit_Inr [OF q2 [unfolded q_FindConnectedByTypeInbound_def]] join_end_sub
    by (auto simp: passes_def next_tick_def t dest!: in_set_takeD) blast+
  with o have "set (dedup_by e_id (outs @ ins)) \<subseteq> {e \<in> set (entities (tabs s)). live e \<and> passes filt e}"
    using set_dedup_subset [of e_id "{}" "outs @ ins"] by auto
  then show ?thesis by (auto simp: es list_all_iff visible_def)
qed

text \<open>The filtered lookups keep their filter: every record returned by anchor, token, embedding, type or
  connection is a stored row that is not deleted and passes the tag filter of the call.\<close>

theorem filtered_reads_visible:
  "(FindByAnchors L ty as filt s = (s', Inr es) \<longrightarrow> schema (tabs s) \<longrightarrow> list_all (visible L (tabs s) filt) es)
   \<and> (FindByTokens L ty toks n filt s = (s', Inr es) \<longrightarrow> list_all (visible L (tabs s) filt) es)
   \<and> (FindByEmbedding L ty v n filt s = (s', Inr es) \<longrightarrow> list_all (visible L (tabs s) filt) es)
   \<and> (GetEntitiesByTypeFiltered L ty pg cursor filt s = (s', Inr es) \<longrightarrow> list_all (visible L (tabs s) filt) es)
   \<and> (FindConnectedByType L i ty rts filt pg cursor s = (s', Inr es) \<longrightarrow> list_all (visible L (tabs s) filt) es)"
proof (intro conjI impI)
  assume "FindByAnchors L ty as filt s = (s', Inr es)" "schema (tabs s)"
  then show "list_all (visible L (tabs s) filt) es"
    using FindByAnchors_set by (fastforce simp: list_all_iff visible_def)
qed (rule FindByTokens_visible FindByEmbedding_visible GetEntitiesByTypeFiltered_visible
      FindConnectedByType_visible, assumption)+

lemma demo_list:
  "\<exists>s'. GetEntitiesByTypeFiltered demo_lib ''t.v1.X'' 0 None None demo_state
     = (s', Inr (map (entityFromRow demo_lib) (entities demo_tables)))"
  by (simp add: GetEntitiesByTypeFiltered_def q_GetEntitiesByTypeFiltered_def select_limit_def run_defs
      demo_state_def demo_tables_def new_entity_def live_def before_cursor_def tag_filter_def
      tagsParam_def anyTagsParam_def excludeTagParam_def page_or_def)

theorem filtered_reads_visible_witness:
  "list_all (visible demo_lib demo_tables None) (map (entityFromRow demo_lib) (entities demo_tables))"
  using demo_list filtered_reads_visible by (fastforce simp: demo_state_def)

section \<open>Deletion\<close>

lemma in_tx_Inr:
  assumes "in_tx False wc body s = (s', Inr x)" "steady body" "tx s = None"
  obtains s2 where "body (started s) = (s2, Inr x)" "tabs s' = tabs s2" "tx s' = None"
  using assms by (cases rule: in_tx_cases [OF assms]) auto

lemma GetEntity_live:
  assumes "GetEntity L i s = (s', Inr ent)"
  obtains u e where "uuid_Parse L i = Some u" "e \<in> set (entities (tabs s))" "e_id e = u" "live e" "ent = entityFromRow L e"
proof -
  obtain u row where u: "uuid_Parse L i = Some u" and q: "q_GetEntity u s = (s', Inr row)"
    and r: "ent = entityFromRow L row" using assms by (auto simp: GetEntity_def dbind_Inr_iff dmap_Inr_iff)
  from select_one_Inr [OF q [unfolded q_GetEntity_def]] obtain rest where
    "filter (\<lambda>x. e_id x = u \<and> live x) (entities (tabs s)) = row # rest" by blast
  then have "row \<in> set (filter (\<lambda>x. e_id x = u \<and> live x) (entities (tabs s)))" by simp
  then show thesis using that u r by auto
qed

lemma DeleteEntity_effect:
  assumes "DeleteEntity L st i s = (s', Inr ())" "\<not> st_external st" "tx s = None"
  obtains u row now where "uuid_Parse L i = Some u" "row \<in> set (entities (tabs s))" "e_id row = u" "live row"
    "entities (tabs s') = map (\<lambda>e. if e_id e = u \<and> live e then e\<lparr>e_deleted_at := Some now\<rparr> else e) (entities (tabs s))"
    "\<exists>v. events (tabs s') = events (tabs s) @ [v] \<and> v_payload_type v = ''entitystore.events.v1.EntityDeleted''
       \<and> v_entity_type v = e_type row \<and> v_tags v = e_tags row"
proof -
  obtain u where u: "uuid_Parse L i = Some u" and tx: "in_tx False (\<lambda>e. e)
      (dbind (dwrap (Wrap ''get entity for delete event'') (q_GetEntity u)) (\<lambda>row.
        dbind (dwrap (Wrap ''delete entity'') (q_DeleteEntity u)) (\<lambda>_.
        insertEvents L u [] (e_tags row) (e_type row) [EntityDeleted i (e_type row)]))) s = (s', Inr ())"
    using assms(1,2) by (auto simp: DeleteEntity_def dbind_Inr_iff)
  have st: "steady (dbind (dwrap (Wrap ''get entity for delete event'') (q_GetEntity u)) (\<lambda>row.
        dbind (dwrap (Wrap ''delete entity'') (q_DeleteEntity u)) (\<lambda>_.
        insertEvents L u [] (e_tags row) (e_type row) [EntityDeleted i (e_type row)])))"
    unfolding stmt_defs by (intro steady_intros)
  obtain s3 where s3: "dbind (dwrap (Wrap ''get entity for delete event'') (q_GetEntity u)) (\<lambda>row.
        dbind (dwrap (Wrap ''delete entity'') (q_DeleteEntity u)) (\<lambda>_.
        insertEvents L u [] (e_tags row) (e_type row) [EntityDeleted i (e_type row)])) (started s) = (s3, Inr ())"
    and t3: "tabs s' = tabs s3" by (rule in_tx_Inr [OF tx st assms(3)])
  obtain row s1 s2 where 1: "q_GetEntity u (started s) = (s1, Inr row)" and 2: "q_DeleteEntity u s1 = (s2, Inr ())"
    and 3: "insertEvents L u [] (e_tags row) (e_type row) [EntityDeleted i (e_type row)] s2 = (s3, Inr ())"
    using s3 by (auto simp: dbind_Inr_iff)
  obtain rest where r: "filter (\<lambda>x. e_id x = u \<and> live x) (entities (tabs s)) = row # rest" and t1: "tabs s1 = tabs s"
    using select_one_Inr [OF 1 [unfolded q_GetEntity_def]] by (auto simp: next_tick_def started_def)
  then have "row \<in> set (filter (\<lambda>x. e_id x = u \<and> live x) (entities (tabs s)))" by simp
  then have row: "row \<in> set (entities (tabs s))" "e_id row = u" "live row" by auto
  obtain now where t2: "tabs s2 = update_entities (\<lambda>e. e_id e = u \<and> live e) (\<lambda>e. e\<lparr>e_deleted_at := Some now\<rparr>) (tabs s)"
    using 2 t1 unfolding q_DeleteEntity_def by (elim exec_Inr) (auto simp: next_tick_def)
  obtain T where "tx s2 = Some T"
    using steadyD [OF steady_exec_one _ 1 [unfolded q_GetEntity_def select_one_def]]
      steadyD [OF steady_exec _ 2 [unfolded q_DeleteEntity_def]] by (fastforce simp: started_def)
  from insertEvents_appends [OF 3 this] obtain v where
    v: "tabs s3 = (tabs s2)\<lparr>events := events (tabs s2) @ [v]\<rparr>"
      "event_row_for L u [] (e_tags row) (e_type row) (tx_now T) (EntityDeleted i (e_type row)) v"
    by (auto simp: list_all2_Cons1)
  show thesis
    by (rule that [OF u row, of now]) (use v t2 t3 in \<open>auto simp: update_entities_def event_row_for_def\<close>)
qed

text \<open>A soft delete hides the entity in every later life of the tables, and keeps its row.\<close>

lemma DeleteEntity_hides:
  assumes "DeleteEntity L st i s = (s1, Inr ())" "\<not> st_external st" "tx s = None"
    and "lives_on (tabs s1) (tabs s2)" "schema (tabs s2)"
  shows "snd (GetEntity L i s2) \<noteq> Inr ent
    \<and> (\<exists>u. uuid_Parse L i = Some u \<and> entity_exists (tabs s2) u)
    \<and> (\<exists>v. events (tabs s1) = events (tabs s) @ [v] \<and> v_payload_type v = ''entitystore.events.v1.EntityDeleted'')"
proof -
  obtain u row now where u: "uuid_Parse L i = Some u" and row: "row \<in> set (entities (tabs s))" "e_id row = u" "live row"
    and ents: "entities (tabs s1) = map (\<lambda>e. if e_id e = u \<and> live e then e\<lparr>e_deleted_at := Some now\<rparr> else e) (entities (tabs s))"
    and ev: "\<exists>v. events (tabs s1) = events (tabs s) @ [v] \<and> v_payload_type v = ''entitystore.events.v1.EntityDeleted''
       \<and> v_entity_type v = e_type row \<and> v_tags v = e_tags row"
    by (rule DeleteEntity_effect [OF assms(1-3)])
  have "row\<lparr>e_deleted_at := Some now\<rparr> \<in> set (entities (tabs s1))"
    unfolding ents using row by force
  then obtain e where e: "e \<in> set (entities (tabs s2))" "outlives (row\<lparr>e_deleted_at := Some now\<rparr>) e"
    using assms(4) unfolding lives_on_def by blast
  then have d: "e_id e = u" "\<not> live e" using row(2) by (auto simp: outlives_def live_def)
  have "snd (GetEntity L i s2) \<noteq> Inr ent"
  proof
    assume "snd (GetEntity L i s2) = Inr ent"
    then have "GetEntity L i s2 = (fst (GetEntity L i s2), Inr ent)" by (metis prod.collapse)
    then show False using u d distinct_id [OF assms(5) e(1)] by (elim GetEntity_live) auto
  qed
  then show ?thesis using u ev e(1) d(1) by (auto simp: entity_exists_def)
qed

lemma demo_delete_runs:
  "\<exists>s'. DeleteEntity demo_lib demo_store ''u'' demo_state = (s', Inr ())"
  by (simp add: DeleteEntity_def in_tx_def begin_tx_def commit_tx_def run_defs q_GetEntity_def
      select_one_def q_DeleteEntity_def update_entities_def NewV7_def q_InsertEvent_def
      demo_state_def demo_tables_def new_entity_def live_def empty_tables_def)

section \<open>Relations\<close>

lemma upsertRelation_Inr:
  assumes "upsertRelation L rel s = (s', Inr r)"
  obtains u v now uid row t where "uuid_Parse L (sr_SourceID rel) = Some u" "uuid_Parse L (sr_TargetID rel) = Some v"
    "upsert_relation_row \<lparr>r_id = uid, r_source = u, r_target = v, r_type = sr_RelationType rel,
        r_confidence = sr_Confidence rel, r_evidence = null_if_empty (sr_Evidence rel), r_implied = sr_Implied rel,
        r_urn = null_if_empty (sr_SourceURN rel), r_data = (case sr_Data rel of None \<Rightarrow> JObj [] | Some j \<Rightarrow> j),
        r_created_at = now, r_data_type = sr_DataType rel\<rparr> (tabs s) = Inr (t, row)"
    "tabs s' = t" "r = relationFromRow L row"
proof -
  obtain u v row where p: "uuid_Parse L (sr_SourceID rel) = Some u" "uuid_Parse L (sr_TargetID rel) = Some v"
    and q: "q_UpsertRelation u v (sr_RelationType rel) (sr_Confidence rel) (null_if_empty (sr_Evidence rel))
      (sr_Implied rel) (null_if_empty (sr_SourceURN rel)) (sr_DataType rel)
      (case sr_Data rel of None \<Rightarrow> JObj [] | Some j \<Rightarrow> j) s = (s', Inr row)" and r: "r = relationFromRow L row"
    using assms by (auto simp: upsertRelation_def dbind_Inr_iff dmap_Inr_iff)
  show thesis
    using q unfolding q_UpsertRelation_def
    by (elim exec_Inr) (rule that [OF p _ _ r], assumption, simp add: next_tick_def)
qed

lemma upsert_row_cases:
  assumes "upsert_relation_row row t = Inr (t', r)" "r_urn row = None"
  shows "relation_key r = relation_key row \<and> r_urn r = None \<and> r \<in> set (relations t')
    \<and> r_confidence r = r_confidence row \<and> r_data r = r_data row \<and> r_data_type r = r_data_type row
    \<and> r_evidence r = r_evidence row
    \<and> ((\<exists>q\<in>set (relations t). relation_key q = relation_key row \<and> r_urn q = None \<and> r_id q = r_id r)
          \<and> length (relations t') = length (relations t)
       \<or> \<not> (\<exists>q\<in>set (relations t). relation_key q = relation_key row \<and> r_urn q = None)
          \<and> length (relations t') = Suc (length (relations t)))"
proof -
  let ?c = "\<lambda>q. relation_key q = relation_key row \<and> r_urn q = None \<and> r_urn row = None"
  let ?u = "\<lambda>q. q\<lparr>r_confidence := r_confidence row, r_evidence := r_evidence row,
                        r_data_type := r_data_type row, r_data := r_data row\<rparr>"
  show ?thesis
  proof (cases "find ?c (relations t)")
    case None
    then have "\<forall>q\<in>set (relations t). \<not> ?c q" by (simp add: find_None_iff)
    moreover have "t' = t\<lparr>relations := relations t @ [row]\<rparr>" "r = row"
      using assms(1) None by (auto simp: upsert_relation_row_def Let_def split: if_splits)
    ultimately show ?thesis using assms(2) by auto
  next
    case (Some q)
    then have q: "q \<in> set (relations t)" "?c q" by (auto simp: find_Some_iff)
    have r: "t' = t\<lparr>relations := map (\<lambda>q. if ?c q then ?u q else q) (relations t)\<rparr>" "r = ?u q"
      using assms(1) Some by (auto simp: upsert_relation_row_def Let_def split: if_splits)
    have "?u q \<in> set (relations t')" unfolding r(1) using q by force
    then show ?thesis using q r by (auto simp: relation_key_def)
  qed
qed

text \<open>Upserting a relation without a source URN is keyed by source, target and type: after one upsert,
  another with the same key finds the same row, under the same identifier, updates its confidence
  and adds none.\<close>

theorem upsertRelation_keyed:
  assumes "upsertRelation L rel s = (s1, Inr r1)" "upsertRelation L rel2 s2 = (s3, Inr r2)"
    and "tabs s2 = tabs s1" "good schema s"
    and "sr_SourceURN rel = []" "sr_SourceURN rel2 = []"
    and "sr_SourceID rel2 = sr_SourceID rel" "sr_TargetID rel2 = sr_TargetID rel" "sr_RelationType rel2 = sr_RelationType rel"
  shows "sr_ID r2 = sr_ID r1 \<and> sr_Confidence r2 = sr_Confidence rel2
    \<and> length (relations (tabs s3)) = length (relations (tabs s1))"
proof -
  obtain u v now uid row t where 1: "uuid_Parse L (sr_SourceID rel) = Some u" "uuid_Parse L (sr_TargetID rel) = Some v"
    "upsert_relation_row \<lparr>r_id = uid, r_source = u, r_target = v, r_type = sr_RelationType rel,
        r_confidence = sr_Confidence rel, r_evidence = null_if_empty (sr_Evidence rel), r_implied = sr_Implied rel,
        r_urn = null_if_empty (sr_SourceURN rel), r_data = (case sr_Data rel of None \<Rightarrow> JObj [] | Some j \<Rightarrow> j),
        r_created_at = now, r_data_type = sr_DataType rel\<rparr> (tabs s) = Inr (t, row)"
    "tabs s1 = t" "r1 = relationFromRow L row" by (rule upsertRelation_Inr [OF assms(1)])
  obtain u2 v2 now2 uid2 row2 t2 where 2: "uuid_Parse L (sr_SourceID rel2) = Some u2" "uuid_Parse L (sr_TargetID rel2) = Some v2"
    "upsert_relation_row \<lparr>r_id = uid2, r_source = u2, r_target = v2, r_type = sr_RelationType rel2,
        r_confidence = sr_Confidence rel2, r_evidence = null_if_empty (sr_Evidence rel2), r_implied = sr_Implied rel2,
        r_urn = null_if_empty (sr_SourceURN rel2), r_data = (case sr_Data rel2 of None \<Rightarrow> JObj [] | Some j \<Rightarrow> j),
        r_created_at = now2, r_data_type = sr_DataType rel2\<rparr> (tabs s2) = Inr (t2, row2)"
    "tabs s3 = t2" "r2 = relationFromRow L row2" by (rule upsertRelation_Inr [OF assms(2)])
  have c1: "relation_key row = (u, v, sr_RelationType rel)" "r_urn row = None" "row \<in> set (relations (tabs s1))"
    using upsert_row_cases [OF 1(3)] assms(5) 1(4) by (simp_all add: null_if_empty_def relation_key_def)
  have uv: "u2 = u" "v2 = v" using 1(1,2) 2(1,2) assms(7,8) by simp_all
  have c2: "r_confidence row2 = sr_Confidence rel2"
    "\<exists>q\<in>set (relations (tabs s1)). relation_key q = (u, v, sr_RelationType rel) \<and> r_urn q = None \<and> r_id q = r_id row2"
    "length (relations (tabs s3)) = length (relations (tabs s1))"
    using upsert_row_cases [OF 2(3)] assms(3,6,9) c1 uv 2(4) by (auto simp: null_if_empty_def relation_key_def)
  then obtain q where q: "q \<in> set (relations (tabs s1))" "relation_key q = relation_key row" "r_urn q = None" "r_id q = r_id row2"
    using c1(1) by auto
  have "schema (tabs s1)"
    using presD [OF constraints.keeps_upsertRelation assms(4,1)] by (simp add: good_def)
  then have "inj_on relation_key (set (filter (\<lambda>r. r_urn r = None) (relations (tabs s1))))"
    by (simp add: schema_def relations_ok_def distinct_map)
  then have "q = row" using q c1(2,3) by (auto dest: inj_onD)
  then show ?thesis using c2 q(4) 1(5) 2(5) by (simp add: relationFromRow_def)
qed

definition demo_relation :: StoredRelation where
  "demo_relation = \<lparr>sr_ID = [], sr_SourceID = ''u'', sr_TargetID = ''u'', sr_RelationType = ''owns'',
     sr_Confidence = 1, sr_Evidence = [], sr_Implied = False, sr_SourceURN = [], sr_DataType = [],
     sr_Data = None, sr_CreatedAt = 0\<rparr>"

lemma demo_relation_runs:
  "\<exists>s1 r1. upsertRelation demo_lib demo_relation demo_state = (s1, Inr r1)
     \<and> (\<exists>s3 r2. upsertRelation demo_lib demo_relation s1 = (s3, Inr r2))"
  by (simp add: upsertRelation_def run_defs q_UpsertRelation_def upsert_relation_row_def entity_exists_def
      demo_relation_def demo_state_def demo_tables_def new_entity_def empty_tables_def null_if_empty_def
      relation_key_def Let_def)

theorem upsertRelation_keyed_witness:
  "\<exists>s1 r1 s3 r2. upsertRelation demo_lib demo_relation demo_state = (s1, Inr r1)
     \<and> upsertRelation demo_lib demo_relation s1 = (s3, Inr r2) \<and> sr_ID r2 = sr_ID r1"
proof -
  obtain s1 r1 s3 r2 where r: "upsertRelation demo_lib demo_relation demo_state = (s1, Inr r1)"
    "upsertRelation demo_lib demo_relation s1 = (s3, Inr r2)" using demo_relation_runs by blast
  have g: "good schema demo_state" using schema_demo by (simp add: good_def demo_state_def)
  have "sr_SourceURN demo_relation = []" by (simp add: demo_relation_def)
  from upsertRelation_keyed [OF r refl g this this refl refl refl] r show ?thesis by blast
qed

section \<open>Statistics\<close>

lemma group_counts_sum: "sum_list (map snd (group_counts ks)) = length ks"
proof -
  let ?ps = "map (\<lambda>k. (k, length (filter (\<lambda>k'. k' = k) ks))) (dedup_by (\<lambda>k. k) ks)"
  have cnt: "length (filter (\<lambda>k'. k' = k) ks) = count_list ks k" for k by (induction ks) auto
  have "sum_list (map snd (group_counts ks)) = sum_mset (mset (map snd (sort_key (\<lambda>(_, n). - int n) ?ps)))"
    by (simp only: group_counts_def sum_mset_sum_list)
  also have "\<dots> = sum_list (map snd ?ps)" by (simp only: mset_map mset_sort) (simp add: sum_mset_sum_list flip: mset_map)
  also have "\<dots> = sum_list (map (count_list ks) (dedup_by (\<lambda>k. k) ks))"
    by (simp only: cnt list.map_comp comp_def snd_conv)
  also have "\<dots> = sum (count_list ks) (set (dedup_by (\<lambda>k. k) ks))"
    by (rule sum_list_distinct_conv_sum_set) (rule dedup_id_distinct)
  also have "\<dots> = length ks" by (rule sum_count_set) (simp_all add: dedup_id_set)
  finally show ?thesis .
qed

text \<open>The statistics add up: the counts per entity type sum to the total of live entities, the counts per
  relation type to the total of relations, and live and soft-deleted entities are all rows.\<close>

theorem Stats_consistent:
  assumes "Stats s = (s', Inr st)"
  shows "sum_list (map snd (ss_EntityTypes st)) = ss_TotalEntities st
    \<and> sum_list (map snd (ss_RelationTypes st)) = ss_TotalRelations st
    \<and> ss_TotalEntities st + ss_SoftDeleted st = length (entities (tabs s))"
proof -
  show ?thesis
    using assms
    by (auto simp: Stats_def dbind_Inr_iff CountAllEntities_def CountAllRelations_def CountSoftDeleted_def
        CountEntityTypes_def CountRelationTypes_def q_CountAllEntities_def q_CountAllRelations_def
        q_CountSoftDeleted_def q_CountEntityTypes_def q_CountRelationTypes_def group_counts_sum
        sum_length_filter_compl next_tick_def dest!: select_Inr)
qed

theorem Stats_consistent_witness:
  "\<exists>s' st. Stats demo_state = (s', Inr st) \<and> ss_TotalEntities st + ss_SoftDeleted st = 1"
proof -
  have "\<exists>s' st. Stats demo_state = (s', Inr st)"
    by (simp add: Stats_def CountAllEntities_def CountAllRelations_def CountSoftDeleted_def
        CountEntityTypes_def CountRelationTypes_def q_CountAllEntities_def q_CountAllRelations_def
        q_CountSoftDeleted_def q_CountEntityTypes_def q_CountRelationTypes_def select_def run_defs demo_state_def)
  then obtain s' st where r: "Stats demo_state = (s', Inr st)" by blast
  have "length (entities (tabs demo_state)) = 1" by (simp add: demo_state_def demo_tables_def)
  with Stats_consistent [OF r] r show ?thesis by auto
qed

section \<open>Two flaws\<close>

definition secret_state :: db where
  "secret_state = demo_db\<lparr>tabs := empty_tables\<lparr>entities :=
     [new_entity 1 500 ''t.v1.X'' (JObj []) 1 [''secret''] ''n'',
      new_entity 2 500 ''t.v1.X'' (JObj []) 1 [''secret''] ''m'']\<rparr>\<rparr>"

definition no_secrets :: QueryFilter where
  "no_secrets = empty_QueryFilter\<lparr>qf_ExcludeTag := ''secret''\<rparr>"

text \<open>\<open>Search\<close> applies only the required tags of its filter to display names: it can return an entity that
  the \<open>ExcludeTag\<close> of the filter hides from every filtered lookup.\<close>

theorem Search_ignores_ExcludeTag:
  "\<exists>s' e. Search demo_lib ''n'' 10 (Some no_secrets) secret_state = (s', Inr [entityFromRow demo_lib e])
     \<and> e \<in> set (entities (tabs secret_state)) \<and> \<not> passes (Some no_secrets) e"
proof -
  let ?e = "new_entity 1 500 ''t.v1.X'' (JObj []) 1 [''secret''] ''n''"
  have "\<exists>s'. Search demo_lib ''n'' 10 (Some no_secrets) secret_state = (s', Inr [entityFromRow demo_lib ?e])"
    by (simp add: Search_def run_defs q_SearchByDisplayName_def select_limit_def secret_state_def
        no_secrets_def empty_QueryFilter_def tagsParam_def new_entity_def live_def demo_lib_def Let_def
        int32_def)
  moreover have "?e \<in> set (entities (tabs secret_state))" by (simp add: secret_state_def)
  moreover have "\<not> passes (Some no_secrets) ?e"
    by (simp add: passes_def tag_filter_def no_secrets_def empty_QueryFilter_def tagsParam_def
        anyTagsParam_def excludeTagParam_def unlessTagsParam_def new_entity_def overlaps_def)
  ultimately show ?thesis by blast
qed

text \<open>Paging by \<open>updated_at\<close> loses entities: two entities written in one transaction have the same time;
  after a first page of one entity, the page after that entity's time is empty.\<close>

theorem paging_skips_ties:
  "\<exists>s1 s2 e. GetEntitiesByType demo_lib ''t.v1.X'' 1 None secret_state = (s1, Inr [e])
     \<and> GetEntitiesByType demo_lib ''t.v1.X'' 1 (Some (se_UpdatedAt e)) s1 = (s2, Inr [])
     \<and> length (filter live (entities (tabs s1))) = 2"
  by (simp add: GetEntitiesByType_def q_GetEntitiesByType_def select_limit_def run_defs secret_state_def
      new_entity_def live_def before_cursor_def page_or_def entityFromRow_def)

end
