(* ===== verification/Consumer_Theorems.thy ===== *)
theory Consumer_Theorems
  imports Consumer Store_Theorems
begin

text \<open>
  What a consumer guarantees: the lease admits one holder at a time, a batch is the next events in
  order and the cursor moves exactly past it, a failed batch is delivered again, and moving a batch
  to the dead letters is atomic.
\<close>

section \<open>The order of delivery\<close>

definition event_le :: "EntityEvent \<Rightarrow> EntityEvent \<Rightarrow> bool" where
  "event_le a b \<longleftrightarrow> v_occurred_at a < v_occurred_at b \<or> (v_occurred_at a = v_occurred_at b \<and> v_id a \<le> v_id b)"

definition event_key :: "EntityEvent \<Rightarrow> time \<times> uuid" where
  "event_key v = (v_occurred_at v, v_id v)"

lemma insort_lex:
  assumes "sorted_wrt event_le ys" "\<forall>y\<in>set ys. v_id z \<le> v_id y"
  shows "sorted_wrt event_le (insort_key v_occurred_at z ys)"
  using assms by (induction ys) (auto simp: event_le_def set_insort_key)

lemma event_order_sorted: "sorted_wrt event_le (event_order t)"
proof -
  have "sorted_wrt event_le (sort_key v_occurred_at zs)" if "sorted (map v_id zs)" for zs
    using that by (induction zs) (auto intro: insort_lex)
  then show ?thesis by (simp add: event_order_def)
qed

lemma set_event_order [simp]: "set (event_order t) = set (events t)"
  by (simp add: event_order_def)

lemma event_before_iff: "event_le a b \<and> event_key a \<noteq> event_key b \<longleftrightarrow> event_before (event_key a) b"
  by (auto simp: event_le_def event_before_def event_key_def)

lemma distinct_event_keys:
  assumes "events_ok t"
  shows "distinct (map event_key (event_order t))"
proof -
  have "inj_on event_key (set (events t))" "distinct (events t)"
    using assms by (auto simp: events_ok_def distinct_map inj_on_def event_key_def)
  moreover have "distinct (event_order t) = distinct (events t)"
    by (simp add: event_order_def distinct_sort)
  ultimately show ?thesis by (simp add: distinct_map)
qed

lemma event_order_strict:
  assumes "events_ok t"
  shows "sorted_wrt (\<lambda>a b. event_before (event_key a) b) (event_order t)"
proof -
  have "sorted_wrt (\<lambda>a b. event_before (event_key a) b) vs"
    if "sorted_wrt event_le vs" "distinct (map event_key vs)" for vs
    using that by (induction vs) (auto simp: event_before_iff [symmetric])
  with event_order_sorted distinct_event_keys [OF assms] show ?thesis by blast
qed

section \<open>What is pending\<close>

text \<open>The events a consumer has not acknowledged, in the order of delivery.\<close>

definition consumer_row :: "tables \<Rightarrow> string \<Rightarrow> EntityEventConsumer option" where
  "consumer_row t name = find (\<lambda>c. c_name c = name) (consumers t)"

definition pending :: "tables \<Rightarrow> string \<Rightarrow> EntityEvent list" where
  "pending t name = (case consumer_row t name of
     None \<Rightarrow> filter (event_before (unix_epoch, uuid_Nil)) (event_order t)
   | Some c \<Rightarrow> filter (event_before (c_last_event_at c, after_id c)) (event_order t))"

definition holds_lease :: "tables \<Rightarrow> ConsumerConfig \<Rightarrow> bool" where
  "holds_lease t c \<longleftrightarrow> (\<exists>row. consumer_row t (cc_Name c) = Some row \<and> c_holder row = Some (cc_HolderID c))"

lemma consumer_row_update:
  assumes "\<And>c. c_name (f c) = c_name c"
  shows "consumer_row (update_consumers Q f t) name =
    map_option (\<lambda>c. if Q c then f c else c) (consumer_row t name)"
  using find_map_if [of "\<lambda>c. c_name c = name" f Q "consumers t"] assms
  by (auto simp: consumer_row_def update_consumers_def split: option.splits)

lemma events_update_consumers [simp]: "events (update_consumers Q f t) = events t"
  "event_order (update_consumers Q f t) = event_order t"
  by (simp_all add: update_consumers_def event_order_def)

text \<open>A strictly ordered list, filtered by everything after the last element of a prefix.\<close>

lemma event_before_trans: "event_before k a \<Longrightarrow> event_before (event_key a) b \<Longrightarrow> event_before k b"
  by (auto simp: event_before_def event_key_def)

lemma event_before_irrefl: "\<not> event_before (event_key a) a"
  by (simp add: event_before_def event_key_def)

lemma filter_after_last:
  assumes "sorted_wrt (\<lambda>a b. event_before (event_key a) b) (xs @ ys)" "xs \<noteq> []"
  shows "filter (event_before (event_key (last xs))) (xs @ ys) = ys"
proof -
  have "\<not> event_before (event_key (last xs)) x" if "x \<in> set xs" for x
  proof (cases "x = last xs")
    case False
    then have "x \<in> set (butlast xs)" using that assms(2) by (metis append_butlast_last_id in_set_butlastD
        rotate1.simps(2) set_ConsD set_rotate1)
    moreover have "sorted_wrt (\<lambda>a b. event_before (event_key a) b) (butlast xs @ [last xs])"
      using assms by (simp add: sorted_wrt_append)
    ultimately have "event_before (event_key x) (last xs)" by (simp add: sorted_wrt_append)
    then show ?thesis using event_before_trans event_before_irrefl by blast
  qed (simp add: event_before_irrefl)
  moreover have "event_before (event_key (last xs)) y" if "y \<in> set ys" for y
    using assms that by (simp add: sorted_wrt_append)
  ultimately show ?thesis by (simp add: filter_empty_conv)
qed

lemma filter_after_prefix:
  assumes "sorted_wrt (\<lambda>a b. event_before (event_key a) b) zs" "take n (filter (event_before k) zs) \<noteq> []"
  shows "filter (event_before (event_key (last (take n (filter (event_before k) zs))))) zs
    = drop n (filter (event_before k) zs)"
proof -
  let ?F = "filter (event_before k) zs"
  let ?v = "last (take n ?F)"
  have s: "sorted_wrt (\<lambda>a b. event_before (event_key a) b) (take n ?F @ drop n ?F)"
    using assms(1) by (simp add: sorted_wrt_filter)
  have "?v \<in> set ?F" using assms(2) by (meson in_set_takeD last_in_set)
  then have "event_before k ?v" by simp
  then have "filter (event_before (event_key ?v)) zs = filter (event_before (event_key ?v)) ?F"
    unfolding filter_filter using event_before_trans by (intro filter_cong) blast+
  also have "\<dots> = drop n ?F" using filter_after_last [OF s assms(2)] by simp
  finally show ?thesis .
qed

section \<open>The lease\<close>

lemma consumer_row_name: "consumer_row t name = Some row \<Longrightarrow> c_name row = name \<and> row \<in> set (consumers t)"
  using find_Some_set unfolding consumer_row_def by fastforce

lemma consumer_row_unique:
  "consumers_ok t \<Longrightarrow> c \<in> set (consumers t) \<Longrightarrow> consumer_row t (c_name c) = Some c"
  unfolding consumers_ok_def consumer_row_def by (rule find_unique_key)

lemma held_by_lease:
  assumes "consumers_ok t" "\<not> holds_lease t c" "r \<in> set (consumers t)"
  shows "\<not> held_by (cc_Name c) (cc_HolderID c) r"
  using consumer_row_unique [OF assms(1,3)] assms(2) by (auto simp: holds_lease_def held_by_def)

lemma update_not_held:
  assumes "consumers_ok t" "\<not> holds_lease t c"
  shows "update_consumers (held_by (cc_Name c) (cc_HolderID c)) f t = t"
proof -
  have "map (\<lambda>r. if held_by (cc_Name c) (cc_HolderID c) r then f r else r) (consumers t) = consumers t"
    using held_by_lease [OF assms] by (intro map_idI) simp
  then show ?thesis by (simp add: update_consumers_def)
qed

lemma consumer_row_held:
  assumes "holds_lease t c" "\<And>r. c_name (f r) = c_name r"
  shows "\<exists>row. consumer_row t (cc_Name c) = Some row \<and> c_holder row = Some (cc_HolderID c)
     \<and> consumer_row (update_consumers (held_by (cc_Name c) (cc_HolderID c)) f t) (cc_Name c) = Some (f row)"
proof -
  obtain row where row: "consumer_row t (cc_Name c) = Some row" "c_holder row = Some (cc_HolderID c)"
    using assms(1) by (auto simp: holds_lease_def)
  then have "held_by (cc_Name c) (cc_HolderID c) row" using consumer_row_name by (simp add: held_by_def)
  with row show ?thesis using consumer_row_update [where f = f, OF assms(2)] by simp
qed

text \<open>Outside a transaction a statement happens, or not at all; a lost acknowledgement hides which.\<close>

lemma exec_auto_cases:
  assumes "exec f s = (s', r)" "tx s = None"
  obtains (ok) t x where "f (clock s (tick s)) (uuids s (tick s)) (tabs s) = Inr (t, x)" "r = Inr x"
      "s' = (next_tick s)\<lparr>tabs := t\<rparr>"
  | (failed) e where "r = Inl (ErrDb e)" "s' = next_tick s"
  | (lost) t x where "f (clock s (tick s)) (uuids s (tick s)) (tabs s) = Inr (t, x)"
      "r = Inl (ErrDb StatementFailed)" "s' = (next_tick s)\<lparr>tabs := t\<rparr>"
  using assms by (auto simp: exec_def exec_auto_def split: sum.splits if_splits)

lemma next_tick_simps [simp]:
  "tabs (next_tick s) = tabs s" "tx (next_tick s) = tx s" "tick (next_tick s) = Suc (tick s)"
  "clock (next_tick s) = clock s" "fault (next_tick s) = fault s" "uuids (next_tick s) = uuids s"
  "landed (next_tick s) = landed s"
  by (simp_all add: next_tick_def)

lemma TryAcquire_effect:
  assumes "q_TryAcquireConsumerLock name h ttl s = (s', Inr n)" "tx s = None" "consumers_ok (tabs s)"
  defines "now \<equiv> clock s (tick s)"
  shows "(0 < n \<longrightarrow> (\<exists>row. consumer_row (tabs s') name = Some row \<and> c_holder row = Some h
            \<and> c_expires_at row = Some (now + ttl)))
       \<and> (n = 0 \<longrightarrow> tabs s' = tabs s)
       \<and> (\<forall>row e. consumer_row (tabs s) name = Some row \<longrightarrow> c_expires_at row = Some e \<longrightarrow> now \<le> e \<longrightarrow> n = 0)"
proof -
  let ?free = "\<lambda>c. c_name c = name \<and> (case c_expires_at c of None \<Rightarrow> True | Some e \<Rightarrow> e < now)"
  let ?f = "\<lambda>c. c\<lparr>c_holder := Some h, c_acquired_at := Some now, c_expires_at := Some (now + ttl)\<rparr>"
  let ?t = "tabs s"
  show ?thesis
  proof (cases "name \<in> c_name ` set (consumers ?t)")
    case True
    then obtain row where row: "consumer_row ?t name = Some row"
      using consumer_row_unique [OF assms(3)] by auto
    then have nm: "c_name row = name" "row \<in> set (consumers ?t)" using consumer_row_name by blast+
    have n: "n = length (filter ?free (consumers ?t))" and t': "tabs s' = update_consumers ?free ?f ?t"
      using assms(1,2) True unfolding q_TryAcquireConsumerLock_def now_def
      by (auto simp: exec_def exec_auto_def Let_def split: if_splits)
    have free_iff: "?free c \<Longrightarrow> c \<in> set (consumers ?t) \<Longrightarrow> c = row" for c
      using consumer_row_unique [OF assms(3), of c] row by auto
    have n0: "n = 0 \<longleftrightarrow> \<not> ?free row" using n nm free_iff by (auto simp: filter_empty_conv)
    have same: "tabs s' = ?t" if "n = 0"
      using that n0 free_iff unfolding t' update_consumers_def
      by (intro tables.equality) (auto intro!: map_idI)
    have "consumer_row (tabs s') name = Some (if ?free row then ?f row else row)"
      unfolding t' using consumer_row_update [of ?f ?free ?t name] row by simp
    with n0 same row show ?thesis by auto
  next
    case False
    then have none: "consumer_row ?t name = None" by (auto simp: consumer_row_def find_None_iff)
    have "n = 1" and t': "consumers (tabs s') = consumers ?t @ [\<lparr>c_name = name, c_last_event_at = unix_epoch,
         c_last_event_id = None, c_holder = Some h, c_acquired_at = Some now, c_expires_at = Some (now + ttl),
         c_updated_at = now, c_failures = 0, c_last_error = None, c_backoff_until = None\<rparr>]"
      using assms(1,2) False unfolding q_TryAcquireConsumerLock_def now_def
      by (simp_all add: exec_def exec_auto_def Let_def split: if_splits) (clarify, simp)+
    then show ?thesis using none by (simp add: consumer_row_def find_append)
  qed
qed

lemma Renew_effect:
  assumes "q_RenewConsumerLock (cc_Name c) (cc_HolderID c) ttl s = (s', Inr n)" "tx s = None"
    "consumers_ok (tabs s)"
  shows "s' = (next_tick s)\<lparr>tabs := tabs s'\<rparr>
       \<and> (0 < n \<longleftrightarrow> holds_lease (tabs s) c)
       \<and> (0 < n \<longrightarrow> (\<exists>row. consumer_row (tabs s') (cc_Name c) = Some row \<and> c_holder row = Some (cc_HolderID c)
            \<and> c_expires_at row = Some (clock s (tick s) + ttl)))
       \<and> (n = 0 \<longrightarrow> tabs s' = tabs s)"
proof -
  let ?h = "held_by (cc_Name c) (cc_HolderID c)"
  let ?f = "\<lambda>r. r\<lparr>c_expires_at := Some (clock s (tick s) + ttl)\<rparr>"
  have n: "n = length (filter ?h (consumers (tabs s)))" and s': "s' = (next_tick s)\<lparr>tabs := update_consumers ?h ?f (tabs s)\<rparr>"
    using assms(1,2) by (auto simp: q_RenewConsumerLock_def exec_def exec_auto_def split: if_splits)
  have "0 < n \<longleftrightarrow> holds_lease (tabs s) c"
  proof
    assume "holds_lease (tabs s) c"
    then obtain row where "consumer_row (tabs s) (cc_Name c) = Some row" "c_holder row = Some (cc_HolderID c)"
      by (auto simp: holds_lease_def)
    then have "row \<in> set (filter ?h (consumers (tabs s)))" using consumer_row_name by (auto simp: held_by_def)
    then show "0 < n" unfolding n by (metis length_pos_if_in_set)
  next
    assume "0 < n"
    then show "holds_lease (tabs s) c" using held_by_lease [OF assms(3)] n by (fastforce simp: filter_empty_conv)
  qed
  with s' consumer_row_held [of "tabs s" c ?f] update_not_held [OF assms(3)] show ?thesis by force
qed

lemma lease_step:
  assumes "tryAcquireOrRenew c s = (s', Inr b)" "tx s = None" "consumers_ok (tabs s)"
  defines "ttl \<equiv> pgIntervalFromDuration (cc_LockTTL c)"
  shows "(b \<longrightarrow> (\<exists>row. consumer_row (tabs s') (cc_Name c) = Some row \<and> c_holder row = Some (cc_HolderID c)
           \<and> c_expires_at row \<in> {Some (clock s (tick s) + ttl), Some (clock s (Suc (tick s)) + ttl)}))
       \<and> (\<not> b \<longrightarrow> tabs s' = tabs s)
       \<and> (\<forall>row e. consumer_row (tabs s) (cc_Name c) = Some row \<longrightarrow> c_holder row \<noteq> Some (cc_HolderID c) \<longrightarrow>
            c_expires_at row = Some e \<longrightarrow> clock s (Suc (tick s)) \<le> e \<longrightarrow> \<not> b)"
proof -
  obtain s1 n where r: "q_RenewConsumerLock (cc_Name c) (cc_HolderID c) ttl s = (s1, Inr n)"
    and k: "(if 0 < n then dret True
      else dbind (dwrap (Wrap ''acquire lock'') (q_TryAcquireConsumerLock (cc_Name c) (cc_HolderID c) ttl)) (\<lambda>n.
        dret (0 < n))) s1 = (s', Inr b)"
    using assms(1) unfolding tryAcquireOrRenew_def Let_def ttl_def by (elim dbindE) simp
  note R = Renew_effect [OF r assms(2,3)]
  show ?thesis
  proof (cases "0 < n")
    case True
    then have "s' = s1" "b" using k by simp_all
    then show ?thesis using R True by (auto simp: holds_lease_def)
  next
    case False
    then obtain m where a: "q_TryAcquireConsumerLock (cc_Name c) (cc_HolderID c) ttl s1 = (s', Inr m)" "b = (0 < m)"
      using k by (auto simp: dbind_Inr_iff)
    have s1: "s1 = next_tick s" using R False by (metis gr0I db.surjective db.update_convs(1) next_tick_simps(1))
    show ?thesis using TryAcquire_effect [OF a(1)] assms(2,3) a(2) unfolding s1 by force
  qed
qed

section \<open>A batch\<close>

abbreviation batch_size :: "ConsumerConfig \<Rightarrow> nat" where
  "batch_size c \<equiv> nat (int32 (cc_BatchSize c))"

abbreviation next_batch :: "tables \<Rightarrow> ConsumerConfig \<Rightarrow> EntityEvent list" where
  "next_batch t c \<equiv> take (batch_size c) (pending t (cc_Name c))"

lemma GetConsumerCursor_Inr:
  "q_GetConsumerCursor name s = (s', Inr row) \<Longrightarrow> s' = next_tick s \<and> consumer_row (tabs s) name = Some row"
  unfolding q_GetConsumerCursor_def consumer_row_def by (drule select_one_Inr) (auto intro: filter_find)

lemma GetEventsAfterCursor_Inr:
  assumes "q_GetEventsAfterCursor (c_last_event_at row) (after_id row) (int32 (cc_BatchSize c)) s = (s', Inr rows)"
    "consumer_row (tabs s) (cc_Name c) = Some row"
  shows "s' = next_tick s \<and> rows = next_batch (tabs s) c"
  using select_limit_Inr [OF assms(1) [unfolded q_GetEventsAfterCursor_def]] assms(2) by (simp add: pending_def)

lemma pending_advanced:
  assumes "events_ok t" "next_batch t c \<noteq> []" "holds_lease t c"
    "\<And>r. c_name (f r) = c_name r" "\<And>r. c_last_event_at (f r) = v_occurred_at (last (next_batch t c))"
    "\<And>r. c_last_event_id (f r) = Some (v_id (last (next_batch t c)))"
  shows "pending (update_consumers (held_by (cc_Name c) (cc_HolderID c)) f t) (cc_Name c)
    = drop (batch_size c) (pending t (cc_Name c))"
proof -
  obtain row where row: "consumer_row t (cc_Name c) = Some row"
    "consumer_row (update_consumers (held_by (cc_Name c) (cc_HolderID c)) f t) (cc_Name c) = Some (f row)"
    using consumer_row_held [OF assms(3,4)] by blast
  have "(c_last_event_at (f row), after_id (f row)) = event_key (last (next_batch t c))"
    by (simp add: assms(5,6) after_id_def event_key_def)
  then show ?thesis
    using filter_after_prefix [OF event_order_strict [OF assms(1)]] assms(2) row by (simp add: pending_def)
qed

text \<open>The programs that read only, and the caller's function.\<close>

lemma readonly_consumer_reads [readonly_intros]:
  "readonly (q_GetConsumerCursor name)" "readonly (q_GetEventsAfterCursor a u n)"
  unfolding q_GetConsumerCursor_def q_GetEventsAfterCursor_def by (intro readonly_intros)+

lemma readonly_call_process [readonly_intros]: "readonly (call_process process evs)"
  by (rule readonlyI) (auto simp: call_process_def)

definition advanced :: "tables \<Rightarrow> ConsumerConfig \<Rightarrow> tables \<Rightarrow> bool" where
  "advanced t c t' \<longleftrightarrow> (\<exists>f. t' = update_consumers (held_by (cc_Name c) (cc_HolderID c)) f t
     \<and> (\<forall>r. c_name (f r) = c_name r \<and> c_holder (f r) = c_holder r
          \<and> c_last_event_at (f r) = v_occurred_at (last (next_batch t c))
          \<and> c_last_event_id (f r) = Some (v_id (last (next_batch t c)))))"

lemma processBatch_cases:
  assumes "processBatch L process c s = (s', r)" "tx s = None"
  shows "tabs s' = tabs s \<and> (r = Inr () \<longrightarrow> next_batch (tabs s) c = [])
    \<or> next_batch (tabs s) c \<noteq> [] \<and> process (tick s + 2) (map (toEvent L) (next_batch (tabs s) c)) = None
      \<and> advanced (tabs s) c (tabs s') \<and> r \<in> {Inr (), Inl (Wrap ''advance cursor'' (ErrDb StatementFailed))}"
proof -
  obtain s1 r1 where 1: "q_GetConsumerCursor (cc_Name c) s = (s1, r1)" by fastforce
  have t1: "tabs s1 = tabs s" by (rule readonlyD [OF readonly_consumer_reads(1) 1])
  show ?thesis
  proof (cases r1)
    case (Inl e)
    then show ?thesis using assms(1) 1 t1 by (auto simp: processBatch_def dbind_def dwrap_def)
  next
    case (Inr row)
    then have s1: "s1 = next_tick s" and row: "consumer_row (tabs s) (cc_Name c) = Some row"
      using GetConsumerCursor_Inr 1 by blast+
    obtain s2 r2 where 2: "q_GetEventsAfterCursor (c_last_event_at row) (after_id row) (int32 (cc_BatchSize c)) s1 = (s2, r2)"
      by fastforce
    have t2: "tabs s2 = tabs s" using readonlyD [OF readonly_consumer_reads(2) 2] t1 by simp
    show ?thesis
    proof (cases r2)
      case (Inl e)
      then show ?thesis using assms(1) 1 2 Inr t2 by (auto simp: processBatch_def dbind_def dwrap_def)
    next
      case (Inr rows)
      have s2: "s2 = next_tick s1" and rows: "rows = next_batch (tabs s) c"
        using GetEventsAfterCursor_Inr [OF 2 [unfolded Inr]] row t1 by simp_all
      let ?adv = "q_AdvanceConsumerCursor (cc_Name c) (cc_HolderID c) (v_occurred_at (last rows)) (v_id (last rows))"
      have run: "processBatch L process c s = (if rows = [] then dret ()
         else dbind (call_process process (map (toEvent L) rows)) (\<lambda>_. dwrap (Wrap ''advance cursor'') ?adv)) s2"
        using 1 2 \<open>r1 = Inr row\<close> Inr by (simp add: processBatch_def dbind_def dwrap_def)
      show ?thesis
      proof (cases "rows = [] \<or> process (tick s2) (map (toEvent L) rows) \<noteq> None")
        case True
        then show ?thesis using run assms(1) t2 rows
          by (auto simp: dret_def dbind_def call_process_def split: if_splits option.splits)
      next
        case False
        then have a: "dwrap (Wrap ''advance cursor'') ?adv (next_tick s2) = (s', r)"
          using run assms(1) by (simp add: dbind_def call_process_def)
        then obtain r' where a': "?adv (next_tick s2) = (s', r')" and r': "r = wrap_res (Wrap ''advance cursor'') r'"
          by (auto simp: dwrap_def split: prod.splits)
        have "advanced (tabs s) c (update_consumers (held_by (cc_Name c) (cc_HolderID c))
            (\<lambda>r. r\<lparr>c_last_event_at := v_occurred_at (last rows), c_last_event_id := Some (v_id (last rows)),
               c_failures := 0, c_last_error := None, c_backoff_until := None, c_updated_at := now\<rparr>) (tabs s))" for now
          unfolding advanced_def rows by (rule exI, rule conjI, rule refl) simp
        moreover have "tx (next_tick s2) = None" using assms(2) s1 s2 by simp
        ultimately show ?thesis
          using False rows t2 s1 s2 r'
          by (cases rule: exec_auto_cases [OF a' [unfolded q_AdvanceConsumerCursor_def]]) auto
      qed
    qed
  qed
qed

lemma advanced_pending:
  assumes "advanced t c t'" "events_ok t" "next_batch t c \<noteq> []" "holds_lease t c"
  shows "pending t' (cc_Name c) = drop (batch_size c) (pending t (cc_Name c))" "holds_lease t' c"
    "t' = t\<lparr>consumers := consumers t'\<rparr>"
proof -
  obtain f where t': "t' = update_consumers (held_by (cc_Name c) (cc_HolderID c)) f t"
    and f: "\<And>r. c_name (f r) = c_name r" "\<And>r. c_holder (f r) = c_holder r"
      "\<And>r. c_last_event_at (f r) = v_occurred_at (last (next_batch t c))"
      "\<And>r. c_last_event_id (f r) = Some (v_id (last (next_batch t c)))"
    using assms(1) unfolding advanced_def by blast
  show "pending t' (cc_Name c) = drop (batch_size c) (pending t (cc_Name c))"
    unfolding t' by (rule pending_advanced [OF assms(2-4) f(1,3,4)])
  show "holds_lease t' c" using consumer_row_held [OF assms(4), of f] f(1,2) unfolding t' holds_lease_def by auto
  show "t' = t\<lparr>consumers := consumers t'\<rparr>" by (simp add: t' update_consumers_def)
qed

lemma processBatch_step:
  assumes "processBatch L process c s = (s', r)" "tx s = None" "events_ok (tabs s)" "holds_lease (tabs s) c"
  shows "tabs s' = tabs s \<and> (r = Inr () \<longrightarrow> next_batch (tabs s) c = [])
    \<or> next_batch (tabs s) c \<noteq> [] \<and> process (tick s + 2) (map (toEvent L) (next_batch (tabs s) c)) = None
      \<and> pending (tabs s') (cc_Name c) = drop (batch_size c) (pending (tabs s) (cc_Name c))
      \<and> holds_lease (tabs s') c \<and> tabs s' = (tabs s)\<lparr>consumers := consumers (tabs s')\<rparr>"
  using processBatch_cases [OF assms(1,2)] advanced_pending [OF _ assms(3) _ assms(4)] by blast

section \<open>Dead letters\<close>

lemma in_tx_effect:
  assumes "in_tx False wc body s = (s', r)" "steady body" "tx s = None"
  shows "tabs s' = tabs s \<or> (\<exists>s2 x. body (started s) = (s2, Inr x) \<and> in_live_tx s2 \<and> tabs s' = tabs s2)"
proof -
  obtain s2 r2 where s2: "body (started s) = (s2, r2)" by fastforce
  obtain T where T: "tx s2 = Some T" "tx_snapshot T = tabs s"
    using steadyD [OF assms(2) _ s2] by (fastforce simp: started_def same_tx_def)
  show ?thesis
  proof (cases "tx_aborted T \<and> (\<exists>x. r2 = Inr x)")
    case True
    then have "fault s (tick s) \<or> tabs s' = tabs s"
      using assms(1) s2 T by (auto simp: in_tx_def dwrap_def begin_tx_def started_def commit_tx_def rollback_tx_def
          next_tick_def split: if_splits)
    then show ?thesis using assms(1) by (auto simp: in_tx_def dwrap_def begin_tx_def)
  next
    case False
    then show ?thesis using s2 T
      by (cases rule: in_tx_cases [OF assms]) (auto simp: in_live_tx_def)
  qed
qed

lemma dtry_exec_live:
  assumes "dtry (exec f) s = (s', r)" "in_live_tx s" "in_live_tx s'"
  obtains x where "exec f s = (s', Inr x)"
proof -
  obtain T where T: "tx s = Some T" "\<not> tx_aborted T" using assms(2) by (auto simp: in_live_tx_def)
  show thesis
  proof (cases "snd (exec f s)")
    case (Inl e)
    then have "\<not> in_live_tx (fst (exec f s))"
      using T by (auto simp: exec_def exec_tx_def in_live_tx_def split: if_splits sum.splits)
    then show ?thesis using assms(1,3) by (auto simp: dtry_def split: prod.splits sum.splits)
  next
    case (Inr x)
    then show ?thesis using assms(1) that [of x] by (auto simp: dtry_def split: prod.splits sum.splits)
  qed
qed

definition letter_for :: "lib \<Rightarrow> ConsumerConfig \<Rightarrow> string \<Rightarrow> int \<Rightarrow> EntityEvent \<Rightarrow> EntityEventDeadLetter \<Rightarrow> bool" where
  "letter_for L c msg retries row d \<longleftrightarrow> d_consumer d = cc_Name c \<and> d_event_id d = v_id row
     \<and> d_event_type d = v_event_type row \<and> d_payload_type d = v_payload_type row
     \<and> d_payload d = Some (v_payload row) \<and> d_error d = msg \<and> d_retry_count d = int32 retries
     \<and> d_entity_id d = null_if_empty (text_or_empty (map_option (uuid_String L) (v_entity_id row)))"

lemma steady_live: "steady m \<Longrightarrow> m s = (s', r) \<Longrightarrow> in_live_tx s' \<Longrightarrow> tx s \<noteq> None \<Longrightarrow> in_live_tx s"
  using steadyD by (fastforce simp: in_live_tx_def same_tx_def)

lemma steady_insert_letters [steady_intros]: "steady (insert_letters L c msg k rows)"
  by (induction rows) (simp_all only: insert_letters.simps stmt_defs, (intro steady_intros; assumption?)+)

lemma insert_letters_live:
  assumes "insert_letters L c msg k rows s = (s', r)" "in_live_tx s" "in_live_tx s'"
  shows "\<exists>ls. tabs s' = (tabs s)\<lparr>dead_letters := dead_letters (tabs s) @ ls,
      dead_letter_seq := dead_letter_seq (tabs s) + int (length ls)\<rparr> \<and> list_all2 (letter_for L c msg k) rows ls"
  using assms
proof (induction rows arbitrary: s)
  case Nil
  then show ?case by (auto simp: dret_def)
next
  case (Cons row rows)
  let ?q = "q_InsertDeadLetter (cc_Name c) (v_id row) (v_event_type row) (v_payload_type row)
       (null_if_empty (text_or_empty (map_option (uuid_String L) (v_entity_id row)))) (Some (v_payload row))
       msg (int32 k)"
  obtain s1 r1 where 1: "dtry ?q s = (s1, r1)" by fastforce
  then have 2: "insert_letters L c msg k rows s1 = (s', r)"
    using Cons.prems(1) by (auto simp: dbind_def dtry_def split: prod.splits sum.splits)
  have st: "steady (dtry ?q)" unfolding q_InsertDeadLetter_def by (intro steady_intros)
  have "tx s1 \<noteq> None" using steadyD [OF st _ 1] Cons.prems(2) by (auto simp: in_live_tx_def)
  then have l1: "in_live_tx s1" using steady_live [OF steady_insert_letters 2 Cons.prems(3)] by blast
  obtain x where "?q s = (s1, Inr x)"
    using dtry_exec_live [OF 1 [unfolded q_InsertDeadLetter_def] Cons.prems(2) l1]
    unfolding q_InsertDeadLetter_def by blast
  then obtain d where d: "tabs s1 = (tabs s)\<lparr>dead_letters := dead_letters (tabs s) @ [d],
      dead_letter_seq := dead_letter_seq (tabs s) + 1\<rparr>" "letter_for L c msg k row d"
    unfolding q_InsertDeadLetter_def by (elim exec_Inr) (auto simp: letter_for_def)
  obtain ls where ls: "tabs s' = (tabs s1)\<lparr>dead_letters := dead_letters (tabs s1) @ ls,
      dead_letter_seq := dead_letter_seq (tabs s1) + int (length ls)\<rparr>" "list_all2 (letter_for L c msg k) rows ls"
    using Cons.IH [OF 2 l1 Cons.prems(3)] by blast
  show ?case by (rule exI [of _ "d # ls"]) (use d ls in simp)
qed

lemma steady_dead_letter_tx [steady_intros]: "steady (dead_letter_tx L c msg k rows)"
  unfolding dead_letter_tx_def stmt_defs by (intro steady_intros)

lemma dead_letter_tx_live:
  assumes "dead_letter_tx L c msg k rows s = (s', r)" "in_live_tx s" "in_live_tx s'"
    "rows = next_batch (tabs s) c"
  shows "\<exists>ls t. advanced (tabs s) c t \<and> list_all2 (letter_for L c msg k) rows ls
    \<and> tabs s' = t\<lparr>dead_letters := dead_letters t @ ls, dead_letter_seq := dead_letter_seq t + int (length ls)\<rparr>"
proof -
  let ?adv = "q_AdvanceConsumerCursor (cc_Name c) (cc_HolderID c) (v_occurred_at (last rows)) (v_id (last rows))"
  obtain s1 r1 where 1: "insert_letters L c msg k rows s = (s1, r1)" by fastforce
  have "\<exists>x. r1 = Inr x" using 1
    by (induction rows arbitrary: s) (auto simp: dret_def dbind_def dtry_def split: prod.splits sum.splits)
  then obtain r2 where 2: "dtry ?adv s1 = (s', r2)"
    using assms(1) 1 by (auto simp: dead_letter_tx_def dbind_def dmap_def dtry_def dret_def split: prod.splits sum.splits)
  have "tx s1 \<noteq> None" using steadyD [OF steady_insert_letters _ 1] assms(2) by (auto simp: in_live_tx_def)
  moreover have st: "steady (dtry ?adv)" unfolding q_AdvanceConsumerCursor_def by (intro steady_intros)
  ultimately have l1: "in_live_tx s1" using steady_live [OF st 2 assms(3)] by blast
  obtain ls where ls: "tabs s1 = (tabs s)\<lparr>dead_letters := dead_letters (tabs s) @ ls,
      dead_letter_seq := dead_letter_seq (tabs s) + int (length ls)\<rparr>" "list_all2 (letter_for L c msg k) rows ls"
    using insert_letters_live [OF 1 assms(2) l1] by blast
  obtain x where "?adv s1 = (s', Inr x)"
    using dtry_exec_live [OF 2 [unfolded q_AdvanceConsumerCursor_def] l1 assms(3)]
    unfolding q_AdvanceConsumerCursor_def by blast
  then obtain now where t': "tabs s' = update_consumers (held_by (cc_Name c) (cc_HolderID c))
      (\<lambda>r. r\<lparr>c_last_event_at := v_occurred_at (last rows), c_last_event_id := Some (v_id (last rows)),
         c_failures := 0, c_last_error := None, c_backoff_until := None, c_updated_at := now\<rparr>) (tabs s1)"
    unfolding q_AdvanceConsumerCursor_def by (elim exec_Inr) auto
  let ?t = "update_consumers (held_by (cc_Name c) (cc_HolderID c))
      (\<lambda>r. r\<lparr>c_last_event_at := v_occurred_at (last rows), c_last_event_id := Some (v_id (last rows)),
         c_failures := 0, c_last_error := None, c_backoff_until := None, c_updated_at := now\<rparr>) (tabs s)"
  have "advanced (tabs s) c ?t"
    unfolding advanced_def assms(4) by (rule exI, rule conjI, rule refl) simp
  moreover have "tabs s' = ?t\<lparr>dead_letters := dead_letters ?t @ ls, dead_letter_seq := dead_letter_seq ?t + int (length ls)\<rparr>"
    unfolding t' ls(1) by (simp add: update_consumers_def)
  ultimately show ?thesis using ls(2) by blast
qed

lemma consumer_row_other_tables [simp]:
  "consumer_row (t\<lparr>dead_letters := ds, dead_letter_seq := n\<rparr>) name = consumer_row t name"
  "event_order (t\<lparr>dead_letters := ds, dead_letter_seq := n\<rparr>) = event_order t"
  "pending (t\<lparr>dead_letters := ds, dead_letter_seq := n\<rparr>) name = pending t name"
  by (simp_all add: consumer_row_def event_order_def pending_def split: option.split)

text \<open>The letters are written whoever holds the lease; the cursor is another matter.\<close>

lemma deadLetter_cases:
  assumes "deadLetterCurrentBatch L c msg k s = (s', r)" "tx s = None"
  shows "r = Inr () \<and> (tabs s' = tabs s
    \<or> next_batch (tabs s) c \<noteq> []
      \<and> (\<exists>ls t. advanced (tabs s) c t \<and> list_all2 (letter_for L c msg k) (next_batch (tabs s) c) ls
           \<and> tabs s' = t\<lparr>dead_letters := dead_letters t @ ls, dead_letter_seq := dead_letter_seq t + int (length ls)\<rparr>))"
proof -
  obtain s1 r1 where 1: "q_GetConsumerCursor (cc_Name c) s = (s1, r1)" by fastforce
  have t1: "tabs s1 = tabs s" by (rule readonlyD [OF readonly_consumer_reads(1) 1])
  have r: "r = Inr ()" using assms(1)
    by (auto simp: deadLetterCurrentBatch_def dmap_def dbind_def dtry_def dret_def split: prod.splits sum.splits)
  show ?thesis
  proof (cases r1)
    case (Inl e)
    then show ?thesis using assms(1) 1 t1 r
      by (auto simp: deadLetterCurrentBatch_def dbind_def dmap_def dtry_def dret_def)
  next
    case (Inr row)
    then have s1: "s1 = next_tick s" and row: "consumer_row (tabs s) (cc_Name c) = Some row"
      using GetConsumerCursor_Inr 1 by blast+
    obtain s2 r2 where 2: "q_GetEventsAfterCursor (c_last_event_at row) (after_id row) (int32 (cc_BatchSize c)) s1 = (s2, r2)"
      by fastforce
    have t2: "tabs s2 = tabs s" using readonlyD [OF readonly_consumer_reads(2) 2] t1 by simp
    show ?thesis
    proof (cases "\<exists>rows. r2 = Inr rows \<and> rows \<noteq> []")
      case False
      then show ?thesis using assms(1) 1 2 Inr t2 r
        by (cases r2) (auto simp: deadLetterCurrentBatch_def dbind_def dmap_def dtry_def dret_def)
    next
      case True
      then obtain rows where rows: "r2 = Inr rows" "rows \<noteq> []" by blast
      have s2: "s2 = next_tick s1" and rs: "rows = next_batch (tabs s) c"
        using GetEventsAfterCursor_Inr [OF 2 [unfolded rows(1)]] row t1 by simp_all
      obtain r3 where 3: "in_tx False (\<lambda>e. e) (dead_letter_tx L c msg k rows) s2 = (s', r3)"
        using assms(1) 1 2 Inr rows
        by (auto simp: deadLetterCurrentBatch_def dbind_def dmap_def dtry_def dret_def split: prod.splits sum.splits)
      have "tx s2 = None" using assms(2) s1 s2 by simp
      from in_tx_effect [OF 3 steady_dead_letter_tx this] show ?thesis
      proof (elim disjE exE conjE)
        assume "tabs s' = tabs s2"
        then show ?thesis using t2 r by simp
      next
        fix s3 x
        assume b: "dead_letter_tx L c msg k rows (started s2) = (s3, Inr x)" "in_live_tx s3" "tabs s' = tabs s3"
        have st: "tabs (started s2) = tabs s" "in_live_tx (started s2)"
          using t2 by (simp_all add: started_def in_live_tx_def)
        obtain ls t where d: "advanced (tabs s) c t" "list_all2 (letter_for L c msg k) rows ls"
          "tabs s3 = t\<lparr>dead_letters := dead_letters t @ ls, dead_letter_seq := dead_letter_seq t + int (length ls)\<rparr>"
          using dead_letter_tx_live [OF b(1) st(2) b(2)] rs st(1) by auto
        then show ?thesis using r b(3) rs rows(2) by auto
      qed
    qed
  qed
qed

lemma deadLetter_effect:
  assumes "deadLetterCurrentBatch L c msg k s = (s', r)" "tx s = None" "events_ok (tabs s)" "consumers_ok (tabs s)"
  shows "r = Inr () \<and> (tabs s' = tabs s
    \<or> next_batch (tabs s) c \<noteq> []
      \<and> (\<exists>ls. list_all2 (letter_for L c msg k) (next_batch (tabs s) c) ls
           \<and> tabs s' = (tabs s)\<lparr>consumers := consumers (tabs s'), dead_letters := dead_letters (tabs s) @ ls,
                dead_letter_seq := dead_letter_seq (tabs s) + int (length ls)\<rparr>)
      \<and> (if holds_lease (tabs s) c
          then pending (tabs s') (cc_Name c) = drop (batch_size c) (pending (tabs s) (cc_Name c))
          else consumers (tabs s') = consumers (tabs s)))"
proof (cases "tabs s' = tabs s")
  case False
  then obtain ls t where d: "next_batch (tabs s) c \<noteq> []" "advanced (tabs s) c t"
    "list_all2 (letter_for L c msg k) (next_batch (tabs s) c) ls"
    "tabs s' = t\<lparr>dead_letters := dead_letters t @ ls, dead_letter_seq := dead_letter_seq t + int (length ls)\<rparr>"
    using deadLetter_cases [OF assms(1,2)] by blast
  have c: "consumers (tabs s') = consumers (tabs s)" if "\<not> holds_lease (tabs s) c"
    using d(2,4) update_not_held [OF assms(4) that] by (auto simp: advanced_def)
  have p: "pending (tabs s') (cc_Name c) = drop (batch_size c) (pending (tabs s) (cc_Name c))" if "holds_lease (tabs s) c"
    using advanced_pending(1) [OF d(2) assms(3) d(1) that] by (simp add: d(4))
  have "tabs s' = (tabs s)\<lparr>consumers := consumers (tabs s'), dead_letters := dead_letters (tabs s) @ ls,
      dead_letter_seq := dead_letter_seq (tabs s) + int (length ls)\<rparr>"
    using d(2,4) by (auto simp: advanced_def update_consumers_def)
  then show ?thesis using d(1,3) c p deadLetter_cases [OF assms(1,2)] by (cases "holds_lease (tabs s) c") auto
qed (use deadLetter_cases [OF assms(1,2)] in simp)

section \<open>A run without faults\<close>

definition same_env :: "db \<Rightarrow> db \<Rightarrow> bool" where
  "same_env s s' \<longleftrightarrow> tx s' = None \<and> fault s' = fault s \<and> clock s' = clock s \<and> tick s \<le> tick s'"

definition lease_free :: "tables \<Rightarrow> ConsumerConfig \<Rightarrow> time \<Rightarrow> bool" where
  "lease_free t c now \<longleftrightarrow> (case consumer_row t (cc_Name c) of None \<Rightarrow> True
     | Some row \<Rightarrow> c_holder row = Some (cc_HolderID c)
         \<or> (case c_expires_at row of None \<Rightarrow> True | Some e \<Rightarrow> e < now))"

lemma exec_fault_free:
  "tx s = None \<Longrightarrow> \<not> fault s (tick s) \<Longrightarrow> exec f s =
     (case f (clock s (tick s)) (uuids s (tick s)) (tabs s) of Inl e \<Rightarrow> (next_tick s, Inl (ErrDb e))
      | Inr (t, x) \<Rightarrow> ((next_tick s)\<lparr>tabs := t\<rparr>, Inr x))"
  by (simp add: exec_def exec_auto_def split: sum.split)

lemma pending_same_cursor:
  assumes "consumer_row t' name = map_option f (consumer_row t name)" "event_order t' = event_order t"
    "\<And>r. c_last_event_at (f r) = c_last_event_at r" "\<And>r. c_last_event_id (f r) = c_last_event_id r"
  shows "pending t' name = pending t name"
  using assms by (simp add: pending_def after_id_def split: option.split)

lemma acquire_runs:
  assumes "tx s = None" "\<And>k. \<not> fault s k" "consumers_ok (tabs s)" "lease_free (tabs s) c (clock s (Suc (tick s)))"
  shows "\<exists>s'. tryAcquireOrRenew c s = (s', Inr True) \<and> same_env s s' \<and> holds_lease (tabs s') c
    \<and> pending (tabs s') (cc_Name c) = pending (tabs s) (cc_Name c)"
proof -
  let ?ttl = "pgIntervalFromDuration (cc_LockTTL c)"
  let ?h = "held_by (cc_Name c) (cc_HolderID c)"
  let ?n = "length (filter ?h (consumers (tabs s)))"
  let ?s1 = "(next_tick s)\<lparr>tabs := update_consumers ?h (\<lambda>r. r\<lparr>c_expires_at := Some (clock s (tick s) + ?ttl)\<rparr>) (tabs s)\<rparr>"
  have r: "q_RenewConsumerLock (cc_Name c) (cc_HolderID c) ?ttl s = (?s1, Inr ?n)"
    by (simp add: q_RenewConsumerLock_def exec_fault_free assms(1,2))
  note R = Renew_effect [OF r assms(1,3)]
  show ?thesis
  proof (cases "holds_lease (tabs s) c")
    case True
    then have n: "0 < ?n" using R by blast
    then have "tryAcquireOrRenew c s = (?s1, Inr True)" using r
      by (simp add: tryAcquireOrRenew_def Let_def dbind_def dwrap_def dret_def)
    moreover have "pending (tabs ?s1) (cc_Name c) = pending (tabs s) (cc_Name c)"
      by (rule pending_same_cursor [where f = "\<lambda>r. if ?h r then r\<lparr>c_expires_at := Some (clock s (tick s) + ?ttl)\<rparr> else r"])
        (simp_all add: consumer_row_update)
    moreover have "same_env s ?s1" using assms(1) by (simp add: same_env_def)
    ultimately show ?thesis using R n by (force simp: holds_lease_def)
  next
    case False
    then have n: "?n = 0" and s1: "?s1 = next_tick s"
      using R update_not_held [OF assms(3) False] by auto
    let ?now = "clock s (Suc (tick s))"
    let ?free = "\<lambda>r. c_name r = cc_Name c \<and> (case c_expires_at r of None \<Rightarrow> True | Some e \<Rightarrow> e < ?now)"
    let ?f = "\<lambda>r. r\<lparr>c_holder := Some (cc_HolderID c), c_acquired_at := Some ?now, c_expires_at := Some (?now + ?ttl)\<rparr>"
    let ?q = "q_TryAcquireConsumerLock (cc_Name c) (cc_HolderID c) ?ttl (next_tick s)"
    have run: "tryAcquireOrRenew c s = (case ?q of (s', r) \<Rightarrow> (s', case r of Inl e \<Rightarrow> Inl (Wrap ''acquire lock'' e) | Inr m \<Rightarrow> Inr (0 < m)))"
      using r n s1 by (auto simp: tryAcquireOrRenew_def Let_def dbind_def dwrap_def dret_def split: prod.splits sum.splits)
    obtain s' m where q: "?q = (s', Inr m)" and e: "same_env s s'" and m: "0 < m"
      and p: "pending (tabs s') (cc_Name c) = pending (tabs s) (cc_Name c)"
    proof (cases "consumer_row (tabs s) (cc_Name c)")
      case None
      then have nn: "cc_Name c \<notin> c_name ` set (consumers (tabs s))" by (auto simp: consumer_row_def find_None_iff)
      let ?row = "\<lparr>c_name = cc_Name c, c_last_event_at = unix_epoch, c_last_event_id = None,
         c_holder = Some (cc_HolderID c), c_acquired_at = Some ?now, c_expires_at = Some (?now + ?ttl),
         c_updated_at = ?now, c_failures = 0, c_last_error = None, c_backoff_until = None\<rparr>"
      let ?t = "(tabs s)\<lparr>consumers := consumers (tabs s) @ [?row]\<rparr>"
      have "?q = ((next_tick (next_tick s))\<lparr>tabs := ?t\<rparr>, Inr 1)"
        using nn by (simp add: q_TryAcquireConsumerLock_def exec_fault_free assms(1,2) Let_def)
      moreover have "consumer_row ?t (cc_Name c) = Some ?row"
        using None by (simp add: consumer_row_def find_append)
      then have "pending ?t (cc_Name c) = pending (tabs s) (cc_Name c)"
        using None by (simp add: pending_def after_id_def event_order_def)
      ultimately show thesis using that [of "(next_tick (next_tick s))\<lparr>tabs := ?t\<rparr>" 1] assms(1)
        by (simp add: same_env_def)
    next
      case (Some row)
      then have row: "c_name row = cc_Name c" "row \<in> set (consumers (tabs s))" using consumer_row_name by blast+
      then have "cc_Name c \<in> c_name ` set (consumers (tabs s))" by force
      then have "?q = ((next_tick (next_tick s))\<lparr>tabs := update_consumers ?free ?f (tabs s)\<rparr>,
          Inr (length (filter ?free (consumers (tabs s)))))"
        by (simp add: q_TryAcquireConsumerLock_def exec_fault_free assms(1,2) Let_def cong: option.case_cong)
      moreover have "?free row" using assms(4) False Some row by (simp add: lease_free_def holds_lease_def)
      then have "row \<in> set (filter ?free (consumers (tabs s)))" using row by simp
      then have "0 < length (filter ?free (consumers (tabs s)))" by (metis length_pos_if_in_set)
      moreover have "pending (update_consumers ?free ?f (tabs s)) (cc_Name c) = pending (tabs s) (cc_Name c)"
        by (rule pending_same_cursor [where f = "\<lambda>r. if ?free r then ?f r else r"]) (simp_all add: consumer_row_update)
      ultimately show thesis using that assms(1) by (simp add: same_env_def)
    qed
    have run': "tryAcquireOrRenew c s = (s', Inr True)" using run q m by simp
    have "holds_lease (tabs s') c" using lease_step [OF run' assms(1,3)] by (auto simp: holds_lease_def)
    with run' e p show ?thesis by blast
  qed
qed

text \<open>The consumer's operations keep every invariant of the tables.\<close>

context plain_invariant
begin

lemma keeps_tryAcquireOrRenew [pres_intros]: "pres I (tryAcquireOrRenew c)"
  unfolding tryAcquireOrRenew_def by (intro pres_intros)

lemma keeps_releaseLock [pres_intros]: "pres I (releaseLock c)"
  unfolding releaseLock_def by (intro pres_intros)

lemma keeps_call_process [pres_intros]: "pres I (call_process process evs)"
  by (rule presI) (auto simp: call_process_def)

lemma keeps_processBatch [pres_intros]: "pres I (processBatch L process c)"
  unfolding processBatch_def q_GetConsumerCursor_def q_GetEventsAfterCursor_def by (intro pres_intros)

lemma keeps_insert_letters [pres_intros]: "pres I (insert_letters L c msg k rows)"
  by (induction rows) (simp_all only: insert_letters.simps, (intro pres_intros; assumption?)+)

lemma keeps_deadLetterCurrentBatch [pres_intros]: "pres I (deadLetterCurrentBatch L c msg k)"
  unfolding deadLetterCurrentBatch_def dead_letter_tx_def q_GetConsumerCursor_def q_GetEventsAfterCursor_def
  by (intro pres_intros)

lemma keeps_persistFailureState [pres_intros]: "pres I (persistFailureState c k e b)"
  unfolding persistFailureState_def by (intro pres_intros)

lemma good_step: "pres I m \<Longrightarrow> good I s \<Longrightarrow> good I (fst (m s))"
  by (metis presD prod.collapse)

lemma keeps_poll_failed:
  "good I s \<Longrightarrow> good I (snd (fst (poll_failed L etext rnd co e s)))"
  unfolding poll_failed_def Let_def
  by (auto split: option.split
      intro!: good_step [OF keeps_persistFailureState] good_step [OF keeps_deadLetterCurrentBatch])

lemma keeps_poll:
  assumes "good I s"
  shows "good I (snd (fst (poll L process etext rnd co s)))"
proof -
  obtain s1 r1 where 1: "tryAcquireOrRenew (co_cfg co) s = (s1, r1)" by fastforce
  obtain s2 r2 where 2: "processBatch L process (co_cfg co) s1 = (s2, r2)" by fastforce
  have g1: "good I s1" by (rule presD [OF keeps_tryAcquireOrRenew assms 1])
  have g2: "good I s2" by (rule presD [OF keeps_processBatch g1 2])
  have "snd (fst (poll L process etext rnd co s)) \<in> {s, s1, s2, fst (persistFailureState (co_cfg co) 0 [] None s2)}
      \<union> {snd (fst (poll_failed L etext rnd co e s2)) | e. True}"
    using 1 2 unfolding poll_def by (cases r1; cases r2) (auto split: bool.split)
  then show ?thesis
    using assms g1 g2 good_step [OF keeps_persistFailureState g2] keeps_poll_failed [OF g2] by auto
qed

lemma keeps_run_polls: "good I s \<Longrightarrow> good I (snd (fst (run_polls L process etext rnd k co s)))"
proof (induction k arbitrary: co s)
  case (Suc k)
  have "good I (snd (fst (poll L process etext rnd co (next_tick s))))" using Suc.prems by (intro keeps_poll) simp
  then show ?case using Suc.IH by (auto split: prod.split)
qed simp

lemma keeps_Run: "good I s \<Longrightarrow> good I (snd (fst (Run L process etext rnd k co s)))"
  using keeps_run_polls [of s L process etext rnd k co] good_step [OF keeps_releaseLock]
  by (auto simp: Run_def split: prod.split)

lemma keeps_replay_letters [pres_intros]: "pres I (replay_letters L process ds acc)"
proof (induction ds arbitrary: acc)
  case Nil
  then show ?case by (intro presI) simp
next
  case (Cons d ds)
  show ?case
  proof (rule presI)
    fix s s' r
    assume g: "good I s" and r: "replay_letters L process (d # ds) acc s = (s', r)"
    obtain a b where acc: "acc = (a, b)" by (cases acc)
    obtain s1 r1 where 1: "call_process process [letter_event L d] s = (s1, r1)" by fastforce
    have g1: "good I s1" using presD [OF keeps_call_process g 1] .
    then have "good I (fst (q_DeleteDeadLetter (d_id d) s1))" by (rule good_step [OF keeps_DeleteDeadLetter])
    then show "good I s'" using r 1 g1 presD [OF Cons] unfolding acc by (cases r1) auto
  qed
qed

lemma keeps_ReplayDeadLetters [pres_intros]: "pres I (ReplayDeadLetters L process c opts)"
  unfolding ReplayDeadLetters_def q_ListDeadLetters_def by (intro pres_intros)

lemma keeps_PurgeDeadLetters [pres_intros]: "pres I (PurgeDeadLetters d)"
  by (rule presI) (metis PurgeDeadLetters_def keeps_PurgeOldDeadLetters presD)

end

lemma processBatch_runs:
  assumes "tx s = None" "\<And>k. \<not> fault s k" "\<And>k evs. process k evs = None" "holds_lease (tabs s) c"
    "0 \<le> int32 (cc_BatchSize c)"
  shows "\<exists>s'. processBatch L process c s = (s', Inr ()) \<and> same_env s s'"
proof -
  obtain row where row: "consumer_row (tabs s) (cc_Name c) = Some row" using assms(4) by (auto simp: holds_lease_def)
  then obtain rest where f: "filter (\<lambda>r. c_name r = cc_Name c) (consumers (tabs s)) = row # rest"
    unfolding consumer_row_def by (metis filter_empty_conv filter_find find_None_iff list.exhaust option.inject option.distinct(1))
  show ?thesis
    using f assms unfolding processBatch_def q_GetConsumerCursor_def q_GetEventsAfterCursor_def q_AdvanceConsumerCursor_def
      select_one_def select_limit_def exec_one_def same_env_def
    by (simp add: exec_fault_free dbind_def dwrap_def dret_def call_process_def)
qed

lemma acquire_and_process:
  assumes "tx s = None" "\<And>k. \<not> fault s k" "\<And>k evs. process k evs = None" "schema (tabs s)"
    "lease_free (tabs s) c (clock s (Suc (tick s)))" "0 \<le> int32 (cc_BatchSize c)"
  obtains s1 s2 where "tryAcquireOrRenew c s = (s1, Inr True)" "processBatch L process c s1 = (s2, Inr ())"
    "same_env s s2" "schema (tabs s2)" "holds_lease (tabs s2) c"
    "pending (tabs s2) (cc_Name c) = drop (batch_size c) (pending (tabs s) (cc_Name c))"
proof -
  have g: "good schema s" using assms(1,4) by (simp add: good_def)
  have "consumers_ok (tabs s)" using assms(4) by (simp add: schema_def)
  from acquire_runs [OF assms(1,2) this assms(5)] obtain s1 where 1: "tryAcquireOrRenew c s = (s1, Inr True)"
    "same_env s s1" "holds_lease (tabs s1) c" "pending (tabs s1) (cc_Name c) = pending (tabs s) (cc_Name c)"
    by blast
  have g1: "good schema s1" by (rule presD [OF constraints.keeps_tryAcquireOrRenew g 1(1)])
  have e1: "tx s1 = None" "\<And>k. \<not> fault s1 k" using 1(2) assms(2) by (simp_all add: same_env_def)
  obtain s2 where 2: "processBatch L process c s1 = (s2, Inr ())" "same_env s1 s2"
    using processBatch_runs [where process = process, OF e1 assms(3) 1(3) assms(6)] by blast
  have g2: "good schema s2" by (rule presD [OF constraints.keeps_processBatch g1 2(1)])
  have "events_ok (tabs s1)" using g1 by (simp add: good_def schema_def)
  from processBatch_step [OF 2(1) e1(1) this 1(3)]
  have "pending (tabs s2) (cc_Name c) = drop (batch_size c) (pending (tabs s1) (cc_Name c)) \<and> holds_lease (tabs s2) c"
    using 1(3) by auto
  moreover have "same_env s s2" using 1(2) 2(2) by (simp add: same_env_def)
  ultimately show thesis using that [OF 1(1) 2(1)] g2 1(4) by (simp add: good_def)
qed

lemma poll_runs:
  assumes "tx s = None" "\<And>k. \<not> fault s k" "\<And>k evs. process k evs = None" "schema (tabs s)"
    "lease_free (tabs s) (co_cfg co) (clock s (Suc (tick s)))" "co_backoffUntil co \<le> clock s (tick s)"
    "co_failures co = 0" "0 \<le> int32 (cc_BatchSize (co_cfg co))"
  shows "\<exists>s'. poll L process etext rnd co s = ((co, s'), Inr ()) \<and> same_env s s' \<and> schema (tabs s')
    \<and> holds_lease (tabs s') (co_cfg co)
    \<and> pending (tabs s') (cc_Name (co_cfg co)) = drop (batch_size (co_cfg co)) (pending (tabs s) (cc_Name (co_cfg co)))"
proof -
  obtain s1 s2 where b: "tryAcquireOrRenew (co_cfg co) s = (s1, Inr True)" "processBatch L process (co_cfg co) s1 = (s2, Inr ())"
    "same_env s s2" "schema (tabs s2)" "holds_lease (tabs s2) (co_cfg co)"
    "pending (tabs s2) (cc_Name (co_cfg co)) = drop (batch_size (co_cfg co)) (pending (tabs s) (cc_Name (co_cfg co)))"
    by (rule acquire_and_process [OF assms(1-5,8), of L])
  then have "poll L process etext rnd co s = ((co, s2), Inr ())" using assms(6,7) by (simp add: poll_def)
  with b(3-6) show ?thesis by blast
qed

lemma run_polls_drain:
  assumes "tx s = None" "\<And>k. \<not> fault s k" "\<And>k evs. process k evs = None" "schema (tabs s)"
    "\<And>j. tick s < j \<Longrightarrow> lease_free (tabs s) (co_cfg co) (clock s j)"
    "\<And>j. tick s < j \<Longrightarrow> co_backoffUntil co \<le> clock s j"
    "co_failures co = 0" "0 \<le> int32 (cc_BatchSize (co_cfg co))"
  shows "\<exists>s'. run_polls L process etext rnd k co s = ((co, s'), Inr ()) \<and> same_env s s' \<and> schema (tabs s')
    \<and> pending (tabs s') (cc_Name (co_cfg co)) = drop (k * batch_size (co_cfg co)) (pending (tabs s) (cc_Name (co_cfg co)))"
  using assms(1,2,4-6)
proof (induction k arbitrary: s)
  case 0
  then show ?case by (simp add: same_env_def)
next
  case (Suc k)
  obtain s1 where 1: "poll L process etext rnd co (next_tick s) = ((co, s1), Inr ())" "same_env (next_tick s) s1"
    "schema (tabs s1)" "holds_lease (tabs s1) (co_cfg co)"
    "pending (tabs s1) (cc_Name (co_cfg co)) = drop (batch_size (co_cfg co)) (pending (tabs s) (cc_Name (co_cfg co)))"
    using poll_runs [of "next_tick s" process co L etext rnd] assms(3,7,8) Suc.prems by auto
  have "lease_free (tabs s1) (co_cfg co) now" for now
    using 1(4) by (auto simp: lease_free_def holds_lease_def)
  moreover have "co_backoffUntil co \<le> clock s1 j" if "tick s1 < j" for j
    using that 1(2) Suc.prems(5) by (simp add: same_env_def)
  ultimately obtain s' where "run_polls L process etext rnd k co s1 = ((co, s'), Inr ())" "same_env s1 s'" "schema (tabs s')"
    "pending (tabs s') (cc_Name (co_cfg co)) = drop (k * batch_size (co_cfg co)) (pending (tabs s1) (cc_Name (co_cfg co)))"
    using Suc.IH [of s1] 1(2,3) Suc.prems(2) by (auto simp: same_env_def)
  with 1 show ?case by (auto simp: same_env_def add.commute)
qed

lemma release_runs:
  assumes "tx s = None" "\<And>k. \<not> fault s k" "consumers_ok (tabs s)"
  shows "\<not> holds_lease (tabs (fst (releaseLock c s))) c
    \<and> pending (tabs (fst (releaseLock c s))) (cc_Name c) = pending (tabs s) (cc_Name c)"
proof -
  let ?h = "held_by (cc_Name c) (cc_HolderID c)"
  let ?f = "\<lambda>r. r\<lparr>c_holder := None, c_expires_at := None\<rparr>"
  have t: "tabs (fst (releaseLock c s)) = update_consumers ?h ?f (tabs s)"
    by (simp add: releaseLock_def q_ReleaseConsumerLock_def dmap_def dbind_def dtry_def dret_def exec_fault_free assms(1,2))
  have row: "consumer_row (update_consumers ?h ?f (tabs s)) (cc_Name c) =
      map_option (\<lambda>r. if ?h r then ?f r else r) (consumer_row (tabs s) (cc_Name c))"
    by (rule consumer_row_update) simp
  have "pending (update_consumers ?h ?f (tabs s)) (cc_Name c) = pending (tabs s) (cc_Name c)"
    by (rule pending_same_cursor [OF row]) simp_all
  moreover have "\<not> holds_lease (update_consumers ?h ?f (tabs s)) c"
    using row consumer_row_name [of "tabs s"] by (auto simp: holds_lease_def held_by_def split: if_splits)
  ultimately show ?thesis unfolding t by simp
qed

section \<open>Backoff\<close>

lemma base_backoff_exact:
  assumes "0 < cc_InitialBackoff c" "cc_InitialBackoff c \<le> 2 ^ 43" "1 \<le> k"
  shows "base_backoff c k = (let b = cc_InitialBackoff c * 2 ^ nat (min (k - 1) 10) in
     if 0 < cc_MaxBackoff c \<and> cc_MaxBackoff c < b then cc_MaxBackoff c else b)"
proof -
  let ?i = "cc_InitialBackoff c"
  let ?e = "nat (min (k - 1) 10)"
  have e: "(2::int) ^ ?e \<le> 2 ^ 10" by (rule power_increasing) auto
  have b: "?i * 2 ^ ?e \<le> 2 ^ 53" using mult_mono [OF assms(2) e] assms(1) by simp
  have i: "f64 (of_int ?i) = of_int ?i" using f64_nat [of "nat ?i"] assms(1,2) by (simp add: nat_le_iff)
  have "f64 (of_nat (nat (?i * 2 ^ ?e))) = of_nat (nat (?i * 2 ^ ?e))"
    using b by (intro f64_nat) (simp add: nat_le_iff)
  then have "fmul (f64 (of_int ?i)) (2 ^ ?e) = of_int (?i * 2 ^ ?e)"
    unfolding fmul_def i using assms(1) by simp
  moreover have "duration_of_float (of_int n) = n" if "0 \<le> n" "n \<le> 2 ^ 53" for n
    using that by (simp add: duration_of_float_def Let_def)
  ultimately have "duration_of_float (fmul (f64 (of_int ?i)) (2 ^ ?e)) = ?i * 2 ^ ?e"
    using b assms(1) by (metis (no_types, lifting) less_imp_le mult_nonneg_nonneg zero_le_numeral zero_le_power)
  then show ?thesis by (simp add: base_backoff_def Let_def)
qed

lemma jittered_bounds:
  assumes "jittered rnd b = Some j" "\<And>n. 0 < n \<Longrightarrow> 0 \<le> rnd n \<and> rnd n < n"
  shows "9 * b \<le> 10 * j \<and> 10 * j < 11 * b"
proof -
  have b: "5 \<le> b" using assms(1) by (auto simp: jittered_def int_div_def Let_def split: if_splits)
  then have n: "0 < b div 5" by simp
  have j: "j = b - b div 10 + rnd (b div 5)" using assms(1) b n by (simp add: jittered_def int_div_def Let_def)
  have "10 * (b div 10) \<le> b" "b < 10 * (b div 10) + 10" "5 * (b div 5) \<le> b" by linarith+
  moreover have "0 \<le> rnd (b div 5)" "rnd (b div 5) < b div 5" using assms(2) [OF n] by blast+
  moreover have "9 * b \<le> 10 * (b - q + x) \<and> 10 * (b - q + x) < 11 * b"
    if "10 * q \<le> b" "b < 10 * q + 10" "5 * p \<le> b" "0 \<le> x" "x < p" for p q x :: int
    using that by auto
  ultimately show ?thesis unfolding j by blast
qed

lemma jittered_Some: "jittered rnd b \<noteq> None \<longleftrightarrow> 5 \<le> b"
  by (auto simp: jittered_def int_div_def Let_def)

section \<open>Properties\<close>

text \<open>A store with two events and a consumer that reads one at a time.\<close>

definition demo_event :: "uuid \<Rightarrow> EntityEvent" where
  "demo_event u = \<lparr>v_id = u, v_event_type = ''t'', v_payload_type = ''t'', v_payload = JNull, v_entity_id = None,
     v_relation_key = None, v_tags = [], v_occurred_at = unix_epoch + 1, v_published_at = None, v_entity_type = []\<rparr>"

definition demo_config :: ConsumerConfig where
  "demo_config = \<lparr>cc_Name = ''c'', cc_BatchSize = 1, cc_PollInterval = second, cc_LockTTL = second,
     cc_HolderID = ''me'', cc_MaxRetries = 2, cc_InitialBackoff = second, cc_MaxBackoff = 60 * second\<rparr>"

definition demo_row :: "string \<Rightarrow> EntityEventConsumer" where
  "demo_row h = \<lparr>c_name = ''c'', c_last_event_at = unix_epoch, c_last_event_id = None, c_holder = Some h,
     c_acquired_at = None, c_expires_at = Some 5000, c_updated_at = 0, c_failures = 0, c_last_error = None,
     c_backoff_until = None\<rparr>"

definition demo_log :: "EntityEventConsumer list \<Rightarrow> db" where
  "demo_log rows = demo_db\<lparr>tabs := empty_tables\<lparr>events := [demo_event 2, demo_event 1], consumers := rows\<rparr>\<rparr>"

lemma int32_1 [simp]: "int32 1 = 1"
  by (simp add: int32_def)

lemmas demo_log_defs = demo_log_def demo_event_def demo_config_def demo_row_def empty_tables_def

lemma demo_log_ok: "schema (tabs (demo_log []))" "schema (tabs (demo_log [demo_row h]))"
  by (simp_all add: demo_log_defs schema_defs)

lemma demo_log_env [simp]: "tx (demo_log rows) = None" "fault (demo_log rows) k = False" "tick (demo_log rows) = 0"
  "clock (demo_log rows) k = 1000 + int k"
  by (simp_all add: demo_log_def)

lemma demo_pending: "pending (tabs (demo_log [])) ''c'' = [demo_event 1, demo_event 2]"
  "pending (tabs (demo_log [demo_row h])) ''c'' = [demo_event 1, demo_event 2]"
  by (simp_all add: demo_log_defs pending_def consumer_row_def event_order_def event_before_def after_id_def uuid_Nil_def
      word_less_def word_le_def)

text \<open>C7. The lease is exclusive. A consumer that is told it holds the lock is the holder in the
  table, until its time to live after one of the two statements; a consumer that is told it does not
  has changed nothing; and nobody takes a lock from another holder before it has expired.\<close>

theorem lease_exclusive:
  assumes "tryAcquireOrRenew c s = (s', Inr b)" "tx s = None" "schema (tabs s)"
  shows "(b \<longrightarrow> (\<exists>row. consumer_row (tabs s') (cc_Name c) = Some row \<and> c_holder row = Some (cc_HolderID c)
           \<and> c_expires_at row \<in> (\<lambda>k. Some (clock s k + pgIntervalFromDuration (cc_LockTTL c))) ` {tick s, Suc (tick s)}))
       \<and> (\<not> b \<longrightarrow> tabs s' = tabs s)
       \<and> (\<forall>row e. consumer_row (tabs s) (cc_Name c) = Some row \<longrightarrow> c_holder row \<noteq> Some (cc_HolderID c) \<longrightarrow>
            c_expires_at row = Some e \<longrightarrow> clock s (Suc (tick s)) \<le> e \<longrightarrow> \<not> b)"
  using lease_step [OF assms(1,2)] assms(3) by (simp add: schema_def)

lemma demo_acquire: "\<exists>s' b. tryAcquireOrRenew demo_config (demo_log [demo_row ''you'']) = (s', Inr b)"
  by (simp add: tryAcquireOrRenew_def Let_def run_defs q_RenewConsumerLock_def q_TryAcquireConsumerLock_def
      demo_log_def demo_config_def demo_row_def held_by_def update_consumers_def) (rule exI [of _ False], simp)

theorem lease_exclusive_witness:
  "\<exists>s'. tryAcquireOrRenew demo_config (demo_log [demo_row ''you'']) = (s', Inr False)
     \<and> tabs s' = tabs (demo_log [demo_row ''you''])"
proof -
  obtain s' b where r: "tryAcquireOrRenew demo_config (demo_log [demo_row ''you'']) = (s', Inr b)"
    using demo_acquire by blast
  have "consumer_row (tabs (demo_log [demo_row ''you''])) (cc_Name demo_config) = Some (demo_row ''you'')"
    "c_holder (demo_row ''you'') \<noteq> Some (cc_HolderID demo_config)" "c_expires_at (demo_row ''you'') = Some 5000"
    by (simp_all add: demo_log_defs consumer_row_def)
  with lease_exclusive [OF r demo_log_env(1) demo_log_ok(2)] r show ?thesis by auto
qed

text \<open>C27. Fencing: whoever has lost the lease no longer moves the cursor. Processing a batch, recording a failure
  and releasing the lock leave the tables of a consumer that is not the holder as they are.\<close>

theorem lease_fencing:
  assumes "\<not> holds_lease (tabs s) c" "tx s = None" "schema (tabs s)"
  shows "tabs (fst (processBatch L process c s)) = tabs s
    \<and> tabs (fst (persistFailureState c k msg b s)) = tabs s
    \<and> tabs (fst (releaseLock c s)) = tabs s"
proof -
  have ok: "consumers_ok (tabs s)" using assms(3) by (simp add: schema_def)
  note same = update_not_held [OF ok assms(1)]
  have "tabs s' = tabs s" if "processBatch L process c s = (s', r)" for s' r
    using processBatch_cases [OF that assms(2)] same by (auto simp: advanced_def)
  moreover have "tabs (fst (persistFailureState c k msg b s)) = tabs s" "tabs (fst (releaseLock c s)) = tabs s"
    using same assms(2) unfolding persistFailureState_def releaseLock_def q_UpdateConsumerFailureState_def
      q_ReleaseConsumerLock_def
    by (simp_all add: dmap_def dbind_def dtry_def dret_def exec_def exec_auto_def split: prod.splits)
  ultimately show ?thesis by (metis prod.collapse)
qed

theorem lease_fencing_witness:
  "tabs (fst (processBatch demo_lib (\<lambda>_ _. None) demo_config (demo_log [demo_row ''you''])))
     = tabs (demo_log [demo_row ''you''])"
  using lease_fencing [of "demo_log [demo_row ''you'']" demo_config demo_lib "\<lambda>_ _. None"] demo_log_ok(2)
  by (simp add: holds_lease_def demo_log_defs consumer_row_def)

text \<open>C6. Processing a batch moves the cursor only past events the caller's function has accepted. Whatever
  fails, \<open>processBatch\<close> either changes no table, and a holder of the lease that is told of success then had nothing to
  deliver; or the consumer holds the lease, its next events in the order of their time and identifier,
  at most the batch size, were accepted by the function, the cursor is past exactly these, and no other table is touched.
  (The other way past an event is to keep it as a dead letter.)\<close>

theorem processBatch_at_least_once:
  assumes "processBatch L process c s = (s', r)" "tx s = None" "schema (tabs s)"
  shows "tabs s' = tabs s
      \<and> (r = Inr () \<and> holds_lease (tabs s) c \<longrightarrow> take (nat (int32 (cc_BatchSize c))) (pending (tabs s) (cc_Name c)) = [])
    \<or> holds_lease (tabs s) c
      \<and> process (tick s + 2) (map (toEvent L) (take (nat (int32 (cc_BatchSize c))) (pending (tabs s) (cc_Name c)))) = None
      \<and> pending (tabs s') (cc_Name c) = drop (nat (int32 (cc_BatchSize c))) (pending (tabs s) (cc_Name c))
      \<and> tabs s' = (tabs s)\<lparr>consumers := consumers (tabs s')\<rparr>"
proof (cases "holds_lease (tabs s) c")
  case True
  from processBatch_step [OF assms(1,2) _ True] show ?thesis using assms(3) True by (auto simp: schema_def)
next
  case False
  have "consumers_ok (tabs s)" using assms(3) by (simp add: schema_def)
  from update_not_held [OF this False] processBatch_cases [OF assms(1,2)] False show ?thesis by (auto simp: advanced_def)
qed

theorem processBatch_at_least_once_witness:
  "\<exists>s'. processBatch demo_lib (\<lambda>_ _. None) demo_config (demo_log [demo_row ''me'']) = (s', Inr ())
     \<and> pending (tabs s') ''c'' = [demo_event 2]"
proof -
  let ?s = "demo_log [demo_row ''me'']"
  have h: "holds_lease (tabs ?s) demo_config" by (simp add: holds_lease_def demo_log_defs consumer_row_def)
  then obtain s' where r: "processBatch demo_lib (\<lambda>_ _. None) demo_config ?s = (s', Inr ())"
    using processBatch_runs [of ?s "\<lambda>_ _. None" demo_config demo_lib] by (auto simp: demo_config_def)
  have "cc_Name demo_config = ''c''" "cc_BatchSize demo_config = 1" by (simp_all add: demo_config_def)
  with processBatch_at_least_once [OF r demo_log_env(1) demo_log_ok(2)] h r show ?thesis
    by (auto simp: demo_pending)
qed

text \<open>C28. Moving a batch to the dead letters is one transaction: either no table changes, or one letter per
  event of the batch, in order, with its event, the error and the retry count, is appended, and all other tables
  but the consumers' are as before. For a consumer that holds the lease the cursor then is past exactly these events.
  One that has lost it writes the letters all the same, and its cursor stays where it was: the
  new holder delivers the same events again.\<close>

theorem deadLetter_atomic:
  assumes "deadLetterCurrentBatch L c msg k s = (s', r)" "tx s = None" "schema (tabs s)"
  shows "tabs s' = tabs s
    \<or> (\<exists>ls. list_all2 (letter_for L c msg k) (take (nat (int32 (cc_BatchSize c))) (pending (tabs s) (cc_Name c))) ls
         \<and> tabs s' = (tabs s)\<lparr>consumers := consumers (tabs s'), dead_letters := dead_letters (tabs s) @ ls,
              dead_letter_seq := dead_letter_seq (tabs s) + int (length ls)\<rparr>)
      \<and> (if holds_lease (tabs s) c
          then pending (tabs s') (cc_Name c) = drop (nat (int32 (cc_BatchSize c))) (pending (tabs s) (cc_Name c))
          else consumers (tabs s') = consumers (tabs s))"
  using deadLetter_effect [OF assms(1,2)] assms(3) by (auto simp: schema_def)

lemma demo_dead_letter:
  "\<exists>s'. deadLetterCurrentBatch demo_lib demo_config ''boom'' 2 (demo_log [demo_row h]) = (s', Inr ())
     \<and> dead_letters (tabs s') \<noteq> []"
  by (simp add: deadLetterCurrentBatch_def dead_letter_tx_def in_tx_def begin_tx_def commit_tx_def run_defs dtry_def
      q_GetConsumerCursor_def q_GetEventsAfterCursor_def q_InsertDeadLetter_def q_AdvanceConsumerCursor_def select_one_def
      select_limit_def update_consumers_def event_order_def event_before_def after_id_def uuid_Nil_def
      word_less_def word_le_def demo_log_defs)

text \<open>The holder and a consumer without the lease, on the same two events.\<close>

theorem deadLetter_atomic_witness:
  "\<exists>s' s2 d d2.
     deadLetterCurrentBatch demo_lib demo_config ''boom'' 2 (demo_log [demo_row ''me'']) = (s', Inr ())
   \<and> dead_letters (tabs s') = [d] \<and> d_event_id d = 1 \<and> d_error d = ''boom'' \<and> pending (tabs s') ''c'' = [demo_event 2]
   \<and> deadLetterCurrentBatch demo_lib demo_config ''boom'' 2 (demo_log [demo_row ''you'']) = (s2, Inr ())
   \<and> dead_letters (tabs s2) = [d2] \<and> d_event_id d2 = 1 \<and> consumers (tabs s2) = [demo_row ''you'']"
proof -
  obtain s1 s2 where r: "deadLetterCurrentBatch demo_lib demo_config ''boom'' 2 (demo_log [demo_row ''me'']) = (s1, Inr ())"
      "dead_letters (tabs s1) \<noteq> []"
    and q: "deadLetterCurrentBatch demo_lib demo_config ''boom'' 2 (demo_log [demo_row ''you'']) = (s2, Inr ())"
      "dead_letters (tabs s2) \<noteq> []"
    using demo_dead_letter by blast
  have h: "holds_lease (tabs (demo_log [demo_row ''me''])) demo_config"
    "\<not> holds_lease (tabs (demo_log [demo_row ''you''])) demo_config"
    "dead_letters (tabs (demo_log rows)) = []" "consumers (tabs (demo_log rows)) = rows" for rows
    by (simp_all add: holds_lease_def demo_log_defs consumer_row_def)
  have cfg: "cc_Name demo_config = ''c''" "cc_BatchSize demo_config = 1" by (simp_all add: demo_config_def)
  have "v_id (demo_event 1) = 1" by (simp add: demo_event_def)
  then have l: "\<exists>d. dead_letters t = [d] \<and> d_event_id d = 1 \<and> d_error d = ''boom''"
    if "list_all2 (letter_for demo_lib demo_config ''boom'' 2) [demo_event 1] ls" "dead_letters t = ls" for t ls
    using that by (auto simp: list_all2_Cons1 letter_for_def)
  note t = deadLetter_atomic [OF r(1) demo_log_env(1) demo_log_ok(2), unfolded cfg demo_pending]
    deadLetter_atomic [OF q(1) demo_log_env(1) demo_log_ok(2), unfolded cfg demo_pending]
  obtain ls where ls: "list_all2 (letter_for demo_lib demo_config ''boom'' 2) [demo_event 1] ls" "dead_letters (tabs s1) = ls"
    "pending (tabs s1) ''c'' = [demo_event 2]" using t(1) r(2) h by (auto dest!: arg_cong [where f = dead_letters])
  obtain ls2 where ls2: "list_all2 (letter_for demo_lib demo_config ''boom'' 2) [demo_event 1] ls2" "dead_letters (tabs s2) = ls2"
    "consumers (tabs s2) = [demo_row ''you'']" using t(2) q(2) h by (auto dest!: arg_cong [where f = dead_letters])
  show ?thesis using r(1) q(1) l [OF ls(1,2)] ls(3) l [OF ls2(1,2)] ls2(3) by blast
qed

text \<open>C30. A consumer makes progress: when the database answers, the caller's function accepts, the
  lock is free or its own and no backoff is due, \<open>Run\<close> takes a batch off the front of the pending
  events at each of its \<open>k\<close> ticks, so that nothing is pending once \<open>k\<close> batches cover it, and gives
  the lock back when its context is cancelled.\<close>

theorem Run_drains:
  assumes "tx s = None" "\<forall>j. \<not> fault s j" "\<forall>j evs. process j evs = None" "schema (tabs s)"
    "\<forall>j>tick s. lease_free (tabs s) (co_cfg co) (clock s j) \<and> co_backoffUntil co \<le> clock s j"
    "co_failures co = 0" "0 \<le> int32 (cc_BatchSize (co_cfg co))"
  shows "\<exists>s'. Run L process etext rnd k co s = ((co, s'), Inl (Msg ''context canceled'' []))
    \<and> pending (tabs s') (cc_Name (co_cfg co))
        = drop (k * nat (int32 (cc_BatchSize (co_cfg co)))) (pending (tabs s) (cc_Name (co_cfg co)))
    \<and> \<not> holds_lease (tabs s') (co_cfg co)"
proof -
  obtain s' where r: "run_polls L process etext rnd k co s = ((co, s'), Inr ())" "same_env s s'" "schema (tabs s')"
    "pending (tabs s') (cc_Name (co_cfg co)) = drop (k * batch_size (co_cfg co)) (pending (tabs s) (cc_Name (co_cfg co)))"
    using run_polls_drain [of s process co L etext rnd k] assms by auto
  have "tx s' = None" "\<And>j. \<not> fault s' j" "consumers_ok (tabs s')"
    using r(2,3) assms(2) by (simp_all add: same_env_def schema_def)
  from release_runs [OF this, of "co_cfg co"] r show ?thesis by (simp add: Run_def)
qed

theorem Run_drains_witness:
  "\<exists>s'. Run demo_lib (\<lambda>_ _. None) (\<lambda>_. []) (\<lambda>_ _. 0) 2 (NewConsumer [] demo_config) (demo_log [])
       = ((NewConsumer [] demo_config, s'), Inl (Msg ''context canceled'' []))
     \<and> pending (tabs s') ''c'' = []"
proof -
  let ?co = "NewConsumer [] demo_config"
  have cfg: "cc_Name (co_cfg ?co) = ''c''" "cc_BatchSize (co_cfg ?co) = 1" "co_failures ?co = 0" "co_backoffUntil ?co = 0"
    by (simp_all add: NewConsumer_def withDefaults_def demo_config_def Let_def second_def)
  then have "lease_free (tabs (demo_log [])) (co_cfg ?co) now" for now
    by (simp add: lease_free_def consumer_row_def demo_log_defs)
  with Run_drains [of "demo_log []" "\<lambda>_ _. None" ?co demo_lib "\<lambda>_. []" "\<lambda>_ _. 0" 2] cfg demo_log_ok(1)
  show ?thesis by (auto simp: demo_pending)
qed

text \<open>The backoff after the \<open>k\<close>-th failure in a row doubles from the initial one up to ten times
  and is capped by the maximum, with a jitter of at most a tenth on either side; until it is over,
  \<open>poll\<close> does nothing. (For initial backoffs up to \<open>2 ^ 43\<close> nanoseconds, where float64 is exact.)\<close>

theorem poll_backoff:
  assumes "0 < cc_InitialBackoff (co_cfg co)" "cc_InitialBackoff (co_cfg co) \<le> 2 ^ 43" "0 \<le> co_failures co"
    "\<not> (0 < cc_MaxRetries (co_cfg co) \<and> cc_MaxRetries (co_cfg co) \<le> co_failures co + 1)"
    "\<forall>n>0. 0 \<le> rnd (tick s) n \<and> rnd (tick s) n < n"
    "b = (let d = cc_InitialBackoff (co_cfg co) * 2 ^ nat (min (co_failures co) 10) in
          if 0 < cc_MaxBackoff (co_cfg co) \<and> cc_MaxBackoff (co_cfg co) < d then cc_MaxBackoff (co_cfg co) else d)"
    "5 \<le> b"
  shows "\<exists>co' s'. poll_failed L etext rnd co e s = ((co', s'), Inr ()) \<and> co_failures co' = co_failures co + 1
    \<and> 9 * b \<le> 10 * (co_backoffUntil co' - clock s (tick s)) \<and> 10 * (co_backoffUntil co' - clock s (tick s)) < 11 * b
    \<and> (\<forall>t process. clock t (tick t) < co_backoffUntil co' \<longrightarrow> poll L process etext rnd co' t = ((co', t), Inr ()))"
proof -
  have "base_backoff (co_cfg co) (co_failures co + 1) = b"
    using base_backoff_exact [OF assms(1,2), of "co_failures co + 1"] assms(3,6) by simp
  moreover obtain j where j: "jittered (rnd (tick s)) b = Some j"
    using jittered_Some [of "rnd (tick s)" b] assms(7) by auto
  ultimately show ?thesis
    using jittered_bounds [OF j] assms(1,4,5) by (auto simp: poll_failed_def Let_def poll_def)
qed

theorem poll_backoff_witness:
  "\<exists>co' s'. poll_failed demo_lib (\<lambda>_. []) (\<lambda>_ _. 0) (NewConsumer [] demo_config) Panic (demo_log [])
       = ((co', s'), Inr ()) \<and> 9 * second \<le> 10 * (co_backoffUntil co' - 1000)"
proof -
  let ?co = "NewConsumer [] demo_config"
  have "co_cfg ?co = demo_config" "co_failures ?co = 0"
    by (simp_all add: NewConsumer_def withDefaults_def demo_config_def Let_def second_def)
  with poll_backoff [of ?co "\<lambda>_ _. 0" "demo_log []" second demo_lib "\<lambda>_. []" Panic]
  show ?thesis by (auto simp: demo_config_def second_def Let_def)
qed

text \<open>With a backoff below five nanoseconds, or a maximum below that, the first failed batch makes
  \<open>poll\<close> panic in \<open>rand.Int63n\<close>.\<close>

theorem tiny_backoff_panics:
  assumes "0 < cc_InitialBackoff (co_cfg co)" "cc_InitialBackoff (co_cfg co) < 5" "co_failures co = 0"
    "cc_MaxRetries (co_cfg co) = 0"
  shows "snd (poll_failed L etext rnd co e s) = Inl Panic"
proof -
  have "base_backoff (co_cfg co) 1 < 5" using base_backoff_exact [of "co_cfg co" 1] assms(1,2) by (simp add: Let_def)
  then have "jittered (rnd (tick s)) (base_backoff (co_cfg co) 1) = None"
    using jittered_Some [of "rnd (tick s)" "base_backoff (co_cfg co) 1"] by auto
  then show ?thesis using assms by (simp add: poll_failed_def Let_def)
qed

theorem tiny_backoff_panics_witness:
  "snd (poll_failed demo_lib (\<lambda>_. []) (\<lambda>_ _. 0)
     (NewConsumer [] (demo_config\<lparr>cc_InitialBackoff := 4, cc_MaxRetries := 0\<rparr>)) Panic (demo_log [])) = Inl Panic"
  by (rule tiny_backoff_panics) (simp_all add: NewConsumer_def withDefaults_def demo_config_def Let_def second_def)

end
