(* ===== verification/System.thy ===== *)
theory System
  imports Consumer_Theorems
begin

text \<open>
  The system as a whole: every public operation that may change the database, from the pool or
  inside a transaction of the caller, of any number of stores and consumers, interleaved in any
  order, with any statement failing. Sessions are serialised: while a transaction is open, the steps
  are those of its owner. \<open>api_step L h\<close> is one such step; hard deletes are among them when \<open>h\<close> holds.
  Whatever is proved inside the two locales of \<open>Invariant\<close> carries over to all runs.
\<close>

inductive api_step :: "lib \<Rightarrow> bool \<Rightarrow> db \<Rightarrow> db \<Rightarrow> bool" for L :: lib and h :: bool where
  wait: "api_step L h s (next_tick s)"
| BatchWrite: "st_external st = (tx s \<noteq> None) \<Longrightarrow> BatchWrite L st ops s = (s', rb) \<Longrightarrow> api_step L h s s'"
| DeleteEntity: "st_external st = (tx s \<noteq> None) \<Longrightarrow> DeleteEntity L st i s = (s', ru) \<Longrightarrow> api_step L h s s'"
| HardDeleteEntity: "h \<Longrightarrow> st_external st = (tx s \<noteq> None) \<Longrightarrow> HardDeleteEntity L st i s = (s', ru) \<Longrightarrow> api_step L h s s'"
| DeleteRelationByKey: "st_external st = (tx s \<noteq> None) \<Longrightarrow> DeleteRelationByKey L st src tgt ty s = (s', ru) \<Longrightarrow> api_step L h s s'"
| UpdateRelationData: "UpdateRelationData L src tgt ty dat s = (s', rr) \<Longrightarrow> api_step L h s s'"
| SetTags: "SetTags L i mts s = (s', ru) \<Longrightarrow> api_step L h s s'"
| AddTags: "AddTags L i ts s = (s', ru) \<Longrightarrow> api_step L h s s'"
| RemoveTag: "RemoveTag L i tag s = (s', ru) \<Longrightarrow> api_step L h s s'"
| UpdateEmbedding: "UpdateEmbedding L i v s = (s', ru) \<Longrightarrow> api_step L h s s'"
| Tx: "tx s = None \<Longrightarrow> Tx s = (s', ru) \<Longrightarrow> api_step L h s s'"
| Commit: "tx s \<noteq> None \<Longrightarrow> TxStore_Commit s = (s', ru) \<Longrightarrow> api_step L h s s'"
| Rollback: "tx s \<noteq> None \<Longrightarrow> TxStore_Rollback s = (s', ru) \<Longrightarrow> api_step L h s s'"
| TxWriteEntity: "tx s \<noteq> None \<Longrightarrow> TxStore_WriteEntity L opr s = (s', re) \<Longrightarrow> api_step L h s s'"
| TxUpsertRelation: "tx s \<noteq> None \<Longrightarrow> TxStore_UpsertRelation L ur s = (s', rr) \<Longrightarrow> api_step L h s s'"
| TxDeleteRelationByKey: "tx s \<noteq> None \<Longrightarrow> TxStore_DeleteRelationByKey L src tgt ty s = (s', ru) \<Longrightarrow> api_step L h s s'"
| TxUpdateRelationData: "tx s \<noteq> None \<Longrightarrow> TxStore_UpdateRelationData L src tgt ty dat s = (s', rr) \<Longrightarrow> api_step L h s s'"
| poll: "tx s = None \<Longrightarrow> poll L process etext rnd co s = ((co', s'), ru) \<Longrightarrow> api_step L h s s'"
| releaseLock: "tx s = None \<Longrightarrow> releaseLock c s = (s', ru) \<Longrightarrow> api_step L h s s'"
| ReplayDeadLetters: "tx s = None \<Longrightarrow> ReplayDeadLetters L process c opts s = (s', rn) \<Longrightarrow> api_step L h s s'"
| PurgeDeadLetters: "tx s = None \<Longrightarrow> PurgeDeadLetters age s = (s', ru) \<Longrightarrow> api_step L h s s'"

inductive_cases api_stepE: "api_step L h s s'"

abbreviation api_steps :: "lib \<Rightarrow> bool \<Rightarrow> db \<Rightarrow> db \<Rightarrow> bool" where
  "api_steps L h \<equiv> (api_step L h)\<^sup>*\<^sup>*"

section \<open>Invariants of all runs\<close>

context history_invariant
begin

lemma good_api_step_soft: "api_step L False s s' \<Longrightarrow> good I s \<Longrightarrow> good I s'"
proof (induction rule: api_step.induct)
  case (poll s process etext rnd co co' s' ru)
  then show ?case using keeps_poll [of s L process etext rnd co] by simp
qed (auto elim!: presD [rotated 2] intro: pres_intros)

lemma good_api_steps_soft: "api_steps L False s s' \<Longrightarrow> good I s \<Longrightarrow> good I s'"
  by (induction rule: rtranclp_induct) (auto intro: good_api_step_soft)

end

context table_invariant
begin

lemma good_api_step: "api_step L h s s' \<Longrightarrow> good I s \<Longrightarrow> good I s'"
proof (induction rule: api_step.induct)
  case (poll s process etext rnd co co' s' ru)
  then show ?case using keeps_poll [of s L process etext rnd co] by simp
qed (auto elim!: presD [rotated 2] intro: pres_intros)

lemma good_api_steps: "api_steps L h s s' \<Longrightarrow> good I s \<Longrightarrow> good I s'"
  by (induction rule: rtranclp_induct) (auto intro: good_api_step)

end

lemma good_no_tx: "tx s = None \<Longrightarrow> good I s \<longleftrightarrow> I (tabs s)"
  by (simp add: good_def)

lemma good_tabs: "good I s \<Longrightarrow> I (tabs s)"
  by (simp add: good_def)

text \<open>The tables satisfy the constraints they are built on in every reachable state.\<close>

lemma reachable_schema:
  assumes "api_steps L h s s'" "tabs s = empty_tables" "tx s = None"
  shows "schema (tabs s')"
proof -
  have "good schema s" using assms(2,3) schema_empty by (simp add: good_no_tx)
  then show ?thesis by (rule good_tabs [OF constraints.good_api_steps [OF assms(1)]])
qed

lemma soft_run:
  assumes "api_steps L False s s'" "tx s = None" "schema (tabs s)"
  shows "schema (tabs s')" "lives_on (tabs s) (tabs s')"
proof -
  have "good schema s" "good (lives_on (tabs s)) s" using assms(2,3) lives_on_refl by (simp_all add: good_no_tx)
  then have "good schema s'" "good (lives_on (tabs s)) s'"
    using constraints.good_api_steps_soft [OF assms(1)] life.good_api_steps_soft [OF assms(1)] by blast+
  then show "schema (tabs s')" "lives_on (tabs s) (tabs s')" by (simp_all add: good_def)
qed

text \<open>A run to evaluate: begin a transaction, create an entity.\<close>

lemma demo_run:
  "\<exists>s' ent. applyCreate demo_lib demo_create (started demo_db) = (s', Inr ent) \<and> api_steps demo_lib h demo_db s'"
proof -
  obtain s' ent where c: "applyCreate demo_lib demo_create (started demo_db) = (s', Inr ent)"
    using demo_create_runs by blast
  have "Tx demo_db = (started demo_db, Inr ())" by (simp add: Tx_def dwrap_def begin_tx_def started_def)
  then have "api_step demo_lib h demo_db (started demo_db)" by (intro api_step.Tx) simp_all
  moreover have "TxStore_WriteEntity demo_lib demo_create (started demo_db) = (s', Inr ent)"
    using c by (simp add: TxStore_WriteEntity_def applyEntityWrite_def demo_create_def)
  then have "api_step demo_lib h (started demo_db) s'" by (intro api_step.TxWriteEntity) (simp_all add: started_def)
  ultimately have "api_steps demo_lib h demo_db s'"
    by (rule rtranclp.rtrancl_into_rtrancl [OF r_into_rtranclp])
  then show ?thesis using c by blast
qed

lemma DeleteEntity_quiescent:
  assumes "DeleteEntity L st i s = (s1, Inr ())" "\<not> st_external st" "tx s = None"
  shows "tx s1 = None"
proof -
  let ?body = "\<lambda>uid. dbind (dwrap (Wrap ''get entity for delete event'') (q_GetEntity uid)) (\<lambda>row.
        dbind (dwrap (Wrap ''delete entity'') (q_DeleteEntity uid)) (\<lambda>_.
        insertEvents L uid [] (e_tags row) (e_type row) [EntityDeleted i (e_type row)]))"
  obtain uid where r: "in_tx False (\<lambda>e. e) (?body uid) s = (s1, Inr ())"
    using assms(1,2) by (auto simp: DeleteEntity_def dbind_Inr_iff)
  have "steady (?body uid)" unfolding stmt_defs by (intro steady_intros)
  from in_tx_Inr [OF r this assms(3)] show ?thesis by metis
qed

section \<open>Properties\<close>

text \<open>C17. The event log is append-only: along every run, hard deletes and failures included, the log
  a quiescent state has is a prefix of the log of every later state.\<close>

theorem event_log_append_only:
  assumes "api_steps L h s s'" "tx s = None"
  shows "\<exists>vs. events (tabs s') = events (tabs s) @ vs"
proof -
  have "good (log_extends (tabs s)) s" using assms(2) log_extends_refl by (simp add: good_no_tx)
  then have "good (log_extends (tabs s)) s'" by (rule log.good_api_steps [OF assms(1)])
  then show ?thesis by (simp add: good_def log_extends_def)
qed

theorem event_log_append_only_witness:
  "\<exists>s'. api_steps demo_lib True demo_db s' \<and> (\<exists>vs. events (tabs s') = events (tabs demo_db) @ vs)"
  using event_log_append_only [of demo_lib True demo_db] demo_run [of True] by fastforce

text \<open>C18. The life of an entity: along every run without a hard delete an entity keeps its row, its
  type and its time of creation, its version never goes down, and once deleted it stays deleted.\<close>

theorem entity_life:
  assumes "api_steps L False s s'" "tx s = None" "e \<in> set (entities (tabs s))"
  shows "\<exists>e'\<in>set (entities (tabs s')). e_id e' = e_id e \<and> e_type e' = e_type e
    \<and> e_created_at e' = e_created_at e \<and> e_version e \<le> e_version e' \<and> (live e' \<longrightarrow> live e)"
proof -
  have "good (lives_on (tabs s)) s" using assms(2) lives_on_refl by (simp add: good_no_tx)
  then have "good (lives_on (tabs s)) s'" by (rule life.good_api_steps_soft [OF assms(1)])
  then show ?thesis using assms(3) by (simp add: good_def lives_on_def outlives_def)
qed

theorem entity_life_witness:
  "\<exists>s'. api_steps demo_lib False demo_state s' \<and> (\<exists>e'\<in>set (entities (tabs s')). e_id e' = 1)"
proof -
  obtain s' where d: "DeleteEntity demo_lib demo_store ''u'' demo_state = (s', Inr ())"
    using demo_delete_runs by blast
  have r: "api_steps demo_lib False demo_state s'"
    by (rule r_into_rtranclp, rule api_step.DeleteEntity [OF _ d]) (simp add: demo_state_def)
  have "tx demo_state = None" "new_entity 1 500 ''t.v1.X'' (JObj []) 1 [] ''n'' \<in> set (entities (tabs demo_state))"
    by (simp_all add: demo_state_def demo_tables_def)
  from entity_life [OF r this] r show ?thesis by (auto simp: new_entity_def)
qed

text \<open>C2. No lost update: once a committed batch has updated or merged an entity at some expected version,
  no later batch that updates or merges this entity with the same expected version succeeds, whatever
  operations of whatever stores and consumers (short of a hard delete) ran in between.\<close>

theorem no_lost_update:
  assumes "BatchWrite L st ops s = (s1, Inr rs)" "\<not> st_external st" "tx s = None" "schema (tabs s)"
    and "b \<in> set ops" "bo_WriteEntity b = Some we" "is_update we"
    and "api_steps L False s1 s2" "tx s2 = None"
    and "b' \<in> set ops'" "bo_WriteEntity b' = Some we'" "is_update we'" "\<not> st_external st'"
    and "uuid_Parse L (wo_MatchedEntityID we') = uuid_Parse L (wo_MatchedEntityID we)"
    and "int32 (wo_Version we') = int32 (wo_Version we)"
  shows "snd (BatchWrite L st' ops' s2) \<noteq> Inr rs'"
proof
  assume "snd (BatchWrite L st' ops' s2) = Inr rs'"
  then obtain s3 where w2: "BatchWrite L st' ops' s2 = (s3, Inr rs')" by (metis prod.collapse)
  obtain sa sb ent where 1: "applyUpdateOrMerge L we sa = (sb, Inr ent)" "schema (tabs sa)" "lives_on (tabs sb) (tabs s1)"
    "tx s1 = None"
    using BatchWrite_member [OF assms(1-7)] by blast
  have "good schema s" using assms(3,4) by (simp add: good_no_tx)
  then have sc1: "schema (tabs s1)" by (rule good_tabs [OF presD [OF constraints.keeps_BatchWrite _ assms(1)]])
  note sr = soft_run [OF assms(8) 1(4) sc1]
  obtain sa' sb' ent' where 2: "applyUpdateOrMerge L we' sa' = (sb', Inr ent')" "lives_on (tabs s2) (tabs sa')" "schema (tabs sa')"
    using BatchWrite_member [OF w2 assms(13,9) sr(1) assms(10-12)] by blast
  have "lives_on (tabs sb) (tabs sa')" using 1(3) sr(2) 2(2) lives_on_trans by blast
  from update_version_used [OF 1(1) assms(7) 1(2) this 2(3) assms(12,14,15)] show False using 2(1) by (metis snd_conv)
qed

definition demo_batch :: "BatchWriteOp list" where
  "demo_batch = [\<lparr>bo_WriteEntity = Some demo_update, bo_UpsertRelation = None, bo_PreConditions = []\<rparr>]"

lemma demo_batch_runs: "\<exists>s' rs. BatchWrite demo_lib demo_store demo_batch demo_state = (s', Inr rs)"
  by (simp add: BatchWrite_def demo_batch_def in_tx_def begin_tx_def commit_tx_def batch_op_def MaxBatchSize_def
      validateTags_def applyEntityWrite_def WriteActionUpdate_def WriteActionCreate_def
      applyUpdateOrMerge_def marshalEntityData_def demo_update_def run_defs write_data_def
      require_rows_def q_UpdateEntityData_def versioned_update_def update_entities_def new_entity_def
      demo_state_def demo_tables_def empty_tables_def live_def add_tags_def updateEmbedding_def
      q_GetEntity_def select_one_def NewV7_def q_InsertEvent_def max_int32_def Let_def)

theorem no_lost_update_witness:
  "\<exists>s' rs. BatchWrite demo_lib demo_store demo_batch demo_state = (s', Inr rs)
     \<and> snd (BatchWrite demo_lib demo_store demo_batch s') \<noteq> Inr rs"
proof -
  obtain s' rs where r: "BatchWrite demo_lib demo_store demo_batch demo_state = (s', Inr rs)"
    using demo_batch_runs by blast
  have m: "hd demo_batch \<in> set demo_batch" "bo_WriteEntity (hd demo_batch) = Some demo_update"
    by (simp_all add: demo_batch_def)
  have t: "tx demo_state = None" by (simp add: demo_state_def)
  then have "tx s' = None" using BatchWrite_member [OF r _ t schema_demo m is_update_demo] by auto
  from no_lost_update [OF r _ t schema_demo m is_update_demo rtranclp.rtrancl_refl this m is_update_demo]
  show ?thesis using r by auto
qed

text \<open>C19. A soft delete is final: it succeeds only if there is a live row with this identifier, so that it cannot be
  repeated, and appends one \<open>EntityDeleted\<close> event with the type and the tags of that row; in every state reached afterwards
  without a hard delete, a lookup by this identifier does not succeed, while the row is still there.\<close>

theorem DeleteEntity_final:
  assumes "DeleteEntity L st i s = (s1, Inr ())" "\<not> st_external st" "tx s = None" "schema (tabs s)"
    and "api_steps L False s1 s2"
  shows "snd (GetEntity L i s2) \<noteq> Inr ent
    \<and> (\<exists>u. uuid_Parse L i = Some u \<and> entity_exists (tabs s2) u)
    \<and> (\<exists>e\<in>set (entities (tabs s)). uuid_Parse L i = Some (e_id e) \<and> live e
        \<and> (\<exists>v. events (tabs s1) = events (tabs s) @ [v] \<and> v_payload_type v = ''entitystore.events.v1.EntityDeleted''
             \<and> v_entity_type v = e_type e \<and> v_tags v = e_tags e))"
proof -
  have "good schema s" using assms(3,4) by (simp add: good_no_tx)
  then have "schema (tabs s1)" by (rule good_tabs [OF presD [OF constraints.keeps_DeleteEntityOp _ assms(1)]])
  moreover have "tx s1 = None" using DeleteEntity_quiescent [OF assms(1-3)] .
  ultimately have "snd (GetEntity L i s2) \<noteq> Inr ent \<and> (\<exists>u. uuid_Parse L i = Some u \<and> entity_exists (tabs s2) u)"
    using DeleteEntity_hides [OF assms(1-3)] soft_run [OF assms(5)] by blast
  moreover obtain u row where "uuid_Parse L i = Some u" "row \<in> set (entities (tabs s))" "e_id row = u" "live row"
    "\<exists>v. events (tabs s1) = events (tabs s) @ [v] \<and> v_payload_type v = ''entitystore.events.v1.EntityDeleted''
       \<and> v_entity_type v = e_type row \<and> v_tags v = e_tags row"
    by (rule DeleteEntity_effect [OF assms(1-3)])
  ultimately show ?thesis by blast
qed

lemma demo_deleted:
  "\<exists>s'. DeleteEntity demo_lib demo_store ''u'' demo_state = (s', Inr ()) \<and> list_all (\<lambda>e. \<not> live e) (entities (tabs s'))"
  by (simp add: DeleteEntity_def in_tx_def begin_tx_def commit_tx_def run_defs q_GetEntity_def
      select_one_def q_DeleteEntity_def update_entities_def NewV7_def q_InsertEvent_def
      demo_state_def demo_tables_def new_entity_def live_def empty_tables_def)

text \<open>Deleting twice: the second call fails and changes nothing.\<close>

theorem DeleteEntity_final_witness:
  "\<exists>s1. DeleteEntity demo_lib demo_store ''u'' demo_state = (s1, Inr ())
     \<and> snd (GetEntity demo_lib ''u'' s1) \<noteq> Inr (entityFromRow demo_lib (hd (entities demo_tables)))
     \<and> length (events (tabs s1)) = 1 \<and> snd (DeleteEntity demo_lib demo_store ''u'' s1) \<noteq> Inr ()"
proof -
  obtain s1 where d: "DeleteEntity demo_lib demo_store ''u'' demo_state = (s1, Inr ())"
    and dead: "list_all (\<lambda>e. \<not> live e) (entities (tabs s1))"
    using demo_deleted by blast
  have t: "tx demo_state = None" "events (tabs demo_state) = []" by (simp_all add: demo_state_def demo_tables_def empty_tables_def)
  note once = DeleteEntity_final [OF d _ t(1) schema_demo rtranclp.rtrancl_refl]
  have q: "tx s1 = None" "schema (tabs s1)"
    using DeleteEntity_quiescent [OF d _ t(1)] presD [OF constraints.keeps_DeleteEntityOp _ d] t(1) schema_demo
    by (simp_all add: good_def)
  have "snd (DeleteEntity demo_lib demo_store ''u'' s1) \<noteq> Inr ()"
  proof
    assume "snd (DeleteEntity demo_lib demo_store ''u'' s1) = Inr ()"
    then obtain s2 where d2: "DeleteEntity demo_lib demo_store ''u'' s1 = (s2, Inr ())" by (metis prod.collapse)
    obtain e where e: "e \<in> set (entities (tabs s1))" "uuid_Parse demo_lib ''u'' = Some (e_id e)" "live e"
      using DeleteEntity_final [OF d2 _ q rtranclp.rtrancl_refl] by auto
    then show False using dead by (simp add: list_all_iff)
  qed
  moreover obtain v where "events (tabs s1) = [v]" using once t(2) by auto
  ultimately show ?thesis using once d by auto
qed

end
