(* ===== verification/Traverse.thy ===== *)
theory Traverse
  imports Store_Theorems
begin

text \<open>
  \<open>src/store/traverse.go\<close>: the multi-hop traversal. The recursive query is its fixed point, level by
  level: a level holds the rows of one depth, with the identifiers visited on the way and the edges of
  the path; the next level extends each row by every admissible relation to an entity not yet visited.
  The query sorts all rows by depth and time of creation and cuts them at the limit; the Go loop keeps
  the first row of every entity.
\<close>

section \<open>Options\<close>

type_synonym Direction = int

definition DirectionBoth :: Direction where "DirectionBoth = 0"
definition DirectionOutbound :: Direction where "DirectionOutbound = 1"
definition DirectionInbound :: Direction where "DirectionInbound = 2"

record TraverseOpts =
  to_Direction :: Direction
  to_MaxDepth :: int
  to_MaxResults :: int
  to_RelationTypes :: "string list"
  to_EntityType :: string
  to_MinConfidence :: float64
  to_Filter :: "QueryFilter option"

record TraverseEdge =
  te_RelationType :: string
  te_FromID :: string
  te_ToID :: string
  te_Confidence :: float64

record TraverseResult =
  tr_Entity :: StoredEntity
  tr_Depth :: nat
  tr_Path :: "TraverseEdge list"

definition zero_TraverseOpts :: TraverseOpts where
  "zero_TraverseOpts = \<lparr>to_Direction = 0, to_MaxDepth = 0, to_MaxResults = 0, to_RelationTypes = [],
     to_EntityType = [], to_MinConfidence = 0, to_Filter = None\<rparr>"

definition defaults :: "TraverseOpts \<Rightarrow> TraverseOpts" where
  "defaults p =
     (let p = (if to_MaxDepth p \<le> 0 then p\<lparr>to_MaxDepth := 2\<rparr> else p);
          p = (if 10 < to_MaxDepth p then p\<lparr>to_MaxDepth := 10\<rparr> else p)
      in if to_MaxResults p \<le> 0 then p\<lparr>to_MaxResults := 100\<rparr> else p)"

section \<open>The recursive query\<close>

definition allowOutbound :: "TraverseOpts \<Rightarrow> bool" where
  "allowOutbound p \<longleftrightarrow> to_Direction p = DirectionBoth \<or> to_Direction p = DirectionOutbound"

definition allowInbound :: "TraverseOpts \<Rightarrow> bool" where
  "allowInbound p \<longleftrightarrow> to_Direction p = DirectionBoth \<or> to_Direction p = DirectionInbound"

text \<open>The conditions of the query on a relation leaving \<open>u\<close>, and on the entity at its other end.\<close>

definition other_end :: "uuid \<Rightarrow> EntityRelation \<Rightarrow> uuid" where
  "other_end u r = (if r_source r = u then r_target r else r_source r)"

definition follows :: "TraverseOpts \<Rightarrow> uuid \<Rightarrow> EntityRelation \<Rightarrow> bool" where
  "follows p u r \<longleftrightarrow> ((allowOutbound p \<and> r_source r = u) \<or> (allowInbound p \<and> r_target r = u))
     \<and> (to_RelationTypes p = [] \<or> r_type r \<in> set (to_RelationTypes p))
     \<and> (to_MinConfidence p = 0 \<or> to_MinConfidence p \<le> r_confidence r)"

definition admits :: "TraverseOpts \<Rightarrow> Entity \<Rightarrow> bool" where
  "admits p e \<longleftrightarrow> live e \<and> (to_EntityType p = [] \<or> e_type e = to_EntityType p)
     \<and> tag_filter (tagsParam (to_Filter p)) (anyTagsParam (to_Filter p)) (excludeTagParam (to_Filter p))
         (unlessTagsParam (to_Filter p)) (e_tags e)"

record traverse_row =
  w_entity :: Entity
  w_depth :: nat
  w_visited :: "uuid list"
  w_path :: "EntityRelation list"

definition start_rows :: "tables \<Rightarrow> uuid \<Rightarrow> traverse_row list" where
  "start_rows t u = map (\<lambda>e. \<lparr>w_entity = e, w_depth = 0, w_visited = [e_id e], w_path = []\<rparr>)
     (filter (\<lambda>e. e_id e = u \<and> live e) (entities t))"

definition extend_row :: "TraverseOpts \<Rightarrow> tables \<Rightarrow> traverse_row \<Rightarrow> traverse_row list" where
  "extend_row p t w =
     (if int (w_depth w) < to_MaxDepth p then
        concat (map (\<lambda>r. map (\<lambda>e. \<lparr>w_entity = e, w_depth = w_depth w + 1, w_visited = w_visited w @ [e_id e],
              w_path = w_path w @ [r]\<rparr>)
            (filter (\<lambda>e. e_id e = other_end (e_id (w_entity w)) r \<and> admits p e \<and> e_id e \<notin> set (w_visited w)) (entities t)))
          (filter (follows p (e_id (w_entity w))) (relations t)))
      else [])"

text \<open>The levels of \<open>UNION ALL\<close>; after \<open>MaxDepth\<close> of them there is nothing left to add.\<close>

fun levels :: "TraverseOpts \<Rightarrow> tables \<Rightarrow> nat \<Rightarrow> traverse_row list \<Rightarrow> traverse_row list" where
  "levels p t 0 ws = ws"
| "levels p t (Suc n) ws = ws @ levels p t n (concat (map (extend_row p t) ws))"

definition traverse_rows :: "TraverseOpts \<Rightarrow> tables \<Rightarrow> uuid \<Rightarrow> traverse_row list" where
  "traverse_rows p t u = sort_key w_depth (sort_key (\<lambda>w. e_created_at (w_entity w))
     (filter (\<lambda>w. 0 < w_depth w) (levels p t (nat (to_MaxDepth p)) (start_rows t u))))"

definition traverseSQL :: "TraverseOpts \<Rightarrow> uuid \<Rightarrow> traverse_row list dbm" where
  "traverseSQL p u = select_limit (to_MaxResults p) (\<lambda>t. traverse_rows p t u)"

definition edge_of :: "lib \<Rightarrow> EntityRelation \<Rightarrow> TraverseEdge" where
  "edge_of L r = \<lparr>te_RelationType = r_type r, te_FromID = uuid_String L (r_source r),
     te_ToID = uuid_String L (r_target r), te_Confidence = r_confidence r\<rparr>"

definition Traverse :: "lib \<Rightarrow> string \<Rightarrow> TraverseOpts option \<Rightarrow> TraverseResult list dbm" where
  "Traverse L entityID opts =
     dbind (parse_id L ''entity id'' entityID) (\<lambda>startID.
     let p = defaults (case opts of None \<Rightarrow> zero_TraverseOpts | Some q \<Rightarrow> q) in
     dmap (\<lambda>ws. map (\<lambda>w. \<lparr>tr_Entity = entityFromRow L (w_entity w), tr_Depth = w_depth w,
                 tr_Path = map (edge_of L) (w_path w)\<rparr>) (dedup_by (\<lambda>w. e_id (w_entity w)) ws))
       (dwrap (Wrap ''traverse'') (traverseSQL p startID)))"

section \<open>Walks\<close>

text \<open>One admissible hop, and a walk of hops from the start as the list of its nodes.\<close>

definition hop :: "TraverseOpts \<Rightarrow> tables \<Rightarrow> uuid \<Rightarrow> uuid \<Rightarrow> bool" where
  "hop p t u v \<longleftrightarrow> (\<exists>r\<in>set (relations t). follows p u r \<and> other_end u r = v)
     \<and> (\<exists>e\<in>set (entities t). e_id e = v \<and> admits p e)"

definition walk :: "TraverseOpts \<Rightarrow> tables \<Rightarrow> uuid \<Rightarrow> uuid list \<Rightarrow> bool" where
  "walk p t u ns \<longleftrightarrow> ns \<noteq> [] \<and> hd ns = u \<and> successively (hop p t) ns
     \<and> (\<exists>e\<in>set (entities t). e_id e = u \<and> live e)"

definition row_walk :: "TraverseOpts \<Rightarrow> tables \<Rightarrow> uuid \<Rightarrow> traverse_row \<Rightarrow> bool" where
  "row_walk p t u w \<longleftrightarrow> walk p t u (w_visited w) \<and> distinct (w_visited w)
     \<and> last (w_visited w) = e_id (w_entity w) \<and> length (w_visited w) = Suc (w_depth w)
     \<and> w_entity w \<in> set (entities t) \<and> live (w_entity w) \<and> (0 < w_depth w \<longrightarrow> admits p (w_entity w))
     \<and> int (w_depth w) \<le> max 0 (to_MaxDepth p) \<and> length (w_path w) = w_depth w
     \<and> (\<forall>i<w_depth w. w_path w ! i \<in> set (relations t) \<and> follows p (w_visited w ! i) (w_path w ! i)
          \<and> other_end (w_visited w ! i) (w_path w ! i) = w_visited w ! Suc i)"

lemma row_walk_start: "w \<in> set (start_rows t u) \<Longrightarrow> row_walk p t u w"
  by (auto simp: start_rows_def row_walk_def walk_def)

lemma row_walk_extend:
  assumes "row_walk p t u w" "w' \<in> set (extend_row p t w)"
  shows "row_walk p t u w' \<and> w_depth w' = Suc (w_depth w)"
proof -
  obtain r e where r: "r \<in> set (relations t)" "follows p (e_id (w_entity w)) r"
    and e: "e \<in> set (entities t)" "e_id e = other_end (e_id (w_entity w)) r" "admits p e" "e_id e \<notin> set (w_visited w)"
    and w': "w' = \<lparr>w_entity = e, w_depth = w_depth w + 1, w_visited = w_visited w @ [e_id e], w_path = w_path w @ [r]\<rparr>"
    and d: "int (w_depth w) < to_MaxDepth p"
    using assms(2) by (auto simp: extend_row_def split: if_splits)
  have l: "last (w_visited w) = e_id (w_entity w)" "length (w_visited w) = Suc (w_depth w)" "length (w_path w) = w_depth w"
    "w_visited w \<noteq> []"
    using assms(1) by (auto simp: row_walk_def)
  have nth: "w_visited w ! w_depth w = e_id (w_entity w)" using l by (simp add: last_conv_nth)
  have "hop p t (e_id (w_entity w)) (e_id e)" using r e by (auto simp: hop_def)
  then have "walk p t u (w_visited w')" using assms(1) l(1,4) by (simp add: walk_def row_walk_def w' successively_append_iff)
  moreover have "w_path w' ! i \<in> set (relations t) \<and> follows p (w_visited w' ! i) (w_path w' ! i)
      \<and> other_end (w_visited w' ! i) (w_path w' ! i) = w_visited w' ! Suc i" if "i < w_depth w'" for i
    using that assms(1) l r e nth by (cases "i = w_depth w") (auto simp: w' row_walk_def nth_append)
  moreover have "live e" using e(3) by (simp add: admits_def)
  ultimately show ?thesis using assms(1) e d l by (auto simp: row_walk_def w')
qed

abbreviation expand :: "TraverseOpts \<Rightarrow> tables \<Rightarrow> traverse_row list \<Rightarrow> traverse_row list" where
  "expand p t ws \<equiv> concat (map (extend_row p t) ws)"

lemma levels_row_walk:
  "w \<in> set (levels p t n ws) \<Longrightarrow> \<forall>w\<in>set ws. row_walk p t u w \<Longrightarrow> row_walk p t u w"
proof (induction n arbitrary: ws)
  case (Suc n)
  have "\<forall>w\<in>set (expand p t ws). row_walk p t u w" using Suc.prems(2) by (auto dest: row_walk_extend)
  then show ?case using Suc by auto
qed simp

lemma level_in_levels: "k \<le> n \<Longrightarrow> set ((expand p t ^^ k) ws) \<subseteq> set (levels p t n ws)"
proof (induction n arbitrary: k ws)
  case (Suc n)
  show ?case
  proof (cases k)
    case (Suc j)
    then have "set ((expand p t ^^ j) (expand p t ws)) \<subseteq> set (levels p t n (expand p t ws))"
      using Suc.IH Suc.prems by simp
    moreover have "(expand p t ^^ k) ws = (expand p t ^^ j) (expand p t ws)" by (simp only: Suc funpow_Suc_right o_apply)
    ultimately show ?thesis by auto
  qed simp
qed simp

text \<open>Every walk without a repeated node is the trail of a row.\<close>

lemma simple_walk_row:
  assumes "walk p t u ns" "distinct ns" "length ns = Suc k" "int k \<le> to_MaxDepth p"
  shows "\<exists>w\<in>set ((expand p t ^^ k) (start_rows t u)). w_visited w = ns \<and> e_id (w_entity w) = last ns \<and> w_depth w = k"
  using assms
proof (induction k arbitrary: ns)
  case 0
  then obtain e where "e \<in> set (entities t)" "e_id e = u" "live e" "ns = [u]"
    by (auto simp: walk_def length_Suc_conv)
  then show ?case by (force simp: start_rows_def)
next
  case (Suc k)
  obtain ms v where ns0: "ns = ms @ [v]" using Suc.prems(3) by (cases ns rule: rev_cases) auto
  then have ns: "ns = ms @ [v]" "ms \<noteq> []" using Suc.prems(3) by auto
  have ms: "walk p t u ms" "distinct ms" "length ms = Suc k" "hop p t (last ms) v" "v \<notin> set ms"
    using Suc.prems ns by (auto simp: walk_def successively_append_iff)
  obtain w where w: "w \<in> set ((expand p t ^^ k) (start_rows t u))" "w_visited w = ms" "e_id (w_entity w) = last ms" "w_depth w = k"
    using Suc.IH [OF ms(1-3)] Suc.prems(4) by auto
  obtain r e where r: "r \<in> set (relations t)" "follows p (last ms) r" "other_end (last ms) r = v"
    and e: "e \<in> set (entities t)" "e_id e = v" "admits p e" using ms(4) by (auto simp: hop_def)
  let ?w = "\<lparr>w_entity = e, w_depth = k + 1, w_visited = ms @ [v], w_path = w_path w @ [r]\<rparr>"
  have "?w \<in> set (extend_row p t w)"
    using w r e ms(5) Suc.prems(4) by (auto simp: extend_row_def)
  then have "?w \<in> set ((expand p t ^^ Suc k) (start_rows t u))" using w(1) by auto
  then show ?case using ns e(2) by (intro bexI [of _ ?w]) simp_all
qed

text \<open>Cutting the loops out of a walk.\<close>

lemma walk_distinct:
  assumes "walk p t u ns"
  shows "\<exists>ms. walk p t u ms \<and> distinct ms \<and> last ms = last ns \<and> length ms \<le> length ns"
  using assms
proof (induction "length ns" arbitrary: ns rule: less_induct)
  case less
  show ?case
  proof (cases "distinct ns")
    case False
    then obtain as bs cs x where ns: "ns = as @ [x] @ bs @ [x] @ cs" using not_distinct_decomp by blast
    let ?ms = "as @ [x] @ cs"
    have "successively (hop p t) ((as @ [x]) @ (bs @ x # cs))" "successively (hop p t) ((as @ [x] @ bs) @ (x # cs))"
      using less.prems by (simp_all add: walk_def ns)
    then have "successively (hop p t) (as @ [x])" "successively (hop p t) (x # cs)"
      unfolding successively_append_iff by blast+
    then have "successively (hop p t) (as @ (x # cs))" unfolding successively_append_iff by simp
    then have "walk p t u ?ms" using less.prems by (cases as) (auto simp: walk_def ns)
    moreover have "last ?ms = last ns" by (simp add: ns)
    moreover have "length ?ms < length ns" by (simp add: ns)
    ultimately show ?thesis using less.hyps [of ?ms] by force
  qed (use less.prems in blast)
qed

lemma dedup_first:
  "sorted (map f xs) \<Longrightarrow> x \<in> set xs \<Longrightarrow> key x \<notin> seen \<Longrightarrow> \<exists>y\<in>set (dedup_from key seen xs). key y = key x \<and> f y \<le> f x"
proof (induction xs arbitrary: seen)
  case (Cons a xs)
  show ?case
  proof (cases "key a = key x")
    case True
    then show ?thesis using Cons.prems by auto
  next
    case False
    then have "x \<in> set xs" using Cons.prems(2) by auto
    then show ?thesis using Cons False by auto
  qed
qed simp

lemma sorted_dedup: "sorted (map f xs) \<Longrightarrow> sorted (map f (dedup_from key seen xs))"
  by (induction xs arbitrary: seen) (auto dest: dedup_memD)

section \<open>What a traversal returns\<close>

lemma traverse_rows_walk: "w \<in> set (traverse_rows p t u) \<Longrightarrow> row_walk p t u w \<and> 0 < w_depth w"
  using levels_row_walk [of w p t _ "start_rows t u" u] row_walk_start by (auto simp: traverse_rows_def)

lemma traverse_rows_complete:
  assumes "walk p t u ns" "last ns \<noteq> u" "int (length ns) \<le> to_MaxDepth p + 1"
  shows "\<exists>w\<in>set (traverse_rows p t u). e_id (w_entity w) = last ns \<and> w_depth w < length ns"
proof -
  obtain ms where ms: "walk p t u ms" "distinct ms" "last ms = last ns" "length ms \<le> length ns"
    using walk_distinct [OF assms(1)] by blast
  obtain k where k: "length ms = Suc k" using ms(1) by (cases ms) (auto simp: walk_def)
  have "ms \<noteq> [u]" using ms(3) assms(2) by auto
  then have "0 < k" using ms(1) k by (cases ms) (auto simp: walk_def)
  have d: "int k \<le> to_MaxDepth p" using k ms(4) assms(3) by simp
  obtain w where w: "w \<in> set ((expand p t ^^ k) (start_rows t u))" "e_id (w_entity w) = last ms" "w_depth w = k"
    using simple_walk_row [OF ms(1,2) k d] by blast
  have "k \<le> nat (to_MaxDepth p)" using d by simp
  then have "w \<in> set (levels p t (nat (to_MaxDepth p)) (start_rows t u))"
    using level_in_levels w(1) by blast
  then have "w \<in> set (traverse_rows p t u)" using w(3) \<open>0 < k\<close> by (simp add: traverse_rows_def)
  then show ?thesis using w ms(3,4) k by (intro bexI [of _ w]) auto
qed

abbreviation traverse_opts :: "TraverseOpts option \<Rightarrow> TraverseOpts" where
  "traverse_opts opts \<equiv> defaults (case opts of None \<Rightarrow> zero_TraverseOpts | Some q \<Rightarrow> q)"

lemma Traverse_Inr:
  assumes "Traverse L i opts s = (s', Inr xs)"
  shows "\<exists>u. uuid_Parse L i = Some u \<and> tabs s' = tabs s \<and> xs = map (\<lambda>w. \<lparr>tr_Entity = entityFromRow L (w_entity w),
      tr_Depth = w_depth w, tr_Path = map (edge_of L) (w_path w)\<rparr>)
    (dedup_by (\<lambda>w. e_id (w_entity w)) (take (nat (to_MaxResults (traverse_opts opts))) (traverse_rows (traverse_opts opts) (tabs s) u)))"
  using assms by (auto simp: Traverse_def Let_def dbind_Inr_iff dmap_Inr_iff traverseSQL_def next_tick_def dest!: select_limit_Inr)

lemma defaults_bounds: "1 \<le> to_MaxDepth (defaults p) \<and> to_MaxDepth (defaults p) \<le> 10 \<and> 1 \<le> to_MaxResults (defaults p)"
  by (simp add: defaults_def Let_def)

text \<open>C10. A traversal is sound: every result is a live entity that passes the filters, at most ten hops
  away, with a path of exactly as many edges as its depth that starts at the given entity, follows
  admissible relations to entities that are not visited twice, and ends there; entities come once, in
  the order of their depth, at most \<open>MaxResults\<close>.\<close>

theorem Traverse_sound:
  assumes "Traverse L i opts s = (s', Inr xs)"
  shows "\<exists>u. uuid_Parse L i = Some u \<and> tabs s' = tabs s
    \<and> distinct (map (\<lambda>x. se_ID (tr_Entity x)) xs) \<and> sorted (map tr_Depth xs)
    \<and> length xs \<le> nat (to_MaxResults (traverse_opts opts))
    \<and> (\<forall>x\<in>set xs. 1 \<le> tr_Depth x \<and> tr_Depth x \<le> 10 \<and> (\<exists>e ns rs. e \<in> set (entities (tabs s)) \<and> admits (traverse_opts opts) e
        \<and> tr_Entity x = entityFromRow L e \<and> tr_Path x = map (edge_of L) rs \<and> length rs = tr_Depth x
        \<and> length ns = Suc (tr_Depth x) \<and> distinct ns \<and> ns ! 0 = u \<and> ns ! tr_Depth x = e_id e
        \<and> (\<forall>k<tr_Depth x. rs ! k \<in> set (relations (tabs s)) \<and> follows (traverse_opts opts) (ns ! k) (rs ! k)
             \<and> other_end (ns ! k) (rs ! k) = ns ! Suc k)))"
proof -
  let ?p = "traverse_opts opts"
  obtain u where u: "uuid_Parse L i = Some u" "tabs s' = tabs s"
    and xs: "xs = map (\<lambda>w. \<lparr>tr_Entity = entityFromRow L (w_entity w), tr_Depth = w_depth w, tr_Path = map (edge_of L) (w_path w)\<rparr>)
      (dedup_by (\<lambda>w. e_id (w_entity w)) (take (nat (to_MaxResults ?p)) (traverse_rows ?p (tabs s) u)))"
    using Traverse_Inr [OF assms] by blast
  let ?rows = "take (nat (to_MaxResults ?p)) (traverse_rows ?p (tabs s) u)"
  have srt: "sorted (map w_depth ?rows)"
    unfolding take_map [symmetric] by (rule sorted_wrt_take) (simp add: traverse_rows_def)
  have "distinct (map (\<lambda>x. se_ID (tr_Entity x)) xs)"
    using distinct_keys_dedup [of "\<lambda>w. e_id (w_entity w)" "{}" ?rows]
    by (simp add: xs comp_def entityFromRow_def distinct_map inj_on_def)
  moreover have "sorted (map tr_Depth xs)" using sorted_dedup [OF srt] by (simp add: xs comp_def)
  moreover have "length xs \<le> nat (to_MaxResults ?p)"
    using length_dedup [of "\<lambda>w. e_id (w_entity w)" "{}" ?rows] by (simp add: xs)
  moreover have "1 \<le> tr_Depth x \<and> tr_Depth x \<le> 10 \<and> (\<exists>e ns rs. e \<in> set (entities (tabs s)) \<and> admits ?p e
        \<and> tr_Entity x = entityFromRow L e \<and> tr_Path x = map (edge_of L) rs \<and> length rs = tr_Depth x
        \<and> length ns = Suc (tr_Depth x) \<and> distinct ns \<and> ns ! 0 = u \<and> ns ! tr_Depth x = e_id e
        \<and> (\<forall>k<tr_Depth x. rs ! k \<in> set (relations (tabs s)) \<and> follows ?p (ns ! k) (rs ! k)
             \<and> other_end (ns ! k) (rs ! k) = ns ! Suc k))" if x_in: "x \<in> set xs" for x
  proof -
    obtain w where wd: "w \<in> set (dedup_by (\<lambda>w. e_id (w_entity w)) ?rows)"
      and x: "x = \<lparr>tr_Entity = entityFromRow L (w_entity w), tr_Depth = w_depth w, tr_Path = map (edge_of L) (w_path w)\<rparr>"
      using x_in unfolding xs by auto
    have w: "w \<in> set ?rows" using dedup_memD [OF wd] by blast
    have rw: "row_walk ?p (tabs s) u w" "0 < w_depth w" using traverse_rows_walk in_set_takeD [OF w] by blast+
    have "w_visited w ! 0 = u" "w_visited w ! w_depth w = e_id (w_entity w)" "w_visited w \<noteq> []"
      using rw(1) by (auto simp: row_walk_def walk_def hd_conv_nth last_conv_nth)
    then show ?thesis using rw defaults_bounds [of "case opts of None \<Rightarrow> zero_TraverseOpts | Some q \<Rightarrow> q"]
      unfolding x by (intro conjI exI [of _ "w_entity w"] exI [of _ "w_visited w"] exI [of _ "w_path w"])
        (auto simp: row_walk_def)
  qed
  ultimately show ?thesis using u by blast
qed

text \<open>C9. A traversal is complete and its depths are shortest: when the limit does not cut off rows, every
  entity other than the start to which an admissible walk of at most \<open>MaxDepth\<close> hops leads is returned,
  and no walk to it is shorter than its depth.\<close>

theorem Traverse_complete:
  assumes "Traverse L i opts s = (s', Inr xs)" "uuid_Parse L i = Some u"
    "int (length (traverse_rows (traverse_opts opts) (tabs s) u)) \<le> to_MaxResults (traverse_opts opts)"
    "walk (traverse_opts opts) (tabs s) u ns" "last ns \<noteq> u" "int (length ns) \<le> to_MaxDepth (traverse_opts opts) + 1"
  shows "\<exists>x\<in>set xs. se_ID (tr_Entity x) = uuid_String L (last ns) \<and> tr_Depth x < length ns"
proof -
  let ?p = "traverse_opts opts"
  let ?rows = "traverse_rows ?p (tabs s) u"
  have xs: "xs = map (\<lambda>w. \<lparr>tr_Entity = entityFromRow L (w_entity w), tr_Depth = w_depth w, tr_Path = map (edge_of L) (w_path w)\<rparr>)
      (dedup_by (\<lambda>w. e_id (w_entity w)) ?rows)"
    using Traverse_Inr [OF assms(1)] assms(2,3) by auto
  obtain w where w: "w \<in> set ?rows" "e_id (w_entity w) = last ns" "w_depth w < length ns"
    using traverse_rows_complete [OF assms(4-6)] by blast
  have "sorted (map w_depth ?rows)" by (simp add: traverse_rows_def)
  from dedup_first [OF this w(1), of "\<lambda>w. e_id (w_entity w)" "{}"] obtain y where
    "y \<in> set (dedup_by (\<lambda>w. e_id (w_entity w)) ?rows)" "e_id (w_entity y) = last ns" "w_depth y < length ns"
    using w(2,3) by auto
  then show ?thesis unfolding xs by (force simp: entityFromRow_def)
qed

section \<open>A graph to evaluate\<close>

text \<open>The entities 1 and 4 are joined by two paths of two hops, over 2 and over 3; 5 hangs below 2.\<close>

definition demo_rel :: "uuid \<Rightarrow> uuid \<Rightarrow> EntityRelation" where
  "demo_rel a b = \<lparr>r_id = 10 * a + b, r_source = a, r_target = b, r_type = ''knows'', r_confidence = 1, r_evidence = None,
     r_implied = False, r_urn = None, r_data = JObj [], r_created_at = 0, r_data_type = []\<rparr>"

definition demo_node :: "uuid \<Rightarrow> Entity" where
  "demo_node u = new_entity u (int (unat u)) ''t'' (JObj []) 1 [] []"

definition demo_graph :: db where
  "demo_graph = demo_db\<lparr>tabs := empty_tables\<lparr>entities := [demo_node 1, demo_node 2, demo_node 3, demo_node 4, demo_node 5],
     relations := [demo_rel 1 2, demo_rel 1 3, demo_rel 2 4, demo_rel 3 4, demo_rel 2 5]\<rparr>\<rparr>"

definition demo_opts :: "int \<Rightarrow> TraverseOpts" where
  "demo_opts n = zero_TraverseOpts\<lparr>to_Direction := DirectionOutbound, to_MaxResults := n\<rparr>"

lemma demo_rel_simps [simp]: "r_source (demo_rel a b) = a" "r_target (demo_rel a b) = b"
  by (simp_all add: demo_rel_def)

lemma demo_node_simps [simp]: "e_id (demo_node u) = u" "e_created_at (demo_node u) = int (unat u)"
  by (simp_all add: demo_node_def new_entity_def)

lemma demo_opts_simps [simp]:
  "0 < n \<Longrightarrow> to_MaxDepth (defaults (demo_opts n)) = 2" "0 < n \<Longrightarrow> to_MaxResults (defaults (demo_opts n)) = n"
  "0 < n \<Longrightarrow> follows (defaults (demo_opts n)) u (demo_rel a b) \<longleftrightarrow> a = u"
  "0 < n \<Longrightarrow> admits (defaults (demo_opts n)) (demo_node v)"
  by (auto simp: demo_opts_def defaults_def zero_TraverseOpts_def follows_def admits_def demo_node_def new_entity_def live_def
      tag_filter_def tagsParam_def anyTagsParam_def excludeTagParam_def allowOutbound_def allowInbound_def DirectionOutbound_def
      DirectionBoth_def DirectionInbound_def)

lemma demo_node_live [simp]: "live (demo_node u)" by (simp add: demo_node_def new_entity_def live_def)

lemma demo_graph_simps [simp]:
  "entities (tabs demo_graph) = [demo_node 1, demo_node 2, demo_node 3, demo_node 4, demo_node 5]"
  "relations (tabs demo_graph) = [demo_rel 1 2, demo_rel 1 3, demo_rel 2 4, demo_rel 3 4, demo_rel 2 5]"
  by (simp_all add: demo_graph_def)

lemma levels_2: "levels p t 2 ws = ws @ expand p t ws @ expand p t (expand p t ws)"
  by (simp add: numeral_2_eq_2)

lemma demo_start: "start_rows (tabs demo_graph) 1 = [\<lparr>w_entity = demo_node 1, w_depth = 0, w_visited = [1], w_path = []\<rparr>]"
  by (simp add: start_rows_def)

lemma demo_extend:
  assumes "0 < n" "w_depth w < 2"
  shows "extend_row (defaults (demo_opts n)) (tabs demo_graph) w =
    concat (map (\<lambda>(a, b). if a = e_id (w_entity w) \<and> b \<notin> set (w_visited w)
        then [\<lparr>w_entity = demo_node b, w_depth = w_depth w + 1, w_visited = w_visited w @ [b], w_path = w_path w @ [demo_rel a b]\<rparr>]
        else []) [(1, 2), (1, 3), (2, 4), (3, 4), (2, 5)])"
  using assms by (auto simp: extend_row_def other_end_def)

lemma demo_levels:
  assumes "0 < n"
  shows "map (\<lambda>w. (w_depth w, e_id (w_entity w))) (traverse_rows (defaults (demo_opts n)) (tabs demo_graph) 1)
    = [(1, 2), (1, 3), (2, 4), (2, 4), (2, 5)]"
  using assms by (simp add: traverse_rows_def levels_2 demo_start demo_extend)

lemma map_dedup: "map f (dedup_from (\<lambda>x. g (f x)) seen xs) = dedup_from g seen (map f xs)"
  by (induction xs arbitrary: seen) auto

lemma demo_traverse:
  assumes "0 < n"
  shows "\<exists>s' xs. Traverse demo_lib ''u'' (Some (demo_opts n)) demo_graph = (s', Inr xs)
    \<and> map (\<lambda>x. (tr_Depth x, se_ID (tr_Entity x))) xs
      = map (map_prod id unary_string) (dedup_by snd (take (nat n) [(1, 2), (1, 3), (2, 4), (2, 4), (2, 5)]))"
proof -
  let ?p = "defaults (demo_opts n)"
  let ?ws = "take (nat n) (traverse_rows ?p (tabs demo_graph) 1)"
  let ?xs = "map (\<lambda>w. \<lparr>tr_Entity = entityFromRow demo_lib (w_entity w), tr_Depth = w_depth w,
      tr_Path = map (edge_of demo_lib) (w_path w)\<rparr>) (dedup_by (\<lambda>w. e_id (w_entity w)) ?ws)"
  have "unary_parse ''u'' = Some 1" by (simp add: unary_parse_def)
  then have run: "Traverse demo_lib ''u'' (Some (demo_opts n)) demo_graph = (next_tick demo_graph, Inr ?xs)"
    using assms by (simp add: Traverse_def traverseSQL_def parse_id_def select_limit_def exec_def exec_auto_def stm_simps
        dmap_def dbind_def dwrap_def dret_def demo_graph_def next_tick_def)
  have "map (\<lambda>x. (tr_Depth x, se_ID (tr_Entity x))) ?xs
      = map (map_prod id unary_string) (map (\<lambda>w. (w_depth w, e_id (w_entity w))) (dedup_by (\<lambda>w. e_id (w_entity w)) ?ws))"
    by (simp add: comp_def entityFromRow_def)
  also have "\<dots> = map (map_prod id unary_string) (dedup_by snd (take (nat n) [(1, 2), (1, 3), (2, 4), (2, 4), (2, 5)]))"
    using map_dedup [of "\<lambda>w. (w_depth w, e_id (w_entity w))" snd "{}" ?ws] demo_levels [OF assms] by (simp flip: take_map)
  finally show ?thesis using run by (intro exI conjI)
qed

theorem Traverse_sound_witness:
  "\<exists>s' xs. Traverse demo_lib ''u'' (Some (demo_opts 9)) demo_graph = (s', Inr xs) \<and> length xs = 4
    \<and> tabs s' = tabs demo_graph \<and> sorted (map tr_Depth xs)"
proof -
  obtain s' xs where r: "Traverse demo_lib ''u'' (Some (demo_opts 9)) demo_graph = (s', Inr xs)"
    and x: "map (\<lambda>x. (tr_Depth x, se_ID (tr_Entity x))) xs
      = map (map_prod id unary_string) (dedup_by snd (take (nat 9) [(1, 2), (1, 3), (2, 4), (2, 4), (2, 5)]))"
    using demo_traverse [of 9] by auto
  have "length xs = 4" using arg_cong [OF x, of length] by simp
  then show ?thesis using Traverse_sound [OF r] r by blast
qed

lemma demo_walk: "0 < n \<Longrightarrow> walk (defaults (demo_opts n)) (tabs demo_graph) 1 [1, 2, 5]"
  by (simp add: walk_def hop_def other_end_def)

theorem Traverse_complete_witness:
  "\<exists>s' xs. Traverse demo_lib ''u'' (Some (demo_opts 9)) demo_graph = (s', Inr xs)
    \<and> (\<exists>x\<in>set xs. se_ID (tr_Entity x) = uuid_String demo_lib 5 \<and> tr_Depth x < 3)"
proof -
  obtain s' xs where r: "Traverse demo_lib ''u'' (Some (demo_opts 9)) demo_graph = (s', Inr xs)"
    using demo_traverse [of 9] by auto
  have "length (traverse_rows (defaults (demo_opts 9)) (tabs demo_graph) 1) = 5"
    using arg_cong [OF demo_levels [of 9], of length] by simp
  then show ?thesis
    using Traverse_complete [OF r, of 1 "[1, 2, 5]"] r demo_walk [of 9] by (simp add: unary_parse_def numeral_3_eq_3)
qed

text \<open>\<open>MaxResults\<close> is documented as a cap on the returned entities, but \<open>LIMIT\<close> counts the rows of the
  query, one for every path: an entity reached by several paths uses up several of them. A traversal can
  return fewer than \<open>MaxResults\<close> entities and still leave out one within reach.\<close>

theorem Traverse_limit_counts_paths:
  "\<exists>L i p s s' xs u ns. Traverse L i (Some p) s = (s', Inr xs) \<and> int (length xs) < to_MaxResults p
    \<and> uuid_Parse L i = Some u \<and> walk (defaults p) (tabs s) u ns \<and> last ns \<noteq> u
    \<and> int (length ns) \<le> to_MaxDepth (defaults p) + 1 \<and> uuid_String L (last ns) \<notin> (\<lambda>x. se_ID (tr_Entity x)) ` set xs"
proof -
  obtain s' xs where r: "Traverse demo_lib ''u'' (Some (demo_opts 4)) demo_graph = (s', Inr xs)"
    and x: "map (\<lambda>x. (tr_Depth x, se_ID (tr_Entity x))) xs
      = map (map_prod id unary_string) (dedup_by snd (take (nat 4) [(1, 2), (1, 3), (2, 4), (2, 4), (2, 5)]))"
    using demo_traverse [of 4] by auto
  have l: "length xs = 3" using arg_cong [OF x, of length] by (simp add: numeral_eq_Suc)
  have "(\<lambda>x. se_ID (tr_Entity x)) ` set xs = snd ` set (map (\<lambda>x. (tr_Depth x, se_ID (tr_Entity x))) xs)"
    by (simp add: image_image)
  also have "\<dots> = {uuid_String demo_lib 2, uuid_String demo_lib 3, uuid_String demo_lib 4}"
    unfolding x by (simp add: eval_nat_numeral)
  finally have "uuid_String demo_lib 5 \<notin> (\<lambda>x. se_ID (tr_Entity x)) ` set xs" by (simp only: codec_String_inject insert_iff) simp
  moreover have "int (length xs) < to_MaxResults (demo_opts 4)" by (simp add: l demo_opts_def)
  moreover have "uuid_Parse demo_lib ''u'' = Some 1" by (simp add: unary_parse_def)
  moreover have "walk (defaults (demo_opts 4)) (tabs demo_graph) 1 [1, 2, 5]" by (rule demo_walk) simp
  moreover have "last [1, 2, 5] \<noteq> (1 :: uuid)" "int (length [1, 2, 5 :: uuid]) \<le> to_MaxDepth (defaults (demo_opts 4)) + 1"
    by simp_all
  ultimately show ?thesis using r by (metis last.simps list.distinct(1))
qed

end
