(* ===== verification/Opening.thy ===== *)
theory Opening
  imports Store_Write
begin

text \<open>
  Opening and closing a store: \<open>New\<close>, \<open>NewFromPool\<close>, \<open>Close\<close> and the options of \<open>src/store/store.go\<close>, and \<open>src/store/migrate.go\<close>.
  The libraries \<open>pgxpool\<close>, \<open>migrate\<close> and \<open>io/fs\<close> are parameters: a record of what parsing, connecting, pinging and migrating
  answer. The state is the pools that are open, each with its configuration; a new pool has a new handle.
\<close>

section \<open>Pools\<close>

record PoolConfig =
  cfg_MaxConns :: int
  cfg_MinConns :: int
  cfg_MaxConnIdleTime :: int

record pools =
  ps_next :: pool
  ps_open :: "(pool \<times> PoolConfig) list"

record pgx =
  px_ParseConfig :: "string \<Rightarrow> err + PoolConfig"
  px_Connect :: "PoolConfig \<Rightarrow> err option"
  px_Ping :: "pool \<Rightarrow> err option"
  px_Sub :: "string \<Rightarrow> err option"
  px_Up :: "pool \<Rightarrow> string \<Rightarrow> err option"

definition NewWithConfig :: "pgx \<Rightarrow> PoolConfig \<Rightarrow> pools \<Rightarrow> pools \<times> (err + pool)" where
  "NewWithConfig X cfg ps = (case px_Connect X cfg of
     Some e \<Rightarrow> (ps, Inl e)
   | None \<Rightarrow> (\<lparr>ps_next = Suc (ps_next ps), ps_open = (ps_next ps, cfg) # ps_open ps\<rparr>, Inr (ps_next ps)))"

definition close_pool :: "pool \<Rightarrow> pools \<Rightarrow> pools" where
  "close_pool p ps = ps\<lparr>ps_open := filter (\<lambda>(q, _). q \<noteq> p) (ps_open ps)\<rparr>"

section \<open>Migrations and options\<close>

definition Migrate :: "pgx \<Rightarrow> pool \<Rightarrow> err option" where
  "Migrate X pool = (case px_Sub X ''db/migrations'' of
     Some e \<Rightarrow> Some (Wrap ''migrate: sub fs'' e)
   | None \<Rightarrow> (case px_Up X pool ''entitystore'' of
       Some e \<Rightarrow> Some (Wrap ''migrate'' e)
     | None \<Rightarrow> None))"

record storeOptions =
  so_maxConns :: int
  so_minConns :: int
  so_maxConnIdleTime :: int
  so_autoMigrate :: bool
  so_logger :: "logger option"

definition zero_storeOptions :: storeOptions where
  "zero_storeOptions = \<lparr>so_maxConns = 0, so_minConns = 0, so_maxConnIdleTime = 0, so_autoMigrate = False, so_logger = None\<rparr>"

datatype store_Option = StoreWithLogger "logger option" | WithPoolConfig int int int | WithAutoMigrate

fun apply_store_Option :: "store_Option \<Rightarrow> storeOptions \<Rightarrow> storeOptions" where
  "apply_store_Option (StoreWithLogger l) o1 = o1\<lparr>so_logger := l\<rparr>"
| "apply_store_Option (WithPoolConfig maxConns minConns maxConnIdleTime) o1 =
     o1\<lparr>so_maxConns := maxConns, so_minConns := minConns, so_maxConnIdleTime := maxConnIdleTime\<rparr>"
| "apply_store_Option WithAutoMigrate o1 = o1\<lparr>so_autoMigrate := True\<rparr>"

section \<open>Opening and closing\<close>

definition tuned :: "storeOptions \<Rightarrow> PoolConfig \<Rightarrow> PoolConfig" where
  "tuned o1 cfg =
     \<lparr>cfg_MaxConns = (if 0 < so_maxConns o1 then so_maxConns o1 else cfg_MaxConns cfg),
      cfg_MinConns = (if 0 < so_minConns o1 then so_minConns o1 else cfg_MinConns cfg),
      cfg_MaxConnIdleTime = (if 0 < so_maxConnIdleTime o1 then so_maxConnIdleTime o1 else cfg_MaxConnIdleTime cfg)\<rparr>"

definition chosen_logger :: "logger \<Rightarrow> storeOptions \<Rightarrow> logger" where
  "chosen_logger slog_Default o1 = (case so_logger o1 of None \<Rightarrow> slog_Default | Some l \<Rightarrow> l)"

definition store_New :: "pgx \<Rightarrow> logger \<Rightarrow> string \<Rightarrow> store_Option list \<Rightarrow> pools \<Rightarrow> pools \<times> (err + Store)" where
  "store_New X slog_Default connString opts ps =
     (let o1 = fold apply_store_Option opts zero_storeOptions in
      case px_ParseConfig X connString of
        Inl e \<Rightarrow> (ps, Inl (Wrap ''postgres store: parse config'' e))
      | Inr cfg \<Rightarrow> (case NewWithConfig X (tuned o1 cfg) ps of
          (ps1, Inl e) \<Rightarrow> (ps1, Inl (Wrap ''postgres store: connect'' e))
        | (ps1, Inr pool) \<Rightarrow> (case px_Ping X pool of
            Some e \<Rightarrow> (close_pool pool ps1, Inl (Wrap ''postgres store: ping'' e))
          | None \<Rightarrow> (case (if so_autoMigrate o1 then Migrate X pool else None) of
              Some e \<Rightarrow> (close_pool pool ps1, Inl (Wrap ''postgres store'' e))
            | None \<Rightarrow> (ps1, Inr \<lparr>st_pool = pool, st_ownPool = True, st_external = False,
                               st_log = chosen_logger slog_Default o1\<rparr>)))))"

definition NewFromPool :: "logger \<Rightarrow> pool \<Rightarrow> store_Option list \<Rightarrow> Store" where
  "NewFromPool slog_Default p opts =
     \<lparr>st_pool = p, st_ownPool = False, st_external = False,
      st_log = chosen_logger slog_Default (fold apply_store_Option opts zero_storeOptions)\<rparr>"

definition Close :: "Store \<Rightarrow> pools \<Rightarrow> pools" where
  "Close s ps = (if st_ownPool s then close_pool (st_pool s) ps else ps)"

definition Pool :: "Store \<Rightarrow> pool" where
  "Pool s = st_pool s"

section \<open>Ownership of the pool\<close>

text \<open>Handles in use are below the next one.\<close>

definition pools_ok :: "pools \<Rightarrow> bool" where
  "pools_ok ps \<longleftrightarrow> list_all (\<lambda>(p, _). p < ps_next ps) (ps_open ps) \<and> distinct (map fst (ps_open ps))"

lemma close_new_pool:
  "pools_ok ps \<Longrightarrow> ps_open (close_pool (ps_next ps) \<lparr>ps_next = n, ps_open = (ps_next ps, cfg) # ps_open ps\<rparr>) = ps_open ps"
  by (auto simp: pools_ok_def close_pool_def list_all_iff intro!: filter_True)

lemma pools_ok_kept:
  "pools_ok ps \<Longrightarrow> pools_ok (fst (NewWithConfig X cfg ps))" "pools_ok ps \<Longrightarrow> pools_ok (close_pool p ps)" "pools_ok ps \<Longrightarrow> pools_ok (Close s ps)"
  by (auto simp: pools_ok_def NewWithConfig_def close_pool_def Close_def list_all_iff distinct_map_filter split: option.split)

lemma store_New_opened:
  assumes "store_New X d dsn opts ps = (ps', Inr st)"
  obtains cfg where "px_ParseConfig X dsn = Inr cfg"
    "ps_open ps' = (st_pool st, tuned (fold apply_store_Option opts zero_storeOptions) cfg) # ps_open ps"
    "st_pool st = ps_next ps" "ps_next ps' = Suc (ps_next ps)" "st_ownPool st" "\<not> st_external st"
  using assms by (auto simp: store_New_def NewWithConfig_def Let_def split: sum.splits option.splits prod.splits if_splits)

text \<open>A store owns the pool it opened and no other: when \<open>New\<close> fails at any stage (configuration, connection, ping,
  migration) the open pools are as before; when it succeeds there is one new pool, opened with the configuration of the connection
  string where the options do not override it, closing the store releases exactly that pool, and closing
  a store bound to a transaction, or one made from an existing pool, releases nothing.\<close>

theorem New_owns_pool:
  assumes "pools_ok ps"
  shows "case store_New X d dsn opts ps of
     (ps', Inl e) \<Rightarrow> ps_open ps' = ps_open ps
   | (ps', Inr st) \<Rightarrow> \<exists>cfg. px_ParseConfig X dsn = Inr cfg
       \<and> ps_open ps' = (Pool st, tuned (fold apply_store_Option opts zero_storeOptions) cfg) # ps_open ps
       \<and> Pool st \<notin> fst ` set (ps_open ps)
       \<and> ps_open (Close st ps') = ps_open ps \<and> Close (WithTx st) ps' = ps' \<and> Close (NewFromPool d (Pool st) opts) ps' = ps'"
proof (cases "store_New X d dsn opts ps")
  case (Pair ps' r)
  show ?thesis
  proof (cases r)
    case (Inl e)
    with Pair assms show ?thesis
      by (auto simp: store_New_def NewWithConfig_def Let_def close_new_pool split: sum.splits option.splits prod.splits if_splits)
  next
    case (Inr st)
    then obtain cfg where c: "px_ParseConfig X dsn = Inr cfg"
      "ps_open ps' = (st_pool st, tuned (fold apply_store_Option opts zero_storeOptions) cfg) # ps_open ps"
      "st_pool st = ps_next ps" "ps_next ps' = Suc (ps_next ps)" "st_ownPool st" "\<not> st_external st"
      using Pair store_New_opened by blast
    have "ps_next ps \<notin> fst ` set (ps_open ps)" using assms by (auto simp: pools_ok_def list_all_iff)
    moreover have "ps_open (Close st ps') = ps_open ps"
      using close_new_pool [OF assms, of "ps_next ps'"] c by (simp add: Close_def close_pool_def)
    ultimately show ?thesis using Pair Inr c by (simp add: Pool_def Close_def WithTx_def NewFromPool_def)
  qed
qed

definition demo_pgx :: pgx where
  "demo_pgx = \<lparr>px_ParseConfig = (\<lambda>_. Inr \<lparr>cfg_MaxConns = 4, cfg_MinConns = 0, cfg_MaxConnIdleTime = 1800\<rparr>), px_Connect = (\<lambda>_. None),
     px_Ping = (\<lambda>_. None), px_Sub = (\<lambda>_. None), px_Up = (\<lambda>_ _. None)\<rparr>"

theorem New_owns_pool_witness:
  "\<exists>ps' st. store_New demo_pgx 7 ''dsn'' [WithPoolConfig 10 0 0, WithAutoMigrate] \<lparr>ps_next = 3, ps_open = []\<rparr> = (ps', Inr st)
     \<and> ps_open ps' = [(3, \<lparr>cfg_MaxConns = 10, cfg_MinConns = 0, cfg_MaxConnIdleTime = 1800\<rparr>)] \<and> ps_open (Close st ps') = []"
proof -
  have "pools_ok \<lparr>ps_next = 3, ps_open = []\<rparr>" by (simp add: pools_ok_def)
  from New_owns_pool [OF this, where X = demo_pgx and d = 7 and dsn = "''dsn''" and opts = "[WithPoolConfig 10 0 0, WithAutoMigrate]"] show ?thesis
    by (simp add: store_New_def NewWithConfig_def demo_pgx_def zero_storeOptions_def tuned_def Migrate_def Pool_def)
qed

end
