(* ===== verification/Health.thy ===== *)
theory Health
  imports Consumer_Theorems
begin

text \<open>
  \<open>src/store/health.go\<close>: the report on the database, the event log and the consumers. Every call of the report may fail;
  the report then leaves the part out. The statistics of the connection pool are a parameter.
\<close>

section \<open>Reporting\<close>

datatype HealthState = Healthy | Degraded | Failing

definition derive_state :: "int \<Rightarrow> nat \<Rightarrow> HealthState" where
  "derive_state failures deadLetters =
     (if failures = 0 \<and> deadLetters = 0 then Healthy
      else if 0 < deadLetters then Failing else Degraded)"

record ConsumerHealth =
  ch_Name :: string
  ch_LastEventAt :: time
  ch_Lag :: int
  ch_HolderID :: string
  ch_LockExpiresAt :: "time option"
  ch_Failures :: int
  ch_LastError :: string
  ch_BackoffUntil :: "time option"
  ch_DeadLetterCount :: nat
  ch_State :: HealthState

fun consumer_healths :: "EntityEventConsumer list \<Rightarrow> ConsumerHealth list dbm" where
  "consumer_healths [] = dret []"
| "consumer_healths (c # cs) =
     dbind (\<lambda>s. (s, Inr (int_div (clock s (tick s) - c_last_event_at c) second * second))) (\<lambda>lag.
     dbind (dtry (q_CountDeadLetters (c_name c))) (\<lambda>counted.
     dbind (consumer_healths cs) (\<lambda>hs.
     let dl = (case counted of None \<Rightarrow> 0 | Some n \<Rightarrow> n) in
     dret (\<lparr>ch_Name = c_name c, ch_LastEventAt = c_last_event_at c, ch_Lag = lag,
            ch_HolderID = text_or_empty (c_holder c), ch_LockExpiresAt = c_expires_at c,
            ch_Failures = c_failures c, ch_LastError = text_or_empty (c_last_error c),
            ch_BackoffUntil = c_backoff_until c, ch_DeadLetterCount = dl,
            ch_State = derive_state (c_failures c) dl\<rparr> # hs))))"

definition ping :: "unit dbm" where
  "ping s = (next_tick s, if fault s (tick s) then Inl (ErrDb StatementFailed) else Inr ())"

record DBHealth =
  dh_OK :: bool
  dh_Latency :: int
  dh_Error :: "err option"
  dh_AcquiredConns :: int
  dh_IdleConns :: int
  dh_TotalConns :: int
  dh_MaxConns :: int

record EventHealth =
  eh_LastEventAt :: "time option"

record HealthStatus =
  hs_DB :: DBHealth
  hs_Events :: EventHealth
  hs_Consumers :: "ConsumerHealth list"

definition HealthStatus_Healthy :: "HealthStatus \<Rightarrow> bool" where
  "HealthStatus_Healthy h = dh_OK (hs_DB h)"

text \<open>\<open>pool.Stat()\<close>: the numbers of acquired, idle, all and at most allowed connections.\<close>

type_synonym pool_stat = "int \<times> int \<times> int \<times> int"

definition db_health :: "pool_stat \<Rightarrow> DBHealth dbm" where
  "db_health stat s =
     (let start = clock s (tick s); (s1, r) = ping s; (acquired, idle, total, maxc) = stat in
      (s1, Inr \<lparr>dh_OK = (case r of Inl _ \<Rightarrow> False | Inr _ \<Rightarrow> True), dh_Latency = clock s1 (tick s1) - start,
                dh_Error = (case r of Inl e \<Rightarrow> Some e | Inr _ \<Rightarrow> None), dh_AcquiredConns = acquired, dh_IdleConns = idle,
                dh_TotalConns = total, dh_MaxConns = maxc\<rparr>))"

definition Health :: "pool_stat \<Rightarrow> HealthStatus dbm" where
  "Health stat =
     dbind (db_health stat) (\<lambda>db.
     dbind (dtry q_GetLastEventTime) (\<lambda>lastTime.
     dbind (dtry q_ListConsumers) (\<lambda>cs.
     dbind (case cs of None \<Rightarrow> dret [] | Some rows \<Rightarrow> consumer_healths rows) (\<lambda>hs.
     dret \<lparr>hs_DB = db, hs_Events = \<lparr>eh_LastEventAt = lastTime\<rparr>, hs_Consumers = hs\<rparr>))))"

definition HealthError :: "unit dbm" where
  "HealthError = dwrap (Wrap ''db ping failed'') ping"

section \<open>The report is about the tables\<close>

text \<open>A state that answers, with given tables.\<close>

definition answers_with :: "tables \<Rightarrow> db \<Rightarrow> bool" where
  "answers_with t s \<longleftrightarrow> tx s = None \<and> (\<forall>k. \<not> fault s k) \<and> tabs s = t"

lemma answers_with_next [simp]: "answers_with t s \<Longrightarrow> answers_with t (next_tick s)"
  by (simp add: answers_with_def)

lemma select_answers: "answers_with t s \<Longrightarrow> select r s = (next_tick s, Inr (r t))"
  by (cases s) (simp add: answers_with_def select_def exec_fault_free next_tick_def)

definition letters_of :: "tables \<Rightarrow> string \<Rightarrow> nat" where
  "letters_of t name = length (filter (\<lambda>d. d_consumer d = name) (dead_letters t))"

definition reports :: "tables \<Rightarrow> EntityEventConsumer \<Rightarrow> ConsumerHealth \<Rightarrow> bool" where
  "reports t c h \<longleftrightarrow> ch_Name h = c_name c \<and> ch_LastEventAt h = c_last_event_at c \<and> ch_Failures h = c_failures c
     \<and> ch_HolderID h = text_or_empty (c_holder c) \<and> ch_LastError h = text_or_empty (c_last_error c)
     \<and> ch_LockExpiresAt h = c_expires_at c \<and> ch_BackoffUntil h = c_backoff_until c \<and> ch_DeadLetterCount h = letters_of t (c_name c)
     \<and> (ch_State h = Healthy \<longleftrightarrow> c_failures c = 0 \<and> letters_of t (c_name c) = 0)
     \<and> (ch_State h = Failing \<longleftrightarrow> 0 < letters_of t (c_name c))"

lemma reported:
  "reports t c \<lparr>ch_Name = c_name c, ch_LastEventAt = c_last_event_at c, ch_Lag = lag, ch_HolderID = text_or_empty (c_holder c),
     ch_LockExpiresAt = c_expires_at c, ch_Failures = c_failures c, ch_LastError = text_or_empty (c_last_error c), ch_BackoffUntil = c_backoff_until c, ch_DeadLetterCount = letters_of t (c_name c),
     ch_State = derive_state (c_failures c) (letters_of t (c_name c))\<rparr>"
  by (simp add: reports_def derive_state_def)

lemma consumer_healths_report:
  assumes "answers_with t s"
  shows "\<exists>s' hs. consumer_healths rows s = (s', Inr hs) \<and> answers_with t s' \<and> list_all2 (reports t) rows hs"
  using assms
proof (induction rows arbitrary: s)
  case (Cons c rows)
  have q: "q_CountDeadLetters (c_name c) s = (next_tick s, Inr (letters_of t (c_name c)))"
    using select_answers [OF Cons.prems] by (simp add: q_CountDeadLetters_def letters_of_def)
  obtain s' hs where "consumer_healths rows (next_tick s) = (s', Inr hs)" "answers_with t s'" "list_all2 (reports t) rows hs"
    using Cons.IH Cons.prems by (meson answers_with_next)
  then show ?case using q reported by (simp add: dbind_def dtry_def dret_def Let_def)
qed (simp add: dret_def)

lemma last_event_time:
  assumes "answers_with t s"
  shows "dtry q_GetLastEventTime s = (next_tick s, Inr (if events t = [] then None else Some (Max (v_occurred_at ` set (events t)))))"
proof -
  let ?vs = "newest_events (\<lambda>_. True) t"
  have e: "exec (\<lambda>_ _ t. Inr (t, map v_occurred_at (take 1 (newest_events (\<lambda>_. True) t)))) s = (next_tick s, Inr (map v_occurred_at (take 1 ?vs)))"
    using select_answers [OF assms, of "\<lambda>t. map v_occurred_at (take 1 (newest_events (\<lambda>_. True) t))"] by (simp add: select_def)
  have set: "set ?vs = set (events t)" by (simp add: newest_events_def)
  show ?thesis
  proof (cases ?vs)
    case Nil
    then show ?thesis using e set by (simp add: q_GetLastEventTime_def select_one_def exec_one_def dtry_def dbind_def dfail_def)
  next
    case (Cons v vs)
    then have "\<forall>w\<in>set (events t). v_occurred_at w \<le> v_occurred_at v"
      using set sorted_sort_key [of "\<lambda>v. - v_occurred_at v" "events t"] by (auto simp: newest_events_def)
    then have "Max (v_occurred_at ` set (events t)) = v_occurred_at v"
      using set Cons by (intro Max_eqI) (auto simp flip: set)
    then show ?thesis using e set Cons by (auto simp: q_GetLastEventTime_def select_one_def exec_one_def dtry_def dbind_def dret_def)
  qed
qed

lemma ping_answers: "answers_with t s \<Longrightarrow> \<exists>db. db_health stat s = (next_tick s, Inr db) \<and> dh_OK db"
  by (auto simp: db_health_def ping_def answers_with_def Let_def split: prod.split)

text \<open>The state is not derived as \<open>docs/specs/003-consumer-resilience.md\<close> says (healthy with no failure, failing at \<open>MaxRetries\<close>
  or with recent dead letters): the switch of the code knows neither \<open>MaxRetries\<close> nor the age of a letter. A consumer without
  failures is failing as long as one of its letters is kept, and without letters it is degraded, never failing, however
  many failures it has counted.\<close>

lemma derive_state_rule:
  "derive_state 0 (Suc n) = Failing"
  "0 < f \<Longrightarrow> derive_state f 0 = Degraded"
  by (simp_all add: derive_state_def)

text \<open>C33. The health report agrees with the tables: when the database answers, \<open>Health\<close> leaves the tables alone, calls the database
  healthy, dates the last event by the newest event of the log, and lists every consumer, by name, with its failures, last error,
  lock holder and expiry, backoff and number of dead letters; by the rule of the code a consumer is healthy exactly when it has neither
  failures nor dead letters and failing exactly when it has dead letters. (The rule of the specification is another one, see above.)\<close>

theorem Health_truthful:
  assumes "tx s = None" "\<forall>k. \<not> fault s k"
  shows "\<exists>s' h. Health stat s = (s', Inr h) \<and> tabs s' = tabs s \<and> HealthStatus_Healthy h
    \<and> eh_LastEventAt (hs_Events h) = (if events (tabs s) = [] then None else Some (Max (v_occurred_at ` set (events (tabs s)))))
    \<and> list_all2 (reports (tabs s)) (sort_key c_name (consumers (tabs s))) (hs_Consumers h)"
proof -
  have a: "answers_with (tabs s) s" using assms by (simp add: answers_with_def)
  obtain db where 1: "db_health stat s = (next_tick s, Inr db)" "dh_OK db" using ping_answers [OF a] by blast
  let ?s2 = "next_tick (next_tick s)" and ?rows = "sort_key c_name (consumers (tabs s))"
  have 2: "dtry q_ListConsumers ?s2 = (next_tick ?s2, Inr (Some ?rows))"
    using select_answers [of "tabs s" ?s2 "\<lambda>t. sort_key c_name (consumers t)"] a by (simp add: dtry_def q_ListConsumers_def)
  obtain s' hs where 3: "consumer_healths ?rows (next_tick ?s2) = (s', Inr hs)" "answers_with (tabs s) s'"
    "list_all2 (reports (tabs s)) ?rows hs"
    using consumer_healths_report [of "tabs s" "next_tick ?s2" ?rows] a by auto
  then have "tabs s' = tabs s" by (simp add: answers_with_def)
  then show ?thesis using 1 2 3 last_event_time [OF answers_with_next [OF a]]
    by (simp add: Health_def dbind_def dret_def HealthStatus_Healthy_def)
qed

theorem Health_truthful_witness:
  "\<exists>s' h. Health (1, 2, 3, 4) (demo_log [demo_row ''me'']) = (s', Inr h) \<and> eh_LastEventAt (hs_Events h) = Some (unix_epoch + 1)
     \<and> map ch_State (hs_Consumers h) = [Healthy] \<and> map ch_HolderID (hs_Consumers h) = [''me'']"
proof -
  let ?s = "demo_log [demo_row ''me'']"
  have t: "events (tabs ?s) = [demo_event 2, demo_event 1]" "consumers (tabs ?s) = [demo_row ''me'']" "dead_letters (tabs ?s) = []"
    by (simp_all add: demo_log_def empty_tables_def)
  obtain s' h where h: "Health (1, 2, 3, 4) ?s = (s', Inr h)"
    "eh_LastEventAt (hs_Events h) = Some (unix_epoch + 1)" "list_all2 (reports (tabs ?s)) [demo_row ''me''] (hs_Consumers h)"
    using Health_truthful [of ?s "(1, 2, 3, 4)"] by (auto simp: t demo_event_def)
  from h(3) have "map ch_State (hs_Consumers h) = [Healthy] \<and> map ch_HolderID (hs_Consumers h) = [''me'']"
    by (auto simp: list_all2_Cons1 reports_def letters_of_def t) (simp_all add: demo_row_def text_or_empty_def)
  with h(1,2) show ?thesis by auto
qed

end
