(* ===== verification/Entity_Store.thy ===== *)
theory Entity_Store
  imports System Traverse Opening Health
begin

text \<open>
  \<open>src/entitystore.go\<close>, \<open>src/options.go\<close> and \<open>src/interface.go\<close>: the public facade. An \<open>EntityStore\<close> holds a
  store and forwards every call to it; its \<open>TxStore\<close> forwards to the store's. The Go interface
  \<open>EntityStorer\<close>, which the plain and the scoped store share, is the locale \<open>entity_storer\<close> below: its
  laws are what a client of either store relies on.

  The type aliases are left out.
\<close>

section \<open>Construction\<close>

datatype Option = WithPgStore "pool option" | WithLogger "logger option"

record options =
  op_pool :: "pool option"
  op_storeOps :: "store_Option list"

fun apply_Option :: "Option \<Rightarrow> options \<Rightarrow> options" where
  "apply_Option (WithPgStore p) o1 = o1\<lparr>op_pool := p\<rparr>"
| "apply_Option (WithLogger l) o1 = o1\<lparr>op_storeOps := op_storeOps o1 @ [StoreWithLogger l]\<rparr>"

record EntityStore = es_store :: Store

definition New :: "logger \<Rightarrow> Option list \<Rightarrow> err + EntityStore" where
  "New slog_Default opts =
     (let o1 = fold apply_Option opts \<lparr>op_pool = None, op_storeOps = []\<rparr> in
      case op_pool o1 of
        None \<Rightarrow> Inl (Msg ''entitystore: no store backend configured (use WithPgStore)'' [])
      | Some p \<Rightarrow> Inr \<lparr>es_store = NewFromPool slog_Default p (op_storeOps o1)\<rparr>)"

definition EntityStore_Close :: "EntityStore \<Rightarrow> pools \<Rightarrow> pools" where
  "EntityStore_Close es = Close (es_store es)"

definition EntityStore_Migrate :: "pgx \<Rightarrow> pool \<Rightarrow> err option" where
  "EntityStore_Migrate X = Migrate X"

definition EntityStore_WithTx :: "EntityStore \<Rightarrow> EntityStore" where
  "EntityStore_WithTx es = \<lparr>es_store = WithTx (es_store es)\<rparr>"

section \<open>Reads\<close>

definition EntityStore_GetEntity :: "lib \<Rightarrow> EntityStore \<Rightarrow> string \<Rightarrow> StoredEntity dbm" where
  "EntityStore_GetEntity L es i = GetEntity L i"

definition EntityStore_GetEntitiesByType :: "lib \<Rightarrow> EntityStore \<Rightarrow> string \<Rightarrow> int \<Rightarrow> time option \<Rightarrow> QueryFilter option \<Rightarrow>
    StoredEntity list dbm" where
  "EntityStore_GetEntitiesByType L es entityType pageSize cursor filt =
     GetEntitiesByTypeFiltered L entityType pageSize cursor filt"

definition EntityStore_Search :: "lib \<Rightarrow> EntityStore \<Rightarrow> string \<Rightarrow> int \<Rightarrow> QueryFilter option \<Rightarrow> StoredEntity list dbm" where
  "EntityStore_Search L es query maxResults filt = Search L query maxResults filt"

definition EntityStore_GetByAnchor :: "lib \<Rightarrow> EntityStore \<Rightarrow> string \<Rightarrow> string \<Rightarrow> string \<Rightarrow> QueryFilter option \<Rightarrow>
    StoredEntity dbm" where
  "EntityStore_GetByAnchor L es entityType field value filt = GetByAnchor L entityType field value filt"

definition EntityStore_GetAnchorsForEntity :: "lib \<Rightarrow> EntityStore \<Rightarrow> string \<Rightarrow> (string \<times> string) list dbm" where
  "EntityStore_GetAnchorsForEntity L es entityID = GetAnchorsForEntity L entityID"

definition EntityStore_FindByAnchors :: "lib \<Rightarrow> EntityStore \<Rightarrow> string \<Rightarrow> AnchorQuery list \<Rightarrow> QueryFilter option \<Rightarrow>
    StoredEntity list dbm" where
  "EntityStore_FindByAnchors L es entityType as filt = FindByAnchors L entityType as filt"

definition EntityStore_FindByTokens :: "lib \<Rightarrow> EntityStore \<Rightarrow> string \<Rightarrow> string list \<Rightarrow> int \<Rightarrow> QueryFilter option \<Rightarrow>
    StoredEntity list dbm" where
  "EntityStore_FindByTokens L es entityType toks limit filt = FindByTokens L entityType toks limit filt"

definition EntityStore_FindByEmbedding :: "lib \<Rightarrow> EntityStore \<Rightarrow> string \<Rightarrow> vec \<Rightarrow> int \<Rightarrow> QueryFilter option \<Rightarrow>
    StoredEntity list dbm" where
  "EntityStore_FindByEmbedding L es entityType v topK filt = FindByEmbedding L entityType v topK filt"

record FindConnectedOpts =
  fc_EntityType :: string
  fc_RelationTypes :: "string list"
  fc_Filter :: "QueryFilter option"
  fc_PageSize :: int
  fc_Cursor :: "time option"

definition zero_FindConnectedOpts :: FindConnectedOpts where
  "zero_FindConnectedOpts = \<lparr>fc_EntityType = [], fc_RelationTypes = [], fc_Filter = None, fc_PageSize = 0, fc_Cursor = None\<rparr>"

definition EntityStore_FindConnectedByType :: "lib \<Rightarrow> EntityStore \<Rightarrow> string \<Rightarrow> FindConnectedOpts option \<Rightarrow>
    StoredEntity list dbm" where
  "EntityStore_FindConnectedByType L es entityID opts =
     (let p = (case opts of None \<Rightarrow> zero_FindConnectedOpts | Some q \<Rightarrow> q) in
      FindConnectedByType L entityID (fc_EntityType p) (fc_RelationTypes p) (fc_Filter p) (fc_PageSize p) (fc_Cursor p))"

definition EntityStore_FindEntitiesByRelation :: "lib \<Rightarrow> EntityStore \<Rightarrow> string \<Rightarrow> string \<Rightarrow> QueryFilter option \<Rightarrow>
    StoredEntity list dbm" where
  "EntityStore_FindEntitiesByRelation L es entityType relationType filt =
     FindEntitiesByRelation L entityType relationType filt"

definition EntityStore_ConnectedEntities :: "lib \<Rightarrow> EntityStore \<Rightarrow> string \<Rightarrow> StoredEntity list dbm" where
  "EntityStore_ConnectedEntities L es entityID = ConnectedEntities L entityID"

definition EntityStore_Traverse :: "lib \<Rightarrow> EntityStore \<Rightarrow> string \<Rightarrow> TraverseOpts option \<Rightarrow> TraverseResult list dbm" where
  "EntityStore_Traverse L es entityID opts = Traverse L entityID opts"

definition EntityStore_GetRelationsFromEntity :: "lib \<Rightarrow> EntityStore \<Rightarrow> string \<Rightarrow> int \<Rightarrow> time option \<Rightarrow>
    StoredRelation list dbm" where
  "EntityStore_GetRelationsFromEntity L es entityID pageSize cursor = GetRelationsFromEntity L entityID pageSize cursor"

definition EntityStore_GetRelationsToEntity :: "lib \<Rightarrow> EntityStore \<Rightarrow> string \<Rightarrow> int \<Rightarrow> time option \<Rightarrow>
    StoredRelation list dbm" where
  "EntityStore_GetRelationsToEntity L es entityID pageSize cursor = GetRelationsToEntity L entityID pageSize cursor"

definition EntityStore_GetEventByID :: "lib \<Rightarrow> EntityStore \<Rightarrow> string \<Rightarrow> Event dbm" where
  "EntityStore_GetEventByID L es eventID = GetEventByID L eventID"

definition EntityStore_GetEventsForEntity :: "lib \<Rightarrow> EntityStore \<Rightarrow> string \<Rightarrow> EventQueryOpts option \<Rightarrow> Event list dbm" where
  "EntityStore_GetEventsForEntity L es entityID opts = GetEventsForEntity L entityID opts"

definition EntityStore_GetAllEvents :: "lib \<Rightarrow> EntityStore \<Rightarrow> EventQueryOpts option \<Rightarrow> time option \<Rightarrow> Event list dbm" where
  "EntityStore_GetAllEvents L es opts cursor = GetAllEvents L opts cursor"

definition EntityStore_Stats :: "EntityStore \<Rightarrow> StoreStats dbm" where
  "EntityStore_Stats es = Stats"

definition EntityStore_CountEntitiesByType :: "EntityStore \<Rightarrow> string \<Rightarrow> nat dbm" where
  "EntityStore_CountEntitiesByType es entityType = CountEntitiesByType entityType"

definition EntityStore_CountRelationsForEntity :: "lib \<Rightarrow> EntityStore \<Rightarrow> string \<Rightarrow> nat dbm" where
  "EntityStore_CountRelationsForEntity L es entityID = CountRelationsForEntity L entityID"

definition EntityStore_Health :: "pool_stat \<Rightarrow> EntityStore \<Rightarrow> HealthStatus dbm" where
  "EntityStore_Health stat es = Health stat"

section \<open>Writes\<close>

definition EntityStore_BatchWrite :: "lib \<Rightarrow> EntityStore \<Rightarrow> BatchWriteOp list \<Rightarrow> BatchWriteResult list dbm" where
  "EntityStore_BatchWrite L es ops = BatchWrite L (es_store es) ops"

definition EntityStore_DeleteEntity :: "lib \<Rightarrow> EntityStore \<Rightarrow> string \<Rightarrow> unit dbm" where
  "EntityStore_DeleteEntity L es i = DeleteEntity L (es_store es) i"

definition EntityStore_HardDeleteEntity :: "lib \<Rightarrow> EntityStore \<Rightarrow> string \<Rightarrow> unit dbm" where
  "EntityStore_HardDeleteEntity L es i = HardDeleteEntity L (es_store es) i"

definition EntityStore_DeleteRelationByKey :: "lib \<Rightarrow> EntityStore \<Rightarrow> string \<Rightarrow> string \<Rightarrow> string \<Rightarrow> unit dbm" where
  "EntityStore_DeleteRelationByKey L es sourceID targetID relationType =
     DeleteRelationByKey L (es_store es) sourceID targetID relationType"

definition EntityStore_UpdateRelationData :: "lib \<Rightarrow> EntityStore \<Rightarrow> string \<Rightarrow> string \<Rightarrow> string \<Rightarrow> proto_msg option \<Rightarrow>
    StoredRelation dbm" where
  "EntityStore_UpdateRelationData L es sourceID targetID relationType data =
     UpdateRelationData L sourceID targetID relationType data"

definition EntityStore_SetTags :: "lib \<Rightarrow> EntityStore \<Rightarrow> string \<Rightarrow> string list option \<Rightarrow> unit dbm" where
  "EntityStore_SetTags L es entityID tags = SetTags L entityID tags"

definition EntityStore_AddTags :: "lib \<Rightarrow> EntityStore \<Rightarrow> string \<Rightarrow> string list \<Rightarrow> unit dbm" where
  "EntityStore_AddTags L es entityID tags = AddTags L entityID tags"

definition EntityStore_RemoveTag :: "lib \<Rightarrow> EntityStore \<Rightarrow> string \<Rightarrow> string \<Rightarrow> unit dbm" where
  "EntityStore_RemoveTag L es entityID tag = RemoveTag L entityID tag"

definition EntityStore_UpdateEmbedding :: "lib \<Rightarrow> EntityStore \<Rightarrow> string \<Rightarrow> vec \<Rightarrow> unit dbm" where
  "EntityStore_UpdateEmbedding L es entityID v = UpdateEmbedding L entityID v"

section \<open>The facade's transactions\<close>

definition EntityStore_Tx :: "EntityStore \<Rightarrow> unit dbm" where
  "EntityStore_Tx es = Tx"

definition EntityTx_Commit :: "unit dbm" where
  "EntityTx_Commit = TxStore_Commit"

definition EntityTx_Rollback :: "unit dbm" where
  "EntityTx_Rollback = TxStore_Rollback"

definition EntityTx_GetEntity :: "lib \<Rightarrow> string \<Rightarrow> StoredEntity dbm" where
  "EntityTx_GetEntity L i = TxStore_GetEntity L i"

definition EntityTx_FindByAnchors :: "lib \<Rightarrow> string \<Rightarrow> AnchorQuery list \<Rightarrow> QueryFilter option \<Rightarrow> StoredEntity list dbm" where
  "EntityTx_FindByAnchors L entityType as filt = TxStore_FindByAnchors L entityType as filt"

definition EntityTx_GetRelationsFromEntity :: "lib \<Rightarrow> string \<Rightarrow> int \<Rightarrow> time option \<Rightarrow> StoredRelation list dbm" where
  "EntityTx_GetRelationsFromEntity L entityID pageSize cursor = TxStore_GetRelationsFromEntity L entityID pageSize cursor"

definition EntityTx_GetRelationsToEntity :: "lib \<Rightarrow> string \<Rightarrow> int \<Rightarrow> time option \<Rightarrow> StoredRelation list dbm" where
  "EntityTx_GetRelationsToEntity L entityID pageSize cursor = TxStore_GetRelationsToEntity L entityID pageSize cursor"

definition EntityTx_WriteEntity :: "lib \<Rightarrow> WriteEntityOp \<Rightarrow> StoredEntity dbm" where
  "EntityTx_WriteEntity L opr = TxStore_WriteEntity L opr"

definition EntityTx_UpsertRelation :: "lib \<Rightarrow> UpsertRelationOp \<Rightarrow> StoredRelation dbm" where
  "EntityTx_UpsertRelation L opr = TxStore_UpsertRelation L opr"

definition EntityTx_DeleteRelationByKey :: "lib \<Rightarrow> string \<Rightarrow> string \<Rightarrow> string \<Rightarrow> unit dbm" where
  "EntityTx_DeleteRelationByKey L sourceID targetID relationType =
     TxStore_DeleteRelationByKey L sourceID targetID relationType"

definition EntityTx_GetEventsForEntity :: "lib \<Rightarrow> string \<Rightarrow> EventQueryOpts option \<Rightarrow> Event list dbm" where
  "EntityTx_GetEventsForEntity L entityID opts = TxStore_GetEventsForEntity L entityID opts"

definition EntityTx_UpdateRelationData :: "lib \<Rightarrow> string \<Rightarrow> string \<Rightarrow> string \<Rightarrow> proto_msg option \<Rightarrow> StoredRelation dbm" where
  "EntityTx_UpdateRelationData L sourceID targetID relationType data =
     TxStore_UpdateRelationData L sourceID targetID relationType data"

section \<open>Consumers\<close>

definition EntityStore_NewConsumer :: "EntityStore \<Rightarrow> string \<Rightarrow> ConsumerConfig \<Rightarrow> Consumer" where
  "EntityStore_NewConsumer es generatedHolder cfg = NewConsumer generatedHolder cfg"

section \<open>What a client relies on\<close>

text \<open>The contract of \<open>EntityStorer\<close> on its central operations: a lookup reads, and returns the row of a live
  entity the client may see; a batch and a delete are steps of the system, and after a delete the
  identifier has a row and none of its rows is live.\<close>

locale entity_storer =
  fixes L :: lib
    and external :: bool
    and sees :: "StoredEntity \<Rightarrow> bool"
    and get :: "string \<Rightarrow> StoredEntity dbm"
    and batch :: "BatchWriteOp list \<Rightarrow> BatchWriteResult list dbm"
    and delete :: "string \<Rightarrow> unit dbm"
  assumes get_row: "get i s = (s', Inr x) \<Longrightarrow> sees x \<and> tabs s' = tabs s
      \<and> (\<exists>u e. uuid_Parse L i = Some u \<and> e \<in> set (entities (tabs s)) \<and> e_id e = u \<and> live e \<and> x = entityFromRow L e)"
    and get_quiet: "get i s = (s', rg) \<Longrightarrow> tx s = None \<Longrightarrow> tx s' = None"
    and batch_step: "batch ops s = (s', rb) \<Longrightarrow> external = (tx s \<noteq> None) \<Longrightarrow> api_step L False s s'"
    and delete_step: "delete i s = (s', rd) \<Longrightarrow> external = (tx s \<noteq> None) \<Longrightarrow> api_step L False s s'"
    and delete_dead: "delete i s = (s', Inr ()) \<Longrightarrow> \<not> external \<Longrightarrow> tx s = None \<Longrightarrow>
      tx s' = None \<and> (\<exists>u. uuid_Parse L i = Some u \<and> entity_exists (tabs s') u
        \<and> (\<forall>e\<in>set (entities (tabs s')). e_id e = u \<longrightarrow> \<not> live e))"
begin

lemma schema_batch: "batch ops s = (s', r) \<Longrightarrow> \<not> external \<Longrightarrow> tx s = None \<Longrightarrow> schema (tabs s) \<Longrightarrow> schema (tabs s')"
  using soft_run(1) r_into_rtranclp batch_step by (metis (full_types))

lemma schema_delete: "delete i s = (s', r) \<Longrightarrow> \<not> external \<Longrightarrow> tx s = None \<Longrightarrow> schema (tabs s) \<Longrightarrow> schema (tabs s')"
  using soft_run(1) r_into_rtranclp delete_step by (metis (full_types))

text \<open>A client that reads an entity twice, whatever others did in between, never goes back in time.\<close>

lemma monotonic_reads:
  assumes "get i s = (s1, Inr x)" "tx s = None" "schema (tabs s)" "api_steps L False s1 s2" "get i s2 = (s3, Inr y)"
  shows "se_ID y = se_ID x \<and> se_EntityType y = se_EntityType x \<and> se_CreatedAt y = se_CreatedAt x \<and> se_Version x \<le> se_Version y"
proof -
  obtain u e where e: "uuid_Parse L i = Some u" "e \<in> set (entities (tabs s))" "e_id e = u" "x = entityFromRow L e" "tabs s1 = tabs s"
    using get_row [OF assms(1)] by blast
  obtain e' where e': "e' \<in> set (entities (tabs s2))" "e_id e' = u" "y = entityFromRow L e'"
    using get_row [OF assms(5)] e(1) by auto
  have "tx s1 = None" "schema (tabs s1)" using get_quiet [OF assms(1,2)] e(5) assms(3) by simp_all
  note r = soft_run [OF assms(4) this]
  then obtain f where f: "f \<in> set (entities (tabs s2))" "outlives e f" using e(2,5) by (auto simp: lives_on_def)
  then have "f = e'" using e'(1,2) e(3) r(1) distinct_id by (auto simp: outlives_def)
  then show ?thesis using f(2) by (simp add: e(4) e'(3) entityFromRow_def outlives_def)
qed

text \<open>A client never reads an entity again that it has deleted.\<close>

lemma deleted_gone:
  assumes "delete i s = (s1, Inr ())" "\<not> external" "tx s = None" "schema (tabs s)" "api_steps L False s1 s2"
  shows "get i s2 \<noteq> (s3, Inr x)"
proof
  assume "get i s2 = (s3, Inr x)"
  then obtain u e' where e': "uuid_Parse L i = Some u" "e' \<in> set (entities (tabs s2))" "e_id e' = u" "live e'"
    using get_row by blast
  obtain e where e: "tx s1 = None" "e \<in> set (entities (tabs s1))" "e_id e = u" "\<not> live e"
    using delete_dead [OF assms(1-3)] e'(1) by (auto simp: entity_exists_def)
  note r = soft_run [OF assms(5) e(1) schema_delete [OF assms(1-4)]]
  then obtain f where f: "f \<in> set (entities (tabs s2))" "outlives e f" using e(2) by (auto simp: lives_on_def)
  then have "f = e'" using e' e(3) r(1) distinct_id by (auto simp: outlives_def)
  then show False using f(2) e(4) e'(4) by (simp add: outlives_def)
qed

end

section \<open>The facade keeps the contract\<close>

lemma GetEntity_contract:
  assumes "GetEntity L i s = (s', Inr x)"
  shows "tabs s' = tabs s \<and> (\<exists>u e. uuid_Parse L i = Some u \<and> e \<in> set (entities (tabs s)) \<and> e_id e = u \<and> live e \<and> x = entityFromRow L e)"
proof -
  have "readonly (GetEntity L i)" unfolding GetEntity_def q_GetEntity_def by (intro readonly_intros)
  from readonlyD [OF this assms] GetEntity_live [OF assms] show ?thesis by blast
qed

lemma GetEntity_quiet: "GetEntity L i s = (s', r) \<Longrightarrow> tx s = None \<Longrightarrow> tx s' = None"
  by (auto simp: GetEntity_def q_GetEntity_def select_one_def exec_one_def dmap_def dbind_def dwrap_def dret_def dfail_def
      parse_id_def exec_def exec_auto_def next_tick_def split: option.splits sum.splits prod.splits list.splits if_splits)

lemma mark_dead:
  "list_all (\<lambda>e. e_id e = u \<longrightarrow> \<not> live e) (map (\<lambda>e. if e_id e = u \<and> live e then e\<lparr>e_deleted_at := Some now\<rparr> else e) es)"
  by (induction es) (simp_all add: live_def)

lemma DeleteEntity_dead:
  assumes "DeleteEntity L st i s = (s', Inr ())" "\<not> st_external st" "tx s = None"
  shows "tx s' = None \<and> (\<exists>u. uuid_Parse L i = Some u \<and> entity_exists (tabs s') u
    \<and> (\<forall>e\<in>set (entities (tabs s')). e_id e = u \<longrightarrow> \<not> live e))"
proof -
  obtain u row now where u: "uuid_Parse L i = Some u" "row \<in> set (entities (tabs s))" "e_id row = u"
    and es: "entities (tabs s') = map (\<lambda>e. if e_id e = u \<and> live e then e\<lparr>e_deleted_at := Some now\<rparr> else e) (entities (tabs s))"
    by (rule DeleteEntity_effect [OF assms])
  have "map e_id (entities (tabs s')) = map e_id (entities (tabs s))" by (simp add: es)
  then have "e_id ` set (entities (tabs s')) = e_id ` set (entities (tabs s))" by (simp flip: set_map)
  then have "entity_exists (tabs s') u" using u(2,3) unfolding entity_exists_def by blast
  moreover have "list_all (\<lambda>e. e_id e = u \<longrightarrow> \<not> live e) (entities (tabs s'))"
    unfolding es by (rule mark_dead)
  ultimately show ?thesis using DeleteEntity_quiescent [OF assms] u(1) unfolding list_all_iff by blast
qed

interpretation plain: entity_storer L "st_external (es_store es)" "\<lambda>_. True" "EntityStore_GetEntity L es"
  "EntityStore_BatchWrite L es" "EntityStore_DeleteEntity L es" for L es
  unfolding EntityStore_GetEntity_def EntityStore_BatchWrite_def EntityStore_DeleteEntity_def
proof
  show "GetEntity L i s = (s', Inr x) \<Longrightarrow> True \<and> tabs s' = tabs s
    \<and> (\<exists>u e. uuid_Parse L i = Some u \<and> e \<in> set (entities (tabs s)) \<and> e_id e = u \<and> live e \<and> x = entityFromRow L e)" for i s s' x
    using GetEntity_contract by blast
qed (erule GetEntity_quiet api_step.BatchWrite [rotated] api_step.DeleteEntity [rotated] DeleteEntity_dead, assumption+)+

end
