(* ===== verification/Refinement.thy ===== *)
theory Refinement
  imports Read_Effects
begin

text \<open>
  The store as an abstract catalogue: a map from identifiers to versioned documents, without tables,
  soft-deleted rows, indexes or events. A batch of the store is a batch on the catalogue: creation at a
  free identifier, and replacement or merge at the expected version. The detailed operations refine it.
\<close>

section \<open>The specification\<close>

record document =
  dc_type :: string
  dc_data :: json
  dc_version :: int
  dc_confidence :: float64
  dc_name :: string

type_synonym catalogue = "uuid \<rightharpoonup> document"

inductive spec_write :: "lib \<Rightarrow> WriteEntityOp \<Rightarrow> catalogue \<Rightarrow> catalogue \<Rightarrow> bool" for L :: lib and we :: WriteEntityOp where
  create: "wo_Action we = WriteActionCreate \<Longrightarrow> marshalEntityData L we = Inr (ty, d) \<Longrightarrow> m u = None \<Longrightarrow>
    (wo_ID we \<noteq> [] \<longrightarrow> uuid_Parse L (wo_ID we) = Some u) \<Longrightarrow>
    spec_write L we m (m(u \<mapsto> \<lparr>dc_type = ty, dc_data = d, dc_version = 0, dc_confidence = wo_Confidence we,
      dc_name = wo_DisplayName we\<rparr>))"
| change: "is_update we \<Longrightarrow> marshalEntityData L we = Inr (ty, d) \<Longrightarrow> uuid_Parse L (wo_MatchedEntityID we) = Some u \<Longrightarrow>
    m u = Some doc \<Longrightarrow> dc_version doc = int32 (wo_Version we) \<Longrightarrow>
    spec_write L we m (m(u \<mapsto> doc\<lparr>dc_data := new_data we d (dc_data doc), dc_version := dc_version doc + 1,
      dc_confidence := wo_Confidence we, dc_name := wo_DisplayName we\<rparr>))"

inductive_cases spec_writeE: "spec_write L we m m'"

inductive spec_batch :: "lib \<Rightarrow> BatchWriteOp list \<Rightarrow> catalogue \<Rightarrow> catalogue \<Rightarrow> bool" for L :: lib where
  empty: "spec_batch L [] m m"
| entity: "bo_WriteEntity b = Some we \<Longrightarrow> spec_write L we m m1 \<Longrightarrow> spec_batch L bs m1 m2 \<Longrightarrow> spec_batch L (b # bs) m m2"
| relation: "bo_WriteEntity b = None \<Longrightarrow> bo_UpsertRelation b = Some ur \<Longrightarrow> spec_batch L bs m m2 \<Longrightarrow> spec_batch L (b # bs) m m2"

section \<open>The abstraction\<close>

definition doc_of :: "Entity \<Rightarrow> document" where
  "doc_of e = \<lparr>dc_type = e_type e, dc_data = e_data e, dc_version = e_version e, dc_confidence = e_confidence e,
     dc_name = e_display_name e\<rparr>"

definition catalogue_of :: "tables \<Rightarrow> catalogue" where
  "catalogue_of t u = map_option doc_of (find (\<lambda>e. e_id e = u \<and> live e) (entities t))"

lemma catalogue_core: "core_eq t t' \<Longrightarrow> catalogue_of t' = catalogue_of t"
proof
  fix u assume "core_eq t t'"
  then have "list_all2 same_core (entities t) (entities t')" by (simp add: core_eq_def)
  then show "catalogue_of t' u = catalogue_of t u"
    unfolding catalogue_of_def
    by (induction rule: list_all2_induct) (auto simp: same_core_def doc_of_def live_def)
qed

lemma catalogue_append:
  assumes "entities t' = entities t @ [e]" "\<not> entity_exists t (e_id e)" "live e"
  shows "catalogue_of t' = (catalogue_of t)(e_id e \<mapsto> doc_of e)" "catalogue_of t (e_id e) = None"
proof -
  have "find (\<lambda>x. e_id x = e_id e \<and> live x) (entities t) = None"
    using assms(2) unfolding find_None_iff entity_exists_def by (metis rev_image_eqI)
  then show "catalogue_of t (e_id e) = None" "catalogue_of t' = (catalogue_of t)(e_id e \<mapsto> doc_of e)"
    using assms(1,3) by (auto simp: catalogue_of_def find_append split: option.split)
qed

lemma find_live_unique:
  assumes "schema t" "e \<in> set (entities t)" "live e"
  shows "find (\<lambda>x. e_id x = e_id e \<and> live x) (entities t) = Some e"
proof -
  have "find (\<lambda>x. e_id x = e_id e \<and> live x) es = Some e" if "distinct (map e_id es)" "e \<in> set es" for es
    using that assms(3) by (induction es) (auto simp: image_iff)
  then show ?thesis using assms(1,2) by (simp add: schema_def entities_ok_def)
qed

lemma catalogue_update:
  assumes "schema t" "e \<in> set (entities t)" "P e" "\<And>x. P x \<Longrightarrow> e_id x = e_id e \<and> live x"
    "\<And>x. e_id (f x) = e_id x" "\<And>x. e_deleted_at (f x) = e_deleted_at x"
  shows "catalogue_of (update_entities P f t) = (catalogue_of t)(e_id e \<mapsto> doc_of (f e))"
    "catalogue_of t (e_id e) = Some (doc_of e)"
proof -
  have l: "live e" using assms(3,4) by blast
  have fnd: "find (\<lambda>x. e_id x = e_id e \<and> live x) (entities t) = Some e" by (rule find_live_unique [OF assms(1,2) l])
  then show "catalogue_of t (e_id e) = Some (doc_of e)" by (simp add: catalogue_of_def)
  have up: "find (\<lambda>x. e_id x = u \<and> live x) (entities (update_entities P f t))
      = map_option (\<lambda>x. if P x then f x else x) (find (\<lambda>x. e_id x = u \<and> live x) (entities t))" for u
    using find_map_if [of "\<lambda>x. e_id x = u \<and> live x" f P "entities t"] assms(5,6)
    by (auto simp: update_entities_def live_def split: option.splits)
  show "catalogue_of (update_entities P f t) = (catalogue_of t)(e_id e \<mapsto> doc_of (f e))"
  proof
    fix u
    show "catalogue_of (update_entities P f t) u = ((catalogue_of t)(e_id e \<mapsto> doc_of (f e))) u"
    proof (cases "u = e_id e")
      case True
      then show ?thesis using fnd assms(3) by (simp add: catalogue_of_def up)
    next
      case False
      have "map_option (\<lambda>x. if P x then f x else x) (find (\<lambda>x. e_id x = u \<and> live x) (entities t))
          = find (\<lambda>x. e_id x = u \<and> live x) (entities t)"
        using False assms(4) find_Some_set by (cases "find (\<lambda>x. e_id x = u \<and> live x) (entities t)") fastforce+
      then show ?thesis using False by (simp add: catalogue_of_def up)
    qed
  qed
qed

section \<open>The refinement\<close>

lemma applyCreate_refines:
  assumes "applyCreate L we s = (s', Inr ent)" "tx s = Some T" "wo_Action we = WriteActionCreate"
  shows "spec_write L we (catalogue_of (tabs s)) (catalogue_of (tabs s'))"
proof -
  obtain ty d where md: "marshalEntityData L we = Inr (ty, d)"
    using assms by (auto simp: applyCreate_def dbind_Inr_iff)
  obtain row s1 s2 s3 s4 s5 x2 x3 x4 x5 where
    1: "create_row L we ty d s = (s1, Inr row)"
    and 2: "upsertAnchors (e_id row) ty (wo_Anchors we) s1 = (s2, Inr x2)"
    and 3: "upsertTokens (e_id row) ty (wo_Tokens we) s2 = (s3, Inr x3)"
    and 4: "updateEmbedding (e_id row) (wo_Embedding we) s3 = (s4, Inr x4)"
    and 5: "insertEvents L (e_id row) [] (wo_Tags we) ty
         (EntityCreated (uuid_String L (e_id row)) ty (wo_Confidence we) (wo_Tags we) # wo_Events we) s4 = (s5, Inr x5)"
    and fin: "dret (entityFromRow L row) s5 = (s', Inr ent)"
    using assms unfolding applyCreate_def md dbind_simps case_prod_conv by (elim dbindE) blast
  note row = create_row_Inr [OF 1 assms(2)]
  have "core_eq (tabs s1) (tabs s')"
    using framesD [OF frames_upserts(1) 2] framesD [OF frames_upserts(2) 3] framesD [OF frames_upserts(3) 4]
      framesD [OF frames_insertEvents 5] fin by (auto intro: core_eq_trans)
  then have c: "catalogue_of (tabs s') = catalogue_of (tabs s1)" by (rule catalogue_core)
  have new: "live row" "doc_of row = \<lparr>dc_type = ty, dc_data = d, dc_version = 0, dc_confidence = wo_Confidence we,
      dc_name = wo_DisplayName we\<rparr>"
  proof -
    obtain u where "row = new_entity u (tx_now T) ty d (wo_Confidence we) (wo_Tags we) (wo_DisplayName we)"
      using row by blast
    then show "live row" "doc_of row = \<lparr>dc_type = ty, dc_data = d, dc_version = 0, dc_confidence = wo_Confidence we,
      dc_name = wo_DisplayName we\<rparr>" by (simp_all add: live_def doc_of_def new_entity_def)
  qed
  have "catalogue_of (tabs s1) = (catalogue_of (tabs s))(e_id row \<mapsto> doc_of row)" "catalogue_of (tabs s) (e_id row) = None"
    using catalogue_append [of "tabs s1" "tabs s" row] row new(1) by simp_all
  then show ?thesis unfolding c new(2) using row by (auto intro: spec_write.create [OF assms(3) md])
qed

lemma applyUpdateOrMerge_refines:
  assumes "applyUpdateOrMerge L we s = (s', Inr ent)" "is_update we" "schema (tabs s)"
  shows "spec_write L we (catalogue_of (tabs s)) (catalogue_of (tabs s'))"
proof -
  obtain ty d u s1 t2 row where 1: "marshalEntityData L we = Inr (ty, d)"
    "uuid_Parse L (wo_MatchedEntityID we) = Some u" "write_data we u d s = (s1, Inr ())"
    "core_eq (tabs s1) t2" "core_eq t2 (tabs s')" "row \<in> set (entities t2)"
    "e_id row = u" "live row" "ent = entityFromRow L row"
    by (rule applyUpdateOrMerge_steps [OF assms(1)])
  let ?P = "\<lambda>e. e_id e = u \<and> e_version e = int32 (wo_Version we) \<and> live e"
  obtain now where ex: "\<exists>e\<in>set (entities (tabs s)). ?P e"
    and s1: "tabs s1 = update_entities ?P (\<lambda>e. e\<lparr>e_data := new_data we d (e_data e),
        e_confidence := wo_Confidence we, e_display_name := wo_DisplayName we,
        e_version := e_version e + 1, e_updated_at := now\<rparr>) (tabs s)"
    using 1 assms(2) by (elim write_data_Inr) auto
  obtain e where e: "e \<in> set (entities (tabs s))" "?P e" using ex by blast
  have c: "catalogue_of (tabs s') = catalogue_of (tabs s1)"
    using catalogue_core [OF 1(4)] catalogue_core [OF 1(5)] by simp
  let ?f = "\<lambda>e. e\<lparr>e_data := new_data we d (e_data e), e_confidence := wo_Confidence we,
     e_display_name := wo_DisplayName we, e_version := e_version e + 1, e_updated_at := now\<rparr>"
  have cu: "catalogue_of (tabs s1) = (catalogue_of (tabs s))(e_id e \<mapsto> doc_of (?f e))"
    "catalogue_of (tabs s) (e_id e) = Some (doc_of e)"
    unfolding s1 by (rule catalogue_update [OF assms(3) e(1)]; use e(2) in simp)+
  have "doc_of (?f e) = (doc_of e)\<lparr>dc_data := new_data we d (dc_data (doc_of e)), dc_version := dc_version (doc_of e) + 1,
      dc_confidence := wo_Confidence we, dc_name := wo_DisplayName we\<rparr>" by (simp add: doc_of_def)
  then show ?thesis
    using spec_write.change [OF assms(2) 1(1,2), of "catalogue_of (tabs s)" "doc_of e"] cu e(2) c by (simp add: doc_of_def)
qed

lemma frames_relation_upsert: "frames (upsertRelation L rel)"
  unfolding upsertRelation_def q_UpsertRelation_def dmap_def parse_id_def
  by (intro frames_rules frames_exec frames_exec_one core_eq_same) (auto dest: upsert_relation_row_entities simp: dlift_def)

lemma batch_op_refines:
  assumes "batch_op L i b s = (s', Inr x)" "tx s = Some T" "schema (tabs s)"
    "spec_batch L bs (catalogue_of (tabs s')) m"
  shows "spec_batch L (b # bs) (catalogue_of (tabs s)) m"
proof (cases "bo_WriteEntity b")
  case (Some we)
  then obtain ent where w: "applyEntityWrite L we s = (s', Inr ent)"
    using assms(1) by (auto simp: batch_op_def dbind_Inr_iff)
  then have "wo_Action we = WriteActionCreate \<and> applyCreate L we s = (s', Inr ent)
      \<or> is_update we \<and> applyUpdateOrMerge L we s = (s', Inr ent)"
    by (auto simp: applyEntityWrite_def is_update_def split: if_splits)
  then have "spec_write L we (catalogue_of (tabs s)) (catalogue_of (tabs s'))"
    using applyCreate_refines [OF _ assms(2)] applyUpdateOrMerge_refines [OF _ _ assms(3)] by blast
  then show ?thesis by (rule spec_batch.entity [OF Some _ assms(4)])
next
  case None
  then obtain ur where ur: "bo_UpsertRelation b = Some ur"
    using assms(1) by (auto simp: batch_op_def split: option.splits)
  obtain sr s1 rel y where "upsertRelation L sr s = (s1, Inr rel)"
    "insertEvents L uuid_Nil (relationKeyStr L (parse_or_Nil L (sr_SourceID rel)) (parse_or_Nil L (sr_TargetID rel))
       (sr_RelationType rel)) [] [] (RelationCreated (sr_SourceID rel) (sr_TargetID rel) (sr_RelationType rel)
       (sr_Confidence rel) # ur_Events ur) s1 = (s', Inr y)"
    using assms(1) None ur by (auto simp: batch_op_def dbind_Inr_iff)
  then have "core_eq (tabs s) (tabs s')"
    using framesD [OF frames_relation_upsert] framesD [OF frames_insertEvents] core_eq_trans by blast
  then show ?thesis using spec_batch.relation [OF None ur assms(4)] catalogue_core by simp
qed

lemma executeBatchOps_refines:
  assumes "executeBatchOps L i ops s = (s', Inr rs)" "tx s = Some T" "schema (tabs s)"
  shows "spec_batch L ops (catalogue_of (tabs s)) (catalogue_of (tabs s'))"
  using assms
proof (induction ops arbitrary: i s T rs)
  case Nil
  then show ?case by (simp add: spec_batch.empty)
next
  case (Cons b ops)
  obtain s1 where 1: "evaluatePreConditions L i (bo_PreConditions b) s = (s1, Inr ())"
    using Cons.prems(1) by (auto simp: dbind_Inr_iff)
  obtain s2 x rs' where 2: "batch_op L i b s1 = (s2, Inr x)" and 3: "executeBatchOps L (Suc i) ops s2 = (s', Inr rs')"
    using Cons.prems(1) 1 by (auto simp: dbind_Inr_iff)
  obtain T1 where T1: "tx s1 = Some T1" using steadyD [OF steady_evaluatePreConditions Cons.prems(2) 1] by blast
  obtain T2 where T2: "tx s2 = Some T2" using steadyD [OF steady_batch_op T1 2] by blast
  have t1: "tabs s1 = tabs s" by (rule keeps_in_tx [where I = "\<lambda>t. t = tabs s",
        OF steady_evaluatePreConditions pres_evaluatePreConditions 1 Cons.prems(2) refl])
  then have sc1: "schema (tabs s1)" using Cons.prems(3) by simp
  have sc2: "schema (tabs s2)" by (rule keeps_in_tx [OF steady_batch_op constraints.keeps_batch_op 2 T1 sc1])
  show ?case using batch_op_refines [OF 2 T1 sc1 Cons.IH [OF 3 T2 sc2]] t1 by simp
qed

text \<open>C3. The store implements the catalogue: a batch that succeeds is a batch of the specification from
  the catalogue of the tables before to the one after (creations take a free identifier and start at
  version 0, updates and merges find the expected version and raise it by one, nothing else changes);
  a batch that fails leaves the catalogue alone, unless only the acknowledgement of its commit was lost.\<close>

theorem BatchWrite_refines:
  assumes "BatchWrite L st ops s = (s', r)" "\<not> st_external st" "tx s = None" "schema (tabs s)"
  shows "case r of Inr rs \<Rightarrow> spec_batch L ops (catalogue_of (tabs s)) (catalogue_of (tabs s'))
    | Inl e \<Rightarrow> catalogue_of (tabs s') = catalogue_of (tabs s)
        \<or> e = Wrap ''tx commit'' (ErrDb StatementFailed) \<and> spec_batch L ops (catalogue_of (tabs s)) (catalogue_of (tabs s'))"
proof (cases "in_tx False (Wrap ''tx commit'') (executeBatchOps L 0 ops) s = (s', r)")
  case True
  have st: "tx (started s) = Some \<lparr>tx_snapshot = tabs s, tx_now = clock s (tick s), tx_aborted = False\<rparr>"
    "tabs (started s) = tabs s" by (simp_all add: started_def next_tick_def)
  have ref: "spec_batch L ops (catalogue_of (tabs s)) (catalogue_of (tabs s2))"
    if "executeBatchOps L 0 ops (started s) = (s2, Inr x)" for s2 x
    using executeBatchOps_refines [OF that st(1)] assms(4) st(2) by simp
  show ?thesis
    by (cases rule: in_tx_cases [OF True steady_executeBatchOps assms(3)]) (auto simp: next_tick_def dest: ref)
next
  case False
  then have "s' = s" "\<exists>e. r = Inl e"
    using assms(1,2) by (auto simp: BatchWrite_def dbind_def dfail_def dlift_def split: if_splits sum.splits)
  then show ?thesis by auto
qed

definition demo_new :: BatchWriteOp where
  "demo_new = \<lparr>bo_WriteEntity = Some demo_create, bo_UpsertRelation = None, bo_PreConditions = []\<rparr>"

lemma demo_new_runs: "\<exists>s' rs. BatchWrite demo_lib demo_store [demo_new] demo_db = (s', Inr rs)"
  by (simp add: BatchWrite_def demo_new_def in_tx_def begin_tx_def commit_tx_def batch_op_def MaxBatchSize_def
      validateTags_def maxTagsPerEntity_def maxTagLength_def applyEntityWrite_def
      applyCreate_def marshalEntityData_def demo_create_def run_defs create_row_def
      q_InsertEntity_def insert_entity_row_def entity_exists_def q_UpsertAnchor_def anchor_key_def
      new_entity_def updateEmbedding_def NewV7_def q_InsertEvent_def empty_tables_def Let_def)

text \<open>A batch that creates an entity and then fails.\<close>

definition demo_empty :: BatchWriteOp where
  "demo_empty = \<lparr>bo_WriteEntity = None, bo_UpsertRelation = None, bo_PreConditions = []\<rparr>"

lemma demo_partial_runs:
  "\<exists>s2. executeBatchOps demo_lib 0 [demo_new, demo_empty] (started demo_db) = (s2, Inl (Msg ''empty operation'' [1]))
     \<and> length (entities (tabs s2)) = 1"
  by (simp add: demo_new_def demo_empty_def batch_op_def applyEntityWrite_def started_def
      applyCreate_def marshalEntityData_def demo_create_def run_defs create_row_def
      q_InsertEntity_def insert_entity_row_def entity_exists_def q_UpsertAnchor_def anchor_key_def
      new_entity_def updateEmbedding_def NewV7_def q_InsertEvent_def empty_tables_def Let_def)

theorem BatchWrite_atomic_witness:
  "\<exists>s2 e. executeBatchOps demo_lib 0 [demo_new, demo_empty] (started demo_db) = (s2, Inl e) \<and> entities (tabs s2) \<noteq> []
     \<and> tabs (fst (BatchWrite demo_lib demo_store [demo_new, demo_empty] demo_db)) = empty_tables"
proof -
  let ?ops = "[demo_new, demo_empty]"
  obtain s' r where b: "BatchWrite demo_lib demo_store ?ops demo_db = (s', r)" by fastforce
  obtain s2 where x: "executeBatchOps demo_lib 0 ?ops (started demo_db) = (s2, Inl (Msg ''empty operation'' [1]))"
    "length (entities (tabs s2)) = 1"
    using demo_partial_runs by blast
  from BatchWrite_atomic [OF b] x(1) have "tabs s' = empty_tables" by (auto split: sum.splits)
  moreover have "entities (tabs s2) \<noteq> []" using x(2) by auto
  ultimately show ?thesis using b x(1) by auto
qed

theorem BatchWrite_events_witness:
  "\<exists>s' rs vs. BatchWrite demo_lib demo_store [demo_new] demo_db = (s', Inr rs)
     \<and> events (tabs s') = vs \<and> map v_payload_type vs = [''entitystore.events.v1.EntityCreated'']"
proof -
  obtain s' rs where r: "BatchWrite demo_lib demo_store [demo_new] demo_db = (s', Inr rs)"
    using demo_new_runs by blast
  obtain vs where "events (tabs s') = events (tabs demo_db) @ vs" "map v_payload_type vs = concat (map op_events [demo_new])"
    using BatchWrite_events [OF r] by auto
  then show ?thesis using r by (auto simp: empty_tables_def op_events_def std_event_def demo_new_def demo_create_def)
qed

theorem BatchWrite_refines_witness:
  "\<exists>s' rs u doc. BatchWrite demo_lib demo_store [demo_new] demo_db = (s', Inr rs)
     \<and> catalogue_of (tabs s') u = Some doc \<and> dc_type doc = ''t.v1.X'' \<and> dc_version doc = 0"
proof -
  obtain s' rs where r: "BatchWrite demo_lib demo_store [demo_new] demo_db = (s', Inr rs)"
    using demo_new_runs by blast
  have "spec_batch demo_lib [demo_new] (catalogue_of (tabs demo_db)) (catalogue_of (tabs s'))"
    using BatchWrite_refines [OF r] schema_empty by simp
  then have "spec_write demo_lib demo_create (catalogue_of (tabs demo_db)) (catalogue_of (tabs s'))"
    by (auto elim!: spec_batch.cases simp: demo_new_def)
  then have "\<exists>u doc. catalogue_of (tabs s') u = Some doc \<and> dc_type doc = ''t.v1.X'' \<and> dc_version doc = 0"
    by (elim spec_writeE) (auto simp: demo_create_def is_update_def marshalEntityData_def WriteActionCreate_def
        WriteActionUpdate_def WriteActionMerge_def)
  with r show ?thesis by blast
qed

section \<open>Reading\<close>

text \<open>A lookup by identifier reads the catalogue: it succeeds exactly with the document the catalogue
  has there, and when the database answers it fails exactly when the catalogue has none, with \<open>NoRows\<close>.\<close>

theorem GetEntity_reads_catalogue:
  assumes "tx s = None" "\<not> fault s (tick s)" "uuid_Parse L i = Some u"
  shows "case catalogue_of (tabs s) u of
      Some doc \<Rightarrow> \<exists>ent. snd (GetEntity L i s) = Inr ent \<and> se_ID ent = uuid_String L u \<and> se_EntityType ent = dc_type doc
        \<and> se_Data ent = Some (dc_data doc) \<and> se_Version ent = dc_version doc \<and> se_Confidence ent = dc_confidence doc
        \<and> se_DisplayName ent = dc_name doc
    | None \<Rightarrow> snd (GetEntity L i s) = Inl (Wrap ''get entity'' (ErrDb NoRows))"
proof -
  let ?hits = "filter (\<lambda>e. e_id e = u \<and> live e) (entities (tabs s))"
  have run: "snd (GetEntity L i s) = (case ?hits of [] \<Rightarrow> Inl (Wrap ''get entity'' (ErrDb NoRows))
      | e # _ \<Rightarrow> Inr (entityFromRow L e))"
    using assms by (simp add: GetEntity_def q_GetEntity_def select_one_def run_defs split: list.split)
  show ?thesis
  proof (cases ?hits)
    case Nil
    then have "find (\<lambda>e. e_id e = u \<and> live e) (entities (tabs s)) = None" by (auto simp: find_None_iff filter_empty_conv)
    then show ?thesis using Nil run by (simp add: catalogue_of_def)
  next
    case (Cons e rest)
    then have "find (\<lambda>e. e_id e = u \<and> live e) (entities (tabs s)) = Some e" by (rule filter_find)
    moreover from this have "e_id e = u" using find_Some_set by fastforce
    ultimately show ?thesis using Cons run by (simp add: catalogue_of_def doc_of_def entityFromRow_def)
  qed
qed

theorem GetEntity_reads_catalogue_witness:
  "\<exists>ent. snd (GetEntity demo_lib ''u'' demo_state) = Inr ent \<and> se_EntityType ent = ''t.v1.X''"
proof -
  have c: "catalogue_of (tabs demo_state) 1 = Some (doc_of (new_entity 1 500 ''t.v1.X'' (JObj []) 1 [] ''n''))"
    by (simp add: catalogue_of_def demo_state_def demo_tables_def live_def new_entity_def)
  have "uuid_Parse demo_lib ''u'' = Some 1" by (simp add: unary_parse_def)
  from GetEntity_reads_catalogue [OF _ _ this, of demo_state] c show ?thesis
    by (auto simp: demo_state_def doc_of_def new_entity_def)
qed

end
