(* ===== verification/Tx_Sessions.thy ===== *)
theory Tx_Sessions
  imports Entity_Store Refinement
begin

text \<open>
  Transactions of the caller, \<open>src/store/tx.go\<close>: programs that open one with \<open>Tx\<close>, run calls of the \<open>TxStore\<close> and end it with
  \<open>Commit\<close> or the deferred \<open>Rollback\<close>, as \<open>TransactionExample\<close> of \<open>src/examples/store_example.go\<close> does. They are atomic whether the caller stops
  at an error or goes on, and a batch of entity writes is one such program.
\<close>

section \<open>Programs\<close>

datatype tx_call =
    CallGetEntity string
  | CallFindByAnchors string "AnchorQuery list" "QueryFilter option"
  | CallGetRelationsFromEntity string int "time option"
  | CallGetRelationsToEntity string int "time option"
  | CallGetEventsForEntity string "EventQueryOpts option"
  | CallWriteEntity WriteEntityOp
  | CallUpsertRelation UpsertRelationOp
  | CallDeleteRelationByKey string string string
  | CallUpdateRelationData string string string "proto_msg option"

fun run_call :: "lib \<Rightarrow> tx_call \<Rightarrow> unit dbm" where
  "run_call L (CallGetEntity i) = dmap (\<lambda>_. ()) (TxStore_GetEntity L i)"
| "run_call L (CallFindByAnchors ty as filt) = dmap (\<lambda>_. ()) (TxStore_FindByAnchors L ty as filt)"
| "run_call L (CallGetRelationsFromEntity i n c) = dmap (\<lambda>_. ()) (TxStore_GetRelationsFromEntity L i n c)"
| "run_call L (CallGetRelationsToEntity i n c) = dmap (\<lambda>_. ()) (TxStore_GetRelationsToEntity L i n c)"
| "run_call L (CallGetEventsForEntity i eo) = dmap (\<lambda>_. ()) (TxStore_GetEventsForEntity L i eo)"
| "run_call L (CallWriteEntity opr) = dmap (\<lambda>_. ()) (TxStore_WriteEntity L opr)"
| "run_call L (CallUpsertRelation opr) = dmap (\<lambda>_. ()) (TxStore_UpsertRelation L opr)"
| "run_call L (CallDeleteRelationByKey src tgt ty) = TxStore_DeleteRelationByKey L src tgt ty"
| "run_call L (CallUpdateRelationData src tgt ty dat) = dmap (\<lambda>_. ()) (TxStore_UpdateRelationData L src tgt ty dat)"

text \<open>A caller that returns at the first error, and one that ignores errors.\<close>

fun careful :: "lib \<Rightarrow> tx_call list \<Rightarrow> unit dbm" where
  "careful L [] = dret ()"
| "careful L (c # cs) = dbind (run_call L c) (\<lambda>_. careful L cs)"

fun careless :: "lib \<Rightarrow> tx_call list \<Rightarrow> unit dbm" where
  "careless L [] = dret ()"
| "careless L (c # cs) = dbind (dtry (run_call L c)) (\<lambda>_. careless L cs)"

text \<open>\<open>tx, err := es.Tx(ctx); defer tx.Rollback(ctx); \<dots>; return tx.Commit(ctx)\<close>; the deferred call does nothing after a commit.\<close>

definition tx_program :: "unit dbm \<Rightarrow> unit dbm" where
  "tx_program body s = (case Tx s of
     (s1, Inl e) \<Rightarrow> (s1, Inl e)
   | (s1, Inr _) \<Rightarrow> (case body s1 of
       (s2, Inl e) \<Rightarrow> (fst (TxStore_Rollback s2), Inl e)
     | (s2, Inr _) \<Rightarrow> (case TxStore_Commit s2 of (s3, r) \<Rightarrow> (fst (TxStore_Rollback s3), r))))"

lemma commit_ends: "tx (fst (commit_tx s)) = None"
  by (auto simp: commit_tx_def rollback_tx_def split: option.split)

lemma tx_program_in_tx: "tx_program body s = in_tx False (\<lambda>e. e) body s"
proof -
  have r: "rollback_tx s3 = s3" if "commit_tx s2 = (s3, r)" for s2 s3 r
    using commit_ends [of s2] that by (simp add: rollback_tx_def)
  obtain s1 r1 where 1: "begin_tx s = (s1, r1)" by fastforce
  obtain s2 r2 where 2: "body s1 = (s2, r2)" by fastforce
  obtain s3 r3 where 3: "commit_tx s2 = (s3, r3)" by fastforce
  show ?thesis using 1 2 3 r [OF 3]
    by (cases r1; cases r2; cases r3) (simp_all add: tx_program_def in_tx_def Tx_def TxStore_Rollback_def TxStore_Commit_def dwrap_def)
qed

section \<open>Calls stay inside the transaction\<close>

lemma steady_run_call [steady_intros]: "steady (run_call L c)"
  by (cases c) (simp_all only: run_call.simps TxStore_GetEntity_def TxStore_FindByAnchors_def TxStore_GetRelationsFromEntity_def
      TxStore_GetRelationsToEntity_def TxStore_GetEventsForEntity_def TxStore_WriteEntity_def TxStore_UpsertRelation_def
      TxStore_DeleteRelationByKey_def TxStore_UpdateRelationData_def update_relation_data_def q_GetEntity_def q_GetRelationsFromEntity_def
      q_GetRelationsToEntity_def q_GetEventsForEntity_def q_UpdateRelationData_def select_one_def select_limit_def Let_def,
      (intro steady_intros)+)

lemma steady_careful: "steady (careful L cs)"
  by (induction cs) (simp_all only: careful.simps, (intro steady_intros; assumption?)+)

lemma steady_careless: "steady (careless L cs)"
  by (induction cs) (simp_all only: careless.simps, (intro steady_intros; assumption?)+)

section \<open>Atomicity\<close>

text \<open>C23. Transactions of the caller are atomic: a program that opens a transaction, makes any calls of the \<open>TxStore\<close> and commits
  either commits all of their effects or leaves the tables as they were, unless only the acknowledgement of the commit was lost; this holds
  for a caller that stops at the first error, which commits nothing in that case, and for one that ignores errors, whose
  commit succeeds only if no statement of the transaction failed.\<close>

theorem tx_program_atomic:
  assumes "tx_program (if stop then careful L calls else careless L calls) s = (s', r)" "tx s = None"
  defines "body \<equiv> if stop then careful L calls else careless L calls"
  shows "tx s' = None \<and> (case r of
      Inr _ \<Rightarrow> \<exists>s2 T. body (started s) = (s2, Inr ()) \<and> tx s2 = Some T \<and> \<not> tx_aborted T \<and> tabs s' = tabs s2
    | Inl e \<Rightarrow> tabs s' = tabs s \<or> e = ErrDb StatementFailed \<and> (\<exists>s2. body (started s) = (s2, Inr ()) \<and> tabs s' = tabs s2))"
proof -
  have st: "steady body" unfolding body_def using steady_careful steady_careless by simp
  have p: "tx_program body s = (s', r)" using assms(1) by (simp add: body_def)
  show ?thesis
  proof (cases "fault s (tick s)")
    case True
    then have "s' = next_tick s" "\<exists>e. r = Inl e" using p by (auto simp: tx_program_def Tx_def dwrap_def begin_tx_def)
    then show ?thesis using assms(2) by (auto simp: next_tick_def)
  next
    case False
    then have b: "Tx s = (started s, Inr ())" by (simp add: Tx_def dwrap_def begin_tx_def started_def)
    obtain s2 r2 where s2: "body (started s) = (s2, r2)" by fastforce
    obtain T where T: "tx s2 = Some T" "tx_snapshot T = tabs s"
      using steadyD [OF st _ s2] by (fastforce simp: started_def same_tx_def)
    show ?thesis
    proof (cases r2)
      case (Inl e)
      then have "s' = rollback_tx s2" "r = Inl e" using p b s2 by (simp_all add: tx_program_def TxStore_Rollback_def)
      then show ?thesis using T by (simp add: rollback_tx_def)
    next
      case (Inr u)
      obtain s3 r3 where c: "commit_tx s2 = (s3, r3)" by fastforce
      then have "s' = s3" "r = r3" using p b s2 Inr commit_ends [of s2]
        by (simp_all add: tx_program_def TxStore_Rollback_def TxStore_Commit_def rollback_tx_def)
      then show ?thesis using c T s2 Inr
        by (auto simp: commit_tx_def rollback_tx_def next_tick_def split: if_splits)
    qed
  qed
qed

theorem tx_program_atomic_witness:
  "\<exists>s2 e. careful demo_lib [CallWriteEntity demo_create, CallGetEntity ''x''] (started demo_db) = (s2, Inl e)
     \<and> tabs (fst (tx_program (careful demo_lib [CallWriteEntity demo_create, CallGetEntity ''x'']) demo_db)) = empty_tables"
proof -
  let ?calls = "[CallWriteEntity demo_create, CallGetEntity ''x'']"
  obtain s1 ent where "applyCreate demo_lib demo_create (started demo_db) = (s1, Inr ent)" using demo_create_runs by blast
  then have "run_call demo_lib (CallWriteEntity demo_create) (started demo_db) = (s1, Inr ())"
    by (simp add: TxStore_WriteEntity_def applyEntityWrite_def demo_create_def dmap_def dbind_def dret_def)
  moreover have "\<exists>e. run_call demo_lib (CallGetEntity ''x'') s1 = (s1, Inl e)"
    by (simp add: TxStore_GetEntity_def parse_id_def unary_parse_def dmap_def dbind_def dfail_def)
  ultimately obtain e where f: "careful demo_lib ?calls (started demo_db) = (s1, Inl e)"
    by (auto simp del: run_call.simps simp: dbind_def)
  obtain s' r where r: "tx_program (if True then careful demo_lib ?calls else careless demo_lib ?calls) demo_db = (s', r)" by fastforce
  from tx_program_atomic [OF r] f have "tabs s' = empty_tables" by (auto split: sum.splits)
  with r f show ?thesis by auto
qed

section \<open>The example\<close>

definition struct_msg :: "(string \<times> json) list \<Rightarrow> proto_msg" where
  "struct_msg kvs = OtherMessage ''google.protobuf.Struct'' (JObj kvs)"

definition example_relation :: "string \<Rightarrow> UpsertRelationOp" where
  "example_relation personID =
     \<lparr>ur_SourceID = personID, ur_TargetID = ''some-company-id'', ur_RelationType = ''works_at'', ur_Confidence = f64 (17 / 20),
      ur_Evidence = [], ur_Implied = False, ur_SourceURN = [], ur_Data = None, ur_Events = []\<rparr>"

text \<open>\<open>log.Fatal\<close> ends the process without the deferred call; the server then rolls the transaction back.\<close>

definition TransactionExample :: "lib \<Rightarrow> unit dbm" where
  "TransactionExample L = tx_program
     (dbind (TxStore_WriteEntity L
        \<lparr>wo_Action = WriteActionCreate, wo_ID = [],
         wo_Data = Some (struct_msg [(''email'', JStr ''bob@example.com''), (''full_name'', JStr ''Bob Smith'')]),
         wo_Confidence = f64 (9 / 10), wo_Tags = [], wo_MatchedEntityID = [],
         wo_Anchors = [\<lparr>aq_Field = ''email'', aq_Value = ''bob@example.com''\<rparr>], wo_Tokens = [], wo_Embedding = None,
         wo_DisplayName = [], wo_Version = 0, wo_Events = []\<rparr>) (\<lambda>person.
      dmap (\<lambda>_. ()) (TxStore_UpsertRelation L (example_relation (se_ID person)))))"

text \<open>The target of its relation is no UUID, so the example never commits.\<close>

lemma bad_target_fails:
  assumes "uuid_Parse L (ur_TargetID opr) = None"
  shows "snd (TxStore_UpsertRelation L opr s) \<noteq> Inr rel"
proof
  assume "snd (TxStore_UpsertRelation L opr s) = Inr rel"
  then obtain s' where "TxStore_UpsertRelation L opr s = (s', Inr rel)" by (metis prod.collapse)
  then show False using assms
    by (auto simp: TxStore_UpsertRelation_def upsertRelation_def dbind_Inr_iff toStoredRelation_def parse_id_def dlift_Inr_iff bind_res_Inr_iff)
qed

lemma in_tx_body: "in_tx False wc body s = (s', Inr x) \<Longrightarrow> \<exists>s1 s2. body s1 = (s2, Inr x)"
  by (auto simp: in_tx_def split: prod.splits sum.splits)

theorem TransactionExample_fails:
  assumes "uuid_Parse L ''some-company-id'' = None"
  shows "\<exists>s' e. TransactionExample L s = (s', Inl e)"
proof (rule ccontr)
  have bad: "TxStore_UpsertRelation L (example_relation i) s1 \<noteq> (s2, Inr rel)" for i s1 s2 rel
    using bad_target_fails [of L "example_relation i" s1 rel] assms by (auto simp: example_relation_def)
  assume "\<not> ?thesis"
  then obtain s' where "TransactionExample L s = (s', Inr ())" by (metis old.sum.exhaust old.unit.exhaust prod.collapse)
  then show False
    unfolding TransactionExample_def tx_program_in_tx by (auto dest!: in_tx_body simp: dbind_Inr_iff dmap_Inr_iff bad)
qed

text \<open>A batch of entity writes.\<close>

lemma batch_is_careful:
  assumes "\<forall>opr\<in>set ops. bo_PreConditions opr = [] \<and> bo_WriteEntity opr \<noteq> None"
  shows "fst (executeBatchOps L i ops s) = fst (careful L (map (\<lambda>opr. CallWriteEntity (the (bo_WriteEntity opr))) ops) s)
    \<and> (isl (snd (executeBatchOps L i ops s)) \<longleftrightarrow> isl (snd (careful L (map (\<lambda>opr. CallWriteEntity (the (bo_WriteEntity opr))) ops) s)))"
  using assms
proof (induction ops arbitrary: i s)
  case (Cons opr ops)
  then obtain we where we: "bo_WriteEntity opr = Some we" "bo_PreConditions opr = []" by auto
  obtain s1 r1 where 1: "applyEntityWrite L we s = (s1, r1)" by fastforce
  show ?case
  proof (cases r1)
    case (Inl e)
    then show ?thesis using we 1
      by (simp add: batch_op_def dbind_def dwrap_def dmap_def dret_def TxStore_WriteEntity_def)
  next
    case (Inr ent)
    then have "batch_op L i opr s = (s1, Inr \<lparr>br_Entity = Some ent, br_Relation = None\<rparr>)"
      "run_call L (CallWriteEntity we) s = (s1, Inr ())"
      using we 1 by (simp_all add: batch_op_def dbind_def dwrap_def dmap_def dret_def TxStore_WriteEntity_def)
    moreover have "fst (executeBatchOps L (Suc i) ops s1) = fst (careful L (map (\<lambda>opr. CallWriteEntity (the (bo_WriteEntity opr))) ops) s1)
      \<and> (isl (snd (executeBatchOps L (Suc i) ops s1)) \<longleftrightarrow> isl (snd (careful L (map (\<lambda>opr. CallWriteEntity (the (bo_WriteEntity opr))) ops) s1)))"
      using Cons by simp
    ultimately show ?thesis using we
      by (auto simp del: run_call.simps simp: dbind_def dret_def split: prod.splits sum.splits)
  qed
qed (simp add: dret_def)

text \<open>A batch of entity writes without preconditions, within its limits, does to the database what the transaction of the same
  writes does.\<close>

theorem BatchWrite_is_tx_program:
  assumes "\<forall>opr\<in>set ops. bo_PreConditions opr = [] \<and> bo_WriteEntity opr \<noteq> None"
    and "\<not> st_external st" "length ops \<le> MaxBatchSize" "validate_ops 0 ops = Inr ()"
  shows "fst (BatchWrite L st ops s) = fst (tx_program (careful L (map (\<lambda>opr. CallWriteEntity (the (bo_WriteEntity opr))) ops)) s)"
proof -
  let ?batch = "executeBatchOps L 0 ops" and ?calls = "careful L (map (\<lambda>opr. CallWriteEntity (the (bo_WriteEntity opr))) ops)"
  have b: "BatchWrite L st ops s = in_tx False (Wrap ''tx commit'') ?batch s"
    using assms(2-4) by (simp add: BatchWrite_def dbind_def dlift_def dret_def)
  obtain s1 r1 where 1: "begin_tx s = (s1, r1)" by fastforce
  obtain s2 r2 q2 where 2: "?batch s1 = (s2, r2)" "?calls s1 = (s2, q2)" "isl r2 \<longleftrightarrow> isl q2"
    using batch_is_careful [OF assms(1), of L 0 s1] by (metis fst_conv snd_conv prod.collapse)
  obtain s3 r3 where 3: "commit_tx s2 = (s3, r3)" by fastforce
  show ?thesis unfolding b tx_program_in_tx
    using 1 2 3 by (cases r1; cases r2; cases q2; cases r3) (simp_all add: in_tx_def dwrap_def)
qed

text \<open>Writes of relations differ: a batch records \<open>RelationCreated\<close>, the transaction's own calls record nothing.\<close>

lemma emits_none:
  assumes "emits m []" "tx s = Some T" "m s = (s', Inr x)"
  shows "events (tabs s') = events (tabs s)"
proof -
  obtain vs where "events (tabs s') = events (tabs s) @ vs" "map v_payload_type vs = []"
    using assms unfolding emits_def by blast
  then show ?thesis by simp
qed

theorem TxStore_relations_silent:
  assumes "tx s = Some T"
  shows "TxStore_UpsertRelation L opr s = (s', Inr rel) \<Longrightarrow> events (tabs s') = events (tabs s)"
    "TxStore_UpdateRelationData L src tgt ty dat s = (s', Inr rel) \<Longrightarrow> events (tabs s') = events (tabs s)"
proof -
  have "emits (TxStore_UpsertRelation L opr) []" unfolding TxStore_UpsertRelation_def upsertRelation_def
    by (intro emits_seq emits_rules emits_parse_id emits_write_stmts)
  then show "TxStore_UpsertRelation L opr s = (s', Inr rel) \<Longrightarrow> events (tabs s') = events (tabs s)"
    using assms by (rule emits_none)
next
  have "emits (q_UpdateRelationData a b c d e) []" for a b c d e
    unfolding q_UpdateRelationData_def Let_def by (rule emits_exec_one) auto
  then have "emits (TxStore_UpdateRelationData L src tgt ty dat) []" unfolding TxStore_UpdateRelationData_def update_relation_data_def
    by (intro emits_seq emits_rules emits_parse_id)
  then show "TxStore_UpdateRelationData L src tgt ty dat s = (s', Inr rel) \<Longrightarrow> events (tabs s') = events (tabs s)"
    using assms by (rule emits_none)
qed

theorem BatchWrite_is_tx_program_witness:
  "fst (BatchWrite demo_lib demo_store [demo_new] demo_db) = fst (tx_program (careful demo_lib [CallWriteEntity demo_create]) demo_db)"
  using BatchWrite_is_tx_program [of "[demo_new]" demo_store demo_lib demo_db]
  by (simp add: demo_new_def demo_create_def MaxBatchSize_def validateTags_def maxTagsPerEntity_def maxTagLength_def)

end
