(* ===== verification/Event_Trail.thy ===== *)
theory Event_Trail
  imports Tx_Sessions
begin

text \<open>
  The event log as an audit trail: \<open>src/store/store_write.go\<close> writes an event with every write of an entity, in
  the same transaction. This theory shows what that amounts to over whole runs of \<open>BatchWrite\<close>, the deletions, the tag and relation
  operations, caller's transactions and consumers: the rows of \<open>entities\<close> and the log never disagree.
\<close>

section \<open>Agreement of rows and log\<close>

text \<open>The events of an entity with one of some payload types, in the order of the log.\<close>

definition logged :: "tables \<Rightarrow> uuid \<Rightarrow> string list \<Rightarrow> EntityEvent list" where
  "logged t u names = filter (\<lambda>v. v_entity_id v = Some u \<and> v_payload_type v \<in> set names) (events t)"

definition created_event :: string where "created_event = ''entitystore.events.v1.EntityCreated''"
definition updated_event :: string where "updated_event = ''entitystore.events.v1.EntityUpdated''"
definition merged_event :: string where "merged_event = ''entitystore.events.v1.EntityMerged''"
definition deleted_event :: string where "deleted_event = ''entitystore.events.v1.EntityDeleted''"
definition hard_deleted_event :: string where "hard_deleted_event = ''entitystore.events.v1.EntityHardDeleted''"

lemmas event_names = created_event_def updated_event_def merged_event_def deleted_event_def hard_deleted_event_def

definition row_audited :: "tables \<Rightarrow> Entity \<Rightarrow> bool" where
  "row_audited t e \<longleftrightarrow> map v_entity_type (logged t (e_id e) [created_event]) = [e_type e]
     \<and> e_version e = int (length (logged t (e_id e) [updated_event, merged_event]))
     \<and> length (logged t (e_id e) [deleted_event]) = (if live e then 0 else 1)"

definition audited :: "tables \<Rightarrow> bool" where
  "audited t \<longleftrightarrow>
     (\<forall>e\<in>set (entities t). e_id e \<noteq> uuid_Nil \<and> logged t (e_id e) [hard_deleted_event] = [] \<longrightarrow> row_audited t e)
   \<and> (\<forall>v\<in>set (events t). \<forall>u. v_entity_id v = Some u \<and> u \<noteq> uuid_Nil \<longrightarrow>
        entity_exists t u \<or> logged t u [hard_deleted_event] \<noteq> [])"

lemma logged_append:
  "events t' = events t @ vs \<Longrightarrow>
     logged t' u ns = logged t u ns @ filter (\<lambda>v. v_entity_id v = Some u \<and> v_payload_type v \<in> set ns) vs"
  by (simp add: logged_def)

lemma logged_other:
  "events t' = events t @ vs \<Longrightarrow> \<forall>v\<in>set vs. v_entity_id v \<noteq> Some u \<or> v_payload_type v \<notin> set ns \<Longrightarrow> logged t' u ns = logged t u ns"
  by (auto simp: logged_def filter_empty_conv)

lemma logged_unknown:
  "audited t \<Longrightarrow> u \<noteq> uuid_Nil \<Longrightarrow> \<not> entity_exists t u \<Longrightarrow> logged t u [hard_deleted_event] = [] \<Longrightarrow> logged t u ns = []"
  unfolding audited_def logged_def filter_empty_conv by blast

lemma audited_row:
  "audited t \<Longrightarrow> e \<in> set (entities t) \<Longrightarrow> e_id e \<noteq> uuid_Nil \<Longrightarrow> logged t (e_id e) [hard_deleted_event] = [] \<Longrightarrow> row_audited t e"
  by (simp add: audited_def)

lemma audited_event:
  "audited t \<Longrightarrow> v \<in> set (events t) \<Longrightarrow> v_entity_id v = Some u \<Longrightarrow> u \<noteq> uuid_Nil \<Longrightarrow> entity_exists t u \<or> logged t u [hard_deleted_event] \<noteq> []"
  by (simp add: audited_def)

text \<open>Rows may change in what the log does not speak of.\<close>

lemma core_eq_ids: "core_eq t t' \<Longrightarrow> map e_id (entities t') = map e_id (entities t)"
  unfolding core_eq_def by (induction rule: list_all2_induct) (auto simp: same_core_def)

lemma core_eq_exists: "core_eq t t' \<Longrightarrow> entity_exists t' u = entity_exists t u"
  using core_eq_ids [of t t'] unfolding entity_exists_def by (metis set_map)

lemma same_core_live: "same_core e e' \<Longrightarrow> live e' = live e"
  by (simp add: same_core_def live_def)

lemma row_audited_core:
  "row_audited t e \<Longrightarrow> same_core e e' \<Longrightarrow> events t' = events t \<Longrightarrow> row_audited t' e'"
  by (simp add: row_audited_def logged_def same_core_def live_def)

lemma audited_core:
  assumes "audited t" "core_eq t t'" "events t' = events t"
  shows "audited t'"
proof -
  have l: "logged t' u ns = logged t u ns" for u ns by (simp add: logged_def assms(3))
  have "row_audited t' e'" if e': "e' \<in> set (entities t')" "e_id e' \<noteq> uuid_Nil" "logged t' (e_id e') [hard_deleted_event] = []" for e'
  proof -
    obtain e where e: "e \<in> set (entities t)" "same_core e e'" using core_eq_member [OF assms(2) e'(1)] by blast
    then have "row_audited t e" using audited_row [OF assms(1) e(1)] e'(2,3) l by (simp add: same_core_def)
    then show ?thesis by (rule row_audited_core [OF _ e(2) assms(3)])
  qed
  moreover have "entity_exists t' u \<or> logged t' u [hard_deleted_event] \<noteq> []" if "v \<in> set (events t')" "v_entity_id v = Some u" "u \<noteq> uuid_Nil" for v u
    using audited_event [OF assms(1), of v u] that assms(3) core_eq_exists [OF assms(2)] l by simp
  ultimately show ?thesis unfolding audited_def by blast
qed

section \<open>What keeps them in agreement\<close>

text \<open>An event about another entity, or about none, changes nothing for a row.\<close>

lemma row_audited_other:
  assumes "row_audited t e" "events t' = events t @ vs" "\<forall>v\<in>set vs. v_entity_id v \<noteq> Some (e_id e)"
  shows "row_audited t' e"
  using assms(1) logged_other [OF assms(2), of "e_id e"] assms(3) by (simp add: row_audited_def)

lemma hard_deleted_stays:
  "events t' = events t @ vs \<Longrightarrow> logged t u [hard_deleted_event] \<noteq> [] \<Longrightarrow> logged t' u [hard_deleted_event] \<noteq> []"
  by (simp add: logged_append)

definition tags_id :: "uuid \<Rightarrow> uuid option" where
  "tags_id u = (if u \<noteq> uuid_Nil then Some u else None)"

text \<open>The three ways an entity enters, changes and leaves, with the events written for it.\<close>

lemma audited_create:
  assumes "audited t" "\<not> entity_exists t (e_id row)" "e_version row = 0" "live row"
    and "v_payload_type v = created_event" "v_entity_type v = e_type row"
    and vs: "\<forall>w\<in>set (v # vs). v_entity_id w = tags_id (e_id row)"
      "\<forall>w\<in>set vs. v_payload_type w \<notin> {created_event, updated_event, merged_event, deleted_event, hard_deleted_event}"
  shows "audited (t\<lparr>entities := entities t @ [row], events := events t @ v # vs\<rparr>)" (is "audited ?t")
proof -
  have ev: "events ?t = events t @ (v # vs)" by simp
  have "row_audited ?t e" if e: "e \<in> set (entities ?t)" "e_id e \<noteq> uuid_Nil" "logged ?t (e_id e) [hard_deleted_event] = []" for e
  proof (cases "e \<in> set (entities t)")
    case True
    then have "e_id e \<noteq> e_id row" using assms(2) unfolding entity_exists_def by (metis imageI)
    then have o: "\<forall>w\<in>set (v # vs). v_entity_id w \<noteq> Some (e_id e)" using vs(1) by (auto simp: tags_id_def)
    have "logged t (e_id e) [hard_deleted_event] = []" using e(3) hard_deleted_stays [OF ev] by blast
    from audited_row [OF assms(1) True e(2) this] show ?thesis by (rule row_audited_other [OF _ ev o])
  next
    case False
    then have r: "e = row" using e(1) by simp
    have "logged t (e_id row) [hard_deleted_event] = []" using e(3) hard_deleted_stays [OF ev] r by blast
    from logged_unknown [OF assms(1) _ assms(2) this] e(2) r
    have l: "logged ?t (e_id row) ns = filter (\<lambda>w. v_payload_type w \<in> set ns) (v # vs)" for ns
      using vs(1) e(2) r by (auto simp: logged_append [OF ev] tags_id_def intro!: filter_cong)
    have n: "filter (\<lambda>w. v_payload_type w \<in> set ns) vs = []"
      if "set ns \<subseteq> {created_event, updated_event, merged_event, deleted_event, hard_deleted_event}" for ns
      using vs(2) that by (auto simp: filter_empty_conv)
    show ?thesis unfolding r row_audited_def l
      using n [of "[created_event]"] n [of "[updated_event, merged_event]"] n [of "[deleted_event]"] assms(3-6)
      by (simp add: event_names)
  qed
  moreover have "entity_exists ?t u \<or> logged ?t u [hard_deleted_event] \<noteq> []"
    if w: "w \<in> set (events ?t)" "v_entity_id w = Some u" "u \<noteq> uuid_Nil" for w u
  proof (cases "w \<in> set (events t)")
    case True
    from audited_event [OF assms(1) this w(2,3)] hard_deleted_stays [OF ev] show ?thesis by (auto simp: entity_exists_def)
  next
    case False
    then have "w \<in> set (v # vs)" using w(1) by simp
    then show ?thesis using vs(1) w(2) by (auto simp: tags_id_def entity_exists_def split: if_splits)
  qed
  ultimately show ?thesis unfolding audited_def by blast
qed

lemma audited_change:
  assumes "audited t" "entity_exists t u" "\<And>e. e_id (f e) = e_id e"
    and P: "\<And>e. e \<in> set (entities t) \<Longrightarrow> P e \<longleftrightarrow> e_id e = u"
    and vs: "\<forall>w\<in>set vs. v_entity_id w = tags_id u"
    and row: "\<And>e. row_audited t e \<Longrightarrow> e_id e = u \<Longrightarrow> P e \<Longrightarrow> u \<noteq> uuid_Nil
      \<Longrightarrow> row_audited ((update_entities P f t)\<lparr>events := events t @ vs\<rparr>) (f e)"
  shows "audited ((update_entities P f t)\<lparr>events := events t @ vs\<rparr>)" (is "audited ?t")
proof -
  have ev: "events ?t = events t @ vs" by simp
  have ex: "entity_exists ?t w = entity_exists t w" for w
    using entity_exists_update [of f P t w] assms(3) by (simp add: entity_exists_def)
  have "row_audited ?t e'" if e': "e' \<in> set (entities ?t)" "e_id e' \<noteq> uuid_Nil" "logged ?t (e_id e') [hard_deleted_event] = []" for e'
  proof -
    obtain e where e: "e \<in> set (entities t)" "e' = (if P e then f e else e)" using e'(1) by (auto simp: update_entities_def)
    have id: "e_id e' = e_id e" using e(2) assms(3) by simp
    have "logged t (e_id e) [hard_deleted_event] = []" using e'(3) hard_deleted_stays [OF ev] id by metis
    with e'(2) have a: "row_audited t e" using audited_row [OF assms(1) e(1)] id by simp
    show ?thesis
    proof (cases "P e")
      case True
      then show ?thesis using row [OF a] P [OF e(1)] e(2) e'(2) id by simp
    next
      case False
      then have "\<forall>w\<in>set vs. v_entity_id w \<noteq> Some (e_id e)" using vs P [OF e(1)] by (auto simp: tags_id_def)
      from row_audited_other [OF a ev this] show ?thesis using e(2) False by simp
    qed
  qed
  moreover have "entity_exists ?t w \<or> logged ?t w [hard_deleted_event] \<noteq> []"
    if v: "v \<in> set (events ?t)" "v_entity_id v = Some w" "w \<noteq> uuid_Nil" for v w
  proof (cases "v \<in> set (events t)")
    case True
    from audited_event [OF assms(1) this v(2,3)] hard_deleted_stays [OF ev] show ?thesis unfolding ex by blast
  next
    case False
    then have "v \<in> set vs" using v(1) by simp
    then show ?thesis using vs v(2) assms(2) unfolding ex by (auto simp: tags_id_def split: if_splits)
  qed
  ultimately show ?thesis unfolding audited_def by blast
qed

lemma audited_hard_delete:
  assumes "audited t" "events t' = events t @ [v]" "v_payload_type v = hard_deleted_event" "v_entity_id v = tags_id u"
    and "entities t' = filter (\<lambda>e. e_id e \<noteq> u) (entities t)"
  shows "audited t'"
proof -
  have "row_audited t' e" if e: "e \<in> set (entities t')" "e_id e \<noteq> uuid_Nil" "logged t' (e_id e) [hard_deleted_event] = []" for e
  proof -
    have m: "e \<in> set (entities t)" "e_id e \<noteq> u" using e(1) assms(5) by auto
    then have o: "\<forall>w\<in>set [v]. v_entity_id w \<noteq> Some (e_id e)" using assms(4) by (auto simp: tags_id_def)
    have "logged t (e_id e) [hard_deleted_event] = []" using e(3) hard_deleted_stays [OF assms(2)] by blast
    from audited_row [OF assms(1) m(1) e(2) this] show ?thesis by (rule row_audited_other [OF _ assms(2) o])
  qed
  moreover have "entity_exists t' w \<or> logged t' w [hard_deleted_event] \<noteq> []"
    if x: "x \<in> set (events t')" "v_entity_id x = Some w" "w \<noteq> uuid_Nil" for x w
  proof (cases "w = u")
    case True
    then show ?thesis using assms(3,4) x(3) by (simp add: logged_append [OF assms(2)] tags_id_def)
  next
    case False
    then have "x \<in> set (events t)" using x assms(2,4) by (auto simp: tags_id_def split: if_splits)
    from audited_event [OF assms(1) this x(2,3)] hard_deleted_stays [OF assms(2)] False
    show ?thesis using assms(5) by (auto simp: entity_exists_def)
  qed
  ultimately show ?thesis unfolding audited_def by blast
qed

section \<open>Programs that leave entities and events alone\<close>

definition quiet :: "tables \<Rightarrow> tables \<Rightarrow> bool" where
  "quiet t0 t \<longleftrightarrow> core_eq t0 t \<and> events t = events t0"

lemma quiet_refl [simp]: "quiet t t"
  by (simp add: quiet_def)

lemma quiet_step: "quiet t0 t \<Longrightarrow> core_eq t t' \<Longrightarrow> events t' = events t \<Longrightarrow> quiet t0 t'"
  by (auto simp: quiet_def intro: core_eq_trans)

lemma quiet_trans: "quiet t0 t \<Longrightarrow> quiet t t' \<Longrightarrow> quiet t0 t'"
  by (auto simp: quiet_def intro: core_eq_trans)

lemma quiet_same: "quiet t0 t \<Longrightarrow> entities t' = entities t \<and> events t' = events t \<Longrightarrow> quiet t0 t'"
  by (simp add: quiet_def core_eq_def)

lemma quiet_update: "quiet t0 t \<Longrightarrow> (\<And>e. same_core e (f e)) \<Longrightarrow> quiet t0 (update_entities P f t)"
  by (erule quiet_step, erule core_eq_update) (simp add: update_entities_def)

lemma quiet_entity_stmts:
  "pres (quiet t0) (q_SetEntityTags u mts)" "pres (quiet t0) (q_AddEntityTags u ts)"
  "pres (quiet t0) (q_RemoveEntityTag u tag)" "pres (quiet t0) (q_UpdateEntityEmbedding u vec)"
  unfolding q_SetEntityTags_def q_AddEntityTags_def q_RemoveEntityTag_def q_UpdateEntityEmbedding_def
  by (rule pres_exec, auto intro!: quiet_update simp: same_core_def split: option.splits if_splits)+

lemma pres_quiet_exec:
  "(\<And>now uid t t' x. f now uid t = Inr (t', x) \<Longrightarrow> entities t' = entities t \<and> events t' = events t) \<Longrightarrow> pres (quiet t0) (exec f)"
  by (rule pres_exec) (blast intro: quiet_same)

lemma pres_quiet_exec_one:
  "(\<And>now uid t t' x. f now uid t = Inr (t', x) \<Longrightarrow> entities t' = entities t \<and> events t' = events t) \<Longrightarrow> pres (quiet t0) (exec_one f)"
  by (rule pres_exec_one) (blast intro: quiet_same)

interpretation quiet: plain_invariant "quiet t0" for t0
  by unfold_locales
    (rule quiet_entity_stmts | unfold write_stmts Let_def, rule pres_quiet_exec pres_quiet_exec_one,
      auto simp: update_consumers_def dest: upsert_relation_row_entities upsert_relation_row_events
        split: if_splits option.splits; fail)+

text \<open>One quiet step inside a transaction.\<close>

lemma quiet_in_tx:
  assumes "m s = (s', r)" "tx s = Some T" "steady m" "\<And>t0. pres (quiet t0) m"
  shows "(\<exists>T'. tx s' = Some T') \<and> quiet (tabs s) (tabs s')"
  using steadyD [OF assms(3,2,1)] keeps_in_tx [OF assms(3,4,1,2), of "tabs s"] by auto

lemma events_in_tx:
  assumes "insertEvents L u [] ts ty evts s = (s', Inr ())" "tx s = Some T"
  obtains vs where "tx s' = Some T" "entities (tabs s') = entities (tabs s)" "events (tabs s') = events (tabs s) @ vs"
    "map v_payload_type vs = map MessageName evts"
    "\<forall>v\<in>set vs. v_entity_id v = tags_id u \<and> v_entity_type v = ty"
proof -
  obtain vs where vs: "tx s' = Some T" "tabs s' = (tabs s)\<lparr>events := events (tabs s) @ vs\<rparr>"
    "list_all2 (event_row_for L u [] ts ty (tx_now T)) evts vs" using insertEvents_appends [OF assms] by blast
  have "map v_payload_type vs = map MessageName evts \<and> (\<forall>v\<in>set vs. v_entity_id v = tags_id u \<and> v_entity_type v = ty)"
    using vs(3) by (induction rule: list_all2_induct) (auto simp: event_row_for_def tags_id_def)
  with vs show thesis by (intro that [of vs]) simp_all
qed

section \<open>Writes of an entity\<close>

text \<open>The caller's own events of a write do not pretend to be the store's.\<close>

definition own_events :: "proto_msg list \<Rightarrow> bool" where
  "own_events ms \<longleftrightarrow> (\<forall>m\<in>set ms. MessageName m \<notin>
     {created_event, updated_event, merged_event, deleted_event, hard_deleted_event})"

lemma own_eventsD:
  assumes "own_events ms" "map v_payload_type ws = map MessageName ms" "w \<in> set ws"
  shows "v_payload_type w \<notin> {created_event, updated_event, merged_event, deleted_event, hard_deleted_event}"
proof -
  have "v_payload_type w \<in> set (map v_payload_type ws)" using assms(3) by simp
  then obtain m where "m \<in> set ms" "v_payload_type w = MessageName m" unfolding assms(2) by auto
  then show ?thesis using assms(1) by (simp add: own_events_def)
qed

lemma applyCreate_audited:
  assumes "applyCreate L opr s = (s', Inr ent)" "tx s = Some T" "audited (tabs s)" "own_events (wo_Events opr)"
  shows "audited (tabs s')"
proof -
  obtain ty d where md: "marshalEntityData L opr = Inr (ty, d)"
    using assms(1) by (auto simp: applyCreate_def dbind_Inr_iff)
  obtain row s1 s2 s3 s4 s5 x2 x3 x4 where
    1: "create_row L opr ty d s = (s1, Inr row)"
    and 2: "upsertAnchors (e_id row) ty (wo_Anchors opr) s1 = (s2, Inr x2)"
    and 3: "upsertTokens (e_id row) ty (wo_Tokens opr) s2 = (s3, Inr x3)"
    and 4: "updateEmbedding (e_id row) (wo_Embedding opr) s3 = (s4, Inr x4)"
    and 5: "insertEvents L (e_id row) [] (wo_Tags opr) ty
         (EntityCreated (uuid_String L (e_id row)) ty (wo_Confidence opr) (wo_Tags opr) # wo_Events opr) s4 = (s5, Inr ())"
    and fin: "dret (entityFromRow L row) s5 = (s', Inr ent)"
    using assms(1) unfolding applyCreate_def md dbind_simps case_prod_conv by (elim dbindE) simp
  note row = create_row_Inr [OF 1 assms(2)]
  obtain T2 where q2: "tx s2 = Some T2" "quiet (tabs s1) (tabs s2)"
    using quiet_in_tx [OF 2 _ steady_upsertAnchors quiet.keeps_upsertAnchors] row by blast
  obtain T3 where q3: "tx s3 = Some T3" "quiet (tabs s2) (tabs s3)"
    using quiet_in_tx [OF 3 q2(1) steady_upsertTokens quiet.keeps_upsertTokens] by blast
  obtain T4 where q4: "tx s4 = Some T4" "quiet (tabs s3) (tabs s4)"
    using quiet_in_tx [OF 4 q3(1) steady_updateEmbedding quiet.keeps_updateEmbedding] by blast
  have q: "quiet (tabs s1) (tabs s4)" using q2(2) q3(2) q4(2) quiet_trans by blast
  obtain vs where vs: "entities (tabs s5) = entities (tabs s4)" "events (tabs s5) = events (tabs s4) @ vs"
    "map v_payload_type vs = created_event # map MessageName (wo_Events opr)"
    "\<forall>v\<in>set vs. v_entity_id v = tags_id (e_id row) \<and> v_entity_type v = ty"
    by (rule events_in_tx [OF 5 q4(1)]) (simp add: created_event_def)
  obtain v ws where ws: "vs = v # ws" "v_payload_type v = created_event" "map v_payload_type ws = map MessageName (wo_Events opr)"
    using vs(3) by auto
  let ?t = "(tabs s)\<lparr>entities := entities (tabs s) @ [row], events := events (tabs s) @ v # ws\<rparr>"
  have r: "e_version row = 0" "live row" "e_type row = ty"
    using row by (metis new_entity_def Entity.select_convs(2,9,11) live_def)+
  have "audited ?t"
    using vs(4) ws own_eventsD [OF assms(4) ws(3)] r row by (intro audited_create [OF assms(3)]) auto
  moreover have "core_eq ?t (tabs s5)" "events (tabs s5) = events ?t"
    using q row vs(1,2) ws(1) by (auto simp: quiet_def core_eq_def)
  ultimately have "audited (tabs s5)" by (rule audited_core)
  then show ?thesis using fin by simp
qed

text \<open>Updates and merges: the version counts them. Keys are unique, so that the one row with the identifier is the row
  that the guard of the statement found.\<close>

lemma updated_row_audited:
  assumes "row_audited t e" "events t' = events t @ v # ws" "v_payload_type v \<in> {updated_event, merged_event}"
    and "\<forall>w\<in>set (v # ws). v_entity_id w = Some (e_id e)"
    and "\<forall>w\<in>set ws. v_payload_type w \<notin> {created_event, updated_event, merged_event, deleted_event, hard_deleted_event}"
    and "e_id e' = e_id e" "e_type e' = e_type e" "e_version e' = e_version e + 1" "live e' = live e"
  shows "row_audited t' e'"
proof -
  have l: "logged t' (e_id e) ns = logged t (e_id e) ns @ filter (\<lambda>w. v_payload_type w \<in> set ns) (v # ws)" for ns
    using assms(4) by (auto simp: logged_append [OF assms(2)] intro!: filter_cong)
  have n: "filter (\<lambda>w. v_payload_type w \<in> set ns) ws = []"
    if "set ns \<subseteq> {created_event, updated_event, merged_event, deleted_event, hard_deleted_event}" for ns
    using assms(5) that by (auto simp: filter_empty_conv)
  show ?thesis using assms(1,3,6-9) n [of "[created_event]"] n [of "[updated_event, merged_event]"] n [of "[deleted_event]"]
    unfolding row_audited_def assms(6) l by (auto simp: event_names)
qed

lemma applyUpdateOrMerge_audited:
  assumes "applyUpdateOrMerge L opr s = (s', Inr ent)" "tx s = Some T" "schema (tabs s)" "audited (tabs s)"
    and "own_events (wo_Events opr)" "is_update opr"
  shows "audited (tabs s')"
proof -
  obtain ty d where md: "marshalEntityData L opr = Inr (ty, d)"
    using assms(1) by (auto simp: applyUpdateOrMerge_def dbind_Inr_iff)
  obtain u s0 s1 sa sb sc sd s2 s3 row x2 x3 x4 x5 where
    raw: "parse_id L ''entity id'' (wo_MatchedEntityID opr) s = (s0, Inr u)" "write_data opr u d s0 = (s1, Inr ())"
      "dwrap (Wrap ''get entity'') (q_GetEntity u) sd = (s2, Inr row)" "dret (entityFromRow L row) s3 = (s', Inr ent)"
    and a: "add_tags u (wo_Tags opr) s1 = (sa, Inr x2)"
    and b: "upsertAnchors u ty (wo_Anchors opr) sa = (sb, Inr x3)"
    and c: "upsertTokens u ty (wo_Tokens opr) sb = (sc, Inr x4)"
    and dd: "updateEmbedding u (wo_Embedding opr) sc = (sd, Inr x5)"
    and 3: "insertEvents L u [] (e_tags row) ty ((if wo_Action opr = WriteActionUpdate
        then EntityUpdated (uuid_String L u) ty (wo_Confidence opr) (e_tags row)
        else EntityMerged (uuid_String L u) ty) # wo_Events opr) s2 = (s3, Inr ())"
    using assms(1) unfolding applyUpdateOrMerge_def md dbind_simps case_prod_conv
    by (elim dbindE) simp
  have 1: "write_data opr u d s = (s1, Inr ())" and 2: "q_GetEntity u sd = (s2, Inr row)" and fin: "s' = s3"
    using raw by simp_all
  obtain T1 where t1: "tx s1 = Some T1" using steadyD [OF steady_write_data assms(2) 1] by blast
  have st: "steady (add_tags u (wo_Tags opr))" "steady (q_GetEntity u)"
    unfolding add_tags_def stmt_defs by (intro steady_intros)+
  have pr: "pres (quiet t0) (add_tags u (wo_Tags opr))" "pres (quiet t0) (q_GetEntity u)" for t0
    unfolding add_tags_def q_GetEntity_def by (intro pres_intros)+
  obtain Ta where qa: "tx sa = Some Ta" "quiet (tabs s1) (tabs sa)" using quiet_in_tx [OF a t1 st(1) pr(1)] by blast
  obtain Tb where qb: "tx sb = Some Tb" "quiet (tabs sa) (tabs sb)"
    using quiet_in_tx [OF b qa(1) steady_upsertAnchors quiet.keeps_upsertAnchors] by blast
  obtain Tc where qc: "tx sc = Some Tc" "quiet (tabs sb) (tabs sc)"
    using quiet_in_tx [OF c qb(1) steady_upsertTokens quiet.keeps_upsertTokens] by blast
  obtain Td where qd: "tx sd = Some Td" "quiet (tabs sc) (tabs sd)"
    using quiet_in_tx [OF dd qc(1) steady_updateEmbedding quiet.keeps_updateEmbedding] by blast
  obtain T2 where q2: "tx s2 = Some T2" "quiet (tabs sd) (tabs s2)" using quiet_in_tx [OF 2 qd(1) st(2) pr(2)] by blast
  have q: "quiet (tabs s1) (tabs s2)" using qa(2) qb(2) qc(2) qd(2) q2(2) by (meson quiet_trans)
  obtain vs where vs: "entities (tabs s3) = entities (tabs s2)" "events (tabs s3) = events (tabs s2) @ vs"
    "map v_payload_type vs = (if wo_Action opr = WriteActionUpdate then updated_event else merged_event) # map MessageName (wo_Events opr)"
    "\<forall>v\<in>set vs. v_entity_id v = tags_id u \<and> v_entity_type v = ty"
    by (rule events_in_tx [OF 3 q2(1)]) (simp add: event_names)
  obtain v ws where ws: "vs = v # ws" "v_payload_type v \<in> {updated_event, merged_event}"
    "map v_payload_type ws = map MessageName (wo_Events opr)" using vs(3) by auto
  let ?P = "\<lambda>e. e_id e = u \<and> e_version e = int32 (wo_Version opr) \<and> live e"
  obtain now where hit: "\<exists>e\<in>set (entities (tabs s)). ?P e" and t1': "tabs s1 = update_entities ?P
       (\<lambda>e. e\<lparr>e_data := new_data opr d (e_data e), e_confidence := wo_Confidence opr,
               e_display_name := wo_DisplayName opr, e_version := e_version e + 1, e_updated_at := now\<rparr>) (tabs s)"
    by (rule write_data_Inr [OF 1 assms(6)])
  let ?f = "\<lambda>e. e\<lparr>e_data := new_data opr d (e_data e), e_confidence := wo_Confidence opr,
               e_display_name := wo_DisplayName opr, e_version := e_version e + 1, e_updated_at := now\<rparr>"
  let ?t = "(update_entities ?P ?f (tabs s))\<lparr>events := events (tabs s) @ vs\<rparr>"
  have P: "?P e \<longleftrightarrow> e_id e = u" if "e \<in> set (entities (tabs s))" for e
    using hit distinct_id [OF assms(3) that] by metis
  have "audited ?t"
  proof (rule audited_change [OF assms(4)])
    show "entity_exists (tabs s) u" using hit by (auto simp: entity_exists_def)
    show "?P e \<longleftrightarrow> e_id e = u" if "e \<in> set (entities (tabs s))" for e by (rule P [OF that])
    show "\<forall>w\<in>set vs. v_entity_id w = tags_id u" using vs(4) by blast
    show "row_audited ?t (?f e)" if e: "row_audited (tabs s) e" "e_id e = u" "u \<noteq> uuid_Nil" for e
      using own_eventsD [OF assms(5) ws(3)] vs(4) ws(1,2) e
      by (intro updated_row_audited [OF e(1), of _ v ws]) (auto simp: tags_id_def live_def)
  qed simp
  moreover have "core_eq ?t (tabs s3)" "events (tabs s3) = events ?t"
    using q vs(1,2) by (simp_all add: quiet_def core_eq_def t1' update_entities_def)
  ultimately show ?thesis unfolding fin by (rule audited_core)
qed

section \<open>Programs that keep the trail\<close>

text \<open>\<open>audits m\<close>: when \<open>m\<close> succeeds in a transaction, it stays inside it and keeps constraints and agreement.\<close>

definition trail :: "tables \<Rightarrow> bool" where
  "trail t \<longleftrightarrow> schema t \<and> audited t"

definition audits :: "'a dbm \<Rightarrow> bool" where
  "audits m \<longleftrightarrow> (\<forall>s s' x T. tx s = Some T \<longrightarrow> trail (tabs s) \<longrightarrow> m s = (s', Inr x) \<longrightarrow> (\<exists>T'. tx s' = Some T') \<and> trail (tabs s'))"

lemma auditsD: "audits m \<Longrightarrow> m s = (s', Inr x) \<Longrightarrow> tx s = Some T \<Longrightarrow> trail (tabs s) \<Longrightarrow> (\<exists>T'. tx s' = Some T') \<and> trail (tabs s')"
  unfolding audits_def by blast

lemma auditsI:
  assumes "steady m" "pres schema m"
    and "\<And>s s' x T. m s = (s', Inr x) \<Longrightarrow> tx s = Some T \<Longrightarrow> schema (tabs s) \<Longrightarrow> audited (tabs s) \<Longrightarrow> audited (tabs s')"
  shows "audits m"
  unfolding audits_def trail_def
proof (intro allI impI)
  fix s s' x T assume m: "tx s = Some T" "schema (tabs s) \<and> audited (tabs s)" "m s = (s', Inr x)"
  then show "(\<exists>T'. tx s' = Some T') \<and> schema (tabs s') \<and> audited (tabs s')"
    using assms(3) [OF m(3,1)] steadyD [OF assms(1) m(1,3)] keeps_in_tx [OF assms(1,2) m(3,1)] by blast
qed

lemma audits_quiet:
  assumes "steady m" "pres schema m" "\<And>t0. pres (quiet t0) m"
  shows "audits m"
proof (rule auditsI [OF assms(1,2)])
  fix s s' x T assume m: "m s = (s', Inr x)" "tx s = Some T" and a: "audited (tabs s)"
  have "quiet (tabs s) (tabs s')" using quiet_in_tx [OF m assms(1,3)] by blast
  then show "audited (tabs s')" using audited_core [OF a] by (simp add: quiet_def)
qed

lemma audits_dbind:
  assumes "audits m" "\<And>x. audits (f x)"
  shows "audits (dbind m f)"
  unfolding audits_def
proof (intro allI impI)
  fix s s' y T assume s: "tx s = Some T" "trail (tabs s)" "dbind m f s = (s', Inr y)"
  obtain s1 x where 1: "m s = (s1, Inr x)" "f x s1 = (s', Inr y)" using s(3) by (rule dbindE)
  obtain T1 where "tx s1 = Some T1" "trail (tabs s1)" using auditsD [OF assms(1) 1(1) s(1,2)] by blast
  from auditsD [OF assms(2) 1(2) this] show "(\<exists>T'. tx s' = Some T') \<and> trail (tabs s')" .
qed

lemma audits_dret: "audits (dret x)"
  by (auto simp: audits_def)

lemma audits_dfail: "audits (dfail e)"
  by (auto simp: audits_def)

lemma audits_dlift: "audits (dlift r)"
  by (auto simp: audits_def)

lemma audits_dwrap: "audits m \<Longrightarrow> audits (dwrap w m)"
  unfolding audits_def dwrap_Inr_iff by assumption

lemma audits_dmap: "audits m \<Longrightarrow> audits (dmap f m)"
  unfolding dmap_def by (rule audits_dbind [OF _ audits_dret])

lemmas audits_rules = audits_dbind audits_dret audits_dfail audits_dlift audits_dwrap audits_dmap

lemma audits_applyEntityWrite: "own_events (wo_Events opr) \<Longrightarrow> audits (applyEntityWrite L opr)"
proof (rule auditsI [OF steady_applyEntityWrite constraints.keeps_applyEntityWrite])
  fix s s' x T assume o: "own_events (wo_Events opr)" and m: "applyEntityWrite L opr s = (s', Inr x)" "tx s = Some T"
    and t: "schema (tabs s)" "audited (tabs s)"
  show "audited (tabs s')"
    using applyCreate_audited [OF _ m(2) t(2) o] applyUpdateOrMerge_audited [OF _ m(2) t o] m(1)
    by (auto simp: applyEntityWrite_def is_update_def split: if_splits)
qed

text \<open>Events about a relation name no entity.\<close>

lemma audits_relation_events: "audits (insertEvents L uuid_Nil rk ts ty evts)"
proof (rule auditsI [OF steady_insertEvents constraints.keeps_insertEvents])
  fix s s' x T assume i: "insertEvents L uuid_Nil rk ts ty evts s = (s', Inr x)" and t: "tx s = Some T" and a: "audited (tabs s)"
  obtain vs where vs: "tabs s' = (tabs s)\<lparr>events := events (tabs s) @ vs\<rparr>"
    "list_all2 (event_row_for L uuid_Nil rk ts ty (tx_now T)) evts vs"
    using insertEvents_appends [OF _ t, of L uuid_Nil rk ts ty evts s'] i by auto
  have n: "\<forall>v\<in>set vs. v_entity_id v = None"
    using vs(2) by (induction rule: list_all2_induct) (auto simp: event_row_for_def)
  have ev: "events (tabs s') = events (tabs s) @ vs" using vs(1) by simp
  have l: "logged (tabs s') u ns = logged (tabs s) u ns" for u ns using logged_other [OF ev] n by simp
  have ents: "entities (tabs s') = entities (tabs s)" "entity_exists (tabs s') u = entity_exists (tabs s) u" for u
    using vs(1) by (simp_all add: entity_exists_def)
  show "audited (tabs s')" using a n unfolding audited_def row_audited_def l ents ev by auto
qed

lemma audits_upsertRelation: "audits (upsertRelation L rel)"
  by (rule audits_quiet [OF steady_upsertRelation constraints.keeps_upsertRelation quiet.keeps_upsertRelation])

lemma audits_evaluatePreConditions: "audits (evaluatePreConditions L i pcs)"
  by (rule audits_quiet [OF steady_evaluatePreConditions pres_evaluatePreConditions pres_evaluatePreConditions])

definition own_op :: "BatchWriteOp \<Rightarrow> bool" where
  "own_op b \<longleftrightarrow> (\<forall>we. bo_WriteEntity b = Some we \<longrightarrow> own_events (wo_Events we))"

lemma audits_batch_op:
  assumes "own_op b"
  shows "audits (batch_op L i b)"
proof (cases "bo_WriteEntity b")
  case (Some we)
  then have "own_events (wo_Events we)" using assms by (simp add: own_op_def)
  then show ?thesis unfolding batch_op_def Some option.simps by (intro audits_rules audits_applyEntityWrite)
next
  case None
  show ?thesis
  proof (cases "bo_UpsertRelation b")
    case (Some ur)
    show ?thesis unfolding batch_op_def None Some option.simps
      by (intro audits_rules audits_upsertRelation audits_relation_events)
  qed (simp add: batch_op_def None audits_dfail)
qed

lemma audits_executeBatchOps: "\<forall>b\<in>set ops. own_op b \<Longrightarrow> audits (executeBatchOps L i ops)"
proof (induction ops arbitrary: i)
  case (Cons b ops)
  then show ?case
    by (simp only: executeBatchOps.simps) (intro audits_rules audits_evaluatePreConditions audits_batch_op; simp)
qed (simp add: audits_dret)

lemma audits_delete_relation: "audits (delete_relation L a b c d e)"
proof -
  have "audits (q_DeleteRelationByKey a b e)"
    by (rule audits_quiet [OF _ constraints.keeps_DeleteRelationByKey quiet.keeps_DeleteRelationByKey])
      (unfold q_DeleteRelationByKey_def, rule steady_exec)
  then show ?thesis unfolding delete_relation_def by (intro audits_rules audits_relation_events)
qed

text \<open>The bodies of the two deletions.\<close>

lemma deleted_row_audited:
  assumes "row_audited t e" "events t' = events t @ [v]" "v_payload_type v = deleted_event" "v_entity_id v = Some (e_id e)"
    and "live e" "e_id e' = e_id e" "e_type e' = e_type e" "e_version e' = e_version e" "\<not> live e'"
  shows "row_audited t' e'"
  using assms(1,3-9) unfolding row_audited_def assms(6) logged_append [OF assms(2)] by (auto simp: event_names)

lemma audits_soft_delete:
  "audits (dbind (dwrap w (q_GetEntity u)) (\<lambda>row. dbind (dwrap w' (q_DeleteEntity u)) (\<lambda>_.
     insertEvents L u [] (e_tags row) (e_type row) [EntityDeleted i (e_type row)])))" (is "audits ?body")
proof (rule auditsI)
  show "steady ?body" unfolding stmt_defs by (intro steady_intros)
  show "pres schema ?body" unfolding q_GetEntity_def by (intro pres_intros)
  fix s s' x T assume m: "?body s = (s', Inr x)" "tx s = Some T" and t: "schema (tabs s)" "audited (tabs s)"
  obtain s1 row s2 where 1: "q_GetEntity u s = (s1, Inr row)" and 2: "q_DeleteEntity u s1 = (s2, Inr ())"
    and 3: "insertEvents L u [] (e_tags row) (e_type row) [EntityDeleted i (e_type row)] s2 = (s', Inr ())"
    using m(1) by (auto simp: dbind_Inr_iff)
  obtain rest where r: "filter (\<lambda>e. e_id e = u \<and> live e) (entities (tabs s)) = row # rest" and t1: "tabs s1 = tabs s"
    using select_one_Inr [OF 1 [unfolded q_GetEntity_def]] by (auto simp: next_tick_def)
  have "row \<in> set (filter (\<lambda>e. e_id e = u \<and> live e) (entities (tabs s)))" by (simp add: r)
  then have row: "row \<in> set (entities (tabs s))" "e_id row = u" "live row" by simp_all
  obtain now where t2: "tabs s2 = update_entities (\<lambda>e. e_id e = u \<and> live e) (\<lambda>e. e\<lparr>e_deleted_at := Some now\<rparr>) (tabs s)"
    using 2 t1 unfolding q_DeleteEntity_def by (elim exec_Inr) (auto simp: next_tick_def)
  obtain T2 where "tx s2 = Some T2"
    using steadyD [OF steady_exec_one m(2) 1 [unfolded q_GetEntity_def select_one_def]]
      steadyD [OF steady_exec _ 2 [unfolded q_DeleteEntity_def]] by blast
  then obtain vs where vs: "entities (tabs s') = entities (tabs s2)" "events (tabs s') = events (tabs s2) @ vs"
    "map v_payload_type vs = [deleted_event]" "\<forall>v\<in>set vs. v_entity_id v = tags_id u \<and> v_entity_type v = e_type row"
    by (rule events_in_tx [OF 3]) (simp add: event_names)
  obtain v where v: "vs = [v]" "v_payload_type v = deleted_event" using vs(3) by auto
  let ?t = "(update_entities (\<lambda>e. e_id e = u \<and> live e) (\<lambda>e. e\<lparr>e_deleted_at := Some now\<rparr>) (tabs s))\<lparr>events := events (tabs s) @ vs\<rparr>"
  have "audited ?t"
  proof (rule audited_change [OF t(2)])
    show "entity_exists (tabs s) u" using row by (auto simp: entity_exists_def)
    show "e_id e = u \<and> live e \<longleftrightarrow> e_id e = u" if "e \<in> set (entities (tabs s))" for e
      using distinct_id [OF t(1) that row(1)] row by auto
    show "\<forall>w\<in>set vs. v_entity_id w = tags_id u" using vs(4) by blast
    show "row_audited ?t (e\<lparr>e_deleted_at := Some now\<rparr>)"
      if e: "row_audited (tabs s) e" "e_id e = u" "e_id e = u \<and> live e" "u \<noteq> uuid_Nil" for e
      using vs(4) v e by (intro deleted_row_audited [OF e(1), of _ v]) (auto simp: tags_id_def live_def)
  qed simp
  moreover have "core_eq ?t (tabs s')" by (rule core_eq_same) (simp add: vs(1) t2)
  moreover have "events (tabs s') = events ?t" using vs(2) t2 by (simp add: update_entities_def)
  ultimately show "audited (tabs s')" by (rule audited_core)
qed

lemma audits_hard_delete:
  "audits (dbind (dtry (q_GetEntity u)) (\<lambda>got. let ty = ty' got; ts = ts' got in
     dbind (dwrap w (insertEvents L u [] ts ty [EntityHardDeleted i ty])) (\<lambda>_. q_HardDeleteEntity u)))" (is "audits ?body")
proof (rule auditsI)
  show "steady ?body" unfolding stmt_defs by (intro steady_intros)
  show "pres schema ?body" unfolding q_GetEntity_def by (intro pres_intros)
  fix s s' x T assume m: "?body s = (s', Inr x)" "tx s = Some T" and t: "audited (tabs s)"
  obtain s1 got s2 where 1: "dtry (q_GetEntity u) s = (s1, Inr got)"
    and 2: "insertEvents L u [] (ts' got) (ty' got) [EntityHardDeleted i (ty' got)] s1 = (s2, Inr ())"
    and 3: "q_HardDeleteEntity u s2 = (s', Inr ())"
    using m(1) by (auto simp: dbind_Inr_iff Let_def)
  have st: "steady (dtry (q_GetEntity u))" unfolding stmt_defs by (intro steady_intros)
  have pr: "pres (quiet t0) (dtry (q_GetEntity u))" for t0 unfolding q_GetEntity_def by (intro pres_intros)
  obtain T1 where q: "tx s1 = Some T1" "quiet (tabs s) (tabs s1)" using quiet_in_tx [OF 1 m(2) st pr] by blast
  have a1: "audited (tabs s1)" using audited_core [OF t] q(2) by (simp add: quiet_def)
  obtain vs where vs: "entities (tabs s2) = entities (tabs s1)" "events (tabs s2) = events (tabs s1) @ vs"
    "map v_payload_type vs = [hard_deleted_event]" "\<forall>v\<in>set vs. v_entity_id v = tags_id u \<and> v_entity_type v = ty' got"
    by (rule events_in_tx [OF 2 q(1)]) (simp add: event_names)
  obtain v where v: "vs = [v]" "v_payload_type v = hard_deleted_event" using vs(3) by auto
  have t': "entities (tabs s') = filter (\<lambda>e. e_id e \<noteq> u) (entities (tabs s2))" "events (tabs s') = events (tabs s2)"
    using 3 unfolding q_HardDeleteEntity_def by (auto elim!: exec_Inr)
  show "audited (tabs s')"
    by (rule audited_hard_delete [OF a1, of _ v u]) (use t' vs v in simp_all)
qed

section \<open>Transactions of the caller\<close>

lemma pres_read_calls:
  "pres I (run_call L (CallGetEntity i))" "pres I (run_call L (CallFindByAnchors ty as filt))"
  "pres I (run_call L (CallGetRelationsFromEntity i n cur))" "pres I (run_call L (CallGetRelationsToEntity i n cur))"
  "pres I (run_call L (CallGetEventsForEntity i eo))"
  unfolding run_call.simps TxStore_GetEntity_def TxStore_FindByAnchors_def TxStore_GetRelationsFromEntity_def
    TxStore_GetRelationsToEntity_def TxStore_GetEventsForEntity_def q_GetEntity_def
    q_GetRelationsFromEntity_def q_GetRelationsToEntity_def q_GetEventsForEntity_def
  by (intro pres_intros)+

lemma audits_read_calls:
  "audits (run_call L (CallGetEntity i))" "audits (run_call L (CallFindByAnchors ty as filt))"
  "audits (run_call L (CallGetRelationsFromEntity i n cur))" "audits (run_call L (CallGetRelationsToEntity i n cur))"
  "audits (run_call L (CallGetEventsForEntity i eo))"
  by (rule audits_quiet [OF steady_run_call pres_read_calls(1) pres_read_calls(1)],
      rule audits_quiet [OF steady_run_call pres_read_calls(2) pres_read_calls(2)],
      rule audits_quiet [OF steady_run_call pres_read_calls(3) pres_read_calls(3)],
      rule audits_quiet [OF steady_run_call pres_read_calls(4) pres_read_calls(4)],
      rule audits_quiet [OF steady_run_call pres_read_calls(5) pres_read_calls(5)])

lemma audits_update_call: "audits (run_call L (CallUpdateRelationData src tgt ty dat))"
proof (rule audits_quiet [OF steady_run_call])
  show "pres schema (run_call L (CallUpdateRelationData src tgt ty dat))"
    unfolding run_call.simps by (rule pres_dmap [OF constraints.keeps_TxStore(4)])
  show "pres (quiet t0) (run_call L (CallUpdateRelationData src tgt ty dat))" for t0
    unfolding run_call.simps TxStore_UpdateRelationData_def by (rule pres_dmap [OF quiet.keeps_update_relation_data])
qed

definition own_call :: "tx_call \<Rightarrow> bool" where
  "own_call c \<longleftrightarrow> (\<forall>we. c = CallWriteEntity we \<longrightarrow> own_events (wo_Events we))"

lemma audits_run_call:
  assumes "own_call c"
  shows "audits (run_call L c)"
proof (cases c)
  case (CallWriteEntity we)
  then have "own_events (wo_Events we)" using assms by (simp add: own_call_def)
  then show ?thesis unfolding CallWriteEntity run_call.simps TxStore_WriteEntity_def
    by (intro audits_rules audits_applyEntityWrite)
next
  case (CallUpsertRelation ur)
  then show ?thesis unfolding CallUpsertRelation run_call.simps TxStore_UpsertRelation_def
    by (intro audits_rules audits_upsertRelation)
next
  case (CallDeleteRelationByKey src tgt ty)
  have "audits (parse_id L what x)" for what x
    unfolding parse_id_def by (cases "uuid_Parse L x") (simp_all add: audits_dret audits_dfail)
  then show ?thesis unfolding CallDeleteRelationByKey run_call.simps TxStore_DeleteRelationByKey_def
    by (intro audits_rules audits_delete_relation)
qed (simp_all only: audits_read_calls audits_update_call)

lemma audits_careful: "list_all own_call cs \<Longrightarrow> audits (careful L cs)"
  by (induction cs) (auto simp del: run_call.simps intro: audits_rules audits_run_call)

section \<open>Runs\<close>

text \<open>Completed calls: every public operation of a store or a consumer that may change the database, outside a transaction of
  the caller, and whole transactions of callers that return at the first error, in any order. The
  events that a caller adds to its writes do not carry the names of the five events of the store.\<close>

inductive call_step :: "lib \<Rightarrow> db \<Rightarrow> db \<Rightarrow> bool" for L :: lib where
  wait: "call_step L s (next_tick s)"
| BatchWrite: "tx s = None \<Longrightarrow> \<not> st_external st \<Longrightarrow> \<forall>b\<in>set ops. own_op b \<Longrightarrow> BatchWrite L st ops s = (s', rb) \<Longrightarrow> call_step L s s'"
| DeleteEntity: "tx s = None \<Longrightarrow> \<not> st_external st \<Longrightarrow> DeleteEntity L st i s = (s', ru) \<Longrightarrow> call_step L s s'"
| HardDeleteEntity: "tx s = None \<Longrightarrow> \<not> st_external st \<Longrightarrow> HardDeleteEntity L st i s = (s', ru) \<Longrightarrow> call_step L s s'"
| DeleteRelationByKey: "tx s = None \<Longrightarrow> \<not> st_external st \<Longrightarrow> DeleteRelationByKey L st src tgt ty s = (s', ru) \<Longrightarrow> call_step L s s'"
| UpdateRelationData: "tx s = None \<Longrightarrow> UpdateRelationData L src tgt ty dat s = (s', rr) \<Longrightarrow> call_step L s s'"
| SetTags: "tx s = None \<Longrightarrow> SetTags L i mts s = (s', ru) \<Longrightarrow> call_step L s s'"
| AddTags: "tx s = None \<Longrightarrow> AddTags L i ts s = (s', ru) \<Longrightarrow> call_step L s s'"
| RemoveTag: "tx s = None \<Longrightarrow> RemoveTag L i tag s = (s', ru) \<Longrightarrow> call_step L s s'"
| UpdateEmbedding: "tx s = None \<Longrightarrow> UpdateEmbedding L i v s = (s', ru) \<Longrightarrow> call_step L s s'"
| transaction: "tx s = None \<Longrightarrow> list_all own_call calls \<Longrightarrow> tx_program (careful L calls) s = (s', ru) \<Longrightarrow> call_step L s s'"
| poll: "tx s = None \<Longrightarrow> poll L process etext rnd co s = ((co', s'), ru) \<Longrightarrow> call_step L s s'"
| releaseLock: "tx s = None \<Longrightarrow> releaseLock c s = (s', ru) \<Longrightarrow> call_step L s s'"
| ReplayDeadLetters: "tx s = None \<Longrightarrow> ReplayDeadLetters L process c opts s = (s', rn) \<Longrightarrow> call_step L s s'"
| PurgeDeadLetters: "tx s = None \<Longrightarrow> PurgeDeadLetters age s = (s', ru) \<Longrightarrow> call_step L s s'"

lemma trail_in_tx:
  assumes "in_tx False wc body s = (s', r)" "tx s = None" "steady body" "audits body" "trail (tabs s)"
  shows "trail (tabs s')"
proof -
  have s: "tx (started s) = Some \<lparr>tx_snapshot = tabs s, tx_now = clock s (tick s), tx_aborted = False\<rparr>" "tabs (started s) = tabs s"
    by (simp_all add: started_def next_tick_def)
  have "trail (tabs s2)" if "body (started s) = (s2, Inr x)" for s2 x
    using auditsD [OF assms(4) that s(1)] assms(5) s(2) by simp
  then show ?thesis
    using assms(5) by (cases rule: in_tx_cases [OF assms(1,3,2)]) (auto simp: next_tick_def)
qed

text \<open>A quiet program outside a transaction.\<close>

lemma trail_quiet:
  assumes "good schema s'" "good (quiet (tabs s)) s'" "audited (tabs s)"
  shows "trail (tabs s')"
  using assms audited_core [OF assms(3)] by (simp add: good_def quiet_def trail_def)

lemma trail_plain:
  assumes "m s = (s', r)" "tx s = None" "trail (tabs s)" "pres schema m" "\<And>t0. pres (quiet t0) m"
  shows "trail (tabs s')"
proof (rule trail_quiet)
  show "good schema s'" by (rule presD [OF assms(4) _ assms(1)]) (use assms(2,3) in \<open>simp add: good_def trail_def\<close>)
  show "good (quiet (tabs s)) s'" by (rule presD [OF assms(5) _ assms(1)]) (use assms(2) in \<open>simp add: good_def\<close>)
  show "audited (tabs s)" using assms(3) by (simp add: trail_def)
qed

lemma parse_then: "dbind (parse_id L what i) f s = (s', r) \<Longrightarrow> s' = s \<or> (\<exists>u. f u s = (s', r))"
  by (auto simp: parse_id_def dbind_def dret_def dfail_def split: option.splits)

lemma lift_then: "dbind (dlift x) f s = (s', r) \<Longrightarrow> s' = s \<or> (\<exists>y. f y s = (s', r))"
  by (auto simp: dbind_def dlift_def split: sum.splits)

lemma trail_step: "call_step L s s' \<Longrightarrow> trail (tabs s) \<Longrightarrow> trail (tabs s')"
proof (induction rule: call_step.induct)
  case (BatchWrite s st ops s' rb)
  then consider "s' = s" | "in_tx False (Wrap ''tx commit'') (executeBatchOps L 0 ops) s = (s', rb)"
    by (auto simp: BatchWrite_def dfail_def dbind_def dlift_def split: if_splits sum.splits)
  then show ?case
    by cases (use BatchWrite trail_in_tx [OF _ _ steady_executeBatchOps audits_executeBatchOps] in auto)
next
  case (DeleteEntity s st i s' ru)
  have st: "steady (dbind (dwrap w (q_GetEntity u)) (\<lambda>row. dbind (dwrap w' (q_DeleteEntity u)) (\<lambda>_.
     insertEvents L u [] (e_tags row) (e_type row) [EntityDeleted i (e_type row)])))" for w w' u
    unfolding stmt_defs by (intro steady_intros)
  from parse_then [OF DeleteEntity(3) [unfolded DeleteEntity_def]] DeleteEntity(1,2,4)
  show ?case using trail_in_tx [OF _ _ st audits_soft_delete] by auto
next
  case (HardDeleteEntity s st i s' ru)
  let ?ty = "\<lambda>got :: Entity option. case got of None \<Rightarrow> [] | Some row \<Rightarrow> e_type row"
  let ?ts = "\<lambda>got :: Entity option. case got of None \<Rightarrow> [] | Some row \<Rightarrow> e_tags row"
  have st: "steady (dbind (dtry (q_GetEntity u)) (\<lambda>got. let ty = ?ty got; ts = ?ts got in
     dbind (dwrap w (insertEvents L u [] ts ty [EntityHardDeleted i ty])) (\<lambda>_. q_HardDeleteEntity u)))" for w u
    unfolding stmt_defs by (intro steady_intros)
  from parse_then [OF HardDeleteEntity(3) [unfolded HardDeleteEntity_def]] HardDeleteEntity(1,2,4)
  show ?case using trail_in_tx [OF _ _ st audits_hard_delete] by auto
next
  case (DeleteRelationByKey s st src tgt ty s' ru)
  have p: "s' = s \<or> (\<exists>u v. in_tx False (\<lambda>e. e) (delete_relation L u v src tgt ty) s = (s', ru))"
    using lift_then [OF DeleteRelationByKey(3) [unfolded DeleteRelationByKey_def]] DeleteRelationByKey(2)
    by (auto dest!: parse_then)
  then show ?case using DeleteRelationByKey(1,4) trail_in_tx [OF _ _ steady_delete_relation audits_delete_relation] by auto
next
  case (transaction s calls s' ru)
  then show ?case using trail_in_tx [OF _ _ steady_careful audits_careful] by (simp add: tx_program_in_tx)
next
  case (poll s process etext rnd co co' s' ru)
  have g: "good schema s" "good (quiet (tabs s)) s" using poll(1,3) by (simp_all add: good_def trail_def)
  show ?case
    using constraints.keeps_poll [OF g(1), of L process etext rnd co] quiet.keeps_poll [OF g(2), of L process etext rnd co] poll(2,3)
    by (intro trail_quiet [of _ s]) (simp_all add: trail_def)
next
  case (UpdateRelationData s src tgt ty dat s' rr)
  show ?case
    by (rule trail_plain [of "UpdateRelationData L src tgt ty dat", OF UpdateRelationData(2,1,3)]) (rule constraints.keeps_UpdateRelationDataOp quiet.keeps_UpdateRelationDataOp)+
next
  case (SetTags s i mts s' ru)
  show ?case by (rule trail_plain [of "SetTags L i mts", OF SetTags(2,1,3)]) (rule constraints.keeps_tag_ops quiet.keeps_tag_ops)+
next
  case (AddTags s i ts s' ru)
  show ?case by (rule trail_plain [of "AddTags L i ts", OF AddTags(2,1,3)]) (rule constraints.keeps_tag_ops quiet.keeps_tag_ops)+
next
  case (RemoveTag s i tag s' ru)
  show ?case by (rule trail_plain [of "RemoveTag L i tag", OF RemoveTag(2,1,3)]) (rule constraints.keeps_tag_ops quiet.keeps_tag_ops)+
next
  case (UpdateEmbedding s i v s' ru)
  show ?case by (rule trail_plain [of "UpdateEmbedding L i v", OF UpdateEmbedding(2,1,3)]) (rule constraints.keeps_tag_ops quiet.keeps_tag_ops)+
next
  case (releaseLock s c s' ru)
  show ?case by (rule trail_plain [of "releaseLock c", OF releaseLock(2,1,3)]) (rule constraints.keeps_releaseLock quiet.keeps_releaseLock)+
next
  case (ReplayDeadLetters s process c opts s' rn)
  show ?case by (rule trail_plain [of "ReplayDeadLetters L process c opts", OF ReplayDeadLetters(2,1,3)]) (rule constraints.keeps_ReplayDeadLetters quiet.keeps_ReplayDeadLetters)+
next
  case (PurgeDeadLetters s age s' ru)
  show ?case by (rule trail_plain [of "PurgeDeadLetters age", OF PurgeDeadLetters(2,1,3)]) (rule constraints.keeps_PurgeDeadLetters quiet.keeps_PurgeDeadLetters)+
next
  case (wait s)
  then show ?case by (simp add: next_tick_def)
qed

lemma trail_empty: "trail empty_tables"
proof -
  have "audited empty_tables" by (simp add: audited_def empty_tables_def)
  then show ?thesis by (simp add: trail_def schema_empty)
qed

text \<open>C5. The event log is an audit trail. In every state that completed calls reach from an empty database, whatever
  statements failed on the way, the rows and the log agree: for every entity whose identifier was never deleted for good (and is not the zero
  UUID, with which events are not tagged), the log has exactly one \<open>EntityCreated\<close> event, with the type of the row, as many \<open>EntityUpdated\<close> and
  \<open>EntityMerged\<close> events as the version of the row says, one \<open>EntityDeleted\<close> event if the row is deleted and none
  if it is live; and every event is about an entity that has a row or an \<open>EntityHardDeleted\<close> event. The calls are those of \<open>call_step\<close>:
  batches, deletions, tag, embedding and relation operations from the pool, whole transactions of callers that stop at
  the first error, and consumers; the events that a caller adds to its writes have other names than these five.\<close>

theorem audit_trail:
  assumes "(call_step L)\<^sup>*\<^sup>* s s'" "tabs s = empty_tables"
  shows "audited (tabs s')"
proof -
  have "trail (tabs s')"
    using assms by (induction rule: rtranclp_induct) (simp_all add: trail_empty trail_step)
  then show ?thesis by (simp add: trail_def)
qed

lemma demo_new_rows:
  "\<exists>s' rs u. BatchWrite demo_lib demo_store [demo_new] demo_db = (s', Inr rs) \<and> map e_id (entities (tabs s')) = [u]
     \<and> u \<noteq> uuid_Nil \<and> list_all (\<lambda>v. v_payload_type v \<noteq> hard_deleted_event) (events (tabs s'))"
  by (simp add: BatchWrite_def demo_new_def in_tx_def begin_tx_def commit_tx_def batch_op_def MaxBatchSize_def
      validateTags_def maxTagsPerEntity_def maxTagLength_def applyEntityWrite_def
      applyCreate_def marshalEntityData_def demo_create_def run_defs create_row_def
      q_InsertEntity_def insert_entity_row_def entity_exists_def q_UpsertAnchor_def anchor_key_def
      new_entity_def updateEmbedding_def NewV7_def q_InsertEvent_def empty_tables_def Let_def uuid_Nil_def event_names)

theorem audit_trail_witness:
  "\<exists>s' rs e. BatchWrite demo_lib demo_store [demo_new] demo_db = (s', Inr rs) \<and> entities (tabs s') = [e]
     \<and> map v_entity_type (logged (tabs s') (e_id e) [created_event]) = [e_type e]
     \<and> e_version e = int (length (logged (tabs s') (e_id e) [updated_event, merged_event]))"
proof -
  obtain s' rs u where r: "BatchWrite demo_lib demo_store [demo_new] demo_db = (s', Inr rs)" "map e_id (entities (tabs s')) = [u]"
    "u \<noteq> uuid_Nil" "list_all (\<lambda>v. v_payload_type v \<noteq> hard_deleted_event) (events (tabs s'))" using demo_new_rows by (elim exE conjE) (rule that)
  have "own_op demo_new" by (simp add: own_op_def demo_new_def demo_create_def own_events_def)
  then have "(call_step demo_lib)\<^sup>*\<^sup>* demo_db s'" by (intro r_into_rtranclp call_step.BatchWrite [OF _ _ _ r(1)]) simp_all
  from audit_trail [OF this] have a: "audited (tabs s')" by simp
  obtain e where e: "entities (tabs s') = [e]" "e_id e = u" using r(2) by auto
  have "logged (tabs s') (e_id e) [hard_deleted_event] = []" using r(4) by (auto simp: logged_def filter_empty_conv list_all_iff)
  then have "row_audited (tabs s') e" using a e r(3) by (simp add: audited_def)
  then show ?thesis using r(1) e(1) by (auto simp: row_audited_def)
qed

end
