(* ===== verification/Extraction_Schemas.thy ===== *)
theory Extraction_Schemas
  imports Matching_Types
begin

text \<open>
  \<open>src/extraction/extraction.go\<close>: the schemas handed to a language model for extraction, and their
  registry, another instance of the interface \<open>registry\<close>. The lock of the registry is left out: its
  methods run one after the other.
\<close>

datatype ExtractionFieldType = ExtractionFieldTypeString | ExtractionFieldTypeNumber
  | ExtractionFieldTypeBoolean | ExtractionFieldTypeDate | ExtractionFieldTypeArray

record ExtractionField =
  xf_Name :: string
  xf_Description :: string
  xf_Hint :: string
  xf_Type :: ExtractionFieldType
  xf_Required :: bool
  xf_Repeated :: bool
  xf_Examples :: "string list"

record ExtractionSchema =
  xs_EntityType :: string
  xs_DisplayName :: string
  xs_Prompt :: string
  xs_Instructions :: string
  xs_Fields :: "ExtractionField list"

type_synonym ExtractionSchemaRegistry = "string \<rightharpoonup> ExtractionSchema"

definition NewExtractionSchemaRegistry :: ExtractionSchemaRegistry where
  "NewExtractionSchemaRegistry = Map.empty"

definition ExtractionSchemaRegistry_Register :: "ExtractionSchemaRegistry \<Rightarrow> ExtractionSchema \<Rightarrow> ExtractionSchemaRegistry" where
  "ExtractionSchemaRegistry_Register r x = r(xs_EntityType x \<mapsto> x)"

definition ExtractionSchemaRegistry_Get :: "ExtractionSchemaRegistry \<Rightarrow> string \<Rightarrow> ExtractionSchema option" where
  "ExtractionSchemaRegistry_Get r entityType = r entityType"

definition ExtractionSchemaRegistry_All :: "ExtractionSchemaRegistry \<Rightarrow> ExtractionSchemaRegistry" where
  "ExtractionSchemaRegistry_All r = (\<lambda>k. r k)"

interpretation schemas: registry NewExtractionSchemaRegistry ExtractionSchemaRegistry_Register ExtractionSchemaRegistry_Get xs_EntityType
  by unfold_locales
    (auto simp: NewExtractionSchemaRegistry_def ExtractionSchemaRegistry_Register_def ExtractionSchemaRegistry_Get_def)

end
