(* ===== verification/Codegen.thy ===== *)
theory Codegen
  imports Extraction_Schemas Refinement
begin

text \<open>
  \<open>src/cmd/protoc-gen-entitystore/main.go\<close>: the generator that turns annotated protobuf messages into Go
  functions. A generator function here is the Go function it emits: \<open>generateAnchors\<close> applied to a
  message description is what the emitted \<open><message>Anchors\<close> computes from the getters of a message,
  \<open>None\<close> when nothing is emitted. What \<open>protogen\<close> gives to the plugin (names, options, comments) is the
  description, a record; a message value is given by its getters, from field names to strings, since the
  emitted code compares and concatenates them and compiles for string fields only. The printing of Go
  text, import paths and file names is left out.
\<close>

section \<open>Descriptions\<close>

text \<open>Weights and thresholds are float32 options; the model has the float64 that the printed literal denotes.\<close>

datatype NormalizerOption = NORMALIZER_UNSPECIFIED | NORMALIZER_LOWERCASE_TRIM | NORMALIZER_PHONE_NORMALIZE

datatype SimilarityOption = SIMILARITY_FUNCTION_UNSPECIFIED | SIMILARITY_FUNCTION_EXACT | SIMILARITY_FUNCTION_JARO_WINKLER
  | SIMILARITY_FUNCTION_LEVENSHTEIN | SIMILARITY_FUNCTION_TOKEN_JACCARD

datatype ConflictOption = CONFLICT_STRATEGY_UNSPECIFIED | CONFLICT_STRATEGY_FLAG_FOR_REVIEW
  | CONFLICT_STRATEGY_LATEST_WINS | CONFLICT_STRATEGY_HIGHEST_CONFIDENCE

record FieldOptions =
  fo_Anchor :: bool
  fo_Weight :: float64
  fo_Similarity :: SimilarityOption
  fo_ConflictStrategy :: ConflictOption
  fo_Normalizer :: NormalizerOption
  fo_Embed :: bool
  fo_TokenField :: bool
  fo_Extract :: "bool option"
  fo_Description :: string
  fo_ExtractionHint :: string
  fo_Examples :: "string list"

record MessageOptions =
  mo_CompositeAnchors :: "string list list"
  mo_MatchThresholds :: "MatchThresholds option"
  mo_AllowedRelations :: "string list"
  mo_DisplayFields :: "string list"
  mo_ExtractionPrompt :: string
  mo_ExtractionInstructions :: string
  mo_ExtractionDisplayName :: string

record ProtoField =
  pf_Name :: string
  pf_Kind :: string
  pf_IsList :: bool
  pf_Leading :: string
  pf_Options :: "FieldOptions option"

record ProtoMessage =
  pm_FullName :: string
  pm_GoName :: string
  pm_Fields :: "ProtoField list"
  pm_Options :: "MessageOptions option"

text \<open>\<open>getFieldOptions\<close> and \<open>getMessageOptions\<close>: the extension, or nil.\<close>

definition getFieldOptions :: "ProtoField \<Rightarrow> FieldOptions option" where
  "getFieldOptions f = pf_Options f"

definition getMessageOptions :: "ProtoMessage \<Rightarrow> MessageOptions option" where
  "getMessageOptions msg = pm_Options msg"

definition hasAnnotations :: "ProtoMessage \<Rightarrow> bool" where
  "hasAnnotations msg \<longleftrightarrow> getMessageOptions msg \<noteq> None \<or> list_ex (\<lambda>f. getFieldOptions f \<noteq> None) (pm_Fields msg)"

record fieldInfo =
  fi_name :: string
  fi_opts :: FieldOptions

text \<open>The annotated fields, in the order of their declaration.\<close>

definition annotatedFieldsEx :: "ProtoMessage \<Rightarrow> fieldInfo list" where
  "annotatedFieldsEx msg = List.map_filter
     (\<lambda>f. map_option (\<lambda>fo. \<lparr>fi_name = pf_Name f, fi_opts = fo\<rparr>) (getFieldOptions f)) (pm_Fields msg)"

definition composites :: "ProtoMessage \<Rightarrow> string list list" where
  "composites msg = (case getMessageOptions msg of None \<Rightarrow> [] | Some mo \<Rightarrow> mo_CompositeAnchors mo)"

section \<open>Match configurations\<close>

definition similarityIdent :: "SimilarityOption \<Rightarrow> SimilarityFunc" where
  "similarityIdent sf = (case sf of
     SIMILARITY_FUNCTION_EXACT \<Rightarrow> SimilarityExact
   | SIMILARITY_FUNCTION_JARO_WINKLER \<Rightarrow> SimilarityJaroWinkler
   | SIMILARITY_FUNCTION_LEVENSHTEIN \<Rightarrow> SimilarityLevenshtein
   | SIMILARITY_FUNCTION_TOKEN_JACCARD \<Rightarrow> SimilarityTokenJaccard
   | _ \<Rightarrow> SimilarityExact)"

definition conflictIdent :: "ConflictOption \<Rightarrow> ConflictStrategy" where
  "conflictIdent cs = (case cs of
     CONFLICT_STRATEGY_FLAG_FOR_REVIEW \<Rightarrow> ConflictFlagForReview
   | CONFLICT_STRATEGY_LATEST_WINS \<Rightarrow> ConflictLatestWins
   | CONFLICT_STRATEGY_HIGHEST_CONFIDENCE \<Rightarrow> ConflictHighestConf
   | _ \<Rightarrow> ConflictFlagForReview)"

definition normalizerIdent :: "unicode \<Rightarrow> NormalizerOption \<Rightarrow> (string \<Rightarrow> string) option" where
  "normalizerIdent U n = (case n of
     NORMALIZER_LOWERCASE_TRIM \<Rightarrow> Some (NormalizeLowercaseTrim U)
   | NORMALIZER_PHONE_NORMALIZE \<Rightarrow> Some (NormalizePhone U)
   | _ \<Rightarrow> None)"

definition composite_normalizer :: "fieldInfo list \<Rightarrow> string \<Rightarrow> NormalizerOption" where
  "composite_normalizer fis fieldName = (case find (\<lambda>fi. fi_name fi = fieldName) fis of
     None \<Rightarrow> NORMALIZER_UNSPECIFIED | Some fi \<Rightarrow> fo_Normalizer (fi_opts fi))"

definition generateMatchConfig :: "unicode \<Rightarrow> ProtoMessage \<Rightarrow> EntityMatchConfig" where
  "generateMatchConfig U msg =
     (let fis = annotatedFieldsEx msg in
      \<lparr>em_EntityType = pm_FullName msg,
       em_Anchors = \<lparr>
         ac_SingleAnchors = map (\<lambda>fi. \<lparr>af_ProtoFieldName = fi_name fi, af_Normalizer = normalizerIdent U (fo_Normalizer (fi_opts fi))\<rparr>)
           (filter (\<lambda>fi. fo_Anchor (fi_opts fi)) fis),
         ac_CompositeAnchors = map (map (\<lambda>fieldName. \<lparr>af_ProtoFieldName = fieldName,
           af_Normalizer = normalizerIdent U (composite_normalizer fis fieldName)\<rparr>)) (composites msg)\<rparr>,
       em_FieldWeights = map (\<lambda>fi. \<lparr>fw_ProtoFieldName = fi_name fi, fw_Weight = fo_Weight (fi_opts fi),
           fw_Similarity = similarityIdent (fo_Similarity (fi_opts fi))\<rparr>) (filter (\<lambda>fi. 0 < fo_Weight (fi_opts fi)) fis),
       em_ConflictStrategies = map (\<lambda>fi. (fi_name fi, conflictIdent (fo_ConflictStrategy (fi_opts fi))))
         (filter (\<lambda>fi. fo_ConflictStrategy (fi_opts fi) \<noteq> CONFLICT_STRATEGY_UNSPECIFIED) fis),
       em_Thresholds = (case getMessageOptions msg of
           None \<Rightarrow> DefaultMatchThresholds
         | Some mo \<Rightarrow> (case mo_MatchThresholds mo of None \<Rightarrow> DefaultMatchThresholds | Some mt \<Rightarrow> mt)),
       em_EmbedFields = map fi_name (filter (\<lambda>fi. fo_Embed (fi_opts fi)) fis),
       em_TokenFields = map fi_name (filter (\<lambda>fi. fo_TokenField (fi_opts fi)) fis),
       em_AllowedRelations = (case getMessageOptions msg of None \<Rightarrow> [] | Some mo \<Rightarrow> mo_AllowedRelations mo),
       em_Normalizers = (\<lambda>f. case find (\<lambda>fi. fi_name fi = f \<and> fo_Normalizer (fi_opts fi) \<noteq> NORMALIZER_UNSPECIFIED) fis of
           None \<Rightarrow> None | Some fi \<Rightarrow> normalizerIdent U (fo_Normalizer (fi_opts fi)))\<rparr>)"

section \<open>Extraction schemas\<close>

definition protoKindToExtractionType :: "ProtoField \<Rightarrow> ExtractionFieldType" where
  "protoKindToExtractionType f =
     (if pf_Kind f \<in> set [''float'', ''double'', ''int32'', ''int64'', ''uint32'', ''uint64'', ''sint32'', ''sint64'', ''fixed32'',
        ''fixed64'', ''sfixed32'', ''sfixed64''] then ExtractionFieldTypeNumber
      else if pf_Kind f = ''bool'' then ExtractionFieldTypeBoolean
      else ExtractionFieldTypeString)"

definition trim_prefix :: "string \<Rightarrow> string \<Rightarrow> string" where
  "trim_prefix p s = (if take (length p) s = p then drop (length p) s else s)"

definition trim_suffix :: "string \<Rightarrow> string \<Rightarrow> string" where
  "trim_suffix p s = (if drop (length s - length p) s = p then take (length s - length p) s else s)"

definition clean_line :: "string \<Rightarrow> string" where
  "clean_line line = trim_space (trim_prefix '' '' (trim_prefix ''//'' (trim_space line)))"

definition cleanComment :: "string \<Rightarrow> string" where
  "cleanComment s =
     (let s = trim_space s in
      if s = [] then []
      else trim_suffix ''.'' (join '' '' (filter (\<lambda>line. line \<noteq> []) (map clean_line (split_on CHR 0x0A s)))))"

definition humanizeFieldName :: "string \<Rightarrow> string" where
  "humanizeFieldName name = map (\<lambda>c. if c = CHR ''_'' then CHR '' '' else c) name"

definition extract_field :: "ProtoField \<Rightarrow> ExtractionField" where
  "extract_field f =
     \<lparr>xf_Name = pf_Name f,
      xf_Description = (case getFieldOptions f of
          Some fo \<Rightarrow> if fo_Description fo \<noteq> [] then fo_Description fo
            else if cleanComment (pf_Leading f) \<noteq> [] then cleanComment (pf_Leading f) else humanizeFieldName (pf_Name f)
        | None \<Rightarrow> if cleanComment (pf_Leading f) \<noteq> [] then cleanComment (pf_Leading f) else humanizeFieldName (pf_Name f)),
      xf_Hint = (case getFieldOptions f of None \<Rightarrow> [] | Some fo \<Rightarrow> fo_ExtractionHint fo),
      xf_Type = protoKindToExtractionType f,
      xf_Required = (case getFieldOptions f of None \<Rightarrow> False | Some fo \<Rightarrow> fo_Anchor fo),
      xf_Repeated = pf_IsList f,
      xf_Examples = (case getFieldOptions f of None \<Rightarrow> [] | Some fo \<Rightarrow> fo_Examples fo)\<rparr>"

definition opted_out :: "ProtoField \<Rightarrow> bool" where
  "opted_out f \<longleftrightarrow> (case getFieldOptions f of None \<Rightarrow> False | Some fo \<Rightarrow> fo_Extract fo = Some False)"

definition generateExtractionSchema :: "ProtoMessage \<Rightarrow> ExtractionSchema" where
  "generateExtractionSchema msg =
     \<lparr>xs_EntityType = pm_FullName msg,
      xs_DisplayName = (case getMessageOptions msg of
          Some mo \<Rightarrow> if mo_ExtractionDisplayName mo \<noteq> [] then mo_ExtractionDisplayName mo else pm_GoName msg
        | None \<Rightarrow> pm_GoName msg),
      xs_Prompt = (case getMessageOptions msg of None \<Rightarrow> [] | Some mo \<Rightarrow> mo_ExtractionPrompt mo),
      xs_Instructions = (case getMessageOptions msg of None \<Rightarrow> [] | Some mo \<Rightarrow> mo_ExtractionInstructions mo),
      xs_Fields = map extract_field (filter (\<lambda>f. \<not> opted_out f) (pm_Fields msg))\<rparr>"

section \<open>Emitted functions of a message\<close>

type_synonym getters = "string \<Rightarrow> string"

text \<open>\<open>Tokenize\<close> returns a nil slice when there are no tokens; the emitted code stores it.\<close>

definition nil_slice :: "'a list \<Rightarrow> 'a list option" where
  "nil_slice xs = (if xs = [] then None else Some xs)"

definition generateTokens :: "unicode \<Rightarrow> ProtoMessage \<Rightarrow> getters \<Rightarrow> (string \<times> string list option) list option" where
  "generateTokens U msg get =
     (let tokenFields = filter (\<lambda>fi. fo_TokenField (fi_opts fi)) (annotatedFieldsEx msg) in
      if tokenFields = [] then None
      else Some (map (\<lambda>fi. (fi_name fi, nil_slice (Tokenize U (get (fi_name fi)))))
        (filter (\<lambda>fi. get (fi_name fi) \<noteq> []) tokenFields)))"

definition generateEmbedText :: "ProtoMessage \<Rightarrow> getters \<Rightarrow> string option" where
  "generateEmbedText msg get =
     (let embedFields = filter (\<lambda>fi. fo_Embed (fi_opts fi)) (annotatedFieldsEx msg) in
      if embedFields = [] then None
      else Some (join '' '' (filter (\<lambda>v. v \<noteq> []) (map (\<lambda>fi. get (fi_name fi)) embedFields))))"

definition emitted_value :: "unicode \<Rightarrow> getters \<Rightarrow> fieldInfo \<Rightarrow> string" where
  "emitted_value U get fi = (case normalizerIdent U (fo_Normalizer (fi_opts fi)) of
     None \<Rightarrow> get (fi_name fi) | Some f \<Rightarrow> f (get (fi_name fi)))"

text \<open>The value of a composite: the fields at positions \<open>i, i + 1, \<dots>\<close>; those without annotation are passed over.\<close>

fun composite_value :: "unicode \<Rightarrow> (string \<rightharpoonup> fieldInfo) \<Rightarrow> getters \<Rightarrow> nat \<Rightarrow> string list \<Rightarrow> string \<Rightarrow> string" where
  "composite_value U fieldMap get i [] val = val"
| "composite_value U fieldMap get i (fn # fns) val =
     (case fieldMap fn of
        None \<Rightarrow> composite_value U fieldMap get (Suc i) fns val
      | Some fi \<Rightarrow> composite_value U fieldMap get (Suc i) fns
          (if i = 0 then emitted_value U get fi else val @ ''|'' @ emitted_value U get fi))"

definition emitted_composite :: "unicode \<Rightarrow> (string \<rightharpoonup> fieldInfo) \<Rightarrow> getters \<Rightarrow> string list \<Rightarrow> AnchorQuery list" where
  "emitted_composite U fieldMap get ca =
     (let conditions = filter (\<lambda>fn. fieldMap fn \<noteq> None) ca in
      if conditions \<noteq> [] \<and> list_all (\<lambda>fn. get fn \<noteq> []) conditions
      then [\<lparr>aq_Field = join ''+'' ca, aq_Value = composite_value U fieldMap get 0 ca []\<rparr>] else [])"

definition generateAnchors :: "unicode \<Rightarrow> ProtoMessage \<Rightarrow> getters \<Rightarrow> AnchorQuery list option" where
  "generateAnchors U msg get =
     (let fis = annotatedFieldsEx msg;
          singleAnchors = filter (\<lambda>fi. fo_Anchor (fi_opts fi)) fis;
          fieldMap = map_of (rev (map (\<lambda>fi. (fi_name fi, fi)) fis)) in
      if singleAnchors = [] \<and> composites msg = [] then None
      else Some (map (\<lambda>fi. \<lparr>aq_Field = fi_name fi, aq_Value = emitted_value U get fi\<rparr>)
             (filter (\<lambda>fi. get (fi_name fi) \<noteq> []) singleAnchors)
           @ concat (map (emitted_composite U fieldMap get) (composites msg))))"

definition generateDisplayName :: "ProtoMessage \<Rightarrow> getters \<Rightarrow> string option" where
  "generateDisplayName msg get = (case getMessageOptions msg of
     None \<Rightarrow> None
   | Some mo \<Rightarrow> if mo_DisplayFields mo = [] then None
       else Some (case find (\<lambda>fn. fn \<in> pf_Name ` set (pm_Fields msg) \<and> get fn \<noteq> []) (mo_DisplayFields mo) of
         None \<Rightarrow> [] | Some fn \<Rightarrow> get fn))"

definition zero_WriteEntityOp :: WriteEntityOp where
  "zero_WriteEntityOp = \<lparr>wo_Action = 0, wo_ID = [], wo_Data = None, wo_Confidence = 0, wo_Tags = [], wo_MatchedEntityID = [],
     wo_Anchors = [], wo_Tokens = [], wo_Embedding = None, wo_DisplayName = [], wo_Version = 0, wo_Events = []\<rparr>"

definition generateWriteOp :: "unicode \<Rightarrow> ProtoMessage \<Rightarrow> proto_msg \<Rightarrow> getters \<Rightarrow> WriteAction \<Rightarrow> WriteOpOption list \<Rightarrow>
    WriteEntityOp option" where
  "generateWriteOp U msg m get action opts =
     (let fis = annotatedFieldsEx msg;
          hasAnchors = list_ex (\<lambda>fi. fo_Anchor (fi_opts fi)) fis;
          hasTokens = list_ex (\<lambda>fi. fo_TokenField (fi_opts fi)) fis;
          hasComposites = (composites msg \<noteq> []) in
      if \<not> hasAnchors \<and> \<not> hasTokens \<and> \<not> hasComposites then None
      else Some (foldl apply_WriteOpOption
        (zero_WriteEntityOp\<lparr>wo_Action := action, wo_Data := Some m, wo_Confidence := 1,
           wo_Anchors := (case generateAnchors U msg get of None \<Rightarrow> [] | Some as \<Rightarrow> as),
           wo_Tokens := (case generateTokens U msg get of None \<Rightarrow> [] | Some ts \<Rightarrow> ts),
           wo_DisplayName := (case generateDisplayName msg get of None \<Rightarrow> [] | Some n \<Rightarrow> n)\<rparr>) opts))"

text \<open>A file: what is emitted for its annotated messages.\<close>

record emitted =
  em_MatchConfig :: EntityMatchConfig
  em_ExtractionSchema :: ExtractionSchema
  em_Tokens :: "getters \<Rightarrow> (string \<times> string list option) list option"
  em_EmbedText :: "getters \<Rightarrow> string option"
  em_AnchorQueries :: "getters \<Rightarrow> AnchorQuery list option"
  em_DisplayName :: "getters \<Rightarrow> string option"
  em_WriteOp :: "proto_msg \<Rightarrow> getters \<Rightarrow> WriteAction \<Rightarrow> WriteOpOption list \<Rightarrow> WriteEntityOp option"

definition generateFile :: "unicode \<Rightarrow> ProtoMessage list \<Rightarrow> emitted list" where
  "generateFile U msgs = map (\<lambda>msg. \<lparr>em_MatchConfig = generateMatchConfig U msg, em_ExtractionSchema = generateExtractionSchema msg,
     em_Tokens = generateTokens U msg, em_EmbedText = generateEmbedText msg, em_AnchorQueries = generateAnchors U msg,
     em_DisplayName = generateDisplayName msg, em_WriteOp = generateWriteOp U msg\<rparr>) (filter hasAnnotations msgs)"

section \<open>Writers and the matcher agree on anchors and tokens\<close>

text \<open>What \<open>protojson\<close> promises: the document has the string fields of the message, possibly without those that
  are empty.\<close>

definition doc_matches :: "golib \<Rightarrow> ProtoMessage \<Rightarrow> getters \<Rightarrow> RawMessage \<Rightarrow> bool" where
  "doc_matches L msg get data \<longleftrightarrow>
     (\<forall>f\<in>set (pm_Fields msg). fst (fieldValue L (extractFields L data) (pf_Name f)) = get (pf_Name f))"

lemma annotated_name: "fi \<in> set (annotatedFieldsEx msg) \<Longrightarrow> fi_name fi \<in> pf_Name ` set (pm_Fields msg)"
  by (auto simp: annotatedFieldsEx_def map_filter_def)

lemma distinct_annotated:
  assumes "distinct (map pf_Name (pm_Fields msg))"
  shows "distinct (map fi_name (annotatedFieldsEx msg))"
proof -
  have "map fi_name (annotatedFieldsEx msg) = map pf_Name (filter (\<lambda>f. pf_Options f \<noteq> None) (pm_Fields msg))"
    by (auto simp: annotatedFieldsEx_def map_filter_def getFieldOptions_def comp_def)
  then show ?thesis using assms by (simp add: distinct_map_filter)
qed

lemma fieldValue_absent: "\<not> snd (fieldValue L fs n) \<Longrightarrow> fst (fieldValue L fs n) = []"
  by (auto simp: fieldValue_def split: option.splits)

lemma doc_present:
  assumes "doc_matches L msg get data" "fi \<in> set (annotatedFieldsEx msg)" "af_ProtoFieldName af = fi_name fi"
  shows "present L (extractFields L data) af \<longleftrightarrow> get (fi_name fi) \<noteq> []"
    "fst (fieldValue L (extractFields L data) (fi_name fi)) = get (fi_name fi)"
proof -
  show v: "fst (fieldValue L (extractFields L data) (fi_name fi)) = get (fi_name fi)"
    using assms(1) annotated_name [OF assms(2)] by (auto simp: doc_matches_def)
  show "present L (extractFields L data) af \<longleftrightarrow> get (fi_name fi) \<noteq> []"
    using v fieldValue_absent [of L "extractFields L data" "fi_name fi"] by (auto simp: present_def assms(3))
qed

lemma single_anchors_generated:
  assumes "doc_matches L msg get data" "set fis \<subseteq> set (annotatedFieldsEx msg)"
  shows "single_anchors L (extractFields L data)
      (map (\<lambda>fi. \<lparr>af_ProtoFieldName = fi_name fi, af_Normalizer = normalizerIdent U (fo_Normalizer (fi_opts fi))\<rparr>) fis)
    = filter (\<lambda>aq. aq_Value aq \<noteq> []) (map (\<lambda>fi. \<lparr>aq_Field = fi_name fi, aq_Value = emitted_value U get fi\<rparr>)
        (filter (\<lambda>fi. get (fi_name fi) \<noteq> []) fis))"
  using assms(2)
proof (induction fis)
  case (Cons fi fis)
  let ?af = "\<lparr>af_ProtoFieldName = fi_name fi, af_Normalizer = normalizerIdent U (fo_Normalizer (fi_opts fi))\<rparr>"
  have "fi \<in> set (annotatedFieldsEx msg)" using Cons.prems by simp
  note p = doc_present [OF assms(1) this, of ?af, simplified]
  have "norm_value L (extractFields L data) ?af = emitted_value U get fi"
    by (simp add: norm_value_def apply_normalizer_def emitted_value_def p(2) split: option.split)
  then show ?case using Cons p(1) by (simp add: single_anchors_eq)
qed (simp add: single_anchors_eq)

lemma alist_update_new: "k \<notin> fst ` set al \<Longrightarrow> AList.update k v al = al @ [(k, v)]"
  by (induction al) auto

lemma tokens_generated:
  assumes "doc_matches L msg get data" "set fis \<subseteq> set (annotatedFieldsEx msg)" "distinct (map fi_name fis)"
    "fi_name ` set fis \<inter> fst ` set acc = {}"
  shows "tokens_loop L (extractFields L data) (map fi_name fis) acc
    = acc @ List.map_filter (\<lambda>fi. if get (fi_name fi) = [] then None
        else map_option (Pair (fi_name fi)) (nil_slice (Tokenize (ucd L) (get (fi_name fi))))) fis"
  using assms(2-4)
proof (induction fis arbitrary: acc)
  case (Cons fi fis)
  let ?v = "fieldValue L (extractFields L data) (fi_name fi)"
  have "fi \<in> set (annotatedFieldsEx msg)" using Cons.prems by simp
  note p = doc_present [OF assms(1) this, of "\<lparr>af_ProtoFieldName = fi_name fi, af_Normalizer = None\<rparr>", simplified]
  have v: "fst ?v = get (fi_name fi)" "\<not> snd ?v \<or> fst ?v = [] \<longleftrightarrow> get (fi_name fi) = []"
    using p by (auto simp: present_def)
  have up: "AList.update (fi_name fi) ts acc = acc @ [(fi_name fi, ts)]" for ts
    using Cons.prems(3) by (intro alist_update_new) auto
  show ?case
    using Cons.IH [of acc] Cons.IH [of "acc @ [(fi_name fi, Tokenize (ucd L) (get (fi_name fi)))]"] Cons.prems v
    by (auto simp: Let_def split_beta up nil_slice_def map_filter_simps image_iff)
qed (simp add: map_filter_simps)

lemma map_filter_pairs:
  "List.map_filter (\<lambda>x. if g x = [] then None else map_option (Pair (k x)) (h x)) xs
    = List.map_filter (\<lambda>(f, ts). map_option (Pair f) ts) (map (\<lambda>x. (k x, h x)) (filter (\<lambda>x. g x \<noteq> []) xs))"
  by (induction xs) (auto simp: map_filter_simps split: option.split)

text \<open>The composites: stored under the names of their fields joined with \<open>+\<close>, looked up under the names joined
  with \<open>|\<close>. When all their fields are annotated, it is the same composites, with the same values.\<close>

definition same_composite :: "string list list \<Rightarrow> AnchorQuery \<Rightarrow> AnchorQuery \<Rightarrow> bool" where
  "same_composite cs a b \<longleftrightarrow> aq_Value a = aq_Value b
     \<and> (\<exists>ca\<in>set cs. aq_Field a = join ''+'' ca \<and> aq_Field b = join ''|'' ca)"

lemma find_fi_name:
  "distinct (map fi_name fis) \<Longrightarrow> fi \<in> set fis \<Longrightarrow> find (\<lambda>x. fi_name x = fi_name fi) fis = Some fi"
  by (induction fis) auto

lemma map_of_fi_name:
  assumes "distinct (map fi_name fis)" "fi \<in> set fis"
  shows "map_of (rev (map (\<lambda>fi. (fi_name fi, fi)) fis)) (fi_name fi) = Some fi"
proof (rule map_of_is_SomeI)
  have "map fst (rev (map (\<lambda>fi. (fi_name fi, fi)) fis)) = rev (map fi_name fis)" by (simp add: rev_map comp_def)
  then show "distinct (map fst (rev (map (\<lambda>fi. (fi_name fi, fi)) fis)))" using assms(1) by simp
qed (use assms(2) in auto)

lemma composite_value_join:
  assumes "\<And>n. n \<in> set ca \<Longrightarrow> \<exists>fi. fm n = Some fi \<and> emitted_value U get fi = v n"
  shows "composite_value U fm get 0 ca [] = join ''|'' (map v ca)"
proof -
  have step: "composite_value U fm get (Suc i) ns x = join ''|'' (x # map v ns)"
    if "set ns \<subseteq> set ca" for ns i x
    using that
  proof (induction ns arbitrary: i x)
    case (Cons n ns)
    obtain fi where "fm n = Some fi" "emitted_value U get fi = v n" using assms [of n] Cons.prems by auto
    then show ?case using Cons by (cases ns) simp_all
  qed simp
  show ?thesis
  proof (cases ca)
    case (Cons n ns)
    then have "set ns \<subseteq> set ca" by auto
    from step [OF this, of 0 "v n"] show ?thesis using Cons assms [of n] by auto
  qed simp
qed

lemma stored_composites_field: "aq \<in> set (concat (map (emitted_composite U fm get) cs)) \<Longrightarrow> aq_Field aq \<in> join ''+'' ` set cs"
  by (auto simp: emitted_composite_def Let_def split: if_splits)

lemma looked_composites_field:
  assumes "aq \<in> set (composite_anchors L fs (ac_CompositeAnchors (em_Anchors (generateMatchConfig U msg))))"
  shows "aq_Field aq \<in> join ''|'' ` set (composites msg)"
  using assms by (auto simp: composite_anchors_eq generateMatchConfig_def Let_def comp_def)

lemma same_composites:
  assumes "doc_matches L msg get data" "distinct (map pf_Name (pm_Fields msg))"
    and "\<forall>ca\<in>set cs. set ca \<subseteq> fi_name ` set (annotatedFieldsEx msg)"
  shows "list_all2 (same_composite cs)
    (concat (map (emitted_composite (ucd L) (map_of (rev (map (\<lambda>fi. (fi_name fi, fi)) (annotatedFieldsEx msg)))) get) cs))
    (composite_anchors L (extractFields L data) (map (map (\<lambda>n. \<lparr>af_ProtoFieldName = n,
        af_Normalizer = normalizerIdent (ucd L) (composite_normalizer (annotatedFieldsEx msg) n)\<rparr>)) cs))"
  (is "list_all2 _ (concat (map (emitted_composite _ ?fm _) cs)) (composite_anchors L ?fs (map ?afs cs))")
proof -
  let ?fis = "annotatedFieldsEx msg"
  have d: "distinct (map fi_name ?fis)" by (rule distinct_annotated [OF assms(2)])
  let ?af = "\<lambda>n. \<lparr>af_ProtoFieldName = n, af_Normalizer = normalizerIdent (ucd L) (composite_normalizer ?fis n)\<rparr>"
  have field: "?fm n \<noteq> None" "present L ?fs (?af n) \<longleftrightarrow> get n \<noteq> []"
    "\<exists>fi. ?fm n = Some fi \<and> emitted_value (ucd L) get fi = norm_value L ?fs (?af n)"
    if n: "n \<in> fi_name ` set ?fis" for n
  proof -
    obtain fi where fi: "fi \<in> set ?fis" "n = fi_name fi" using n by auto
    note p = doc_present [OF assms(1) fi(1), of "?af n", unfolded fi(2), simplified]
    have m: "?fm n = Some fi" using map_of_fi_name [OF d fi(1)] fi(2) by simp
    have "composite_normalizer ?fis n = fo_Normalizer (fi_opts fi)"
      using find_fi_name [OF d fi(1)] by (simp add: composite_normalizer_def fi(2))
    then have "emitted_value (ucd L) get fi = norm_value L ?fs (?af n)"
      using p(2) by (simp add: emitted_value_def norm_value_def apply_normalizer_def fi(2) split: option.split)
    with m p(1) fi(2) show "?fm n \<noteq> None" "present L ?fs (?af n) \<longleftrightarrow> get n \<noteq> []"
      "\<exists>fi. ?fm n = Some fi \<and> emitted_value (ucd L) get fi = norm_value L ?fs (?af n)" by auto
  qed
  have one: "emitted_composite (ucd L) ?fm get ca = (if ca \<noteq> [] \<and> list_all (present L ?fs) (?afs ca)
      then [\<lparr>aq_Field = join ''+'' ca, aq_Value = join ''|'' (map (norm_value L ?fs) (?afs ca))\<rparr>] else [])"
    if ca: "set ca \<subseteq> fi_name ` set ?fis" for ca
  proof -
    have n: "n \<in> fi_name ` set ?fis" if "n \<in> set ca" for n using ca that by blast
    have c: "filter (\<lambda>n. ?fm n \<noteq> None) ca = ca" using field(1) [OF n] by (intro filter_True) blast
    have p: "list_all (present L ?fs) (?afs ca) \<longleftrightarrow> list_all (\<lambda>n. get n \<noteq> []) ca"
      using field(2) [OF n] by (simp add: list_all_iff)
    have "composite_value (ucd L) ?fm get 0 ca [] = join ''|'' (map (\<lambda>n. norm_value L ?fs (?af n)) ca)"
      by (rule composite_value_join) (rule field(3) [OF n])
    then show ?thesis unfolding emitted_composite_def Let_def c p by (simp add: comp_def)
  qed
  have "list_all2 (same_composite cs) (concat (map (emitted_composite (ucd L) ?fm get) xs)) (composite_anchors L ?fs (map ?afs xs))"
    if "set xs \<subseteq> set cs" for xs
    using that
  proof (induction xs)
    case (Cons ca xs)
    have "same_composite cs \<lparr>aq_Field = join ''+'' ca, aq_Value = v\<rparr> \<lparr>aq_Field = join ''|'' ca, aq_Value = v\<rparr>" for v
      using Cons.prems by (auto simp: same_composite_def)
    then show ?case using Cons one [of ca] assms(3) by (auto simp: composite_anchors_eq comp_def)
  qed (simp add: composite_anchors_eq)
  then show ?thesis by simp
qed

lemma foldl_options_anchors: "wo_Anchors (foldl apply_WriteOpOption opr opts) = wo_Anchors opr"
proof (induction opts arbitrary: opr)
  case (Cons x opts)
  then show ?case by (cases x) simp_all
qed simp

text \<open>The single anchors of a message and the composites it stores.\<close>

definition single_queries :: "unicode \<Rightarrow> ProtoMessage \<Rightarrow> getters \<Rightarrow> AnchorQuery list" where
  "single_queries U msg get = map (\<lambda>fi. \<lparr>aq_Field = fi_name fi, aq_Value = emitted_value U get fi\<rparr>)
     (filter (\<lambda>fi. fo_Anchor (fi_opts fi) \<and> get (fi_name fi) \<noteq> []) (annotatedFieldsEx msg))"

lemma generated_anchors:
  assumes "generateWriteOp U msg m get action opts = Some opr"
  shows "wo_Anchors opr = single_queries U msg get
    @ concat (map (emitted_composite U (map_of (rev (map (\<lambda>fi. (fi_name fi, fi)) (annotatedFieldsEx msg)))) get) (composites msg))"
proof -
  have "wo_Anchors opr = (case generateAnchors U msg get of None \<Rightarrow> [] | Some as \<Rightarrow> as)"
    using assms by (auto simp: generateWriteOp_def Let_def foldl_options_anchors split: if_splits)
  then show ?thesis by (auto simp: generateAnchors_def single_queries_def Let_def filter_empty_conv conj_commute)
qed

lemma looked_up_anchors:
  assumes "doc_matches L msg get data"
  shows "buildAnchors L data (generateMatchConfig (ucd L) msg) = filter (\<lambda>aq. aq_Value aq \<noteq> []) (single_queries (ucd L) msg get)
    @ composite_anchors L (extractFields L data) (ac_CompositeAnchors (em_Anchors (generateMatchConfig (ucd L) msg)))"
  using single_anchors_generated [OF assms, of "filter (\<lambda>fi. fo_Anchor (fi_opts fi)) (annotatedFieldsEx msg)" "ucd L"]
  by (auto simp: buildAnchors_def generateMatchConfig_def single_queries_def Let_def comp_def conj_commute)

lemma generated_tokens_agree:
  assumes "doc_matches L msg get data" "distinct (map pf_Name (pm_Fields msg))"
    and "generateWriteOp (ucd L) msg m get action [] = Some opr"
  shows "(case buildTokens L data (generateMatchConfig (ucd L) msg) of None \<Rightarrow> [] | Some ts \<Rightarrow> ts)
      = List.map_filter (\<lambda>(f, ts). map_option (Pair f) ts) (wo_Tokens opr)"
proof -
  let ?tfs = "filter (\<lambda>fi. fo_TokenField (fi_opts fi)) (annotatedFieldsEx msg)"
  let ?cfg = "generateMatchConfig (ucd L) msg"
  have opr: "wo_Tokens opr = (case generateTokens (ucd L) msg get of None \<Rightarrow> [] | Some ts \<Rightarrow> ts)"
    using assms(3) by (auto simp: generateWriteOp_def Let_def split: if_splits)
  have d: "distinct (map fi_name ?tfs)" using distinct_map_filter [OF distinct_annotated [OF assms(2)]] .
  have "wo_Tokens opr = map (\<lambda>fi. (fi_name fi, nil_slice (Tokenize (ucd L) (get (fi_name fi)))))
      (filter (\<lambda>fi. get (fi_name fi) \<noteq> []) ?tfs)"
    by (auto simp add: opr generateTokens_def Let_def simp del: filter_filter)
  then have "tokens_loop L (extractFields L data) (map fi_name ?tfs) []
    = List.map_filter (\<lambda>(f, ts). map_option (Pair f) ts) (wo_Tokens opr)"
    using tokens_generated [OF assms(1) _ d, of "[]"]
      map_filter_pairs [of "\<lambda>fi. get (fi_name fi)" fi_name "\<lambda>fi. nil_slice (Tokenize (ucd L) (get (fi_name fi)))" ?tfs]
    by (simp del: filter_filter)
  moreover have "em_TokenFields ?cfg = map fi_name ?tfs" by (simp add: generateMatchConfig_def Let_def)
  ultimately show ?thesis by (auto simp: buildTokens_def Let_def)
qed


section \<open>Composite anchors\<close>

lemma set_join: "set (join sep ws) \<subseteq> set sep \<union> \<Union> (set ` set ws)"
  by (induction sep ws rule: join.induct) auto

lemma sep_in_join: "2 \<le> length ws \<Longrightarrow> set sep \<subseteq> set (join sep ws)"
  by (cases "(sep, ws)" rule: join.cases) auto

text \<open>Composite anchors written by generated code are never found: for a composite of at least two fields
  the field name under which the generated function stores the anchor (names joined with \<open>+\<close>) is not the
  field of any anchor that the matcher looks up under the generated configuration (names joined with
  \<open>|\<close>), whatever the document.\<close>

theorem generated_composites_never_found:
  assumes "ca \<in> set (composites msg)" "2 \<le> length ca" "aq \<in> set (emitted_composite U fieldMap get ca)"
    and "\<forall>f\<in>set (pm_Fields msg). CHR ''+'' \<notin> set (pf_Name f)" "\<forall>c\<in>set (composites msg). \<forall>n\<in>set c. CHR ''+'' \<notin> set n"
  shows "aq_Field aq \<notin> aq_Field ` set (buildAnchors L data (generateMatchConfig U msg))"
proof -
  let ?cfg = "generateMatchConfig U msg"
  have "CHR ''+'' \<in> set (aq_Field aq)"
    using assms(3) sep_in_join [OF assms(2), of "''+''"] by (auto simp: emitted_composite_def Let_def split: if_splits)
  moreover have "CHR ''+'' \<notin> set (aq_Field b)" if "b \<in> set (buildAnchors L data ?cfg)" for b
  proof -
    have "(\<exists>n\<in>pf_Name ` set (pm_Fields msg). aq_Field b = n) \<or> (\<exists>c\<in>set (composites msg). aq_Field b = join ''|'' c)"
      using that annotated_name
      by (fastforce simp: buildAnchors_def single_anchors_eq composite_anchors_eq generateMatchConfig_def Let_def comp_def)
    then show ?thesis using assms(4,5) set_join [of "''|''"] by fastforce
  qed
  ultimately show ?thesis by (auto dest: sym)
qed

section \<open>Token fields without tokens\<close>

lemma foldl_options_tokens: "wo_Tokens (foldl apply_WriteOpOption opr opts) = wo_Tokens opr"
proof (induction opts arbitrary: opr)
  case (Cons x opts)
  then show ?case by (cases x) simp_all
qed simp

lemma upsertTokens_null: "(f, None) \<in> set ks \<Longrightarrow> upsertTokens u ty ks s \<noteq> (s', Inr x)"
proof (induction ks arbitrary: s)
  case (Cons k ks)
  show ?case
  proof (cases "k = (f, None)")
    case True
    have "exec (\<lambda>_ _ t. Inl NotNullViolation) s1 \<noteq> (s2, Inr y)" for s1 s2 :: db and y :: unit
      by (auto elim!: exec_Inr)
    then show ?thesis by (simp add: True q_UpsertTokens_def dbind_Inr_iff)
  next
    case False
    then show ?thesis using Cons by (cases k) (auto simp: dbind_Inr_iff)
  qed
qed simp

text \<open>A field marked as token field that holds only punctuation makes the message unwritable: the generated
  code stores a nil slice for it, the database refuses the NULL, and neither creating nor updating an
  entity with the generated operation succeeds, whatever options are passed.\<close>

theorem generated_null_tokens_fail:
  assumes "generateWriteOp U msg m get action opts = Some opr"
    and "fi \<in> set (annotatedFieldsEx msg)" "fo_TokenField (fi_opts fi)" "get (fi_name fi) \<noteq> []" "Tokenize U (get (fi_name fi)) = []"
  shows "snd (applyEntityWrite L opr s) \<noteq> Inr ent"
proof
  assume "snd (applyEntityWrite L opr s) = Inr ent"
  then obtain s' where r: "applyEntityWrite L opr s = (s', Inr ent)" by (metis prod.collapse)
  have "wo_Tokens opr = (case generateTokens U msg get of None \<Rightarrow> [] | Some ts \<Rightarrow> ts)"
    using assms(1) by (auto simp: generateWriteOp_def Let_def foldl_options_tokens split: if_splits)
  then have n: "(fi_name fi, None) \<in> set (wo_Tokens opr)"
    using assms(2-5) by (force simp: generateTokens_def Let_def nil_slice_def filter_empty_conv)
  have "applyCreate L opr s \<noteq> (s', Inr ent)"
    using upsertTokens_null [OF n] by (auto simp: applyCreate_def dbind_Inr_iff)
  moreover have "applyUpdateOrMerge L opr s \<noteq> (s', Inr ent)"
    using upsertTokens_null [OF n] by (auto simp: applyUpdateOrMerge_def dbind_Inr_iff)
  ultimately show False using r by (auto simp: applyEntityWrite_def split: if_splits)
qed

section \<open>A message to evaluate\<close>

definition demo_options :: FieldOptions where
  "demo_options = \<lparr>fo_Anchor = True, fo_Weight = 1, fo_Similarity = SIMILARITY_FUNCTION_EXACT,
     fo_ConflictStrategy = CONFLICT_STRATEGY_LATEST_WINS, fo_Normalizer = NORMALIZER_UNSPECIFIED, fo_Embed = False, fo_TokenField = True,
     fo_Extract = None, fo_Description = [], fo_ExtractionHint = [], fo_Examples = []\<rparr>"

definition demo_field :: "string \<Rightarrow> ProtoField" where
  "demo_field n = \<lparr>pf_Name = n, pf_Kind = ''string'', pf_IsList = False, pf_Leading = [], pf_Options = Some demo_options\<rparr>"

definition demo_message :: "string list list \<Rightarrow> ProtoMessage" where
  "demo_message cs = \<lparr>pm_FullName = ''t.v1.X'', pm_GoName = ''X'', pm_Fields = [demo_field ''a'', demo_field ''b''],
     pm_Options = Some \<lparr>mo_CompositeAnchors = cs, mo_MatchThresholds = None, mo_AllowedRelations = [], mo_DisplayFields = [],
       mo_ExtractionPrompt = [], mo_ExtractionInstructions = [], mo_ExtractionDisplayName = []\<rparr>\<rparr>"

lemmas demo_message_defs = demo_message_def demo_field_def demo_options_def annotatedFieldsEx_def composites_def
  getMessageOptions_def getFieldOptions_def map_filter_simps


theorem generated_composites_never_found_witness:
  "''a+b'' \<notin> aq_Field ` set (buildAnchors sample_lib None (generateMatchConfig (ucd sample_lib) (demo_message [[''a'', ''b'']])))"
proof -
  let ?fm = "[''a'' \<mapsto> \<lparr>fi_name = ''a'', fi_opts = demo_options\<rparr>, ''b'' \<mapsto> \<lparr>fi_name = ''b'', fi_opts = demo_options\<rparr>]"
  let ?v = "composite_value (ucd sample_lib) ?fm (\<lambda>_. ''x'') 0 [''a'', ''b''] []"
  have "\<lparr>aq_Field = ''a+b'', aq_Value = ?v\<rparr> \<in> set (emitted_composite (ucd sample_lib) ?fm (\<lambda>_. ''x'') [''a'', ''b''])"
    by (simp add: emitted_composite_def)
  from generated_composites_never_found [OF _ _ this, of "demo_message [[''a'', ''b'']]" sample_lib None]
  show ?thesis by (simp add: demo_message_defs)
qed

theorem generated_null_tokens_fail_witness:
  "\<exists>opr. generateWriteOp (ucd sample_lib) (demo_message []) (OtherMessage ''t.v1.X'' (JObj [])) (\<lambda>_. ''!'') WriteActionCreate [] = Some opr
    \<and> snd (applyEntityWrite demo_lib opr demo_db) \<noteq> Inr (entityFromRow demo_lib (hd (entities demo_tables)))"
proof -
  obtain opr where o: "generateWriteOp (ucd sample_lib) (demo_message []) (OtherMessage ''t.v1.X'' (JObj [])) (\<lambda>_. ''!'') WriteActionCreate [] = Some opr"
    by (simp add: generateWriteOp_def demo_message_defs Let_def)
  have e: "''!'' = encode [33]" by (simp add: encode_rune_def valid_rune_def byte_def char_of_def bit_0)
  have t: "Tokenize (ucd sample_lib) ''!'' = []"
    unfolding e Tokenize_def Let_def strings_to_lower_def strings_map_def
    by (simp add: runes_encode strings_fields_encode valid_rune_def to_lower_def letter_or_space_def is_letter_def is_digit_def
        is_space_def del: encode_simps(2))
  have "\<lparr>fi_name = ''a'', fi_opts = demo_options\<rparr> \<in> set (annotatedFieldsEx (demo_message []))" by (simp add: demo_message_defs)
  from generated_null_tokens_fail [OF o this] t o show ?thesis by (simp add: demo_options_def)
qed

end
