(* ===== verification/Ingestion.thy ===== *)
theory Ingestion
  imports Codegen
begin

text \<open>
  The ingestion path across components: a message is written with the operation that the generator
  emits for it, and a document is matched under the configuration that the generator emits, against
  the same database. \<open>generateWriteOp\<close> and \<open>generateMatchConfig\<close> are in \<open>Codegen\<close>, \<open>BatchWrite\<close> in
  \<open>Store_Write\<close>, \<open>Match\<close> in \<open>Matcher\<close>, and \<open>pg_store\<close>, the view of the store that the matcher calls, in
  \<open>Read_Effects\<close>.
\<close>

section \<open>Lookups that meet no failure\<close>

lemma select_runs:
  assumes "tx s = None" "\<And>k. \<not> fault s k"
  shows "select f s = (next_tick s, Inr (f (tabs s)))"
proof -
  have "(next_tick s)\<lparr>tabs := tabs s\<rparr> = next_tick s" by (simp add: next_tick_def)
  then show ?thesis using assms by (simp add: select_def exec_def exec_auto_def)
qed

lemma find_anchor_rows_runs:
  assumes "tx s = None" "\<And>k. \<not> fault s k"
  shows "\<exists>s' rows. find_anchor_rows ty ts ats ex un as s = (s', Inr rows)"
  using assms
proof (induction "as" arbitrary: s)
  case (Cons aq aqs)
  have "\<exists>s' rows. find_anchor_rows ty ts ats ex un aqs (next_tick s) = (s', Inr rows)"
    by (rule Cons.IH) (simp_all add: Cons.prems next_tick_def)
  then show ?case
    by (auto simp: dbind_def dwrap_def q_FindByAnchors_def select_runs [OF Cons.prems] dret_def)
qed (simp add: dret_def)

lemma FindByAnchors_runs:
  assumes "tx s = None" "\<And>k. \<not> fault s k"
  obtains s' es where "FindByAnchors L ty as filt s = (s', Inr es)"
  using find_anchor_rows_runs [OF assms, of ty "tagsParam filt" "anyTagsParam filt" "excludeTagParam filt" "unlessTagsParam filt" "as"]
  that by (force simp: FindByAnchors_def dmap_def dbind_def dret_def)

section \<open>The row a batch creates\<close>

lemma single_create_effect:
  assumes "BatchWrite L st [bop] s = (s', Inr rs)" "\<not> st_external st" "tx s = None"
    and "bo_WriteEntity bop = Some opr" "wo_Action opr = WriteActionCreate"
  obtains ty d e where "marshalEntityData L opr = Inr (ty, d)" "e \<in> set (entities (tabs s'))" "live e"
    "e_type e = ty" "e_data e = d" "\<forall>aq\<in>set (wo_Anchors opr). anchored (tabs s') ty aq (e_id e)"
    "rs = [\<lparr>br_Entity = Some (entityFromRow L e), br_Relation = None\<rparr>]"
proof -
  have t: "in_tx False (Wrap ''tx commit'') (executeBatchOps L 0 [bop]) s = (s', Inr rs)"
    using assms(1,2) by (auto simp: BatchWrite_def dbind_Inr_iff simp del: executeBatchOps.simps split: if_splits)
  obtain s2 where s2: "executeBatchOps L 0 [bop] (started s) = (s2, Inr rs)" "tabs s' = tabs s2"
    by (rule in_tx_cases [OF t steady_executeBatchOps assms(3)]) simp_all
  obtain sa ent where p: "evaluatePreConditions L 0 (bo_PreConditions bop) (started s) = (sa, Inr ())"
    and c: "applyCreate L opr sa = (s2, Inr ent)" and rs: "rs = [\<lparr>br_Entity = Some ent, br_Relation = None\<rparr>]"
    using s2(1) assms(4,5) by (auto simp: batch_op_def applyEntityWrite_def dbind_Inr_iff)
  obtain T where "tx sa = Some T" using steadyD [OF steady_evaluatePreConditions _ p] by (auto simp: started_def)
  from applyCreate_effect [OF c this] show thesis using that s2(2) rs by metis
qed

section \<open>The plan for a document that agrees\<close>

lemma merge_fields_generated: "set (merge_fields (generateMatchConfig U msg)) \<subseteq> pf_Name ` set (pm_Fields msg)"
  using annotated_name by (auto simp: set_merge_fields generateMatchConfig_def Let_def)

lemma agreeing_plan:
  assumes "\<And>f. f \<in> set (merge_fields (mr_config m)) \<Longrightarrow>
      fst (fieldValue L (extractFields L d) f) = fst (fieldValue L (extractFields L x) f)"
    and "oper \<in> set (buildMergePlan L m d x)"
  shows "fm_Op oper = MergeKeep"
  using assms by (auto simp: buildMergePlan_def field_op_def Let_def)

lemma keeping_plan: "(\<And>oper. oper \<in> set p \<Longrightarrow> fm_Op oper = MergeKeep) \<Longrightarrow> merge_action p = ActionUpdate"
  by (auto simp: merge_action_def hasConflictOps_def list_ex_iff)

text \<open>Among the anchors the matcher looks up are the single anchors of the message; each of them has been stored.\<close>

lemma single_anchor_found:
  assumes "generateWriteOp (ucd L) msg m get action opts = Some opr" "doc_matches L msg get data"
    and "fi \<in> set (annotatedFieldsEx msg)" "fo_Anchor (fi_opts fi)" "get (fi_name fi) \<noteq> []" "emitted_value (ucd L) get fi \<noteq> []"
  shows "\<exists>aq\<in>set (buildAnchors L data (generateMatchConfig (ucd L) msg)). aq \<in> set (wo_Anchors opr)"
proof -
  have "\<lparr>aq_Field = fi_name fi, aq_Value = emitted_value (ucd L) get fi\<rparr> \<in> set (single_queries (ucd L) msg get)"
    using assms(3-5) by (auto simp: single_queries_def)
  then show ?thesis
    unfolding looked_up_anchors [OF assms(2)] generated_anchors [OF assms(1)] using assms(6) by auto
qed

lemma written_message:
  assumes "generateWriteOp U msg m get action opts = Some opr"
  shows "wo_Data opr = Some m" "wo_Action opr = action"
proof -
  have "wo_Data (foldl apply_WriteOpOption w os) = wo_Data w \<and> wo_Action (foldl apply_WriteOpOption w os) = wo_Action w" for w os
  proof (induction os arbitrary: w)
    case (Cons x os)
    then show ?case by (cases x) simp_all
  qed simp
  then show "wo_Data opr = Some m" "wo_Action opr = action"
    using assms by (auto simp: generateWriteOp_def Let_def split: if_splits)
qed

text \<open>Anchors that belong to one live entity or to none find it alone.\<close>

lemma anchored_alone:
  assumes "FindByAnchors L ty as None s = (s', Inr es)" "schema (tabs s)" "e \<in> set (entities (tabs s))" "live e"
    and "\<forall>aq\<in>set as. anchored (tabs s) ty aq (e_id e) \<or> (\<forall>u. \<not> anchored (tabs s) ty aq u)"
    and "\<exists>aq\<in>set as. anchored (tabs s) ty aq (e_id e)"
  shows "es = [entityFromRow L e]"
proof -
  have "{x \<in> set (entities (tabs s)). live x \<and> passes None x \<and> (\<exists>aq\<in>set as. anchored (tabs s) ty aq (e_id x))} = {e}"
  proof (intro equalityI subsetI)
    fix x assume "x \<in> {x \<in> set (entities (tabs s)). live x \<and> passes None x \<and> (\<exists>aq\<in>set as. anchored (tabs s) ty aq (e_id x))}"
    then obtain aq where "x \<in> set (entities (tabs s))" "aq \<in> set as" "anchored (tabs s) ty aq (e_id x)" by blast
    with assms(5) anchored_unique [OF assms(2)] distinct_id [OF assms(2) _ assms(3)] show "x \<in> {e}" by blast
  next
    fix x assume "x \<in> {e}"
    then show "x \<in> {x \<in> set (entities (tabs s)). live x \<and> passes None x \<and> (\<exists>aq\<in>set as. anchored (tabs s) ty aq (e_id x))}"
      using assms(3,4,6) by (auto simp: passes_def tag_filter_def tagsParam_def anyTagsParam_def excludeTagParam_def)
  qed
  then have "set es = {entityFromRow L e}" using FindByAnchors_set [OF assms(1,2)] by simp
  moreover have "distinct (map se_ID es)"
    using assms(1) distinct_entity_IDs by (auto simp: FindByAnchors_def dmap_Inr_iff)
  ultimately show ?thesis by (intro distinct_set_singleton) (auto simp: distinct_map)
qed

section \<open>Writing, then matching\<close>

text \<open>C12. Ingestion of a message with a single-field anchor is idempotent across code generator, store and matcher: after a batch has
  created a message with its generated write operation, matching any document with the same field values against the
  database under the generated configuration finds that entity by its anchors, with confidence 1, asks
  to update it, and plans to keep every field. Three conditions: some field that is annotated as an anchor by itself has a value that does not
  normalize to the empty string (a message that is identified by composite anchors alone is never found again); the anchors that are looked up but were
  not stored with the message, as the composites under their other names, are registered for no entity of the type; and
  the lookup meets no database failure.\<close>

theorem ingest_then_match:
  assumes create: "BatchWrite L st [bop] s = (s', Inr rs)" "\<not> st_external st" "tx s = None" "schema (tabs s)"
    and bop: "bo_WriteEntity bop = Some opr"
      "generateWriteOp (ucd (lib_go L)) msg m get WriteActionCreate opts = Some opr"
    and message: "MessageName m = pm_FullName msg" "protojson_Marshal L m = Some j" "doc_matches (lib_go L) msg get (Some j)"
    and anchor: "fi \<in> set (annotatedFieldsEx msg)" "fo_Anchor (fi_opts fi)" "get (fi_name fi) \<noteq> []"
      "emitted_value (ucd (lib_go L)) get fi \<noteq> []"
    and others: "\<forall>aq\<in>set (buildAnchors (lib_go L) data (generateMatchConfig (ucd (lib_go L)) msg)).
      aq \<notin> set (wo_Anchors opr) \<longrightarrow> (\<forall>u. \<not> anchored (tabs s') (pm_FullName msg) aq u)"
    and lookup: "doc_matches (lib_go L) msg get data" "tabs s1 = tabs s'" "tx s1 = None" "\<And>k. \<not> fault s1 k"
  shows "\<exists>ent dec. br_Entity (hd rs) = Some ent
    \<and> Match (lib_go L) (NewMatcher (generateMatchConfig (ucd (lib_go L)) msg) (pg_store L s1 s2 s3) mopts) data = Inr dec
    \<and> md_MatchedRecordID dec = se_ID ent \<and> md_MatchMethod dec = ''anchor'' \<and> md_MatchConfidence dec = 1
    \<and> md_Action dec = ActionUpdate \<and> (\<forall>oper\<in>set (md_MergePlan dec). fm_Op oper = MergeKeep)"
proof -
  let ?L = "lib_go L"
  let ?cfg = "generateMatchConfig (ucd ?L) msg"
  let ?m = "NewMatcher ?cfg (pg_store L s1 s2 s3) mopts"
  have m: "mr_config ?m = ?cfg" "mr_store ?m = pg_store L s1 s2 s3" by (simp_all add: NewMatcher_def Let_def)
  have w: "wo_Data opr = Some m" "wo_Action opr = WriteActionCreate" using written_message [OF bop(2)] by simp_all
  obtain ty d e where e: "marshalEntityData L opr = Inr (ty, d)" "e \<in> set (entities (tabs s'))" "live e"
    "e_type e = ty" "e_data e = d" "\<forall>aq\<in>set (wo_Anchors opr). anchored (tabs s') ty aq (e_id e)"
    "rs = [\<lparr>br_Entity = Some (entityFromRow L e), br_Relation = None\<rparr>]"
    by (rule single_create_effect [OF create(1-3) bop(1) w(2)])
  have ty: "ty = em_EntityType ?cfg" "d = j"
    using e(1) w(1) message(1,2) by (auto simp: marshalEntityData_def generateMatchConfig_def Let_def split: if_splits)
  have sch: "schema (tabs s1)"
    using presD [OF constraints.keeps_BatchWrite _ create(1)] create(3,4) lookup(2) by (simp add: good_def)
  have own: "\<exists>aq\<in>set (buildAnchors ?L data ?cfg). aq \<in> set (wo_Anchors opr)"
    by (rule single_anchor_found [OF bop(2) lookup(1) anchor])
  then have ne: "buildAnchors ?L data ?cfg \<noteq> []" by auto
  have name: "em_EntityType ?cfg = pm_FullName msg" by (simp add: generateMatchConfig_def Let_def)
  obtain sf es where f: "FindByAnchors L (em_EntityType ?cfg) (buildAnchors ?L data ?cfg) None s1 = (sf, Inr es)"
    by (rule FindByAnchors_runs [OF lookup(3,4)])
  have "es = [entityFromRow L e]"
  proof (rule anchored_alone [OF f sch])
    show "e \<in> set (entities (tabs s1))" "live e" using e(2,3) lookup(2) by simp_all
    show "\<forall>aq\<in>set (buildAnchors ?L data ?cfg). anchored (tabs s1) (em_EntityType ?cfg) aq (e_id e)
        \<or> (\<forall>u. \<not> anchored (tabs s1) (em_EntityType ?cfg) aq u)"
      using e(6) ty(1) lookup(2) others unfolding name by auto
    show "\<exists>aq\<in>set (buildAnchors ?L data ?cfg). anchored (tabs s1) (em_EntityType ?cfg) aq (e_id e)"
      using e(6) ty(1) lookup(2) own by auto
  qed
  moreover have keep: "fm_Op oper = MergeKeep" if "oper \<in> set (buildMergePlan ?L ?m data (Some j))" for oper
  proof (rule agreeing_plan [OF _ that])
    fix fn assume "fn \<in> set (merge_fields (mr_config ?m))"
    then have "fn \<in> pf_Name ` set (pm_Fields msg)" using merge_fields_generated m(1) by auto
    then show "fst (fieldValue ?L (extractFields ?L data) fn) = fst (fieldValue ?L (extractFields ?L (Some j)) fn)"
      using message(3) lookup(1) by (auto simp: doc_matches_def)
  qed
  ultimately show ?thesis
    using ne f m e(5,7) ty(2) keeping_plan [OF keep]
    by (auto simp: Match_def Let_def pg_store_def entityFromRow_def decision_def)
qed

section \<open>A message to ingest\<close>

text \<open>An anchor field, a field that is no anchor, and a composite of both.\<close>

definition anchor_message :: ProtoMessage where
  "anchor_message = \<lparr>pm_FullName = ''t.v1.X'', pm_GoName = ''X'', pm_Fields =
       [\<lparr>pf_Name = ''vat'', pf_Kind = ''string'', pf_IsList = False, pf_Leading = [], pf_Options = Some (demo_options\<lparr>fo_TokenField := False\<rparr>)\<rparr>,
        \<lparr>pf_Name = ''name'', pf_Kind = ''string'', pf_IsList = False, pf_Leading = [],
         pf_Options = Some (demo_options\<lparr>fo_Anchor := False, fo_TokenField := False\<rparr>)\<rparr>],
     pm_Options = Some \<lparr>mo_CompositeAnchors = [[''vat'', ''name'']], mo_MatchThresholds = None, mo_AllowedRelations = [],
       mo_DisplayFields = [], mo_ExtractionPrompt = [], mo_ExtractionInstructions = [], mo_ExtractionDisplayName = []\<rparr>\<rparr>"

definition anchor_data :: json where
  "anchor_data = JObj [(''vat'', JStr ''1''), (''name'', JStr ''1'')]"

definition anchor_op :: WriteEntityOp where
  "anchor_op = demo_create\<lparr>wo_Data := Some (OtherMessage ''t.v1.X'' anchor_data), wo_Tags := [], wo_DisplayName := [],
     wo_Anchors := [\<lparr>aq_Field = ''vat'', aq_Value = ''1''\<rparr>, \<lparr>aq_Field = ''vat+name'', aq_Value = ''1|1''\<rparr>]\<rparr>"

definition anchor_batch :: BatchWriteOp where
  "anchor_batch = \<lparr>bo_WriteEntity = Some anchor_op, bo_UpsertRelation = None, bo_PreConditions = []\<rparr>"

lemma anchor_batch_runs:
  "\<exists>s' rs. BatchWrite demo_lib demo_store [anchor_batch] demo_db = (s', Inr rs)
     \<and> list_all (\<lambda>a. a_field a \<noteq> ''vat|name'') (anchors (tabs s'))"
  by (simp add: BatchWrite_def anchor_batch_def anchor_op_def in_tx_def begin_tx_def commit_tx_def batch_op_def MaxBatchSize_def
      validateTags_def maxTagsPerEntity_def maxTagLength_def applyEntityWrite_def
      applyCreate_def marshalEntityData_def demo_create_def run_defs create_row_def
      q_InsertEntity_def insert_entity_row_def entity_exists_def q_UpsertAnchor_def anchor_key_def
      new_entity_def updateEmbedding_def NewV7_def q_InsertEvent_def empty_tables_def Let_def)

lemmas anchor_message_defs = anchor_message_def demo_options_def annotatedFieldsEx_def composites_def
  getMessageOptions_def getFieldOptions_def map_filter_simps

lemma anchor_op_generated:
  "generateWriteOp (ucd (lib_go demo_lib)) anchor_message (OtherMessage ''t.v1.X'' anchor_data) (\<lambda>_. ''1'')
     WriteActionCreate [] = Some anchor_op"
  by (simp add: generateWriteOp_def generateAnchors_def generateTokens_def generateDisplayName_def anchor_message_defs
      zero_WriteEntityOp_def emitted_value_def emitted_composite_def normalizerIdent_def anchor_op_def demo_create_def Let_def)

lemma anchor_document:
  "doc_matches (lib_go demo_lib) anchor_message (\<lambda>_. ''1'') (Some anchor_data)"
  "set (buildAnchors (lib_go demo_lib) (Some anchor_data) (generateMatchConfig (ucd (lib_go demo_lib)) anchor_message))
     = {\<lparr>aq_Field = ''vat'', aq_Value = ''1''\<rparr>, \<lparr>aq_Field = ''vat|name'', aq_Value = ''1|1''\<rparr>}"
  by (auto simp: doc_matches_def anchor_message_defs anchor_data_def fieldValue_def extractFields_def unmarshal_map_def string_value_def
      unmarshal_string_def buildAnchors_def single_anchors_eq composite_anchors_eq present_def norm_value_def apply_normalizer_def
      generateMatchConfig_def composite_normalizer_def normalizerIdent_def Let_def)

theorem ingest_then_match_witness:
  "\<exists>s' rs ent dec. BatchWrite demo_lib demo_store [anchor_batch] demo_db = (s', Inr rs) \<and> br_Entity (hd rs) = Some ent
    \<and> Match (lib_go demo_lib) (NewMatcher (generateMatchConfig (ucd (lib_go demo_lib)) anchor_message)
        (pg_store demo_lib (demo_db\<lparr>tabs := tabs s'\<rparr>) demo_db demo_db) []) (Some anchor_data) = Inr dec
    \<and> md_MatchedRecordID dec = se_ID ent \<and> md_Action dec = ActionUpdate"
proof -
  let ?fi = "\<lparr>fi_name = ''vat'', fi_opts = demo_options\<lparr>fo_TokenField := False\<rparr>\<rparr>"
  obtain s' rs where r: "BatchWrite demo_lib demo_store [anchor_batch] demo_db = (s', Inr rs)"
    and a: "list_all (\<lambda>a. a_field a \<noteq> ''vat|name'') (anchors (tabs s'))" using anchor_batch_runs by blast
  have "\<exists>ent dec. br_Entity (hd rs) = Some ent
    \<and> Match (lib_go demo_lib) (NewMatcher (generateMatchConfig (ucd (lib_go demo_lib)) anchor_message)
        (pg_store demo_lib (demo_db\<lparr>tabs := tabs s'\<rparr>) demo_db demo_db) []) (Some anchor_data) = Inr dec
    \<and> md_MatchedRecordID dec = se_ID ent \<and> md_MatchMethod dec = ''anchor'' \<and> md_MatchConfidence dec = 1
    \<and> md_Action dec = ActionUpdate \<and> (\<forall>oper\<in>set (md_MergePlan dec). fm_Op oper = MergeKeep)"
  proof (rule ingest_then_match [OF r _ _ _ _ anchor_op_generated _ _ anchor_document(1), where fi = ?fi, OF _ _ _ _ _ _ _ _ _ _ _ anchor_document(1)])
    show "schema (tabs demo_db)" by (simp add: demo_db_def schema_empty)
    show "?fi \<in> set (annotatedFieldsEx anchor_message)" "fo_Anchor (fi_opts ?fi)"
      "emitted_value (ucd (lib_go demo_lib)) (\<lambda>_. ''1'') ?fi \<noteq> []"
      by (simp_all add: anchor_message_defs emitted_value_def normalizerIdent_def)
    have "\<not> anchored (tabs s') ty \<lparr>aq_Field = ''vat|name'', aq_Value = ''1|1''\<rparr> u" for ty u
      using a by (auto simp: anchored_def anchor_key_def list_all_iff)
    then show "\<forall>aq\<in>set (buildAnchors (lib_go demo_lib) (Some anchor_data) (generateMatchConfig (ucd (lib_go demo_lib)) anchor_message)).
        aq \<notin> set (wo_Anchors anchor_op) \<longrightarrow> (\<forall>u. \<not> anchored (tabs s') (pm_FullName anchor_message) aq u)"
      unfolding anchor_document(2) by (auto simp: anchor_op_def)
  qed (simp_all add: anchor_batch_def anchor_message_def demo_db_def)
  then show ?thesis using r by blast
qed

end
