(* ===== verification/Paging.thy ===== *)
theory Paging
  imports Entity_Store
begin

text \<open>
  Walking through a listing page by page, as \<open>PaginationExample\<close> of \<open>src/examples/store_example.go\<close> does with \<open>GetEntitiesByType\<close>:
  the time of the last entity of a page is the cursor of the next. The walk ends and is complete when no two entities of the listing
  share their time of update; \<open>paging_skips_ties\<close> shows why that is needed.
\<close>

text \<open>The loop of the example, with fuel: \<open>None\<close> when the fuel runs out. The result lists the entities it prints, in order.
  An error ends the program (\<open>log.Fatal\<close>).\<close>

fun pages :: "(time option \<Rightarrow> StoredEntity list dbm) \<Rightarrow> nat \<Rightarrow> time option \<Rightarrow> StoredEntity list option dbm" where
  "pages get 0 cursor = dret None"
| "pages get (Suc fuel) cursor =
     dbind (get cursor) (\<lambda>ents.
     if ents = [] then dret (Some [])
     else dbind (pages get fuel (Some (se_UpdatedAt (last ents)))) (\<lambda>rest. dret (map_option ((@) ents) rest)))"

definition PaginationExample :: "lib \<Rightarrow> EntityStore \<Rightarrow> nat \<Rightarrow> StoredEntity list option dbm" where
  "PaginationExample L es fuel = pages (\<lambda>cursor. EntityStore_GetEntitiesByType L es ''examples.v1.Person'' 50 cursor None) fuel None"

section \<open>Listings in descending order of time\<close>

text \<open>The rows of a listing, newest first.\<close>

definition listing :: "string \<Rightarrow> QueryFilter option \<Rightarrow> tables \<Rightarrow> Entity list" where
  "listing ty filt t = sort_key (\<lambda>e. - e_updated_at e) (filter (\<lambda>e. e_type e = ty \<and> live e
     \<and> tag_filter (tagsParam filt) (anyTagsParam filt) (excludeTagParam filt) (unlessTagsParam filt) (e_tags e)) (entities t))"

definition newer_first :: "Entity list \<Rightarrow> bool" where
  "newer_first es \<longleftrightarrow> sorted_wrt (\<lambda>a b. e_updated_at b < e_updated_at a) es"

lemma listing_newer_first: "inj_on e_updated_at (set (listing ty filt t)) \<Longrightarrow> distinct (entities t) \<Longrightarrow> newer_first (listing ty filt t)"
proof -
  assume inj: "inj_on e_updated_at (set (listing ty filt t))" and d: "distinct (entities t)"
  have "distinct (listing ty filt t)" using d by (simp add: listing_def)
  then have "distinct (map (\<lambda>e. - e_updated_at e) (listing ty filt t))" using inj by (auto simp: distinct_map inj_on_def)
  moreover have "sorted (map (\<lambda>e. - e_updated_at e) (listing ty filt t))" by (simp add: listing_def)
  ultimately have "sorted_wrt (<) (map (\<lambda>e. - e_updated_at e) (listing ty filt t))" by (simp add: strict_sorted_iff)
  then show ?thesis by (simp add: newer_first_def sorted_wrt_map)
qed

lemma after_page:
  assumes "newer_first (pre @ page @ rest)" "page \<noteq> []"
  shows "filter (\<lambda>e. e_updated_at e < e_updated_at (last page)) (pre @ page @ rest) = rest"
proof -
  obtain init l where p: "page = init @ [l]" using assms(2) by (metis rev_exhaust)
  have "filter (\<lambda>e. e_updated_at e < e_updated_at l) pre = []" "filter (\<lambda>e. e_updated_at e < e_updated_at l) init = []"
    "filter (\<lambda>e. e_updated_at e < e_updated_at l) rest = rest"
    using assms(1) by (fastforce simp: newer_first_def sorted_wrt_append p filter_empty_conv intro: filter_True)+
  then show ?thesis by (simp add: p)
qed

lemma page_answers:
  assumes "answers_with t s" "0 < n"
  shows "\<exists>s'. EntityStore_GetEntitiesByType L es ty n cursor filt s
      = (s', Inr (map (entityFromRow L) (take (nat n) (filter (\<lambda>e. before_cursor cursor (e_updated_at e)) (listing ty filt t)))))
    \<and> answers_with t s'"
proof -
  have "filter (\<lambda>e. before_cursor cursor (e_updated_at e)) (listing ty filt t) = sort_key (\<lambda>e. - e_updated_at e)
      (filter (\<lambda>e. e_type e = ty \<and> live e \<and> before_cursor cursor (e_updated_at e)
        \<and> tag_filter (tagsParam filt) (anyTagsParam filt) (excludeTagParam filt) (unlessTagsParam filt) (e_tags e)) (entities t))"
    by (simp add: listing_def filter_sort conj_ac)
  then show ?thesis using assms
    by (simp add: EntityStore_GetEntitiesByType_def GetEntitiesByTypeFiltered_def q_GetEntitiesByTypeFiltered_def select_limit_def
        dmap_def dbind_def dwrap_def dret_def answers_with_def exec_fault_free page_or_def)
qed

section \<open>The walk\<close>

lemma pages_walk:
  assumes "answers_with t s" "0 < n" "listing ty filt t = pre @ todo" "newer_first (listing ty filt t)"
    and "filter (\<lambda>e. before_cursor cursor (e_updated_at e)) (listing ty filt t) = todo" "length todo < fuel"
  shows "\<exists>s'. pages (\<lambda>cursor. EntityStore_GetEntitiesByType L es ty n cursor filt) fuel cursor s
      = (s', Inr (Some (map (entityFromRow L) todo))) \<and> answers_with t s'"
  using assms
proof (induction fuel arbitrary: s cursor pre todo)
  case (Suc fuel)
  let ?page = "take (nat n) todo" and ?rest = "drop (nat n) todo"
  obtain s1 where 1: "EntityStore_GetEntitiesByType L es ty n cursor filt s = (s1, Inr (map (entityFromRow L) ?page))" "answers_with t s1"
    using page_answers [OF Suc.prems(1,2)] Suc.prems(5) by metis
  show ?case
  proof (cases "todo = []")
    case True
    then show ?thesis using 1 by (simp add: dbind_def dret_def)
  next
    case False
    then have p: "?page \<noteq> []" using Suc.prems(2) by simp
    have l: "listing ty filt t = pre @ ?page @ ?rest" using Suc.prems(3) by simp
    have "se_UpdatedAt (last (map (entityFromRow L) ?page)) = e_updated_at (last ?page)" using p by (simp add: last_map entityFromRow_def)
    moreover obtain s2 where "pages (\<lambda>cursor. EntityStore_GetEntitiesByType L es ty n cursor filt) fuel (Some (e_updated_at (last ?page))) s1
        = (s2, Inr (Some (map (entityFromRow L) ?rest)))" "answers_with t s2"
    proof -
      have "\<exists>s'. pages (\<lambda>cursor. EntityStore_GetEntitiesByType L es ty n cursor filt) fuel (Some (e_updated_at (last ?page))) s1
        = (s', Inr (Some (map (entityFromRow L) ?rest))) \<and> answers_with t s'"
      proof (rule Suc.IH [OF 1(2) Suc.prems(2) _ Suc.prems(4)])
        show "listing ty filt t = (pre @ ?page) @ ?rest" using l by simp
        show "filter (\<lambda>e. before_cursor (Some (e_updated_at (last ?page))) (e_updated_at e)) (listing ty filt t) = ?rest"
          using after_page [OF _ p, of pre ?rest] Suc.prems(4) l by (simp add: before_cursor_def)
        show "length ?rest < fuel" using Suc.prems(2,6) False by (cases todo) auto
      qed
      then show thesis using that by blast
    qed
    ultimately show ?thesis using 1 p by (simp add: dbind_def dret_def flip: map_append)
  qed
qed simp

text \<open>C13. Paging is complete: in a database that answers and whose entities of the listing have distinct times of update,
  walking page by page with the last time as the next cursor ends, after at most one page per entity and an empty one, and yields every live
  entity of the type that passes the filter, once each, newest first, whatever the page size.\<close>

theorem pages_complete:
  assumes "tx s = None" "\<forall>k. \<not> fault s k" "schema (tabs s)" "0 < n"
    and "inj_on e_updated_at (set (listing ty filt (tabs s)))" "length (listing ty filt (tabs s)) < fuel"
  shows "\<exists>s' es'. pages (\<lambda>cursor. EntityStore_GetEntitiesByType L es ty n cursor filt) fuel None s = (s', Inr (Some es'))
    \<and> tabs s' = tabs s \<and> es' = map (entityFromRow L) (listing ty filt (tabs s))
    \<and> distinct (listing ty filt (tabs s))
    \<and> set (listing ty filt (tabs s)) = {e \<in> set (entities (tabs s)). e_type e = ty \<and> live e
         \<and> tag_filter (tagsParam filt) (anyTagsParam filt) (excludeTagParam filt) (unlessTagsParam filt) (e_tags e)}"
proof -
  have a: "answers_with (tabs s) s" using assms(1,2) by (simp add: answers_with_def)
  have d: "distinct (entities (tabs s))" using assms(3) by (simp add: schema_def entities_ok_def distinct_map)
  from pages_walk [OF a assms(4) _ listing_newer_first [OF assms(5) d] _ assms(6), where pre = "[]" and cursor = None and L = L and es = es] show ?thesis
    using d by (auto simp: before_cursor_def answers_with_def listing_def)
qed

text \<open>Two entities and pages of one.\<close>

definition two_tables :: tables where
  "two_tables = empty_tables\<lparr>entities := [new_entity 1 500 ''t.v1.X'' (JObj []) 1 [] ''old'', new_entity 2 600 ''t.v1.X'' (JObj []) 1 [] ''new'']\<rparr>"

lemma schema_two: "schema two_tables"
proof -
  have "e_id (new_entity u now ty d c ts n) = u" for u now ty d c ts n by (simp add: new_entity_def)
  then show ?thesis by (simp add: two_tables_def schema_defs empty_tables_def row_ok_new)
qed

theorem pages_complete_witness:
  "\<exists>s' es'. pages (\<lambda>cursor. EntityStore_GetEntitiesByType demo_lib \<lparr>es_store = demo_store\<rparr> ''t.v1.X'' 1 cursor None) 3 None
      (demo_db\<lparr>tabs := two_tables\<rparr>) = (s', Inr (Some es')) \<and> map se_DisplayName es' = [''new'', ''old'']"
proof -
  let ?s = "demo_db\<lparr>tabs := two_tables\<rparr>"
  have l: "listing ''t.v1.X'' None (tabs ?s) = [new_entity 2 600 ''t.v1.X'' (JObj []) 1 [] ''new'', new_entity 1 500 ''t.v1.X'' (JObj []) 1 [] ''old'']"
    by (simp add: listing_def two_tables_def empty_tables_def new_entity_def live_def tag_filter_def tagsParam_def anyTagsParam_def
        excludeTagParam_def)
  have e: "tx ?s = None" "\<forall>k. \<not> fault ?s k" "schema (tabs ?s)" using schema_two by simp_all
  have i: "inj_on e_updated_at (set (listing ''t.v1.X'' None (tabs ?s)))" "length (listing ''t.v1.X'' None (tabs ?s)) < 3"
    unfolding l by (simp_all add: new_entity_def)
  from pages_complete [OF e, of 1 "''t.v1.X''" None 3 demo_lib "\<lparr>es_store = demo_store\<rparr>"] i
  obtain s' where "pages (\<lambda>cursor. EntityStore_GetEntitiesByType demo_lib \<lparr>es_store = demo_store\<rparr> ''t.v1.X'' 1 cursor None) 3 None ?s
      = (s', Inr (Some (map (entityFromRow demo_lib) (listing ''t.v1.X'' None (tabs ?s)))))" by auto
  moreover have "map se_DisplayName (map (entityFromRow demo_lib) (listing ''t.v1.X'' None (tabs ?s))) = [''new'', ''old'']"
    unfolding l by (simp add: entityFromRow_def new_entity_def)
  ultimately show ?thesis by (intro exI conjI)
qed

end
