(* ===== verification/Consumer_Runs.thy ===== *)
theory Consumer_Runs
  imports System Health
begin

text \<open>
  Whole runs of a consumer, \<open>src/store/consumer.go\<close>: the realtime loop \<open>RunRealtime\<close> with \<open>listen\<close>, the callback
  \<open>OnDeadLetter\<close>, and what holds for any number of polls with any failures in between: an event leaves the
  pending list only when the caller's function has accepted it or a dead letter keeps it.
\<close>

section \<open>The realtime loop\<close>

text \<open>How long a sleep or a wait lasts is the environment's choice: a number of ticks.\<close>

definition skip_ticks :: "nat \<Rightarrow> db \<Rightarrow> db" where
  "skip_ticks n s = s\<lparr>tick := tick s + n\<rparr>"

text \<open>\<open>listen\<close>: a connection, \<open>LISTEN entity_events\<close>, then a notification or the timeout, which is no error.\<close>

definition listen :: "nat \<Rightarrow> unit dbm" where
  "listen wait =
     dbind (dwrap (Wrap ''acquire conn for listen'') ping) (\<lambda>_.
     dbind (dwrap (Wrap ''listen'') ping) (\<lambda>_ s.
     (skip_ticks wait s, Inr ())))"

text \<open>An iteration: sleep while backing off, listen (its error is ignored), poll. One pair of durations per
  iteration, until the context is cancelled.\<close>

fun realtime_loop :: "lib \<Rightarrow> ConsumerFunc \<Rightarrow> error_text \<Rightarrow> (nat \<Rightarrow> int \<Rightarrow> int) \<Rightarrow> (nat \<times> nat) list \<Rightarrow> Consumer \<Rightarrow> db \<Rightarrow> poll_result" where
  "realtime_loop L process etext int63n [] co s = ((co, s), Inr ())"
| "realtime_loop L process etext int63n ((sleep, wait) # ws) co s =
     (let s = (if clock s (tick s) < co_backoffUntil co then skip_ticks sleep s else s);
          s = fst (listen wait s) in
      case poll L process etext int63n co s of
        ((co, s), r) \<Rightarrow> if r = Inl Panic then ((co, s), Inl Panic)
                        else realtime_loop L process etext int63n ws co s)"

definition RunRealtime :: "lib \<Rightarrow> ConsumerFunc \<Rightarrow> error_text \<Rightarrow> (nat \<Rightarrow> int \<Rightarrow> int) \<Rightarrow> (nat \<times> nat) list \<Rightarrow> Consumer \<Rightarrow> db \<Rightarrow> poll_result" where
  "RunRealtime L process etext int63n ws co s =
     (case realtime_loop L process etext int63n ws co s of
        ((co, s), r) \<Rightarrow> ((co, fst (releaseLock (co_cfg co) s)), case r of
           Inl e \<Rightarrow> Inl e | Inr _ \<Rightarrow> Inl (Msg ''context canceled'' [])))"

text \<open>The call of \<open>OnDeadLetter\<close> that \<open>deadLetterCurrentBatch\<close> makes, if any: the events of the batch, once its
  transaction has committed.\<close>

definition dead_letter_call :: "lib \<Rightarrow> ConsumerConfig \<Rightarrow> string \<Rightarrow> int \<Rightarrow> db \<Rightarrow> (string \<times> Event list) option" where
  "dead_letter_call L c msg retries s =
     (case dbind (q_GetConsumerCursor (cc_Name c)) (\<lambda>cursor.
       dbind (q_GetEventsAfterCursor (c_last_event_at cursor) (after_id cursor) (int32 (cc_BatchSize c))) (\<lambda>rows.
       if rows = [] then dret None
       else dbind (in_tx False (\<lambda>e. e) (dead_letter_tx L c msg retries rows)) (\<lambda>_.
         dret (Some (cc_Name c, map (toEvent L) rows))))) s of
        (_, Inr call) \<Rightarrow> call | (_, Inl _) \<Rightarrow> None)"

section \<open>Steps outside a transaction\<close>

text \<open>A program run from the pool, whatever its result, leaves no transaction open and relates the tables before
  and after by \<open>R\<close>.\<close>

definition moves :: "(tables \<Rightarrow> tables \<Rightarrow> bool) \<Rightarrow> 'a dbm \<Rightarrow> bool" where
  "moves R m \<longleftrightarrow> (\<forall>s s' r. m s = (s', r) \<longrightarrow> tx s = None \<longrightarrow> tx s' = None \<and> R (tabs s) (tabs s'))"

named_theorems moves_intros \<open>programs outside a transaction\<close>

lemma movesI: "(\<And>s s' r. m s = (s', r) \<Longrightarrow> tx s = None \<Longrightarrow> tx s' = None \<and> R (tabs s) (tabs s')) \<Longrightarrow> moves R m"
  by (simp add: moves_def)

lemma movesD: "moves R m \<Longrightarrow> m s = (s', r) \<Longrightarrow> tx s = None \<Longrightarrow> tx s' = None \<and> R (tabs s) (tabs s')"
  unfolding moves_def by blast

locale table_preorder =
  fixes R :: "tables \<Rightarrow> tables \<Rightarrow> bool"
  assumes refl_tables [simp]: "R t t"
    and trans_tables: "R t1 t2 \<Longrightarrow> R t2 t3 \<Longrightarrow> R t1 t3"
begin

lemma moves_basic [moves_intros]: "moves R (dret x)" "moves R (dfail e)" "moves R (call_process process evs)" "moves R ping"
  by (auto simp: moves_def dret_def dfail_def call_process_def ping_def)

lemma moves_exec: "(\<And>now uid t t' x. f now uid t = Inr (t', x) \<Longrightarrow> R t t') \<Longrightarrow> moves R (exec f)"
  by (rule movesI) (auto elim: exec_auto_cases)

lemma moves_dbind [moves_intros]:
  assumes "moves R m" "\<And>x. moves R (f x)"
  shows "moves R (dbind m f)"
proof (rule movesI)
  fix s s' r assume b: "dbind m f s = (s', r)" and t: "tx s = None"
  obtain s1 r1 where 1: "m s = (s1, r1)" by fastforce
  note m = movesD [OF assms(1) 1 t]
  show "tx s' = None \<and> R (tabs s) (tabs s')"
    using b 1 m movesD [OF assms(2), of _ s1] trans_tables by (cases r1) (auto simp: dbind_def)
qed

lemma moves_dwrap [moves_intros]: "moves R m \<Longrightarrow> moves R (dwrap w m)"
  by (auto simp: moves_def dwrap_def split: prod.splits)

lemma moves_dtry [moves_intros]: "moves R m \<Longrightarrow> moves R (dtry m)"
  by (auto simp: moves_def dtry_def split: prod.splits sum.splits)

lemma moves_dmap [moves_intros]: "moves R m \<Longrightarrow> moves R (dmap g m)"
  unfolding dmap_def by (intro moves_intros)

lemma moves_if [moves_intros]: "(b \<Longrightarrow> moves R m) \<Longrightarrow> (\<not> b \<Longrightarrow> moves R m') \<Longrightarrow> moves R (if b then m else m')"
  by simp

lemma moves_reads [moves_intros]: "moves R (q_GetConsumerCursor name)" "moves R (q_GetEventsAfterCursor ts i n)"
  unfolding q_GetConsumerCursor_def q_GetEventsAfterCursor_def select_one_def select_limit_def exec_one_def
  by (intro moves_intros moves_exec; simp split: list.split if_splits add: moves_basic)+

end

interpretation quiet: table_preorder "\<lambda>_ _. True"
  by unfold_locales simp_all

section \<open>What one poll settles\<close>

text \<open>An event is settled for a consumer when its function has accepted a batch with it, or a dead letter of the
  consumer keeps it.\<close>

definition settled :: "lib \<Rightarrow> ConsumerFunc \<Rightarrow> string \<Rightarrow> tables \<Rightarrow> EntityEvent \<Rightarrow> bool" where
  "settled L process name t v \<longleftrightarrow> (\<exists>k evs. toEvent L v \<in> set evs \<and> process k evs = None)
     \<or> (\<exists>d\<in>set (dead_letters t). d_consumer d = name \<and> d_event_id d = v_id v)"

text \<open>The consumer moved on: it took settled events off the front of its pending list, and kept all dead letters.\<close>

definition progress :: "lib \<Rightarrow> ConsumerFunc \<Rightarrow> string \<Rightarrow> tables \<Rightarrow> tables \<Rightarrow> bool" where
  "progress L process name t t' \<longleftrightarrow> set (dead_letters t) \<subseteq> set (dead_letters t')
     \<and> (\<exists>n. pending t' name = drop n (pending t name) \<and> (\<forall>v\<in>set (take n (pending t name)). settled L process name t' v))"

lemma settled_mono: "settled L process name t v \<Longrightarrow> set (dead_letters t) \<subseteq> set (dead_letters t') \<Longrightarrow> settled L process name t' v"
  by (auto simp: settled_def)

lemma progress_trans:
  assumes "progress L process name t1 t2" "progress L process name t2 t3"
  shows "progress L process name t1 t3"
proof -
  obtain n m where n: "pending t2 name = drop n (pending t1 name)" "\<forall>v\<in>set (take n (pending t1 name)). settled L process name t2 v"
    and m: "pending t3 name = drop m (pending t2 name)" "\<forall>v\<in>set (take m (pending t2 name)). settled L process name t3 v"
    using assms by (auto simp: progress_def)
  have l: "set (dead_letters t2) \<subseteq> set (dead_letters t3)" using assms(2) by (simp add: progress_def)
  have "take (n + m) (pending t1 name) = take n (pending t1 name) @ take m (pending t2 name)" by (simp add: n(1) take_add)
  then have "\<forall>v\<in>set (take (n + m) (pending t1 name)). settled L process name t3 v" using n(2) m(2) settled_mono [OF _ l] by auto
  moreover have "pending t3 name = drop (n + m) (pending t1 name)" by (simp add: m(1) n(1) add.commute)
  ultimately show ?thesis using assms by (auto simp: progress_def)
qed

lemma progress_same: "pending t' name = pending t name \<Longrightarrow> dead_letters t' = dead_letters t \<Longrightarrow> progress L process name t t'"
  unfolding progress_def by (intro conjI exI [of _ 0]) simp_all

interpretation prog: table_preorder "progress L process name" for L process name
  by unfold_locales (auto intro: progress_same progress_trans)

lemma progress_update_consumers:
  assumes "\<And>r. c_name (f r) = c_name r" "\<And>r. c_last_event_at (f r) = c_last_event_at r" "\<And>r. c_last_event_id (f r) = c_last_event_id r"
  shows "progress L process name t (update_consumers Q f t)"
proof (rule progress_same)
  show "pending (update_consumers Q f t) name = pending t name"
    by (rule pending_same_cursor [where f = "\<lambda>r. if Q r then f r else r"]) (simp_all add: consumer_row_update assms)
qed (simp add: update_consumers_def)

lemma progress_new_consumer:
  assumes "c_last_event_at row = unix_epoch" "c_last_event_id row = None" "c_name row \<notin> c_name ` set (consumers t)"
  shows "progress L process name t (t\<lparr>consumers := consumers t @ [row]\<rparr>)"
proof (rule progress_same)
  have "consumer_row (t\<lparr>consumers := consumers t @ [row]\<rparr>) name
      = (case consumer_row t name of None \<Rightarrow> if c_name row = name then Some row else None | Some r \<Rightarrow> Some r)"
    by (simp add: consumer_row_def find_append split: option.split)
  then show "pending (t\<lparr>consumers := consumers t @ [row]\<rparr>) name = pending t name"
    using assms(1,2) by (simp add: pending_def after_id_def event_order_def split: option.split)
qed simp

text \<open>The lease and the failure counters leave cursor and letters alone.\<close>

lemma lease_progress [moves_intros]:
  "moves (progress L process name) (q_RenewConsumerLock n h ttl)"
  "moves (progress L process name) (q_TryAcquireConsumerLock n h ttl)"
  "moves (progress L process name) (q_ReleaseConsumerLock n h)"
  "moves (progress L process name) (q_UpdateConsumerFailureState n h k e b)"
  unfolding q_RenewConsumerLock_def q_TryAcquireConsumerLock_def q_ReleaseConsumerLock_def q_UpdateConsumerFailureState_def Let_def
  by (rule prog.moves_exec; auto intro!: progress_update_consumers progress_new_consumer split: if_splits)+

lemma consumer_progress:
  "moves (progress L process name) (tryAcquireOrRenew c)"
  "moves (progress L process name) (releaseLock c)"
  "moves (progress L process name) (persistFailureState c k e b)"
  "moves (progress L process name) (listen w)"
  unfolding tryAcquireOrRenew_def releaseLock_def persistFailureState_def listen_def Let_def
  by (intro moves_intros prog.moves_basic movesI; simp add: skip_ticks_def)+

lemma batch_quiet:
  "moves (\<lambda>_ _. True) (processBatch L process c)" "moves (\<lambda>_ _. True) (deadLetterCurrentBatch L c msg k)"
proof -
  have "moves (\<lambda>_ _. True) (in_tx False w (dead_letter_tx L c msg k rows))" for w rows
    by (rule movesI) (auto elim: in_tx_cases [OF _ steady_dead_letter_tx])
  then show "moves (\<lambda>_ _. True) (processBatch L process c)" "moves (\<lambda>_ _. True) (deadLetterCurrentBatch L c msg k)"
    unfolding processBatch_def deadLetterCurrentBatch_def q_AdvanceConsumerCursor_def
    by (intro moves_intros quiet.moves_exec; simp)+
qed

lemma processBatch_progress:
  assumes "processBatch L process c s = (s', r)" "tx s = None" "schema (tabs s)" "holds_lease (tabs s) c"
  shows "tx s' = None \<and> progress L process (cc_Name c) (tabs s) (tabs s') \<and> holds_lease (tabs s') c"
proof -
  have ev: "events_ok (tabs s)" using assms(3) by (simp add: schema_def)
  have tx': "tx s' = None" using movesD [OF batch_quiet(1) assms(1,2)] by simp
  from processBatch_step [OF assms(1,2) ev assms(4)] show ?thesis
  proof (elim disjE conjE)
    assume "tabs s' = tabs s"
    then show ?thesis using tx' assms(4) by simp
  next
    assume p: "process (tick s + 2) (map (toEvent L) (next_batch (tabs s) c)) = None"
      and d: "pending (tabs s') (cc_Name c) = drop (batch_size c) (pending (tabs s) (cc_Name c))"
      and h: "holds_lease (tabs s') c" and t: "tabs s' = (tabs s)\<lparr>consumers := consumers (tabs s')\<rparr>"
    have "dead_letters (tabs s') = dead_letters (tabs s)" by (subst t) simp
    moreover have "settled L process (cc_Name c) (tabs s') v" if "v \<in> set (next_batch (tabs s) c)" for v
      using p that unfolding settled_def by (intro disjI1 exI [of _ "tick s + 2"] exI [of _ "map (toEvent L) (next_batch (tabs s) c)"]) simp
    ultimately show ?thesis using d h tx' by (auto simp: progress_def)
  qed
qed

lemma list_all2_set1: "list_all2 P xs ys \<Longrightarrow> x \<in> set xs \<Longrightarrow> \<exists>y\<in>set ys. P x y"
  by (induction rule: list_all2_induct) auto

lemma deadLetter_progress:
  assumes "deadLetterCurrentBatch L c msg k s = (s', r)" "tx s = None" "schema (tabs s)" "holds_lease (tabs s) c"
  shows "tx s' = None \<and> progress L process (cc_Name c) (tabs s) (tabs s')"
proof -
  have ev: "events_ok (tabs s)" using assms(3) by (simp add: schema_def)
  have tx': "tx s' = None" using movesD [OF batch_quiet(2) assms(1,2)] by simp
  show ?thesis
  proof (cases "tabs s' = tabs s")
    case False
    have co: "consumers_ok (tabs s)" using assms(3) by (simp add: schema_def)
    obtain ls where d: "pending (tabs s') (cc_Name c) = drop (batch_size c) (pending (tabs s) (cc_Name c))"
      and t: "tabs s' = (tabs s)\<lparr>consumers := consumers (tabs s'), dead_letters := dead_letters (tabs s) @ ls,
        dead_letter_seq := dead_letter_seq (tabs s) + int (length ls)\<rparr>"
      and l: "list_all2 (letter_for L c msg k) (next_batch (tabs s) c) ls"
      using deadLetter_effect [OF assms(1,2) ev co] False assms(4) by auto
    have dl: "dead_letters (tabs s') = dead_letters (tabs s) @ ls" by (subst t) simp
    have "settled L process (cc_Name c) (tabs s') v" if v: "v \<in> set (next_batch (tabs s) c)" for v
    proof -
      obtain d where "d \<in> set ls" "letter_for L c msg k v d"
        using list_all2_set1 [OF l v] by blast
      then show ?thesis using dl by (auto simp: settled_def letter_for_def)
    qed
    then show ?thesis using d dl tx' by (auto simp: progress_def)
  qed (simp add: tx')
qed

lemma poll_progress:
  assumes "poll L process etext rnd co s = ((co', s'), r)" "tx s = None" "schema (tabs s)"
  shows "tx s' = None \<and> schema (tabs s') \<and> progress L process (cc_Name (co_cfg co)) (tabs s) (tabs s') \<and> co_cfg co' = co_cfg co"
proof -
  let ?c = "co_cfg co"
  let ?P = "progress L process (cc_Name ?c)"
  have g: "good schema s" using assms(2,3) by (simp add: good_def)
  have sch: "schema (tabs s')" using constraints.keeps_poll [OF g, of L process etext rnd co] assms(1) by (simp add: good_def)
  have persist: "tx (fst (persistFailureState ?c k e b s2)) = None \<and> ?P (tabs s2) (tabs (fst (persistFailureState ?c k e b s2)))"
    if "tx s2 = None" for k e b s2
    using that movesD [OF consumer_progress(3)] by (metis prod.collapse)
  obtain s1 r1 where 1: "tryAcquireOrRenew ?c s = (s1, r1)" by fastforce
  note m1 = movesD [OF consumer_progress(1) 1 assms(2), of L process "cc_Name ?c"]
  obtain s2 r2 where 2: "processBatch L process ?c s1 = (s2, r2)" by fastforce
  have g1: "good schema s1" by (rule presD [OF constraints.keeps_tryAcquireOrRenew g 1])
  have g2: "good schema s2" by (rule presD [OF constraints.keeps_processBatch g1 2])
  have "consumers_ok (tabs s)" using assms(3) by (simp add: schema_def)
  then have lease: "holds_lease (tabs s1) ?c" if "r1 = Inr True"
    using lease_step [OF 1 [unfolded that] assms(2)] by (auto simp: holds_lease_def)
  have m2: "tx s2 = None \<and> ?P (tabs s) (tabs s2) \<and> holds_lease (tabs s2) ?c" if "r1 = Inr True"
    using processBatch_progress [OF 2 _ good_tabs [OF g1] lease [OF that]] m1 by (auto intro: progress_trans)
  let ?s3 = "\<lambda>msg k. fst (deadLetterCurrentBatch L ?c msg k s2)"
  have m3: "tx (?s3 msg k) = None \<and> ?P (tabs s) (tabs (?s3 msg k))" if "r1 = Inr True" for msg k
    using deadLetter_progress [OF prod.collapse [symmetric] _ good_tabs [OF g2], where L = L and c = ?c and msg = msg and k = k and process = process] m2 [OF that] by (auto intro: progress_trans)
  have "tx s' = None \<and> ?P (tabs s) (tabs s') \<and> co_cfg co' = ?c"
  proof (cases "clock s (tick s) < co_backoffUntil co \<or> r1 \<noteq> Inr True")
    case True
    then have "co' = co \<and> (s' = s \<or> s' = s1)" using assms(1) 1 by (cases r1) (auto simp: poll_def split: bool.splits if_splits)
    then show ?thesis using m1 assms(2) by auto
  next
    case False
    then have ok: "r1 = Inr True" by blast
    note step = progress_trans [OF m2 [OF ok, THEN conjunct2, THEN conjunct1] persist [THEN conjunct2]]
      progress_trans [OF m3 [OF ok, THEN conjunct2] persist [THEN conjunct2]]
    show ?thesis
      using assms(1) 1 2 False ok m2 [OF ok] m3 [OF ok] persist step
      by (auto simp: poll_def poll_failed_def Let_def split: sum.splits if_splits option.splits)
  qed
  then show ?thesis using sch by simp
qed

section \<open>Whole runs\<close>

lemma run_polls_progress:
  assumes "run_polls L process etext rnd k co s = ((co', s'), r)" "tx s = None" "schema (tabs s)"
  shows "tx s' = None \<and> progress L process (cc_Name (co_cfg co)) (tabs s) (tabs s') \<and> co_cfg co' = co_cfg co"
  using assms
proof (induction k arbitrary: co s)
  case (Suc k)
  obtain co1 s1 r1 where p: "poll L process etext rnd co (next_tick s) = ((co1, s1), r1)" by (metis prod.collapse)
  have 1: "tx s1 = None" "schema (tabs s1)" "progress L process (cc_Name (co_cfg co)) (tabs s) (tabs s1)" "co_cfg co1 = co_cfg co"
    using poll_progress [OF p] Suc.prems(2,3) by auto
  show ?case
  proof (cases "r1 = Inl Panic")
    case False
    then have "run_polls L process etext rnd k co1 s1 = ((co', s'), r)" using Suc.prems(1) p by simp
    from Suc.IH [OF this 1(1,2)] 1(3,4) show ?thesis by (auto intro: progress_trans)
  qed (use Suc.prems(1) p 1 in auto)
qed simp

lemma listened:
  assumes "tx s = None"
  shows "tx (fst (listen w s)) = None" "tabs (fst (listen w s)) = tabs s"
    "fault (fst (listen w s)) = fault s" "clock (fst (listen w s)) = clock s" "tick s \<le> tick (fst (listen w s))"
  using assms by (auto simp: listen_def dbind_def dwrap_def ping_def skip_ticks_def)

lemma realtime_progress:
  assumes "realtime_loop L process etext rnd ws co s = ((co', s'), r)" "tx s = None" "schema (tabs s)"
  shows "tx s' = None \<and> progress L process (cc_Name (co_cfg co)) (tabs s) (tabs s') \<and> co_cfg co' = co_cfg co"
  using assms
proof (induction ws arbitrary: co s)
  case (Cons w ws)
  obtain sleep wait where w: "w = (sleep, wait)" by (cases w)
  define s0 where "s0 = (if clock s (tick s) < co_backoffUntil co then skip_ticks sleep s else s)"
  have s0: "tx s0 = None" "tabs s0 = tabs s" using Cons.prems(2) by (simp_all add: s0_def skip_ticks_def)
  obtain co1 s1 r1 where p: "poll L process etext rnd co (fst (listen wait s0)) = ((co1, s1), r1)" by (metis prod.collapse)
  have 1: "tx s1 = None" "schema (tabs s1)" "progress L process (cc_Name (co_cfg co)) (tabs s) (tabs s1)" "co_cfg co1 = co_cfg co"
    using poll_progress [OF p listened(1) [OF s0(1)]] listened(2) [OF s0(1), of wait] s0(2) Cons.prems(3) by auto
  have step: "(if r1 = Inl Panic then ((co1, s1), Inl Panic) else realtime_loop L process etext rnd ws co1 s1) = ((co', s'), r)"
    using Cons.prems(1) p by (simp add: w s0_def [symmetric] Let_def)
  show ?case
  proof (cases "r1 = Inl Panic")
    case False
    then have "realtime_loop L process etext rnd ws co1 s1 = ((co', s'), r)" using step by simp
    from Cons.IH [OF this 1(1,2)] 1(3,4) show ?thesis by (auto intro: progress_trans)
  qed (use step 1 in auto)
qed simp

text \<open>C11. At least once, over whole runs: whatever the caller's function answers and whatever statements fail, \<open>Run\<close>
  and \<open>RunRealtime\<close> take events off the front of the consumer's pending list only, in order, and each event
  they took was in a batch that the function accepted or is kept in a dead letter of the consumer.\<close>

theorem run_at_least_once:
  assumes "Run L process etext rnd k co s = ((co', s'), r) \<or> RunRealtime L process etext rnd ws co s = ((co', s'), r)"
    and "tx s = None" "schema (tabs s)"
  defines "name \<equiv> cc_Name (co_cfg co)"
  shows "\<exists>n. pending (tabs s') name = drop n (pending (tabs s) name)
    \<and> (\<forall>v\<in>set (take n (pending (tabs s) name)). (\<exists>j evs. toEvent L v \<in> set evs \<and> process j evs = None)
         \<or> (\<exists>d\<in>set (dead_letters (tabs s')). d_consumer d = name \<and> d_event_id d = v_id v))"
proof -
  obtain co1 s1 r1 where l: "run_polls L process etext rnd k co s = ((co1, s1), r1) \<or> realtime_loop L process etext rnd ws co s = ((co1, s1), r1)"
    and s': "s' = fst (releaseLock (co_cfg co1) s1)"
    using assms(1) by (auto simp: Run_def RunRealtime_def split: prod.splits)
  have 1: "tx s1 = None" "progress L process name (tabs s) (tabs s1)"
    using l run_polls_progress [OF _ assms(2,3)] realtime_progress [OF _ assms(2,3)] unfolding name_def by blast+
  have "progress L process name (tabs s1) (tabs s')"
    using movesD [OF consumer_progress(2) prod.collapse [symmetric] 1(1)] unfolding s' by blast
  then have "progress L process name (tabs s) (tabs s')" by (rule progress_trans [OF 1(2)])
  then show ?thesis by (auto simp: progress_def settled_def)
qed

section \<open>Recovery\<close>

definition recovered :: "Consumer \<Rightarrow> Consumer" where
  "recovered co = (if 0 < co_failures co then co\<lparr>co_failures := 0, co_backoffUntil := 0, co_lastErr := None\<rparr> else co)"

lemma persist_runs:
  assumes "tx s = None" "\<And>k. \<not> fault s k" "holds_lease (tabs s) c"
  shows "same_env s (fst (persistFailureState c k e b s))" "holds_lease (tabs (fst (persistFailureState c k e b s))) c"
    "pending (tabs (fst (persistFailureState c k e b s))) name = pending (tabs s) name"
proof -
  let ?bo = "case b of None \<Rightarrow> None | Some t \<Rightarrow> if t = 0 then None else Some t"
  let ?f = "\<lambda>now r. r\<lparr>c_failures := int32 k, c_last_error := null_if_empty e, c_backoff_until := ?bo, c_updated_at := now\<rparr>"
  let ?h = "held_by (cc_Name c) (cc_HolderID c)"
  have r: "fst (persistFailureState c k e b s) = (next_tick s)\<lparr>tabs := update_consumers ?h (?f (clock s (tick s))) (tabs s)\<rparr>"
    using assms(1,2)
    by (simp add: persistFailureState_def q_UpdateConsumerFailureState_def dmap_def dbind_def dtry_def dret_def exec_fault_free)
  show "same_env s (fst (persistFailureState c k e b s))" using assms(1) by (simp add: r same_env_def)
  show "holds_lease (tabs (fst (persistFailureState c k e b s))) c"
    using consumer_row_held [OF assms(3), of "?f (clock s (tick s))"] by (auto simp: r holds_lease_def)
  show "pending (tabs (fst (persistFailureState c k e b s))) name = pending (tabs s) name"
    unfolding r by (simp, rule pending_same_cursor [where f = "\<lambda>r. if ?h r then ?f (clock s (tick s)) r else r"]) (simp_all add: consumer_row_update)
qed

lemma poll_recovers:
  assumes "tx s = None" "\<And>k. \<not> fault s k" "\<And>k evs. process k evs = None" "schema (tabs s)"
    "lease_free (tabs s) (co_cfg co) (clock s (Suc (tick s)))" "co_backoffUntil co \<le> clock s (tick s)"
    "0 \<le> int32 (cc_BatchSize (co_cfg co))"
  obtains s' where "poll L process etext rnd co s = ((recovered co, s'), Inr ())" "same_env s s'" "schema (tabs s')"
    "holds_lease (tabs s') (co_cfg co)"
    "pending (tabs s') (cc_Name (co_cfg co)) = drop (batch_size (co_cfg co)) (pending (tabs s) (cc_Name (co_cfg co)))"
proof -
  let ?c = "co_cfg co"
  obtain s1 s2 where b: "tryAcquireOrRenew ?c s = (s1, Inr True)" "processBatch L process ?c s1 = (s2, Inr ())"
    "same_env s s2" "schema (tabs s2)" "holds_lease (tabs s2) ?c"
    "pending (tabs s2) (cc_Name ?c) = drop (batch_size ?c) (pending (tabs s) (cc_Name ?c))"
    by (rule acquire_and_process [OF assms(1-5,7), of L])
  have e2: "tx s2 = None" "\<And>k. \<not> fault s2 k" using b(3) assms(2) by (simp_all add: same_env_def)
  show thesis
  proof (cases "0 < co_failures co")
    case True
    let ?s3 = "fst (persistFailureState ?c 0 [] None s2)"
    have "poll L process etext rnd co s = ((recovered co, ?s3), Inr ())" using b(1,2) assms(6) True by (simp add: poll_def recovered_def)
    moreover have "good schema ?s3" using constraints.good_step [OF constraints.keeps_persistFailureState] b(4) e2(1) by (simp add: good_def)
    ultimately show thesis
      using that [of ?s3] persist_runs [OF e2 b(5), where k = 0 and e = "[]" and b = None] b(3,6) by (simp add: good_def same_env_def)
  next
    case False
    then have "poll L process etext rnd co s = ((recovered co, s2), Inr ())" using b(1,2) assms(6) by (simp add: poll_def recovered_def)
    then show thesis using that b(3-6) by blast
  qed
qed

lemma realtime_drain:
  assumes "tx s = None" "\<And>k. \<not> fault s k" "\<And>k evs. process k evs = None" "schema (tabs s)" "mono (clock s)" "0 \<le> clock s (tick s)"
    "\<And>now. clock s (tick s) \<le> now \<Longrightarrow> lease_free (tabs s) (co_cfg co) now"
    "ws \<noteq> [] \<Longrightarrow> co_backoffUntil co \<le> clock s (tick s + fst (hd ws))" "0 \<le> int32 (cc_BatchSize (co_cfg co))"
  shows "\<exists>s'. realtime_loop L process etext rnd ws co s = ((if ws = [] then co else recovered co, s'), Inr ())
    \<and> same_env s s' \<and> schema (tabs s')
    \<and> pending (tabs s') (cc_Name (co_cfg co)) = drop (length ws * batch_size (co_cfg co)) (pending (tabs s) (cc_Name (co_cfg co)))"
  using assms(1,2,4-9)
proof (induction ws arbitrary: s co)
  case Nil
  then show ?case by (simp add: same_env_def)
next
  case (Cons w ws)
  let ?c = "co_cfg co"
  obtain sleep wait where w: "w = (sleep, wait)" by (cases w)
  define s0 where "s0 = (if clock s (tick s) < co_backoffUntil co then skip_ticks sleep s else s)"
  have s0: "tx s0 = None" "tabs s0 = tabs s" "fault s0 = fault s" "clock s0 = clock s" "tick s \<le> tick s0"
    "co_backoffUntil co \<le> clock s (tick s0)"
    using Cons.prems(1,7) by (simp_all add: s0_def skip_ticks_def w)
  let ?s1 = "fst (listen wait s0)"
  note s1 = listened [OF s0(1), of wait]
  have later: "clock s (tick s0) \<le> clock s (tick ?s1)" "clock s (tick s) \<le> clock s (Suc (tick ?s1))"
    using s0(5) s1(5) by (auto intro!: monoD [OF Cons.prems(4)])
  have free: "lease_free (tabs ?s1) ?c (clock ?s1 (Suc (tick ?s1)))" using Cons.prems(6) later(2) s0(2,4) s1(2,4) by simp
  have due: "co_backoffUntil co \<le> clock ?s1 (tick ?s1)" using s0(4,6) later(1) s1(4) by simp
  obtain s2 where p: "poll L process etext rnd co ?s1 = ((recovered co, s2), Inr ())" "same_env ?s1 s2" "schema (tabs s2)"
    "holds_lease (tabs s2) ?c" "pending (tabs s2) (cc_Name ?c) = drop (batch_size ?c) (pending (tabs ?s1) (cc_Name ?c))"
  proof (rule poll_recovers [OF s1(1) _ assms(3) _ free due Cons.prems(8)])
    show "\<not> fault ?s1 k" for k using Cons.prems(2) s0(3) s1(3) by simp
    show "schema (tabs ?s1)" using Cons.prems(3) s0(2) s1(2) by simp
  qed
  have cfg: "co_cfg (recovered co) = ?c" "recovered (recovered co) = recovered co" by (simp_all add: recovered_def)
  have e: "tx s2 = None" "fault s2 = fault s" "clock s2 = clock s" "tick s \<le> tick s2"
    using p(2) s0 s1 by (simp_all add: same_env_def)
  have now: "clock s (tick s) \<le> clock s (tick s2)" "clock s (tick ?s1) \<le> clock s (tick s2)"
    using e(4) p(2) by (auto intro!: monoD [OF Cons.prems(4)] simp: same_env_def)
  have "co_backoffUntil (recovered co) \<le> clock s (tick s2)"
    using due now Cons.prems(5) s0(4) s1(4) by (auto simp: recovered_def)
  moreover have "clock s (tick s2) \<le> clock s (tick s2 + j)" for j by (intro monoD [OF Cons.prems(4)]) simp
  ultimately have due': "co_backoffUntil (recovered co) \<le> clock s (tick s2 + j)" for j by (meson order_trans)
  have "lease_free (tabs s2) ?c t" for t using p(4) by (auto simp: lease_free_def holds_lease_def)
  then obtain s' where "realtime_loop L process etext rnd ws (recovered co) s2 = ((recovered co, s'), Inr ())" "same_env s2 s'"
    "schema (tabs s')" "pending (tabs s') (cc_Name ?c) = drop (length ws * batch_size ?c) (pending (tabs s2) (cc_Name ?c))"
    using Cons.IH [of s2 "recovered co"] e p(3) due' Cons.prems(2,4,5,8) now(1) cfg by auto
  moreover have "realtime_loop L process etext rnd (w # ws) co s = realtime_loop L process etext rnd ws (recovered co) s2"
    using p(1) by (simp add: w s0_def [symmetric] Let_def)
  ultimately show ?case using p(5) e s0(2) s1(2) by (auto simp: same_env_def add.commute)
qed

text \<open>C31. Realtime consumers recover. Assume that from now on the database answers and the caller's function accepts, that the
  clock never goes back, that the consumer's lock is free, expired or its own and nobody else acts meanwhile (no standby takes the
  lock), and that the first wait reaches the end of the backoff, if one is due. Then \<open>RunRealtime\<close> delivers a
  batch at each iteration, however many failures the consumer has counted before and whether notifications arrive or not; it ends
  with its failure counter reset and the lock given back.\<close>

theorem RunRealtime_recovers:
  assumes "tx s = None" "\<forall>j. \<not> fault s j" "\<forall>j evs. process j evs = None" "schema (tabs s)"
    and "mono (clock s)" "0 \<le> clock s (tick s)" "\<forall>now\<ge>clock s (tick s). lease_free (tabs s) (co_cfg co) now"
    and "ws \<noteq> []" "co_backoffUntil co \<le> clock s (tick s + fst (hd ws))" "0 \<le> int32 (cc_BatchSize (co_cfg co))"
  shows "\<exists>co' s'. RunRealtime L process etext rnd ws co s = ((co', s'), Inl (Msg ''context canceled'' []))
    \<and> pending (tabs s') (cc_Name (co_cfg co))
        = drop (length ws * nat (int32 (cc_BatchSize (co_cfg co)))) (pending (tabs s) (cc_Name (co_cfg co)))
    \<and> co_failures co' \<le> 0 \<and> \<not> holds_lease (tabs s') (co_cfg co)"
proof -
  obtain s1 where r: "realtime_loop L process etext rnd ws co s = ((recovered co, s1), Inr ())" "same_env s s1" "schema (tabs s1)"
    "pending (tabs s1) (cc_Name (co_cfg co)) = drop (length ws * batch_size (co_cfg co)) (pending (tabs s) (cc_Name (co_cfg co)))"
    using realtime_drain [of s process co ws L etext rnd] assms by auto
  have e: "tx s1 = None" "\<And>j. \<not> fault s1 j" "consumers_ok (tabs s1)"
    using r(2,3) assms(2) by (simp_all add: same_env_def schema_def)
  have "co_cfg (recovered co) = co_cfg co" "co_failures (recovered co) \<le> 0" by (simp_all add: recovered_def)
  with release_runs [OF e, of "co_cfg co"] r(1,4) show ?thesis by (simp add: RunRealtime_def)
qed

section \<open>The callback\<close>

lemma in_tx_committed:
  assumes "in_tx False wc body s = (s', Inr x)" "steady body" "tx s = None"
  obtains s2 where "body (started s) = (s2, Inr x)" "in_live_tx s2" "tabs s' = tabs s2"
proof -
  obtain s2 r2 where s2: "body (started s) = (s2, r2)" by fastforce
  obtain T where T: "tx s2 = Some T" using steadyD [OF assms(2) _ s2] by (fastforce simp: started_def)
  have "\<not> fault s (tick s)" using assms(1) by (auto simp: in_tx_def dwrap_def begin_tx_def)
  then have "r2 = Inr x \<and> \<not> tx_aborted T \<and> tabs s' = tabs s2"
    using assms(1) s2 T by (auto simp: in_tx_def dwrap_def begin_tx_def started_def commit_tx_def split: if_splits sum.splits)
  then show thesis using that s2 T by (auto simp: in_live_tx_def)
qed

text \<open>When \<open>OnDeadLetter\<close> is called, the letters are there: the call names the consumer and lists the events of the
  next batch, one letter for each of them has been stored, and the cursor is past them.\<close>

theorem OnDeadLetter_after_commit:
  assumes "dead_letter_call L c msg k s = Some (n, evs)" "tx s = None" "schema (tabs s)" "holds_lease (tabs s) c"
  defines "t' \<equiv> tabs (fst (deadLetterCurrentBatch L c msg k s))"
  shows "n = cc_Name c \<and> evs = map (toEvent L) (take (nat (int32 (cc_BatchSize c))) (pending (tabs s) (cc_Name c)))
    \<and> pending t' (cc_Name c) = drop (nat (int32 (cc_BatchSize c))) (pending (tabs s) (cc_Name c))
    \<and> (\<exists>ls. dead_letters t' = dead_letters (tabs s) @ ls
         \<and> list_all2 (letter_for L c msg k) (take (nat (int32 (cc_BatchSize c))) (pending (tabs s) (cc_Name c))) ls)"
proof -
  have ev: "events_ok (tabs s)" using assms(3) by (simp add: schema_def)
  let ?get = "\<lambda>row. q_GetEventsAfterCursor (c_last_event_at row) (after_id row) (int32 (cc_BatchSize c))"
  let ?tx = "\<lambda>rows. in_tx False (\<lambda>e. e) (dead_letter_tx L c msg k rows)"
  obtain s1 row s2 rows s3 where 1: "q_GetConsumerCursor (cc_Name c) s = (s1, Inr row)" and 2: "?get row s1 = (s2, Inr rows)"
    and 3: "?tx rows s2 = (s3, Inr ())" and rows: "rows \<noteq> []" "n = cc_Name c" "evs = map (toEvent L) rows"
    using assms(1) unfolding dead_letter_call_def
    by (auto simp: dbind_def dret_def split: prod.splits sum.splits if_splits)
  have s1: "s1 = next_tick s" "consumer_row (tabs s) (cc_Name c) = Some row" using GetConsumerCursor_Inr [OF 1] by simp_all
  have s2: "s2 = next_tick s1" "rows = next_batch (tabs s) c" using GetEventsAfterCursor_Inr [OF 2] s1 by simp_all
  have t': "t' = tabs s3"
    using 1 2 3 rows(1) by (simp add: t'_def deadLetterCurrentBatch_def dmap_def dtry_def dbind_def dret_def)
  obtain s4 where 4: "dead_letter_tx L c msg k rows (started s2) = (s4, Inr ())" "in_live_tx s4" "tabs s3 = tabs s4"
    by (rule in_tx_committed [OF 3 steady_dead_letter_tx]) (simp_all add: s1 s2 assms(2))
  have st: "tabs (started s2) = tabs s" "in_live_tx (started s2)" by (simp_all add: started_def in_live_tx_def s1 s2)
  obtain ls t where d: "advanced (tabs s) c t" "list_all2 (letter_for L c msg k) rows ls"
    "tabs s4 = t\<lparr>dead_letters := dead_letters t @ ls, dead_letter_seq := dead_letter_seq t + int (length ls)\<rparr>"
    using dead_letter_tx_live [OF 4(1) st(2) 4(2)] s2(2) st(1) by auto
  note ap = advanced_pending [OF d(1) ev rows(1) [unfolded s2(2)] assms(4)]
  have "dead_letters t = dead_letters (tabs s)" by (subst ap(3)) simp
  then show ?thesis using rows(2,3) s2(2) ap(1) d(2,3) 4(3) t' by simp
qed

section \<open>Runs to evaluate\<close>

text \<open>A consumer in the middle of a backoff.\<close>

definition failing_consumer :: Consumer where
  "failing_consumer = \<lparr>co_cfg = demo_config, co_failures = 2, co_backoffUntil = 1005, co_lastErr = Some Panic\<rparr>"

lemma demo_clock: "mono (clock (demo_log []))" "clock (demo_log []) k = 1000 + int k"
  by (simp_all add: demo_log_def demo_db_def mono_def)

theorem RunRealtime_recovers_witness:
  "\<exists>co' s'. RunRealtime demo_lib (\<lambda>_ _. None) (\<lambda>_. []) (\<lambda>_ _. 0) [(7, 3), (0, 1)] failing_consumer (demo_log [])
       = ((co', s'), Inl (Msg ''context canceled'' []))
     \<and> pending (tabs s') ''c'' = [] \<and> co_failures co' \<le> 0"
proof -
  have cfg: "cc_Name (co_cfg failing_consumer) = ''c''" "cc_BatchSize (co_cfg failing_consumer) = 1" "co_backoffUntil failing_consumer = 1005"
    by (simp_all add: failing_consumer_def demo_config_def)
  then have "lease_free (tabs (demo_log [])) (co_cfg failing_consumer) now" for now
    by (simp add: lease_free_def consumer_row_def demo_log_defs)
  with RunRealtime_recovers [of "demo_log []" "\<lambda>_ _. None" failing_consumer "[(7, 3), (0, 1)]" demo_lib "\<lambda>_. []" "\<lambda>_ _. 0"]
    cfg demo_log_ok(1) demo_clock
  show ?thesis by (auto simp: demo_pending)
qed

theorem run_at_least_once_witness:
  "\<exists>co' s' r n. RunRealtime demo_lib (\<lambda>_ _. Some Panic) (\<lambda>_. []) (\<lambda>_ _. 0) [(7, 3)] failing_consumer (demo_log []) = ((co', s'), r)
     \<and> pending (tabs s') ''c'' = drop n [demo_event 1, demo_event 2]
     \<and> list_all (\<lambda>v. list_ex (\<lambda>d. d_event_id d = v_id v) (dead_letters (tabs s'))) (take n [demo_event 1, demo_event 2])"
proof -
  obtain co' s' r where r: "RunRealtime demo_lib (\<lambda>_ _. Some Panic) (\<lambda>_. []) (\<lambda>_ _. 0) [(7, 3)] failing_consumer (demo_log []) = ((co', s'), r)"
    by (metis prod.collapse)
  have cfg: "cc_Name (co_cfg failing_consumer) = ''c''" by (simp add: failing_consumer_def demo_config_def)
  from run_at_least_once [OF disjI2 [OF r] demo_log_env(1) demo_log_ok(1)] r show ?thesis
    unfolding cfg demo_pending list_all_iff list_ex_iff by fastforce
qed

section \<open>Events that commit late\<close>

text \<open>The time of an event is the start of its transaction, the cursor goes by time, and other transactions may commit in between. Once the
  cursor has passed that time, the event is not pending when its transaction commits, and no batch will ever contain it.\<close>

theorem late_event_not_pending:
  assumes "consumer_row t name = Some c" "v_occurred_at v < c_last_event_at c"
  shows "pending (t\<lparr>events := events t @ [v]\<rparr>) name = pending t name"
proof -
  have "\<not> event_before (c_last_event_at c, after_id c) v" using assms(2) by (simp add: event_before_def)
  then show ?thesis using assms(1) by (simp add: pending_def consumer_row_def event_order_def filter_sort)
qed

end
