(* ===== verification/Maintenance.thy ===== *)
theory Maintenance
  imports Health
begin

text \<open>
  The generated statements of \<open>src/store/internal/dbgen\<close> that no operation of the store calls: direct deletion of
  anchors, tokens, relations and dead letters, and reads by relation type, source and letter. They keep the constraints of the
  schema, and clearing an entity with them before its hard delete does what the hard delete's cascade does alone.
\<close>

section \<open>Statements\<close>

definition q_DeleteAnchorsForEntity :: "uuid \<Rightarrow> unit dbm" where
  "q_DeleteAnchorsForEntity uid = exec (\<lambda>_ _ t. Inr (t\<lparr>anchors := filter (\<lambda>a. a_entity_id a \<noteq> uid) (anchors t)\<rparr>, ()))"

definition q_DeleteTokensForEntity :: "uuid \<Rightarrow> unit dbm" where
  "q_DeleteTokensForEntity uid = exec (\<lambda>_ _ t. Inr (t\<lparr>tokens := filter (\<lambda>k. t_entity_id k \<noteq> uid) (tokens t)\<rparr>, ()))"

definition q_DeleteRelation :: "uuid \<Rightarrow> unit dbm" where
  "q_DeleteRelation rid = exec (\<lambda>_ _ t. Inr (t\<lparr>relations := filter (\<lambda>r. r_id r \<noteq> rid) (relations t)\<rparr>, ()))"

definition q_DeleteRelationsForEntity :: "uuid \<Rightarrow> unit dbm" where
  "q_DeleteRelationsForEntity uid = exec (\<lambda>_ _ t.
     Inr (t\<lparr>relations := filter (\<lambda>r. \<not> (r_source r = uid \<or> r_target r = uid)) (relations t)\<rparr>, ()))"

definition q_GetRelationsByType :: "string \<Rightarrow> EntityRelation list dbm" where
  "q_GetRelationsByType relationType = select (newest_relations (\<lambda>r. r_type r = relationType))"

text \<open>A \<open>NULL\<close> source equals nothing.\<close>

definition q_GetRelationsForSource :: "string option \<Rightarrow> EntityRelation list dbm" where
  "q_GetRelationsForSource sourceUrn = select (newest_relations (\<lambda>r. sourceUrn \<noteq> None \<and> r_urn r = sourceUrn))"

definition q_GetDeadLetter :: "int \<Rightarrow> EntityEventDeadLetter dbm" where
  "q_GetDeadLetter i = select_one (\<lambda>t. filter (\<lambda>d. d_id d = i) (dead_letters t))"

definition q_DeleteDeadLettersByConsumer :: "string \<Rightarrow> unit dbm" where
  "q_DeleteDeadLettersByConsumer consumerName = exec (\<lambda>_ _ t.
     Inr (t\<lparr>dead_letters := filter (\<lambda>d. d_consumer d \<noteq> consumerName) (dead_letters t)\<rparr>, ()))"

section \<open>Constraints\<close>

lemma schema_filters:
  assumes "schema t"
  shows "schema (t\<lparr>anchors := filter P (anchors t)\<rparr>)" "schema (t\<lparr>tokens := filter Q (tokens t)\<rparr>)" "schema (t\<lparr>relations := filter R (relations t)\<rparr>)"
proof -
  show "schema (t\<lparr>anchors := filter P (anchors t)\<rparr>)" "schema (t\<lparr>tokens := filter Q (tokens t)\<rparr>)"
    using assms by (simp_all add: schema_defs entity_exists_def distinct_map_filter)
  have ok: "relations_ok t" using assms by (simp add: schema_def)
  show "schema (t\<lparr>relations := filter R (relations t)\<rparr>)"
    by (rule schema_replace_relations [OF assms distinct_map_filter distinct_map_filter2]) (use ok in \<open>auto simp: relations_ok_def\<close>)
qed

lemma cleanup_keeps_schema:
  "pres schema (q_DeleteAnchorsForEntity u)" "pres schema (q_DeleteTokensForEntity u)" "pres schema (q_DeleteRelation u)"
  "pres schema (q_DeleteRelationsForEntity u)" "pres schema (q_DeleteDeadLettersByConsumer name)"
  unfolding q_DeleteAnchorsForEntity_def q_DeleteTokensForEntity_def q_DeleteRelation_def q_DeleteRelationsForEntity_def
    q_DeleteDeadLettersByConsumer_def
  by (rule pres_exec, auto simp: schema_filters schema_filter_letters)+

section \<open>Clearing an entity\<close>

definition clear_entity :: "uuid \<Rightarrow> unit dbm" where
  "clear_entity u = dbind (q_DeleteAnchorsForEntity u) (\<lambda>_. dbind (q_DeleteTokensForEntity u) (\<lambda>_. q_DeleteRelationsForEntity u))"

text \<open>What remains of a cleared entity is its row and its history: the hard delete after it leaves the tables that
  the hard delete alone, with its cascade, leaves.\<close>

lemma exec_answers:
  "answers_with t s \<Longrightarrow> \<exists>s'. exec (\<lambda>_ _ t. Inr (F t, x)) s = (s', Inr x) \<and> answers_with (F t) s'"
  by (simp add: answers_with_def exec_fault_free)

theorem clear_then_delete_cascades:
  assumes "answers_with t s"
  shows "\<exists>s1 s2 s3. clear_entity u s = (s1, Inr ()) \<and> q_HardDeleteEntity u s1 = (s2, Inr ()) \<and> q_HardDeleteEntity u s = (s3, Inr ())
    \<and> tabs s2 = tabs s3"
proof -
  note stmts = q_DeleteAnchorsForEntity_def q_DeleteTokensForEntity_def q_DeleteRelationsForEntity_def q_HardDeleteEntity_def
  obtain s1 where 1: "q_DeleteAnchorsForEntity u s = (s1, Inr ())"
    "answers_with (t\<lparr>anchors := filter (\<lambda>a. a_entity_id a \<noteq> u) (anchors t)\<rparr>) s1"
    unfolding stmts using exec_answers [OF assms] by fast
  obtain s2 where 2: "q_DeleteTokensForEntity u s1 = (s2, Inr ())"
    "answers_with (t\<lparr>anchors := filter (\<lambda>a. a_entity_id a \<noteq> u) (anchors t), tokens := filter (\<lambda>k. t_entity_id k \<noteq> u) (tokens t)\<rparr>) s2"
    using exec_answers [OF 1(2), where x = "()" and F = "\<lambda>t. t\<lparr>tokens := filter (\<lambda>k. t_entity_id k \<noteq> u) (tokens t)\<rparr>"] unfolding stmts by auto
  obtain s3 where 3: "q_DeleteRelationsForEntity u s2 = (s3, Inr ())"
    "answers_with (t\<lparr>anchors := filter (\<lambda>a. a_entity_id a \<noteq> u) (anchors t), tokens := filter (\<lambda>k. t_entity_id k \<noteq> u) (tokens t),
       relations := filter (\<lambda>r. \<not> (r_source r = u \<or> r_target r = u)) (relations t)\<rparr>) s3"
    using exec_answers [OF 2(2), where x = "()" and F = "\<lambda>t. t\<lparr>relations := filter (\<lambda>r. \<not> (r_source r = u \<or> r_target r = u)) (relations t)\<rparr>"]
    unfolding stmts by auto
  have d: "\<exists>s'. q_HardDeleteEntity u s = (s', Inr ()) \<and> tabs s' = t\<lparr>entities := filter (\<lambda>e. e_id e \<noteq> u) (entities t),
            anchors := filter (\<lambda>a. a_entity_id a \<noteq> u) (anchors t),
            tokens := filter (\<lambda>k. t_entity_id k \<noteq> u) (tokens t),
            relations := filter (\<lambda>r. r_source r \<noteq> u \<and> r_target r \<noteq> u) (relations t)\<rparr>" if "answers_with t s" for t s
    using that by (simp add: q_HardDeleteEntity_def answers_with_def exec_fault_free)
  show ?thesis using 1(1) 2(1) 3(1) d [OF 3(2)] d [OF assms] by (auto simp: clear_entity_def dbind_def)
qed

end
