(* ===== verification/Pure_Examples.thy ===== *)
theory Pure_Examples
  imports Codegen
begin

text \<open>
  The programs of \<open>src/examples/matching_example.go\<close> and \<open>src/examples/codegen_example.go\<close>, which need no database: normalizers,
  tokens, embeddings, configurations and schemas. The outputs that their comments announce are proved for every Unicode table,
  because the inputs are ASCII. Two programs of \<open>codegen_example.go\<close> print a hint only.
\<close>

section \<open>Normalizers and tokens\<close>

definition NormalizersExample :: "unicode \<Rightarrow> string list" where
  "NormalizersExample U =
     [NormalizeLowercaseTrim U ''  John.Doe@Example.COM  '', NormalizeLowercaseTrim U ''  Alice M. JOHNSON  '',
      NormalizePhone U ''+1 (555) 867-5309'', NormalizePhone U ''555.867.5309'']"

definition TokenizationExample :: "unicode \<Rightarrow> string list list" where
  "TokenizationExample U = [Tokenize U ''Senior Software Engineer at Acme Corp'', Tokenize U ''John Michael Doe'']"

section \<open>Embeddings\<close>

definition simpleEmbedder_Embed :: Embedder where
  "simpleEmbedder_Embed texts = Inr (map (\<lambda>text. Some (replicate 1536 0)) texts)"

definition zero_EntityMatchConfig :: EntityMatchConfig where
  "zero_EntityMatchConfig = \<lparr>em_EntityType = [], em_Anchors = \<lparr>ac_SingleAnchors = [], ac_CompositeAnchors = []\<rparr>, em_FieldWeights = [],
     em_ConflictStrategies = [], em_Thresholds = \<lparr>mt_AutoMatch = 0, mt_ReviewZone = 0\<rparr>, em_EmbedFields = [], em_TokenFields = [],
     em_AllowedRelations = [], em_Normalizers = Map.empty\<rparr>"

text \<open>The dimension printed, or the error.\<close>

definition ComputeEmbeddingExample :: "golib \<Rightarrow> err + nat" where
  "ComputeEmbeddingExample L =
     (let cfg = zero_EntityMatchConfig\<lparr>em_EntityType := ''examples.v1.Person'', em_EmbedFields := [''full_name'', ''job_title'']\<rparr>;
          data = Some (JObj [(''full_name'', JStr ''Alice Johnson''), (''job_title'', JStr ''Product Manager'')]) in
      bind_res (ComputeEmbedding L data cfg (Some simpleEmbedder_Embed)) (\<lambda>vec. Inr (case vec of None \<Rightarrow> 0 | Some v \<Rightarrow> length v)))"

section \<open>Configurations\<close>

definition example_config :: "unicode \<Rightarrow> EntityMatchConfig" where
  "example_config U = zero_EntityMatchConfig\<lparr>em_EntityType := ''examples.v1.Person'',
     em_Anchors := \<lparr>ac_SingleAnchors = [\<lparr>af_ProtoFieldName = ''email'', af_Normalizer = Some (NormalizeLowercaseTrim U)\<rparr>],
       ac_CompositeAnchors = [[\<lparr>af_ProtoFieldName = ''full_name'', af_Normalizer = Some (NormalizeLowercaseTrim U)\<rparr>,
         \<lparr>af_ProtoFieldName = ''date_of_birth'', af_Normalizer = None\<rparr>]]\<rparr>,
     em_FieldWeights := [\<lparr>fw_ProtoFieldName = ''email'', fw_Weight = f64 (30 / 100), fw_Similarity = SimilarityExact\<rparr>,
       \<lparr>fw_ProtoFieldName = ''full_name'', fw_Weight = f64 (35 / 100), fw_Similarity = SimilarityJaroWinkler\<rparr>],
     em_Thresholds := \<lparr>mt_AutoMatch = f64 (85 / 100), mt_ReviewZone = f64 (60 / 100)\<rparr>,
     em_EmbedFields := [''email'', ''full_name''], em_TokenFields := [''full_name'']\<rparr>"

definition MatchConfigInspectionExample ::
    "unicode \<Rightarrow> string \<times> float64 \<times> float64 \<times> string list \<times> string list \<times> string list \<times> (string \<times> float64 \<times> SimilarityFunc) list" where
  "MatchConfigInspectionExample U =
     (let cfg = example_config U in
      (em_EntityType cfg, mt_AutoMatch (em_Thresholds cfg), mt_ReviewZone (em_Thresholds cfg), em_EmbedFields cfg, em_TokenFields cfg,
       map af_ProtoFieldName (ac_SingleAnchors (em_Anchors cfg)),
       map (\<lambda>fw. (fw_ProtoFieldName fw, fw_Weight fw, fw_Similarity fw)) (em_FieldWeights cfg)))"

section \<open>Registries and schemas\<close>

definition RegisterConfigsExample :: "MatchConfigRegistry \<times> ExtractionSchemaRegistry" where
  "RegisterConfigsExample = (NewMatchConfigRegistry, NewExtractionSchemaRegistry)"

definition example_schema :: ExtractionSchema where
  "example_schema = \<lparr>xs_EntityType = ''examples.v1.Person'', xs_DisplayName = ''Person'',
     xs_Prompt = ''Extract person details from the provided text.'', xs_Instructions = [],
     xs_Fields = [\<lparr>xf_Name = ''email'', xf_Description = ''Primary email address'', xf_Hint = [], xf_Type = ExtractionFieldTypeString,
         xf_Required = True, xf_Repeated = False, xf_Examples = []\<rparr>,
       \<lparr>xf_Name = ''full_name'', xf_Description = ''Full legal name'', xf_Hint = [], xf_Type = ExtractionFieldTypeString,
         xf_Required = False, xf_Repeated = False, xf_Examples = []\<rparr>,
       \<lparr>xf_Name = ''phone'', xf_Description = ''Phone number'', xf_Hint = [], xf_Type = ExtractionFieldTypeString,
         xf_Required = False, xf_Repeated = False, xf_Examples = []\<rparr>]\<rparr>"

definition ExtractionSchemaExample :: "(string \<times> string \<times> string \<times> (string \<times> ExtractionFieldType \<times> string) list) option" where
  "ExtractionSchemaExample =
     (let esr = ExtractionSchemaRegistry_Register NewExtractionSchemaRegistry example_schema in
      case ExtractionSchemaRegistry_Get esr ''examples.v1.Person'' of
        None \<Rightarrow> None
      | Some sch \<Rightarrow> Some (xs_DisplayName sch, xs_EntityType sch, xs_Prompt sch,
          map (\<lambda>f. (xf_Name f, xf_Type f, xf_Description f)) (xs_Fields sch)))"

section \<open>Announced outputs\<close>

text \<open>The comments of \<open>NormalizersExample\<close> and \<open>TokenizationExample\<close> are right.\<close>

theorem NormalizersExample_outputs:
  "NormalizersExample U = [''john.doe@example.com'', ''alice m. johnson'', ''+15558675309'', ''5558675309'']"
  by (simp add: NormalizersExample_def NormalizeLowercaseTrim_def NormalizePhone_def trim_space_def trim_both_def trim_right_def
      strings_to_lower_def strings_map_def to_lower_def phone_loop_def is_digit_def is_space_def encode_def ascii_eval Let_def)

theorem TokenizationExample_outputs:
  "TokenizationExample U = [[''senior'', ''software'', ''engineer'', ''at'', ''acme'', ''corp''], [''john'', ''michael'', ''doe'']]"
  by (simp add: TokenizationExample_def Tokenize_def strings_to_lower_def strings_map_def to_lower_def letter_or_space_def is_letter_def
      is_digit_def strings_fields_def is_space_def encode_def ascii_eval Let_def)

theorem ComputeEmbeddingExample_output: "ComputeEmbeddingExample L = Inr 1536"
  by (simp add: ComputeEmbeddingExample_def ComputeEmbedding_def simpleEmbedder_Embed_def zero_EntityMatchConfig_def Let_def
      TextToEmbed_def unmarshal_map_def embed_field_def string_value_def unmarshal_string_def trim_space_def trim_both_def trim_right_def
      is_space_def ascii_eval)

theorem ExtractionSchemaExample_output:
  "ExtractionSchemaExample = Some (''Person'', ''examples.v1.Person'', ''Extract person details from the provided text.'',
     [(''email'', ExtractionFieldTypeString, ''Primary email address''), (''full_name'', ExtractionFieldTypeString, ''Full legal name''),
      (''phone'', ExtractionFieldTypeString, ''Phone number'')])"
  using schemas.get_register_same [of NewExtractionSchemaRegistry example_schema]
  by (simp add: ExtractionSchemaExample_def example_schema_def)

end
