(* ===== verification/Views.thy ===== *)
theory Views
  imports Traverse
begin

text \<open>
  The templates of the explorer: \<open>src/ui/fragments_templ.go\<close>, \<open>src/ui/explorer/pages_templ.go\<close> and
  \<open>src/ui/explorer/layout_templ.go\<close>. A template is a function from its arguments to the tree that it writes: elements with
  their attributes, literal text, text that is escaped, and the components of the \<open>dsx\<close> library, which are named with their
  properties and not expanded. A click handler \<open>ds.OnClick(ds.Get(url))\<close> is the attribute \<open>OnClickGet url\<close>. Rendering a slice out of
  range panics: the result is then \<open>None\<close>. White space between elements, errors of the writer and a
  cancelled context are not modelled.

  What depends on the process or on printing documents is a parameter: \<open>Time.Format\<close> (it uses the location of the process),
  \<open>time.Parse\<close>, \<open>json.MarshalIndent\<close>, the verb \<open>%q\<close>, and the token and theme that the context carries.
\<close>

section \<open>Trees\<close>

datatype attr = Attr string string | OnClickGet string | OnGet string string | Signals string | Bind string string

datatype html = Txt string | Lit string | El string "attr list" "html list" | Comp string "(string \<times> string) list" "html list"

record uilib =
  ui_Format :: "string \<Rightarrow> time \<Rightarrow> string"
  ui_ParseTime :: "string \<Rightarrow> time option"
  ui_Indent :: "json \<Rightarrow> string"
  ui_Quote :: "string \<Rightarrow> string"
  ui_CSRFToken :: string
  ui_Theme :: string

text \<open>The entities and events a tree leads to, and the text it shows.\<close>

fun attr_links :: "attr \<Rightarrow> string list" where
  "attr_links (OnClickGet url) = [url]"
| "attr_links (OnGet event url) = [url]"
| "attr_links _ = []"

primrec links :: "html \<Rightarrow> string list" where
  "links (Txt t) = []"
| "links (Lit t) = []"
| "links (El tag as kids) = concat (map attr_links as) @ concat (map links kids)"
| "links (Comp name ps kids) = concat (map links kids)"

primrec shown :: "html \<Rightarrow> string list" where
  "shown (Txt t) = [t]"
| "shown (Lit t) = []"
| "shown (El tag as kids) = concat (map shown kids)"
| "shown (Comp name ps kids) = concat (map shown kids)"

definition cls :: "string \<Rightarrow> attr list" where
  "cls c = [Attr ''class'' c]"

abbreviation el :: "string \<Rightarrow> string \<Rightarrow> html list \<Rightarrow> html" where
  "el tag c kids \<equiv> El tag (cls c) kids"

abbreviation el0 :: "string \<Rightarrow> html list \<Rightarrow> html" where
  "el0 tag kids \<equiv> El tag [] kids"

section \<open>Printing\<close>

text \<open>\<open>%d\<close> and \<open>%.0f%%\<close>.\<close>

fun decimal :: "nat \<Rightarrow> string" where
  "decimal n = (if n < 10 then [char_of (48 + n)] else decimal (n div 10) @ [char_of (48 + n mod 10)])"

declare decimal.simps [simp del]

definition percent :: "float64 \<Rightarrow> string" where
  "percent confidence =
     (let x = fmul confidence 100 in
      (if x < 0 then ''-'' @ decimal (nat (rne (- x))) else decimal (nat (rne x))) @ ''%'')"

definition middle_dot :: string where "middle_dot = [CHR 0xC2, CHR 0xB7]"

definition arrow :: string where "arrow = [CHR 0xE2, CHR 0x86, CHR 0x92]"

definition dash :: string where "dash = [CHR 0xE2, CHR 0x80, CHR 0x94]"

text \<open>\<open>id[:8]\<close>.\<close>

definition first8 :: "string \<Rightarrow> string option" where
  "first8 s = (if length s < 8 then None else Some (take 8 s))"

definition shortType :: "string \<Rightarrow> string" where
  "shortType entityType = (let parts = split_on CHR ''.'' entityType in
     if parts \<noteq> [] then last parts else entityType)"

definition entity_url :: "string \<Rightarrow> string" where
  "entity_url i = ''/fragments/entities/'' @ i"

definition event_url :: "string \<Rightarrow> string" where
  "event_url i = ''/fragments/events/'' @ i"

definition ghost_badges :: "string list \<Rightarrow> html list" where
  "ghost_badges tags = map (\<lambda>tag. Comp ''badge.Badge'' [(''Style'', ''StyleGhost'')] [Txt tag]) tags"

section \<open>Fragments\<close>

definition statItem :: "string \<Rightarrow> string \<Rightarrow> string \<Rightarrow> html" where
  "statItem label value colorClass =
     Comp ''stat.Stat'' [] [Comp ''stat.Title'' [] [Txt label], Comp ''stat.Value'' [(''Class'', colorClass)] [Txt value]]"

definition stat_items :: "StoreStats \<Rightarrow> html" where
  "stat_items stats = Comp ''stat.Stats'' [(''Class'', ''w-full shadow'')]
     [statItem ''Entities'' (decimal (ss_TotalEntities stats)) ''text-primary'',
      statItem ''Relations'' (decimal (ss_TotalRelations stats)) ''text-secondary'',
      statItem ''Soft Deleted'' (decimal (ss_SoftDeleted stats)) ''text-warning'',
      statItem ''Entity Types'' (decimal (length (ss_EntityTypes stats))) ''text-accent'']"

definition statsFragment :: "StoreStats \<Rightarrow> html" where
  "statsFragment stats = El ''div'' [Attr ''id'' ''stats-overview''] [stat_items stats]"

definition count_table :: "(string \<times> nat) list \<Rightarrow> html" where
  "count_table counts = Comp ''table.Table'' [(''Class'', ''table-sm'')]
     [el0 ''thead'' [el0 ''tr'' [el0 ''th'' [Lit ''Type''], el ''th'' ''text-right'' [Lit ''Count'']]],
      el0 ''tbody'' (map (\<lambda>(ty, n). el0 ''tr''
        [el ''td'' ''font-mono text-sm'' [Txt ty], el ''td'' ''text-right'' [Txt (decimal n)]]) counts)]"

definition entityTypesList :: "(string \<times> nat) list \<Rightarrow> (string \<times> nat) list \<Rightarrow> html" where
  "entityTypesList entityTypes relationTypes = El ''div'' (Attr ''id'' ''entity-types'' # cls ''space-y-4'')
     ((if entityTypes \<noteq> [] then [el ''h3'' ''font-semibold'' [Lit ''Entity Types''], count_table entityTypes] else [])
      @ (if relationTypes \<noteq> [] then [el ''h3'' ''font-semibold mt-4'' [Lit ''Relation Types''], count_table relationTypes] else []))"

definition entityCard :: "uilib \<Rightarrow> StoredEntity \<Rightarrow> html option" where
  "entityCard U e =
     (case (if se_DisplayName e \<noteq> [] then
              Some [el ''span'' ''font-semibold'' [Txt (se_DisplayName e)],
                    el ''span'' ''ml-2 text-xs text-base-content/50'' [Txt (shortType (se_EntityType e))]]
            else map_option (\<lambda>i. [el ''span'' ''font-mono text-xs text-base-content/50'' [Txt i, Lit ''...''],
                    el ''span'' ''ml-2 font-semibold'' [Txt (shortType (se_EntityType e))]]) (first8 (se_ID e))) of
        None \<Rightarrow> None
      | Some title \<Rightarrow> Some (El ''div''
          (cls ''card bg-base-200 cursor-pointer hover:bg-base-300 transition-colors'' @ [OnClickGet (entity_url (se_ID e))])
          [Comp ''card.Body'' []
            [el ''div'' ''flex items-center justify-between''
               [el0 ''div'' title, el ''div'' ''flex gap-1'' (ghost_badges (se_Tags e))],
             el ''div'' ''text-sm text-base-content/70 mt-1''
               [Lit ''Confidence:'', Txt (percent (se_Confidence e)),
                Lit (middle_dot @ '' Created:''), Txt (ui_Format U ''2006-01-02 15:04'' (se_CreatedAt e))]]]))"

definition entityList :: "uilib \<Rightarrow> StoredEntity list \<Rightarrow> html option" where
  "entityList U es = map_option (\<lambda>cards. El ''div'' (Attr ''id'' ''entity-list'' # cls ''space-y-2'')
     ([el ''p'' ''text-sm text-base-content/60'' [Txt (decimal (length es) @ '' entities'')]] @ cards
      @ (if es = [] then [el ''p'' ''text-base-content/50'' [Lit ''No entities in the store.'']] else [])))
     (those (map (entityCard U) es))"

definition searchEmpty :: html where
  "searchEmpty = El ''div'' [Attr ''id'' ''search-results''] [el ''p'' ''text-base-content/50'' [Lit ''Enter a search term above.'']]"

definition searchResults :: "uilib \<Rightarrow> string \<Rightarrow> StoredEntity list \<Rightarrow> html option" where
  "searchResults U query es = map_option (\<lambda>cards. El ''div'' (Attr ''id'' ''search-results'' # cls ''space-y-2'')
     ([el ''p'' ''text-sm text-base-content/60'' [Txt (decimal (length es) @ '' results for '' @ ui_Quote U query)]]
      @ (if es = [] then [el ''p'' ''text-base-content/50'' [Lit ''No entities found.'']] else []) @ cards))
     (those (map (entityCard U) es))"

section \<open>Entity details\<close>

record ResolvedEntity =
  re_Name :: string
  re_EntityType :: string

definition resolvedName :: "string \<Rightarrow> (string \<rightharpoonup> ResolvedEntity) \<Rightarrow> string" where
  "resolvedName i resolved = (case resolved i of
     Some r \<Rightarrow> re_Name r
   | None \<Rightarrow> if 8 < length i then take 8 i @ ''...'' else i)"

definition resolvedType :: "string \<Rightarrow> (string \<rightharpoonup> ResolvedEntity) \<Rightarrow> string" where
  "resolvedType i resolved = (case resolved i of
     Some r \<Rightarrow> if re_EntityType r \<noteq> [] then re_EntityType r else []
   | None \<Rightarrow> [])"

text \<open>The first card: title, attributes, anchors, tags.\<close>

definition labelled :: "string \<Rightarrow> html \<Rightarrow> html" where
  "labelled label x = el0 ''div'' [el ''span'' ''text-base-content/50'' [Lit label], x]"

definition mono_text :: "string \<Rightarrow> html" where
  "mono_text t = el ''span'' ''font-mono text-xs'' [Txt t]"

definition detail_head :: "uilib \<Rightarrow> StoredEntity \<Rightarrow> (string \<times> string) list \<Rightarrow> nat \<Rightarrow> html" where
  "detail_head U e ancs relCount = Comp ''card.Card'' [] [Comp ''card.Body'' []
     ([Comp ''card.Title'' []
         [Txt (if se_DisplayName e \<noteq> [] then se_DisplayName e else shortType (se_EntityType e)),
          Comp ''badge.Badge'' [(''Style'', ''StyleGhost'')] [Txt (percent (se_Confidence e) @ '' confidence'')]],
       el ''div'' ''grid grid-cols-2 gap-2 text-sm''
         [labelled ''ID:'' (mono_text (se_ID e)), labelled ''Type:'' (mono_text (se_EntityType e)),
          labelled ''Created:'' (Txt (ui_Format U ''2006-01-02 15:04:05'' (se_CreatedAt e))),
          labelled ''Updated:'' (Txt (ui_Format U ''2006-01-02 15:04:05'' (se_UpdatedAt e))),
          labelled ''Relations:'' (Txt (decimal relCount))]]
      @ (if ancs \<noteq> [] then [el ''div'' ''mt-2''
           [el ''span'' ''text-xs text-base-content/50 uppercase tracking-wide'' [Lit ''Anchors''],
            el ''div'' ''flex flex-wrap gap-2 mt-1'' (map (\<lambda>(field, value).
              Comp ''badge.Badge'' [(''Style'', ''StyleOutline'')] [Txt field, Lit '':'', Txt value]) ancs)]] else [])
      @ [el ''div'' ''flex gap-1 mt-2'' (ghost_badges (se_Tags e))])]"

text \<open>A line of the relation lists: \<open>other\<close> is the target of an outbound and the source of an inbound relation.\<close>

definition relation_line :: "(string \<rightharpoonup> ResolvedEntity) \<Rightarrow> (StoredRelation \<Rightarrow> string) \<Rightarrow> StoredRelation \<Rightarrow> html" where
  "relation_line resolved other rel = El ''div''
     (cls ''flex items-center gap-2 p-2 rounded hover:bg-base-200 cursor-pointer'' @ [OnClickGet (entity_url (other rel))])
     ([Comp ''badge.Badge'' [(''Style'', ''StyleOutline'')] [Txt (sr_RelationType rel)],
       el ''span'' ''text-sm font-medium'' [Txt (resolvedName (other rel) resolved)]]
      @ (if resolvedType (other rel) resolved \<noteq> []
         then [el ''span'' ''text-xs text-base-content/40'' [Txt (resolvedType (other rel) resolved)]] else [])
      @ [el ''span'' ''text-xs text-base-content/50'' [Txt (percent (sr_Confidence rel))]]
      @ (if sr_Evidence rel \<noteq> []
         then [el ''span'' ''text-xs text-base-content/40 truncate max-w-48'' [Txt (sr_Evidence rel)]] else []))"

definition outbound_list :: "(string \<rightharpoonup> ResolvedEntity) \<Rightarrow> StoredRelation list \<Rightarrow> html list" where
  "outbound_list resolved outbound = (if outbound \<noteq> [] then [el ''div'' ''mb-2''
     [el ''span'' ''text-xs text-base-content/50 uppercase tracking-wide'' [Lit ''Outbound''],
      el ''div'' ''space-y-1 mt-1'' (map (relation_line resolved sr_TargetID) outbound)]] else [])"

definition inbound_list :: "(string \<rightharpoonup> ResolvedEntity) \<Rightarrow> StoredRelation list \<Rightarrow> html list" where
  "inbound_list resolved inbound = (if inbound \<noteq> [] then [el0 ''div''
     [el ''span'' ''text-xs text-base-content/50 uppercase tracking-wide'' [Lit ''Inbound''],
      el ''div'' ''space-y-1 mt-1'' (map (relation_line resolved sr_SourceID) inbound)]] else [])"

definition data_card :: "html \<Rightarrow> string \<Rightarrow> html" where
  "data_card title text = Comp ''card.Card'' [] [Comp ''card.Body'' []
     [Comp ''card.Title'' [] [title], Comp ''jsonview.JSONView'' [(''Value'', text), (''Copyable'', ''true'')] []]]"

definition entityDetail :: "uilib \<Rightarrow> StoredEntity \<Rightarrow> string \<Rightarrow> (string \<times> string) list \<Rightarrow> StoredRelation list \<Rightarrow>
    StoredRelation list \<Rightarrow> (string \<rightharpoonup> ResolvedEntity) \<Rightarrow> html" where
  "entityDetail U e prettyData ancs outbound inbound resolved = el ''div'' ''space-y-4''
     ([detail_head U e ancs (length outbound + length inbound), data_card (Lit ''Data'') prettyData]
      @ (if outbound \<noteq> [] \<or> inbound \<noteq> [] then [Comp ''card.Card'' [] [Comp ''card.Body'' []
           ([Comp ''card.Title'' [] [Txt (''Relations ('' @ decimal (length outbound + length inbound) @ '')'')]]
            @ outbound_list resolved outbound @ inbound_list resolved inbound)]] else [])
      @ [el ''div'' ''flex gap-2'' [El ''button''
           (cls ''btn btn-sm btn-outline'' @ [OnClickGet (entity_url (se_ID e) @ ''/graph'')]) [Lit ''Graph View'']],
         El ''div'' [Attr ''id'' ''entity-detail-panel''] []])"

section \<open>Relations, events, graph\<close>

definition relation_row :: "(StoredRelation \<Rightarrow> string) \<Rightarrow> StoredRelation \<Rightarrow> html option" where
  "relation_row other rel = map_option (\<lambda>i. El ''tr''
     (cls ''cursor-pointer hover:bg-base-200'' @ [OnClickGet (entity_url (other rel))])
     [el0 ''td'' [Comp ''badge.Badge'' [] [Txt (sr_RelationType rel)]],
      el ''td'' ''font-mono text-xs'' [Txt i, Lit ''...''],
      el0 ''td'' [Txt (percent (sr_Confidence rel))],
      el ''td'' ''text-xs text-base-content/60'' [Txt (sr_Evidence rel)]]) (first8 (other rel))"

definition relation_table :: "string \<Rightarrow> string \<Rightarrow> (StoredRelation \<Rightarrow> string) \<Rightarrow> StoredRelation list \<Rightarrow> html list option" where
  "relation_table title column other rels = (if rels = [] then Some []
     else map_option (\<lambda>rows. [Comp ''card.Card'' [] [Comp ''card.Body'' []
       [Comp ''card.Title'' [] [Txt (title @ '' ('' @ decimal (length rels) @ '')'')],
        Comp ''table.Table'' [(''Class'', ''table-sm'')]
          [el0 ''thead'' [el0 ''tr'' (map (\<lambda>h. el0 ''th'' [Lit h]) [''Type'', column, ''Confidence'', ''Evidence''])],
           el0 ''tbody'' rows]]]]) (those (map (relation_row other) rels)))"

definition entityRelations :: "string \<Rightarrow> StoredRelation list \<Rightarrow> StoredRelation list \<Rightarrow> html option" where
  "entityRelations entityID outbound inbound =
     (case relation_table ''Outbound'' ''Target'' sr_TargetID outbound of
        None \<Rightarrow> None
      | Some out \<Rightarrow> map_option (\<lambda>inn. El ''div'' (Attr ''id'' ''entity-detail-panel'' # cls ''space-y-4'')
          (out @ inn @ (if outbound = [] \<and> inbound = []
             then [el ''p'' ''text-base-content/50'' [Lit ''No relations found.'']] else [])))
          (relation_table ''Inbound'' ''Source'' sr_SourceID inbound))"

definition entityEventsPlaceholder :: html where
  "entityEventsPlaceholder = El ''div'' (Attr ''id'' ''entity-detail-panel'' # cls ''space-y-2'')
     [Comp ''card.Card'' [] [Comp ''card.Body'' []
       [Comp ''card.Title'' [] [Lit ''Events''],
        el ''p'' ''text-base-content/50'' [Lit ''Event timeline coming soon.'']]]]"

definition neighbor_box :: "TraverseResult \<Rightarrow> html option" where
  "neighbor_box n = map_option (\<lambda>i. El ''div''
     (cls ''bg-base-300 rounded-lg px-3 py-2 text-center cursor-pointer hover:bg-base-100 transition-colors''
      @ [OnClickGet (entity_url (se_ID (tr_Entity n)))])
     ([el ''div'' ''text-xs text-base-content/50'' [Lit ''depth'', Txt (decimal (tr_Depth n))],
       el ''div'' ''font-semibold text-sm'' [Txt (shortType (se_EntityType (tr_Entity n)))],
       el ''div'' ''font-mono text-xs'' [Txt i, Lit ''...'']]
      @ (if tr_Path n \<noteq> [] then [el ''div'' ''text-xs mt-1''
           [Comp ''badge.Badge'' [(''Style'', ''StyleGhost'')] [Txt (te_RelationType (last (tr_Path n)))]]] else [])))
     (first8 (se_ID (tr_Entity n)))"

definition entityGraph :: "StoredEntity \<Rightarrow> TraverseResult list \<Rightarrow> html option" where
  "entityGraph center neighbors =
     (case first8 (se_ID center) of None \<Rightarrow> None | Some i \<Rightarrow>
        map_option (\<lambda>boxes. El ''div'' (Attr ''id'' ''entity-detail-panel'' # cls ''space-y-2'')
          [Comp ''card.Card'' [] [Comp ''card.Body'' []
            [Comp ''card.Title'' [] [Txt (''Graph ('' @ decimal (length neighbors) @ '' neighbors)'')],
             el ''div'' ''bg-base-200 rounded-lg p-4''
               [el ''div'' ''text-center'' [el ''div'' ''inline-block bg-primary text-primary-content rounded-lg px-4 py-2 font-semibold''
                  [Txt (shortType (se_EntityType center)), el0 ''br'' [], el ''span'' ''text-xs font-mono'' [Txt i, Lit ''...'']]],
                (if neighbors \<noteq> [] then el ''div'' ''flex flex-wrap justify-center gap-4 mt-4'' boxes
                 else el ''p'' ''text-center text-base-content/50 mt-4'' [Lit ''No connected entities.''])]]]])
        (those (map neighbor_box neighbors)))"

section \<open>Event details\<close>

definition entityDataTitle :: "StoredEntity \<Rightarrow> string" where
  "entityDataTitle e = (if se_DisplayName e \<noteq> [] then se_DisplayName e @ '' '' @ dash @ '' Data''
     else shortType (se_EntityType e) @ '' '' @ dash @ '' Data'')"

text \<open>A value that is no document is shown as it is; of these the model has the empty one only.\<close>

definition prettyJSON :: "uilib \<Rightarrow> RawMessage \<Rightarrow> string" where
  "prettyJSON U data = (case data of Some j \<Rightarrow> ui_Indent U j | None \<Rightarrow> [])"

definition inlineEntityCard :: "StoredEntity \<Rightarrow> html" where
  "inlineEntityCard e = Comp ''card.Card'' [(''Class'', ''bg-base-200'')] [Comp ''card.Body'' [(''Class'', ''p-3'')]
     ([el ''div'' ''flex items-center justify-between'' [el0 ''div''
         ((if se_DisplayName e \<noteq> [] then [el ''span'' ''font-semibold text-sm'' [Txt (se_DisplayName e)]] else [])
          @ [el ''span'' ''text-xs text-base-content/40'' [Txt (shortType (se_EntityType e))]])],
       el ''div'' ''text-xs text-base-content/50 font-mono mt-1'' [Txt (se_ID e)]]
      @ (if se_Tags e \<noteq> [] then [el ''div'' ''flex gap-1 mt-1'' (ghost_badges (se_Tags e))] else []))]"

definition event_head :: "uilib \<Rightarrow> Event \<Rightarrow> html" where
  "event_head U evt = Comp ''card.Card'' [] [Comp ''card.Body'' []
     ([Comp ''card.Title'' [] [Txt (shortType (ev_EventType evt))],
       el ''div'' ''grid grid-cols-2 gap-2 text-sm''
         [labelled ''Event ID:'' (mono_text (ev_ID evt)), labelled ''Type:'' (mono_text (ev_EventType evt)),
          labelled ''Occurred:'' (Txt (ui_Format U ''2006-01-02 15:04:05'' (ev_OccurredAt evt))),
          labelled ''Payload Type:'' (mono_text (ev_PayloadType evt))]]
      @ (if ev_Tags evt \<noteq> [] then [el ''div'' ''flex gap-1 mt-2'' (ghost_badges (ev_Tags evt))] else []))]"

definition relation_cards :: "StoredEntity option \<Rightarrow> StoredEntity option \<Rightarrow> string \<Rightarrow> html list" where
  "relation_cards source target relationType = (case (source, target) of
     (Some src, Some tgt) \<Rightarrow> [el ''div'' ''flex items-center gap-2 px-2''
        [el ''div'' ''flex-1'' [inlineEntityCard src],
         el ''div'' ''flex flex-col items-center gap-1 shrink-0''
           [el ''span'' ''text-base-content/30'' [Lit arrow],
            Comp ''badge.Badge'' [(''Style'', ''StyleOutline'')] [Txt relationType],
            el ''span'' ''text-base-content/30'' [Lit arrow]],
         el ''div'' ''flex-1'' [inlineEntityCard tgt]]]
   | _ \<Rightarrow> [])"

definition entity_data :: "uilib \<Rightarrow> StoredEntity option \<Rightarrow> html list" where
  "entity_data U oe = (case oe of None \<Rightarrow> [] | Some e \<Rightarrow> [data_card (Txt (entityDataTitle e)) (prettyJSON U (se_Data e))])"

definition eventDetail :: "uilib \<Rightarrow> Event \<Rightarrow> string \<Rightarrow> StoredEntity option \<Rightarrow> StoredEntity option \<Rightarrow> StoredEntity option \<Rightarrow>
    string \<Rightarrow> html" where
  "eventDetail U evt prettyPayload entity source target relationType = el ''div'' ''space-y-4''
     ([event_head U evt] @ (case entity of None \<Rightarrow> [] | Some e \<Rightarrow> [inlineEntityCard e])
      @ relation_cards source target relationType
      @ [data_card (Lit ''Event Payload'') prettyPayload]
      @ entity_data U entity @ entity_data U source @ entity_data U target)"

section \<open>Pages\<close>

text \<open>The layout; \<open>templ.KV\<close> sets the class of the current page's link.\<close>

definition explorerLayout :: "uilib \<Rightarrow> string \<Rightarrow> string \<Rightarrow> html list \<Rightarrow> html" where
  "explorerLayout U title path children =
     Comp ''layouts.Base'' [(''Title'', title @ '' '' @ dash @ '' EntityStore Explorer''), (''CSRFToken'', ui_CSRFToken U),
         (''Theme'', ui_Theme U), (''Head'', ''showcase.Head'')]
       [el ''div'' ''flex min-h-screen''
         [el ''aside'' ''w-64 bg-base-200 p-4 shrink-0''
            [el ''h2'' ''font-bold text-lg mb-4'' [El ''a'' (Attr ''href'' ''/'' # cls ''hover:text-primary'') [Lit ''Explorer'']],
             el ''ul'' ''menu'' (map (\<lambda>(href, name). el0 ''li''
               [El ''a'' (Attr ''href'' href # cls (if path = href then ''active'' else [])) [Lit name]])
               [(''/'', ''Home''), (''/search'', ''Search''), (''/stats'', ''Stats''), (''/entities'', ''Entities''), (''/events'', ''Events'')])],
          el ''main'' ''flex-1 p-6 overflow-auto'' children]]"

definition SearchPage :: "uilib \<Rightarrow> html" where
  "SearchPage U = explorerLayout U ''Search'' ''/search''
     [el ''div'' ''space-y-6''
       [el0 ''div'' [el ''h2'' ''text-2xl font-bold'' [Lit ''Search Entities''],
          el ''p'' ''text-base-content/70 mt-1'' [Lit ''Search by anchor (email, domain, invoice number) or keywords.'']],
        El ''div'' [Signals ''{\"search\":{\"query\":\"\"}}'']
          [El ''input'' ([Attr ''type'' ''text'', Attr ''placeholder'' ''Search by email, domain, name...'']
             @ cls ''input input-bordered input-lg w-full''
             @ [Bind ''search'' ''query'', OnGet ''input__debounce.300ms'' ''/fragments/search'']) [],
           el ''div'' ''mt-4'' [El ''div'' [Attr ''id'' ''search-results'']
             [el ''p'' ''text-base-content/50'' [Lit ''Start typing to search.'']]]]]]"

definition explorer_statItem :: "string \<Rightarrow> string \<Rightarrow> string \<Rightarrow> html" where
  "explorer_statItem label value colorClass =
     Comp ''stat.Stat'' [] [Comp ''stat.Title'' [] [Txt label], Comp ''stat.Value'' [(''Class'', colorClass)] [Txt value]]"

definition count_card :: "string \<Rightarrow> (string \<times> nat) list \<Rightarrow> html list" where
  "count_card title counts = (if counts \<noteq> []
     then [Comp ''card.Card'' [] [Comp ''card.Body'' [] [Comp ''card.Title'' [] [Lit title], count_table counts]]] else [])"

definition StatsPage :: "uilib \<Rightarrow> StoreStats \<Rightarrow> html" where
  "StatsPage U stats = explorerLayout U ''Stats'' ''/stats''
     [el ''div'' ''space-y-6''
       ([el ''h2'' ''text-2xl font-bold'' [Lit ''Store Statistics''],
         Comp ''stat.Stats'' [(''Class'', ''w-full shadow'')]
           [explorer_statItem ''Entities'' (decimal (ss_TotalEntities stats)) ''text-primary'',
            explorer_statItem ''Relations'' (decimal (ss_TotalRelations stats)) ''text-secondary'',
            explorer_statItem ''Soft Deleted'' (decimal (ss_SoftDeleted stats)) ''text-warning'',
            explorer_statItem ''Entity Types'' (decimal (length (ss_EntityTypes stats))) ''text-accent'']]
        @ count_card ''Entity Types'' (ss_EntityTypes stats) @ count_card ''Relation Types'' (ss_RelationTypes stats))]"

definition page_card :: "uilib \<Rightarrow> StoredEntity \<Rightarrow> html option" where
  "page_card U e =
     (case (if se_DisplayName e \<noteq> [] then
              Some [el ''span'' ''font-semibold'' [Txt (se_DisplayName e)],
                    el ''span'' ''ml-2 text-xs text-base-content/50'' [Txt (se_EntityType e)]]
            else map_option (\<lambda>i. [el ''span'' ''font-mono text-xs text-base-content/50'' [Txt i, Lit ''...''],
                    el ''span'' ''ml-2 font-semibold'' [Txt (se_EntityType e)]]) (first8 (se_ID e))) of
        None \<Rightarrow> None
      | Some title \<Rightarrow> Some (El ''div''
          (cls ''card bg-base-200 cursor-pointer hover:bg-base-300 transition-colors'' @ [OnClickGet (entity_url (se_ID e))])
          [Comp ''card.Body'' []
            [el ''div'' ''flex items-center justify-between''
               [el0 ''div'' title, el ''div'' ''flex gap-1'' (ghost_badges (se_Tags e))],
             el ''div'' ''text-sm text-base-content/70 mt-1''
               [Txt (percent (se_Confidence e) @ '' confidence''), Lit middle_dot, Txt (ui_Format U ''2006-01-02 15:04'' (se_UpdatedAt e))]]]))"

definition EntitiesPage :: "uilib \<Rightarrow> StoredEntity list \<Rightarrow> html option" where
  "EntitiesPage U es = map_option (\<lambda>cards. explorerLayout U ''Entities'' ''/entities''
     [el ''div'' ''space-y-6''
       ([el ''h2'' ''text-2xl font-bold'' [Txt (''Entities ('' @ decimal (length es) @ '')'')]] @ cards
        @ (if es = [] then [el ''p'' ''text-base-content/50'' [Lit ''No entities in the store.'']] else []))])
     (those (map (page_card U) es))"

definition shortEventType :: "string \<Rightarrow> string" where
  "shortEventType eventType = (let parts = split_on CHR ''.'' eventType in
     if parts \<noteq> [] then last parts else eventType)"

definition eventsNextURL :: "uilib \<Rightarrow> time \<Rightarrow> string \<Rightarrow> string" where
  "eventsNextURL U cursor activeType =
     ''/events?cursor='' @ ui_Format U ''2006-01-02T15:04:05.000000Z'' cursor
     @ (if activeType \<noteq> [] then ''&type='' @ activeType else [])"

definition type_options :: "string list \<Rightarrow> string \<Rightarrow> html list" where
  "type_options eventTypes activeType = El ''option'' [Attr ''value'' []] [Lit ''All event types'']
     # map (\<lambda>et. if et = activeType
          then El ''option'' [Attr ''value'' et, Attr ''selected'' []] [Txt (shortEventType et)]
          else El ''option'' [Attr ''value'' et] [Txt (shortEventType et)]) eventTypes"

definition event_entity :: "Event \<Rightarrow> html list option" where
  "event_entity evt =
     (if ev_EntityID evt \<noteq> [] then map_option (\<lambda>i. [El ''div''
          (cls ''cursor-pointer hover:text-primary'' @ [OnClickGet (entity_url (ev_EntityID evt))])
          ((if ev_EntityDisplayName evt \<noteq> [] then [el ''span'' ''text-sm font-medium'' [Txt (ev_EntityDisplayName evt)]] else [])
           @ [el ''span'' ''text-xs font-mono text-base-content/40'' [Txt i, Lit ''...'']])]) (first8 (ev_EntityID evt))
      else if ev_RelationKey evt \<noteq> [] then Some [El ''span''
          (cls ''text-xs text-base-content/50 cursor-pointer hover:text-primary'' @ [OnClickGet (event_url (ev_ID evt))]) [Lit ''relation'']]
      else Some [])"

definition event_line :: "uilib \<Rightarrow> Event \<Rightarrow> html option" where
  "event_line U evt = map_option (\<lambda>entity. el0 ''tr''
     [el ''td'' ''text-xs whitespace-nowrap'' [Txt (ui_Format U ''2006-01-02 15:04:05'' (ev_OccurredAt evt))],
      el0 ''td'' [El ''span'' (cls ''cursor-pointer'' @ [OnClickGet (event_url (ev_ID evt))])
        [Comp ''badge.Badge'' [(''Style'', ''StyleOutline'')] [Txt (shortEventType (ev_EventType evt))]]],
      el0 ''td'' entity,
      el0 ''td'' [el ''div'' ''flex gap-1'' (ghost_badges (ev_Tags evt))]]) (event_entity evt)"

definition event_table :: "uilib \<Rightarrow> Event list \<Rightarrow> string \<Rightarrow> html list option" where
  "event_table U evts activeType =
     (if evts = [] then Some [el ''p'' ''text-base-content/50'' [Lit ''No events recorded yet.'']]
      else map_option (\<lambda>rows. [Comp ''table.Table'' [(''Class'', ''table-sm'')]
          [el0 ''thead'' [el0 ''tr'' (map (\<lambda>h. el0 ''th'' [Lit h]) [''Time'', ''Event'', ''Entity'', ''Tags''])],
           el0 ''tbody'' rows]]
        @ (if 50 \<le> length evts then [el ''div'' ''text-center'' [El ''a''
             (Attr ''href'' (eventsNextURL U (ev_OccurredAt (last evts)) activeType) # cls ''btn btn-outline btn-sm'')
             [Lit ''Load older events'']]] else [])) (those (map (event_line U) evts)))"

definition EventsPage :: "uilib \<Rightarrow> Event list \<Rightarrow> string list \<Rightarrow> string \<Rightarrow> html option" where
  "EventsPage U evts eventTypes activeType = map_option (\<lambda>tab. explorerLayout U ''Events'' ''/events''
     [el ''div'' ''space-y-6''
       (el ''div'' ''flex items-center justify-between''
          [el ''h2'' ''text-2xl font-bold'' [Txt (''Events ('' @ decimal (length evts) @ '')'')],
           El ''form'' ([Attr ''method'' ''get'', Attr ''action'' ''/events''] @ cls ''flex gap-2 items-center'')
             ([El ''select'' ([Attr ''name'' ''type''] @ cls ''select select-bordered select-sm''
                 @ [Attr ''onchange'' ''this.form.submit()'']) (type_options eventTypes activeType)]
              @ (if activeType \<noteq> [] then [El ''a'' (Attr ''href'' ''/events'' # cls ''btn btn-ghost btn-sm'') [Lit ''Clear'']] else []))]
        # tab)]) (event_table U evts activeType)"

end
