(* ===== verification/Scoped.thy ===== *)
theory Scoped
  imports Entity_Store Refinement
begin

text \<open>
  \<open>src/scoped.go\<close>: a store behind a tag-based scope. Lookups merge the scope into the caller's filter or
  test the result; creations receive the scope's tags; everything else is forwarded to the facade.
  Go's \<open>append\<close> may also write into spare capacity of the caller's slices, which no caller can see
  through its own slice; it is the concatenation of lists here.
\<close>

section \<open>Scope\<close>

record ScopeConfig =
  sc_RequireTags :: "string list"
  sc_ExcludeTag :: string
  sc_UnlessTags :: "string list"
  sc_AutoTags :: "string list"

record ScopedStore =
  ss_inner :: EntityStore
  ss_cfg :: ScopeConfig

definition Scoped :: "EntityStore \<Rightarrow> ScopeConfig \<Rightarrow> ScopedStore" where
  "Scoped es cfg = \<lparr>ss_inner = es, ss_cfg = cfg\<rparr>"

definition ScopedStore_WithTx :: "ScopedStore \<Rightarrow> ScopedStore" where
  "ScopedStore_WithTx s = \<lparr>ss_inner = EntityStore_WithTx (ss_inner s), ss_cfg = ss_cfg s\<rparr>"

definition mergeFilter :: "ScopedStore \<Rightarrow> QueryFilter option \<Rightarrow> QueryFilter" where
  "mergeFilter s filt =
     (let merged = (case filt of None \<Rightarrow> empty_QueryFilter | Some f \<Rightarrow> f);
          merged = merged\<lparr>qf_Tags := qf_Tags merged @ sc_RequireTags (ss_cfg s)\<rparr>
      in if sc_ExcludeTag (ss_cfg s) \<noteq> []
         then merged\<lparr>qf_ExcludeTag := sc_ExcludeTag (ss_cfg s), qf_UnlessTags := qf_UnlessTags merged @ sc_UnlessTags (ss_cfg s)\<rparr>
         else merged)"

definition entityVisible :: "ScopedStore \<Rightarrow> StoredEntity \<Rightarrow> bool" where
  "entityVisible s e \<longleftrightarrow>
     (if list_ex (\<lambda>req. req \<notin> set (se_Tags e)) (sc_RequireTags (ss_cfg s)) then False
      else if sc_ExcludeTag (ss_cfg s) \<noteq> [] \<and> sc_ExcludeTag (ss_cfg s) \<in> set (se_Tags e)
      then list_ex (\<lambda>u. u \<in> set (se_Tags e)) (sc_UnlessTags (ss_cfg s))
      else True)"

section \<open>Reads\<close>

definition check_visible :: "ScopedStore \<Rightarrow> StoredEntity \<Rightarrow> StoredEntity dbm" where
  "check_visible s ent = (if \<not> entityVisible s ent then dfail ErrAccessDenied else dret ent)"

definition ScopedStore_GetEntity :: "lib \<Rightarrow> ScopedStore \<Rightarrow> string \<Rightarrow> StoredEntity dbm" where
  "ScopedStore_GetEntity L s i = dbind (EntityStore_GetEntity L (ss_inner s) i) (check_visible s)"

definition ScopedStore_GetEntitiesByType :: "lib \<Rightarrow> ScopedStore \<Rightarrow> string \<Rightarrow> int \<Rightarrow> time option \<Rightarrow> QueryFilter option \<Rightarrow>
    StoredEntity list dbm" where
  "ScopedStore_GetEntitiesByType L s entityType pageSize cursor filt =
     EntityStore_GetEntitiesByType L (ss_inner s) entityType pageSize cursor (Some (mergeFilter s filt))"

definition ScopedStore_Search :: "lib \<Rightarrow> ScopedStore \<Rightarrow> string \<Rightarrow> int \<Rightarrow> QueryFilter option \<Rightarrow> StoredEntity list dbm" where
  "ScopedStore_Search L s query maxResults filt =
     EntityStore_Search L (ss_inner s) query maxResults (Some (mergeFilter s filt))"

definition ScopedStore_GetByAnchor :: "lib \<Rightarrow> ScopedStore \<Rightarrow> string \<Rightarrow> string \<Rightarrow> string \<Rightarrow> QueryFilter option \<Rightarrow>
    StoredEntity dbm" where
  "ScopedStore_GetByAnchor L s entityType field value filt =
     dbind (EntityStore_GetByAnchor L (ss_inner s) entityType field value (Some (mergeFilter s filt))) (check_visible s)"

definition ScopedStore_GetAnchorsForEntity :: "lib \<Rightarrow> ScopedStore \<Rightarrow> string \<Rightarrow> (string \<times> string) list dbm" where
  "ScopedStore_GetAnchorsForEntity L s entityID = EntityStore_GetAnchorsForEntity L (ss_inner s) entityID"

definition ScopedStore_FindByAnchors :: "lib \<Rightarrow> ScopedStore \<Rightarrow> string \<Rightarrow> AnchorQuery list \<Rightarrow> QueryFilter option \<Rightarrow>
    StoredEntity list dbm" where
  "ScopedStore_FindByAnchors L s entityType as filt =
     EntityStore_FindByAnchors L (ss_inner s) entityType as (Some (mergeFilter s filt))"

definition ScopedStore_FindByTokens :: "lib \<Rightarrow> ScopedStore \<Rightarrow> string \<Rightarrow> string list \<Rightarrow> int \<Rightarrow> QueryFilter option \<Rightarrow>
    StoredEntity list dbm" where
  "ScopedStore_FindByTokens L s entityType toks limit filt =
     EntityStore_FindByTokens L (ss_inner s) entityType toks limit (Some (mergeFilter s filt))"

definition ScopedStore_FindByEmbedding :: "lib \<Rightarrow> ScopedStore \<Rightarrow> string \<Rightarrow> vec \<Rightarrow> int \<Rightarrow> QueryFilter option \<Rightarrow>
    StoredEntity list dbm" where
  "ScopedStore_FindByEmbedding L s entityType v topK filt =
     EntityStore_FindByEmbedding L (ss_inner s) entityType v topK (Some (mergeFilter s filt))"

definition ScopedStore_FindConnectedByType :: "lib \<Rightarrow> ScopedStore \<Rightarrow> string \<Rightarrow> FindConnectedOpts option \<Rightarrow>
    StoredEntity list dbm" where
  "ScopedStore_FindConnectedByType L s entityID opts =
     (let p = (case opts of None \<Rightarrow> zero_FindConnectedOpts | Some q \<Rightarrow> q);
          merged = p\<lparr>fc_Filter := Some (mergeFilter s (fc_Filter p))\<rparr>
      in EntityStore_FindConnectedByType L (ss_inner s) entityID (Some merged))"

definition ScopedStore_FindEntitiesByRelation :: "lib \<Rightarrow> ScopedStore \<Rightarrow> string \<Rightarrow> string \<Rightarrow> QueryFilter option \<Rightarrow>
    StoredEntity list dbm" where
  "ScopedStore_FindEntitiesByRelation L s entityType relationType filt =
     EntityStore_FindEntitiesByRelation L (ss_inner s) entityType relationType (Some (mergeFilter s filt))"

definition ScopedStore_Traverse :: "lib \<Rightarrow> ScopedStore \<Rightarrow> string \<Rightarrow> TraverseOpts option \<Rightarrow> TraverseResult list dbm" where
  "ScopedStore_Traverse L s entityID opts =
     (let p = (case opts of None \<Rightarrow> zero_TraverseOpts | Some q \<Rightarrow> q)
      in EntityStore_Traverse L (ss_inner s) entityID (Some (p\<lparr>to_Filter := Some (mergeFilter s (to_Filter p))\<rparr>)))"

definition ScopedStore_ConnectedEntities :: "lib \<Rightarrow> ScopedStore \<Rightarrow> string \<Rightarrow> StoredEntity list dbm" where
  "ScopedStore_ConnectedEntities L s entityID =
     dmap (filter (entityVisible s)) (EntityStore_ConnectedEntities L (ss_inner s) entityID)"

definition ScopedStore_GetRelationsFromEntity :: "lib \<Rightarrow> ScopedStore \<Rightarrow> string \<Rightarrow> int \<Rightarrow> time option \<Rightarrow>
    StoredRelation list dbm" where
  "ScopedStore_GetRelationsFromEntity L s entityID pageSize cursor =
     EntityStore_GetRelationsFromEntity L (ss_inner s) entityID pageSize cursor"

definition ScopedStore_GetRelationsToEntity :: "lib \<Rightarrow> ScopedStore \<Rightarrow> string \<Rightarrow> int \<Rightarrow> time option \<Rightarrow>
    StoredRelation list dbm" where
  "ScopedStore_GetRelationsToEntity L s entityID pageSize cursor =
     EntityStore_GetRelationsToEntity L (ss_inner s) entityID pageSize cursor"

definition ScopedStore_GetEventByID :: "lib \<Rightarrow> ScopedStore \<Rightarrow> string \<Rightarrow> Event dbm" where
  "ScopedStore_GetEventByID L s eventID = EntityStore_GetEventByID L (ss_inner s) eventID"

definition ScopedStore_GetEventsForEntity :: "lib \<Rightarrow> ScopedStore \<Rightarrow> string \<Rightarrow> EventQueryOpts option \<Rightarrow> Event list dbm" where
  "ScopedStore_GetEventsForEntity L s entityID opts =
     dbind (EntityStore_GetEntity L (ss_inner s) entityID) (\<lambda>ent.
     dbind (check_visible s ent) (\<lambda>_.
     EntityStore_GetEventsForEntity L (ss_inner s) entityID opts))"

definition ScopedStore_GetAllEvents :: "lib \<Rightarrow> ScopedStore \<Rightarrow> EventQueryOpts option \<Rightarrow> time option \<Rightarrow> Event list dbm" where
  "ScopedStore_GetAllEvents L s opts cursor = EntityStore_GetAllEvents L (ss_inner s) opts cursor"

definition ScopedStore_Stats :: "ScopedStore \<Rightarrow> StoreStats dbm" where
  "ScopedStore_Stats s = EntityStore_Stats (ss_inner s)"

definition ScopedStore_CountEntitiesByType :: "ScopedStore \<Rightarrow> string \<Rightarrow> nat dbm" where
  "ScopedStore_CountEntitiesByType s entityType = EntityStore_CountEntitiesByType (ss_inner s) entityType"

definition ScopedStore_CountRelationsForEntity :: "lib \<Rightarrow> ScopedStore \<Rightarrow> string \<Rightarrow> nat dbm" where
  "ScopedStore_CountRelationsForEntity L s entityID = EntityStore_CountRelationsForEntity L (ss_inner s) entityID"

section \<open>Writes\<close>

definition auto_tag :: "ScopedStore \<Rightarrow> BatchWriteOp \<Rightarrow> BatchWriteOp" where
  "auto_tag s b = (case bo_WriteEntity b of
     None \<Rightarrow> b
   | Some we \<Rightarrow> if wo_Action we = WriteActionCreate
       then b\<lparr>bo_WriteEntity := Some (we\<lparr>wo_Tags := wo_Tags we @ sc_AutoTags (ss_cfg s)\<rparr>)\<rparr> else b)"

definition ScopedStore_BatchWrite :: "lib \<Rightarrow> ScopedStore \<Rightarrow> BatchWriteOp list \<Rightarrow> BatchWriteResult list dbm" where
  "ScopedStore_BatchWrite L s ops =
     (if sc_AutoTags (ss_cfg s) = [] then EntityStore_BatchWrite L (ss_inner s) ops
      else EntityStore_BatchWrite L (ss_inner s) (map (auto_tag s) ops))"

definition ScopedStore_DeleteEntity :: "lib \<Rightarrow> ScopedStore \<Rightarrow> string \<Rightarrow> unit dbm" where
  "ScopedStore_DeleteEntity L s i = EntityStore_DeleteEntity L (ss_inner s) i"

definition ScopedStore_HardDeleteEntity :: "lib \<Rightarrow> ScopedStore \<Rightarrow> string \<Rightarrow> unit dbm" where
  "ScopedStore_HardDeleteEntity L s i = EntityStore_HardDeleteEntity L (ss_inner s) i"

definition ScopedStore_DeleteRelationByKey :: "lib \<Rightarrow> ScopedStore \<Rightarrow> string \<Rightarrow> string \<Rightarrow> string \<Rightarrow> unit dbm" where
  "ScopedStore_DeleteRelationByKey L s sourceID targetID relationType =
     EntityStore_DeleteRelationByKey L (ss_inner s) sourceID targetID relationType"

definition ScopedStore_UpdateRelationData :: "lib \<Rightarrow> ScopedStore \<Rightarrow> string \<Rightarrow> string \<Rightarrow> string \<Rightarrow> proto_msg option \<Rightarrow>
    StoredRelation dbm" where
  "ScopedStore_UpdateRelationData L s sourceID targetID relationType data =
     EntityStore_UpdateRelationData L (ss_inner s) sourceID targetID relationType data"

definition ScopedStore_SetTags :: "lib \<Rightarrow> ScopedStore \<Rightarrow> string \<Rightarrow> string list option \<Rightarrow> unit dbm" where
  "ScopedStore_SetTags L s entityID tags = EntityStore_SetTags L (ss_inner s) entityID tags"

definition ScopedStore_AddTags :: "lib \<Rightarrow> ScopedStore \<Rightarrow> string \<Rightarrow> string list \<Rightarrow> unit dbm" where
  "ScopedStore_AddTags L s entityID tags = EntityStore_AddTags L (ss_inner s) entityID tags"

definition ScopedStore_RemoveTag :: "lib \<Rightarrow> ScopedStore \<Rightarrow> string \<Rightarrow> string \<Rightarrow> unit dbm" where
  "ScopedStore_RemoveTag L s entityID tag = EntityStore_RemoveTag L (ss_inner s) entityID tag"

definition ScopedStore_UpdateEmbedding :: "lib \<Rightarrow> ScopedStore \<Rightarrow> string \<Rightarrow> vec \<Rightarrow> unit dbm" where
  "ScopedStore_UpdateEmbedding L s entityID v = EntityStore_UpdateEmbedding L (ss_inner s) entityID v"

definition ScopedStore_Tx :: "ScopedStore \<Rightarrow> unit dbm" where
  "ScopedStore_Tx s = EntityStore_Tx (ss_inner s)"

section \<open>Filters\<close>

lemmas filter_params = tagsParam_def anyTagsParam_def excludeTagParam_def unlessTagsParam_def entityTypesParam_def

lemma entityVisible_row:
  "entityVisible s (entityFromRow L e) \<longleftrightarrow> (\<forall>r\<in>set (sc_RequireTags (ss_cfg s)). r \<in> set (e_tags e))
     \<and> (sc_ExcludeTag (ss_cfg s) = [] \<or> sc_ExcludeTag (ss_cfg s) \<notin> set (e_tags e) \<or> overlaps (sc_UnlessTags (ss_cfg s)) (e_tags e))"
  by (auto simp: entityVisible_def entityFromRow_def overlaps_def list_ex_iff)

text \<open>The two ways of enforcing a scope agree: a row passes the merged filter exactly when it passes the
  caller's filter and the scope test that is applied to single entities, provided that not both the
  scope and the caller's filter exclude tags.\<close>

theorem mergeFilter_enforces_scope:
  assumes "sc_ExcludeTag (ss_cfg s) = [] \<or> excludeTagParam filt = [] \<and> unlessTagsParam filt = []"
  shows "passes (Some (mergeFilter s filt)) e \<longleftrightarrow> passes filt e \<and> entityVisible s (entityFromRow L e)"
  using assms
  by (cases filt) (auto simp: passes_def tag_filter_def filter_params mergeFilter_def empty_QueryFilter_def entityVisible_row
      list_all_iff Let_def)

lemma mergeFilter_scope:
  assumes "unlessTagsParam filt = []" "passes (Some (mergeFilter s filt)) e"
  shows "entityVisible s (entityFromRow L e)"
  using assms
  by (cases filt) (auto simp: passes_def tag_filter_def filter_params mergeFilter_def empty_QueryFilter_def entityVisible_row
      list_all_iff Let_def split: if_splits)

lemma visible_in_scope:
  assumes "unlessTagsParam filt = []" "list_all (visible L t (Some (mergeFilter s filt))) es"
  shows "list_all (entityVisible s) es"
  using assms(2) mergeFilter_scope [OF assms(1)] by (auto simp: list_all_iff visible_def)

section \<open>Lookups stay in scope\<close>

lemma check_visible_Inr [simp]: "check_visible sc ent s = (s', Inr x) \<longleftrightarrow> s' = s \<and> x = ent \<and> entityVisible sc ent"
  by (auto simp: check_visible_def dret_def dfail_def)

lemma FindByAnchors_visible:
  "FindByAnchors L ty as filt s = (s', Inr es) \<Longrightarrow> schema (tabs s) \<Longrightarrow> list_all (visible L (tabs s) filt) es"
  using FindByAnchors_set by (fastforce simp: list_all_iff visible_def)

lemma FindEntitiesByRelation_visible:
  assumes "FindEntitiesByRelation L ty rt filt s = (s', Inr es)"
  shows "list_all (visible L (tabs s) filt) es"
proof -
  let ?ok = "{e \<in> set (entities (tabs s)). live e \<and> passes filt e}"
  obtain s1 srcs tgts where
    q1: "q_FindEntitiesByRelationSource ty rt (tagsParam filt) (anyTagsParam filt)
      (excludeTagParam filt) (unlessTagsParam filt) 1000 s = (s1, Inr srcs)"
    and q2: "q_FindEntitiesByRelationTarget ty rt (tagsParam filt) (anyTagsParam filt)
      (excludeTagParam filt) (unlessTagsParam filt) 1000 s1 = (s', Inr tgts)"
    and es: "es = map (entityFromRow L) (dedup_by e_id (srcs @ tgts))"
    using assms by (auto simp: FindEntitiesByRelation_def dbind_Inr_iff)
  have t: "tabs s1 = tabs s" and o: "set srcs \<subseteq> ?ok"
    using select_limit_Inr [OF q1 [unfolded q_FindEntitiesByRelationSource_def]] join_end_sub
    by (auto simp: passes_def next_tick_def dest!: in_set_takeD dedup_memD) blast+
  have "set tgts \<subseteq> ?ok"
    using select_limit_Inr [OF q2 [unfolded q_FindEntitiesByRelationTarget_def]] join_end_sub
    by (auto simp: passes_def next_tick_def t dest!: in_set_takeD dedup_memD) blast+
  with o have "set (dedup_by e_id (srcs @ tgts)) \<subseteq> ?ok" using set_dedup_subset [of e_id "{}" "srcs @ tgts"] by auto
  then show ?thesis by (auto simp: es list_all_iff visible_def)
qed

lemma Traverse_visible:
  assumes "Traverse L i (Some p) s = (s', Inr xs)"
  shows "list_all (visible L (tabs s) (to_Filter p)) (map tr_Entity xs)"
proof -
  obtain u where xs: "xs = map (\<lambda>w. \<lparr>tr_Entity = entityFromRow L (w_entity w), tr_Depth = w_depth w, tr_Path = map (edge_of L) (w_path w)\<rparr>)
    (dedup_by (\<lambda>w. e_id (w_entity w)) (take (nat (to_MaxResults (defaults p))) (traverse_rows (defaults p) (tabs s) u)))"
    using Traverse_Inr [OF assms] by auto
  have f: "to_Filter (defaults p) = to_Filter p" by (simp add: defaults_def Let_def)
  have "visible L (tabs s) (to_Filter p) (entityFromRow L (w_entity w))"
    if "w \<in> set (dedup_by (\<lambda>w. e_id (w_entity w)) (take (nat (to_MaxResults (defaults p))) (traverse_rows (defaults p) (tabs s) u)))" for w
  proof -
    have "w \<in> set (traverse_rows (defaults p) (tabs s) u)" using dedup_memD [OF that] in_set_takeD by fast
    then have "row_walk (defaults p) (tabs s) u w" "0 < w_depth w" using traverse_rows_walk by blast+
    then show ?thesis by (auto simp: row_walk_def admits_def visible_def passes_def f)
  qed
  then show ?thesis by (simp add: xs list_all_iff)
qed

text \<open>\<open>Traverse\<close> and the search, which read the filter in their own way.\<close>

lemma Search_tagged:
  assumes "Search L query n filt s = (s', Inr es)"
  shows "list_all (\<lambda>x. set (tagsParam filt) \<subseteq> set (se_Tags x)) es"
proof (cases "query = []")
  case True
  then show ?thesis using assms by (simp add: Search_def)
next
  case False
  let ?n = "if n \<le> 0 then 20 else n"
  obtain s1 rows where q: "q_SearchByDisplayName L query (tagsParam filt) (int32 ?n) s = (s1, Inr rows)"
    and k: "(if rows \<noteq> [] then dret (map (entityFromRow L) rows)
      else if Tokenize (ucd (lib_go L)) query = [] then dret []
      else FindByTokens L [] (Tokenize (ucd (lib_go L)) query) ?n filt) s1 = (s', Inr es)"
    using assms False unfolding Search_def Let_def by (auto simp: dbind_Inr_iff)
  have "\<forall>e\<in>set rows. set (tagsParam filt) \<subseteq> set (e_tags e)"
    using select_limit_Inr [OF q [unfolded q_SearchByDisplayName_def]] by (auto simp: list_all_iff dest!: in_set_takeD)
  moreover have "list_all (\<lambda>x. set (tagsParam filt) \<subseteq> set (se_Tags x)) es"
    if "FindByTokens L [] (Tokenize (ucd (lib_go L)) query) ?n filt s1 = (s', Inr es)"
    using FindByTokens_visible [OF that]
    by (auto simp: list_all_iff visible_def passes_def tag_filter_def entityFromRow_def)
  ultimately show ?thesis using k by (auto simp: list_all_iff entityFromRow_def split: if_splits)
qed

lemma zero_options_unfiltered: "unlessTagsParam (fc_Filter zero_FindConnectedOpts) = []" "unlessTagsParam (to_Filter zero_TraverseOpts) = []"
  by (simp_all add: zero_FindConnectedOpts_def zero_TraverseOpts_def unlessTagsParam_def)

lemma connected_in_scope:
  assumes "ScopedStore_FindConnectedByType L sc i fopts s = (s', Inr es)" "\<forall>q. fopts = Some q \<longrightarrow> unlessTagsParam (fc_Filter q) = []"
  shows "list_all (entityVisible sc) es"
proof -
  let ?p = "case fopts of None \<Rightarrow> zero_FindConnectedOpts | Some q \<Rightarrow> q"
  have u: "unlessTagsParam (fc_Filter ?p) = []" using assms(2) zero_options_unfiltered by (cases fopts) simp_all
  show ?thesis
    using assms(1) unfolding ScopedStore_FindConnectedByType_def EntityStore_FindConnectedByType_def Let_def
    by (intro visible_in_scope [OF u, of L "tabs s"]) (auto dest!: FindConnectedByType_visible)
qed

lemma traversed_in_scope:
  assumes "ScopedStore_Traverse L sc i topts s = (s', Inr xs)" "\<forall>q. topts = Some q \<longrightarrow> unlessTagsParam (to_Filter q) = []"
  shows "list_all (entityVisible sc) (map tr_Entity xs)"
proof -
  let ?p = "case topts of None \<Rightarrow> zero_TraverseOpts | Some q \<Rightarrow> q"
  have u: "unlessTagsParam (to_Filter ?p) = []" using assms(2) zero_options_unfiltered by (cases topts) simp_all
  have "Traverse L i (Some (?p\<lparr>to_Filter := Some (mergeFilter sc (to_Filter ?p))\<rparr>)) s = (s', Inr xs)"
    using assms(1) by (simp add: ScopedStore_Traverse_def EntityStore_Traverse_def Let_def)
  from Traverse_visible [OF this] show ?thesis by (intro visible_in_scope [OF u, of L "tabs s"]) simp
qed

lemma mergeFilter_tags: "set (sc_RequireTags (ss_cfg sc)) \<subseteq> set (tagsParam (Some (mergeFilter sc filt)))"
  by (simp add: mergeFilter_def tagsParam_def Let_def)

lemma ScopedStore_Search_tagged:
  assumes "ScopedStore_Search L sc query n filt s = (s', Inr es)"
  shows "list_all (\<lambda>x. set (sc_RequireTags (ss_cfg sc)) \<subseteq> set (se_Tags x)) es"
  using Search_tagged [OF assms [unfolded ScopedStore_Search_def EntityStore_Search_def]] mergeFilter_tags [of sc filt]
  by (auto simp: list_all_iff)

text \<open>C16. What a scoped store shows. In scope are always: the entities returned by \<open>GetEntity\<close>, \<open>GetByAnchor\<close> and
  \<open>ConnectedEntities\<close>, and the entity whose events \<open>GetEventsForEntity\<close> returns. In scope, provided that the caller's filter names
  no \<open>UnlessTags\<close> (or there is no filter, or there are no options), are all results of \<open>FindByAnchors\<close>, \<open>FindByTokens\<close>, \<open>FindByEmbedding\<close>,
  \<open>GetEntitiesByType\<close>, \<open>FindEntitiesByRelation\<close>, \<open>FindConnectedByType\<close> and \<open>Traverse\<close>. \<open>Search\<close> is weaker: its results carry the
  required tags, but may carry the excluded one (see below), so that they are sure to be in scope only if
  the scope excludes no tag. (Anchors, relations, single events, the event log and the statistics are forwarded without a scope.)\<close>

theorem scoped_reads_in_scope:
  assumes "unlessTagsParam filt = []" "schema (tabs s)"
  shows "(ScopedStore_GetEntity L sc i s = (s', Inr x) \<longrightarrow> entityVisible sc x)
    \<and> (ScopedStore_GetByAnchor L sc ty field value filt' s = (s', Inr x) \<longrightarrow> entityVisible sc x)
    \<and> (ScopedStore_ConnectedEntities L sc i s = (s', Inr es) \<longrightarrow> list_all (entityVisible sc) es)
    \<and> (ScopedStore_FindByAnchors L sc ty as filt s = (s', Inr es) \<longrightarrow> list_all (entityVisible sc) es)
    \<and> (ScopedStore_FindByTokens L sc ty toks n filt s = (s', Inr es) \<longrightarrow> list_all (entityVisible sc) es)
    \<and> (ScopedStore_FindByEmbedding L sc ty v n filt s = (s', Inr es) \<longrightarrow> list_all (entityVisible sc) es)
    \<and> (ScopedStore_GetEntitiesByType L sc ty pg cursor filt s = (s', Inr es) \<longrightarrow> list_all (entityVisible sc) es)
    \<and> (ScopedStore_FindEntitiesByRelation L sc ty rt filt s = (s', Inr es) \<longrightarrow> list_all (entityVisible sc) es)
    \<and> (ScopedStore_FindConnectedByType L sc i fopts s = (s', Inr es) \<longrightarrow> (\<forall>q. fopts = Some q \<longrightarrow> unlessTagsParam (fc_Filter q) = [])
         \<longrightarrow> list_all (entityVisible sc) es)
    \<and> (ScopedStore_Traverse L sc i topts s = (s', Inr xs) \<longrightarrow> (\<forall>q. topts = Some q \<longrightarrow> unlessTagsParam (to_Filter q) = [])
         \<longrightarrow> list_all (entityVisible sc) (map tr_Entity xs))
    \<and> (ScopedStore_Search L sc query n filt' s = (s', Inr es) \<longrightarrow>
         list_all (\<lambda>x. set (sc_RequireTags (ss_cfg sc)) \<subseteq> set (se_Tags x)) es
         \<and> (sc_ExcludeTag (ss_cfg sc) = [] \<longrightarrow> list_all (entityVisible sc) es))
    \<and> (ScopedStore_GetEventsForEntity L sc i opts s = (s', Inr evs) \<longrightarrow> (\<exists>s1 x. GetEntity L i s = (s1, Inr x) \<and> entityVisible sc x))"
proof -
  note scope = visible_in_scope [OF assms(1)]
  show ?thesis
  proof (intro conjI impI)
    show "ScopedStore_FindByAnchors L sc ty as filt s = (s', Inr es) \<Longrightarrow> list_all (entityVisible sc) es"
      unfolding ScopedStore_FindByAnchors_def EntityStore_FindByAnchors_def by (rule scope [OF FindByAnchors_visible [OF _ assms(2)]])
    show "ScopedStore_FindByTokens L sc ty toks n filt s = (s', Inr es) \<Longrightarrow> list_all (entityVisible sc) es"
      unfolding ScopedStore_FindByTokens_def EntityStore_FindByTokens_def by (rule scope [OF FindByTokens_visible])
    show "ScopedStore_FindByEmbedding L sc ty v n filt s = (s', Inr es) \<Longrightarrow> list_all (entityVisible sc) es"
      unfolding ScopedStore_FindByEmbedding_def EntityStore_FindByEmbedding_def by (rule scope [OF FindByEmbedding_visible])
    show "ScopedStore_GetEntitiesByType L sc ty pg cursor filt s = (s', Inr es) \<Longrightarrow> list_all (entityVisible sc) es"
      unfolding ScopedStore_GetEntitiesByType_def EntityStore_GetEntitiesByType_def
      by (rule scope [OF GetEntitiesByTypeFiltered_visible])
    show "ScopedStore_FindEntitiesByRelation L sc ty rt filt s = (s', Inr es) \<Longrightarrow> list_all (entityVisible sc) es"
      unfolding ScopedStore_FindEntitiesByRelation_def EntityStore_FindEntitiesByRelation_def
      by (rule scope [OF FindEntitiesByRelation_visible])
    show "list_all (entityVisible sc) es"
      if "ScopedStore_FindConnectedByType L sc i fopts s = (s', Inr es)" "\<forall>q. fopts = Some q \<longrightarrow> unlessTagsParam (fc_Filter q) = []"
      by (rule connected_in_scope [OF that])
    show "list_all (entityVisible sc) (map tr_Entity xs)"
      if "ScopedStore_Traverse L sc i topts s = (s', Inr xs)" "\<forall>q. topts = Some q \<longrightarrow> unlessTagsParam (to_Filter q) = []"
      by (rule traversed_in_scope [OF that])
    show t: "list_all (\<lambda>x. set (sc_RequireTags (ss_cfg sc)) \<subseteq> set (se_Tags x)) es"
      if "ScopedStore_Search L sc query n filt' s = (s', Inr es)"
      by (rule ScopedStore_Search_tagged [OF that])
    show "list_all (entityVisible sc) es"
      if "ScopedStore_Search L sc query n filt' s = (s', Inr es)" "sc_ExcludeTag (ss_cfg sc) = []"
      using t [OF that(1)] that(2) by (auto simp: list_all_iff list_ex_iff entityVisible_def)
  qed (auto simp: ScopedStore_GetEntity_def ScopedStore_GetByAnchor_def ScopedStore_ConnectedEntities_def
      ScopedStore_GetEventsForEntity_def EntityStore_GetEntity_def dbind_Inr_iff dmap_Inr_iff list_all_iff)
qed

section \<open>The scoped store keeps the contract\<close>

lemma ScopedStore_GetEntity_quiet: "ScopedStore_GetEntity L sc i s = (s', r) \<Longrightarrow> tx s = None \<Longrightarrow> tx s' = None"
  by (auto simp: ScopedStore_GetEntity_def EntityStore_GetEntity_def dbind_def check_visible_def dret_def dfail_def
      split: prod.splits sum.splits if_splits dest: GetEntity_quiet)

interpretation scoped: entity_storer L "st_external (es_store (ss_inner sc))" "entityVisible sc" "ScopedStore_GetEntity L sc"
  "ScopedStore_BatchWrite L sc" "ScopedStore_DeleteEntity L sc" for L sc
proof
  show "ScopedStore_GetEntity L sc i s = (s', Inr x) \<Longrightarrow> entityVisible sc x \<and> tabs s' = tabs s
    \<and> (\<exists>u e. uuid_Parse L i = Some u \<and> e \<in> set (entities (tabs s)) \<and> e_id e = u \<and> live e \<and> x = entityFromRow L e)" for i s s' x
    using plain.get_row by (auto simp: ScopedStore_GetEntity_def dbind_Inr_iff)
  show "ScopedStore_BatchWrite L sc ops s = (s', rb) \<Longrightarrow> st_external (es_store (ss_inner sc)) = (tx s \<noteq> None) \<Longrightarrow> api_step L False s s'"
    for ops s s' rb
    unfolding ScopedStore_BatchWrite_def by (auto split: if_splits intro: plain.batch_step)
  show "ScopedStore_DeleteEntity L sc i s = (s', rd) \<Longrightarrow> st_external (es_store (ss_inner sc)) = (tx s \<noteq> None) \<Longrightarrow> api_step L False s s'"
    for i s s' rd
    unfolding ScopedStore_DeleteEntity_def by (rule plain.delete_step)
qed (erule ScopedStore_GetEntity_quiet, assumption, unfold ScopedStore_DeleteEntity_def, rule plain.delete_dead)

text \<open>C39. Reads through a scope are monotonic: when a client reads an entity twice, with any operations of any
  stores and consumers short of a hard delete in between, it finds the same entity of the same type and
  the second version is not older than the first.\<close>

theorem scoped_monotonic_reads:
  assumes "ScopedStore_GetEntity L sc i s = (s1, Inr x)" "tx s = None" "schema (tabs s)" "api_steps L False s1 s2"
    and "ScopedStore_GetEntity L sc i s2 = (s3, Inr y)"
  shows "se_ID y = se_ID x \<and> se_EntityType y = se_EntityType x \<and> se_CreatedAt y = se_CreatedAt x \<and> se_Version x \<le> se_Version y"
  by (rule scoped.monotonic_reads [OF assms])

section \<open>Creations are tagged\<close>

lemma executeBatchOps_nth:
  "executeBatchOps L i ops s = (s', Inr rs) \<Longrightarrow> k < length ops \<Longrightarrow> tx s = Some T \<Longrightarrow>
    \<exists>sa sb T'. batch_op L (i + k) (ops ! k) sa = (sb, Inr (rs ! k)) \<and> tx sa = Some T'"
proof (induction ops arbitrary: i s T rs k)
  case (Cons c ops)
  obtain s1 where 1: "evaluatePreConditions L i (bo_PreConditions c) s = (s1, Inr ())"
    using Cons.prems(1) by (auto simp: dbind_Inr_iff)
  obtain s2 x rs' where 2: "batch_op L i c s1 = (s2, Inr x)" and 3: "executeBatchOps L (Suc i) ops s2 = (s', Inr rs')" "rs = x # rs'"
    using Cons.prems(1) 1 by (auto simp: dbind_Inr_iff)
  obtain T1 where T1: "tx s1 = Some T1" using steadyD [OF steady_evaluatePreConditions Cons.prems(3) 1] by blast
  obtain T2 where T2: "tx s2 = Some T2" using steadyD [OF steady_batch_op T1 2] by blast
  show ?case
  proof (cases k)
    case 0
    then show ?thesis using 2 T1 3(2) by auto
  next
    case (Suc j)
    then show ?thesis using Cons.IH [OF 3(1) _ T2, of j] Cons.prems(2) 3(2) by simp
  qed
qed simp

lemma BatchWrite_created:
  assumes "BatchWrite L st ops s = (s', Inr rs)" "\<not> st_external st" "tx s = None"
    and "k < length ops" "bo_WriteEntity (ops ! k) = Some we" "wo_Action we = WriteActionCreate"
  shows "\<exists>ent. br_Entity (rs ! k) = Some ent \<and> se_Tags ent = wo_Tags we \<and> se_Version ent = 0"
proof -
  have "in_tx False (Wrap ''tx commit'') (executeBatchOps L 0 ops) s = (s', Inr rs)"
    using assms(1,2) by (auto simp: BatchWrite_def dbind_Inr_iff split: if_splits)
  then obtain s2 where s2: "executeBatchOps L 0 ops (started s) = (s2, Inr rs)"
    by (cases rule: in_tx_cases [OF _ steady_executeBatchOps assms(3)]) auto
  obtain sa sb T where b: "batch_op L k (ops ! k) sa = (sb, Inr (rs ! k))" and T: "tx sa = Some T"
    using executeBatchOps_nth [OF s2 assms(4)] by (auto simp: started_def)
  obtain ent where ent: "applyCreate L we sa = (sb, Inr ent)" "br_Entity (rs ! k) = Some ent"
    using b assms(5,6) by (auto simp: batch_op_def applyEntityWrite_def dbind_Inr_iff)
  from applyCreate_effect [OF ent(1) T] obtain e where "ent = entityFromRow L e" "e_tags e = wo_Tags we" "e_version e = 0" by metis
  then show ?thesis using ent(2) by (simp add: entityFromRow_def)
qed

text \<open>C38. A scope tags what it creates: in a successful scoped batch every created entity is returned with the
  caller's tags followed by the scope's \<open>AutoTags\<close>; when these include the required tags and not the
  excluded one, the scope can see its own creation.\<close>

theorem scoped_creates_are_tagged:
  assumes "ScopedStore_BatchWrite L sc ops s = (s', Inr rs)" "\<not> st_external (es_store (ss_inner sc))" "tx s = None"
    and "k < length ops" "bo_WriteEntity (ops ! k) = Some we" "wo_Action we = WriteActionCreate"
  shows "\<exists>ent. br_Entity (rs ! k) = Some ent \<and> se_Tags ent = wo_Tags we @ sc_AutoTags (ss_cfg sc) \<and> se_Version ent = 0
    \<and> (set (sc_RequireTags (ss_cfg sc)) \<subseteq> set (se_Tags ent) \<longrightarrow> sc_ExcludeTag (ss_cfg sc) \<notin> set (se_Tags ent) \<longrightarrow> entityVisible sc ent)"
proof -
  define ops' where "ops' = (if sc_AutoTags (ss_cfg sc) = [] then ops else map (auto_tag sc) ops)"
  have r: "BatchWrite L (es_store (ss_inner sc)) ops' s = (s', Inr rs)"
    using assms(1) by (simp add: ScopedStore_BatchWrite_def EntityStore_BatchWrite_def ops'_def split: if_splits)
  have w: "k < length ops'" "bo_WriteEntity (ops' ! k) = Some (we\<lparr>wo_Tags := wo_Tags we @ sc_AutoTags (ss_cfg sc)\<rparr>)"
    using assms(4-6) by (simp_all add: ops'_def auto_tag_def)
  obtain ent where "br_Entity (rs ! k) = Some ent" "se_Tags ent = wo_Tags we @ sc_AutoTags (ss_cfg sc)" "se_Version ent = 0"
    using BatchWrite_created [OF r assms(2,3) w] assms(6) by auto
  then show ?thesis by (auto simp: entityVisible_def list_ex_iff)
qed

section \<open>An empty scope\<close>

lemma mergeFilter_empty:
  assumes "sc_RequireTags (ss_cfg sc) = []" "sc_ExcludeTag (ss_cfg sc) = []"
  shows "tagsParam (Some (mergeFilter sc filt)) = tagsParam filt" "anyTagsParam (Some (mergeFilter sc filt)) = anyTagsParam filt"
    "excludeTagParam (Some (mergeFilter sc filt)) = excludeTagParam filt"
    "unlessTagsParam (Some (mergeFilter sc filt)) = unlessTagsParam filt"
    "entityTypesParam ty (Some (mergeFilter sc filt)) = entityTypesParam ty filt"
  using assms by (cases filt; simp add: mergeFilter_def filter_params empty_QueryFilter_def)+

lemma check_visible_empty:
  "sc_RequireTags (ss_cfg sc) = [] \<Longrightarrow> sc_ExcludeTag (ss_cfg sc) = [] \<Longrightarrow> entityVisible sc = (\<lambda>_. True)"
  by (rule ext) (simp add: entityVisible_def)

lemma dbind_ret: "dbind m (\<lambda>x. dret x) = m"
  by (rule ext) (auto simp: dbind_def dret_def split: prod.split sum.split)

text \<open>A scope that requires, excludes and adds nothing is transparent: every filtered lookup and every
  batch of the scoped store is the one of the store behind it.\<close>

theorem empty_scope_transparent:
  assumes "sc_RequireTags (ss_cfg sc) = []" "sc_ExcludeTag (ss_cfg sc) = []" "sc_AutoTags (ss_cfg sc) = []"
  shows "ScopedStore_GetEntity L sc i = EntityStore_GetEntity L (ss_inner sc) i
    \<and> ScopedStore_GetByAnchor L sc ty field value filt = EntityStore_GetByAnchor L (ss_inner sc) ty field value filt
    \<and> ScopedStore_Search L sc query n filt = EntityStore_Search L (ss_inner sc) query n filt
    \<and> ScopedStore_GetEntitiesByType L sc ty pg cursor filt = EntityStore_GetEntitiesByType L (ss_inner sc) ty pg cursor filt
    \<and> ScopedStore_FindByAnchors L sc ty as filt = EntityStore_FindByAnchors L (ss_inner sc) ty as filt
    \<and> ScopedStore_FindByTokens L sc ty toks n filt = EntityStore_FindByTokens L (ss_inner sc) ty toks n filt
    \<and> ScopedStore_FindByEmbedding L sc ty v n filt = EntityStore_FindByEmbedding L (ss_inner sc) ty v n filt
    \<and> ScopedStore_FindEntitiesByRelation L sc ty rt filt = EntityStore_FindEntitiesByRelation L (ss_inner sc) ty rt filt
    \<and> ScopedStore_ConnectedEntities L sc i = EntityStore_ConnectedEntities L (ss_inner sc) i
    \<and> ScopedStore_BatchWrite L sc ops = EntityStore_BatchWrite L (ss_inner sc) ops"
proof -
  note params = mergeFilter_empty [OF assms(1,2)]
  have check: "check_visible sc = dret" by (rule ext) (simp add: check_visible_def check_visible_empty [OF assms(1,2)])
  have anchors: "FindByAnchors L ty as (Some (mergeFilter sc filt)) = FindByAnchors L ty as filt" for as
    by (simp add: FindByAnchors_def params)
  have toks: "FindByTokens L t ts m (Some (mergeFilter sc filt)) = FindByTokens L t ts m filt" for t ts m
    by (simp add: FindByTokens_def params)
  have search: "Search L query n (Some (mergeFilter sc filt)) = Search L query n filt"
    by (simp add: Search_def Let_def toks params cong: if_cong)
  show ?thesis
    by (intro conjI)
      (simp_all add: ScopedStore_GetEntity_def ScopedStore_GetByAnchor_def ScopedStore_Search_def ScopedStore_GetEntitiesByType_def
        ScopedStore_FindByAnchors_def ScopedStore_FindByTokens_def ScopedStore_FindByEmbedding_def
        ScopedStore_FindEntitiesByRelation_def ScopedStore_ConnectedEntities_def ScopedStore_BatchWrite_def
        EntityStore_GetByAnchor_def EntityStore_Search_def EntityStore_GetEntitiesByType_def EntityStore_FindByAnchors_def
        EntityStore_FindByTokens_def EntityStore_FindByEmbedding_def EntityStore_FindEntitiesByRelation_def
        GetByAnchor_def GetEntitiesByTypeFiltered_def FindByEmbedding_def FindEntitiesByRelation_def
        check anchors toks search params dbind_ret check_visible_empty [OF assms(1,2)] dmap_def assms(3))
qed

section \<open>A scope to evaluate\<close>

definition demo_scope :: ScopedStore where
  "demo_scope = \<lparr>ss_inner = \<lparr>es_store = demo_store\<rparr>,
     ss_cfg = \<lparr>sc_RequireTags = [], sc_ExcludeTag = ''secret'', sc_UnlessTags = [''admin''], sc_AutoTags = [''ws'']\<rparr>\<rparr>"

definition open_scope :: ScopedStore where
  "open_scope = \<lparr>ss_inner = \<lparr>es_store = demo_store\<rparr>,
     ss_cfg = \<lparr>sc_RequireTags = [], sc_ExcludeTag = [], sc_UnlessTags = [], sc_AutoTags = []\<rparr>\<rparr>"

theorem mergeFilter_enforces_scope_witness:
  "\<not> passes (Some (mergeFilter demo_scope None)) (new_entity 1 500 ''t.v1.X'' (JObj []) 1 [''secret''] ''n'')"
  using mergeFilter_enforces_scope [of demo_scope None _ demo_lib]
  by (simp add: filter_params demo_scope_def entityVisible_def entityFromRow_def new_entity_def)

theorem empty_scope_transparent_witness:
  "ScopedStore_BatchWrite demo_lib open_scope [] = EntityStore_BatchWrite demo_lib (ss_inner open_scope) []"
  using empty_scope_transparent [of open_scope] by (simp add: open_scope_def)

lemma demo_scope_reads:
  assumes "tabs s = tabs demo_state" "tx s = None" "\<not> fault s (tick s)"
  shows "\<exists>x. ScopedStore_GetEntity demo_lib demo_scope ''u'' s = (next_tick s, Inr x)"
  using assms by (simp add: ScopedStore_GetEntity_def EntityStore_GetEntity_def GetEntity_def q_GetEntity_def select_one_def run_defs
      demo_state_def demo_tables_def new_entity_def live_def unary_parse_def check_visible_def entityVisible_def
      entityFromRow_def demo_scope_def)

lemma demo_state_env [simp]: "tx demo_state = None" "fault demo_state k = False"
  by (simp_all add: demo_state_def)

theorem scoped_reads_in_scope_witness:
  "\<exists>s' x. ScopedStore_GetEntity demo_lib demo_scope ''u'' demo_state = (s', Inr x) \<and> entityVisible demo_scope x"
proof -
  obtain s' x where r: "ScopedStore_GetEntity demo_lib demo_scope ''u'' demo_state = (s', Inr x)" using demo_scope_reads [of demo_state] by auto
  have "schema (tabs demo_state)" by (rule schema_demo)
  with scoped_reads_in_scope [of None demo_state demo_lib demo_scope "''u''" s' x] r show ?thesis by (auto simp: filter_params)
qed

theorem scoped_monotonic_reads_witness:
  "\<exists>s1 x s3 y. ScopedStore_GetEntity demo_lib demo_scope ''u'' demo_state = (s1, Inr x)
    \<and> ScopedStore_GetEntity demo_lib demo_scope ''u'' (next_tick s1) = (s3, Inr y) \<and> se_Version x \<le> se_Version y"
proof -
  let ?s1 = "next_tick demo_state"
  obtain x where r: "ScopedStore_GetEntity demo_lib demo_scope ''u'' demo_state = (?s1, Inr x)" using demo_scope_reads [of demo_state] by auto
  obtain y where r2: "ScopedStore_GetEntity demo_lib demo_scope ''u'' (next_tick ?s1) = (next_tick (next_tick ?s1), Inr y)"
    using demo_scope_reads [of "next_tick ?s1"] by (auto simp: next_tick_def)
  have "api_steps demo_lib False ?s1 (next_tick ?s1)" by (rule r_into_rtranclp, rule api_step.wait)
  from scoped_monotonic_reads [OF r _ schema_demo this r2] r r2 show ?thesis by auto
qed

lemma demo_scoped_create:
  "\<exists>s' rs. ScopedStore_BatchWrite demo_lib demo_scope [demo_new] demo_db = (s', Inr rs)"
  by (simp add: ScopedStore_BatchWrite_def EntityStore_BatchWrite_def demo_scope_def auto_tag_def
      BatchWrite_def demo_new_def in_tx_def begin_tx_def commit_tx_def batch_op_def MaxBatchSize_def
      validateTags_def maxTagsPerEntity_def maxTagLength_def applyEntityWrite_def
      applyCreate_def marshalEntityData_def demo_create_def run_defs create_row_def
      q_InsertEntity_def insert_entity_row_def entity_exists_def q_UpsertAnchor_def anchor_key_def
      new_entity_def updateEmbedding_def NewV7_def q_InsertEvent_def empty_tables_def Let_def)

theorem scoped_creates_are_tagged_witness:
  "\<exists>s' rs ent. ScopedStore_BatchWrite demo_lib demo_scope [demo_new] demo_db = (s', Inr rs)
    \<and> br_Entity (rs ! 0) = Some ent \<and> ''ws'' \<in> set (se_Tags ent)"
proof -
  obtain s' rs where r: "ScopedStore_BatchWrite demo_lib demo_scope [demo_new] demo_db = (s', Inr rs)" using demo_scoped_create by blast
  from scoped_creates_are_tagged [OF r _ _ _, of 0 demo_create] r show ?thesis
    by (auto simp: demo_new_def demo_create_def demo_scope_def)
qed

section \<open>Ways around a scope\<close>

text \<open>Two ways around a scope: a search by display name drops the excluded tag, and a caller's \<open>UnlessTags\<close>
  are merged into the exemptions of the scope. Both return an entity that a lookup by its identifier
  refuses with \<open>ErrAccessDenied\<close>.\<close>

theorem scope_bypass:
  "\<exists>s1 s2 s3 x xs. snd (ScopedStore_GetEntity demo_lib demo_scope ''u'' secret_state) = Inl ErrAccessDenied
    \<and> ScopedStore_Search demo_lib demo_scope ''n'' 10 None secret_state = (s1, Inr [x]) \<and> se_ID x = ''u''
    \<and> ScopedStore_GetEntitiesByType demo_lib demo_scope ''t.v1.X'' 0 None None secret_state = (s2, Inr [])
    \<and> ScopedStore_GetEntitiesByType demo_lib demo_scope ''t.v1.X'' 0 None (Some (empty_QueryFilter\<lparr>qf_UnlessTags := [''secret'']\<rparr>))
        secret_state = (s3, Inr xs) \<and> length xs = 2"
  by (simp add: ScopedStore_GetEntity_def EntityStore_GetEntity_def GetEntity_def q_GetEntity_def select_one_def run_defs
      secret_state_def new_entity_def live_def unary_parse_def unary_string_def check_visible_def entityVisible_def entityFromRow_def
      demo_scope_def ScopedStore_Search_def EntityStore_Search_def Search_def q_SearchByDisplayName_def select_limit_def Let_def
      int32_def mergeFilter_def empty_QueryFilter_def filter_params demo_lib_def ScopedStore_GetEntitiesByType_def
      EntityStore_GetEntitiesByType_def GetEntitiesByTypeFiltered_def q_GetEntitiesByTypeFiltered_def before_cursor_def
      tag_filter_def overlaps_def page_or_def)

end
