(* ===== verification/Explorer.thy ===== *)
theory Explorer
  imports Views Scoped
begin

text \<open>
  The explorer: the fragment handlers of \<open>src/ui/handler.go\<close> and the pages of \<open>src/ui/explorer/explorer.go\<close>, over any store that
  satisfies the Go interface \<open>EntityStorer\<close> of \<open>src/interface.go\<close>. The interface value is a record of its operations,
  with the plain and the scoped store as its two instances. A handler reads the store and answers with a response;
  a panic while it renders is the error \<open>Panic\<close>. Reading the client's signals, routing and the server itself belong to the
  libraries \<open>dsx\<close>, \<open>chi\<close> and \<open>showcase\<close>: a request is given by its path segments and its query parameters.
\<close>

section \<open>The store the explorer reads\<close>

text \<open>\<open>Stats\<close> returns the counts it has, together with its error; callers that ignore the error go on with them.\<close>

definition zero_stats :: StoreStats where
  "zero_stats = \<lparr>ss_TotalEntities = 0, ss_TotalRelations = 0, ss_SoftDeleted = 0, ss_EntityTypes = [], ss_RelationTypes = []\<rparr>"

definition and_err :: "'a dbm \<Rightarrow> (StoreStats \<times> err option) \<Rightarrow> ('a \<Rightarrow> (StoreStats \<times> err option) dbm) \<Rightarrow> (StoreStats \<times> err option) dbm" where
  "and_err m st k s = (case m s of (s', Inl e) \<Rightarrow> (s', Inr (fst st, Some e)) | (s', Inr x) \<Rightarrow> k x s')"

definition stats_value :: "(StoreStats \<times> err option) dbm" where
  "stats_value =
     (let st = zero_stats in
      and_err CountAllEntities (st, None) (\<lambda>n. let st = st\<lparr>ss_TotalEntities := n\<rparr> in
      and_err CountAllRelations (st, None) (\<lambda>r. let st = st\<lparr>ss_TotalRelations := r\<rparr> in
      and_err CountSoftDeleted (st, None) (\<lambda>d. let st = st\<lparr>ss_SoftDeleted := d\<rparr> in
      and_err CountEntityTypes (st, None) (\<lambda>ets. let st = st\<lparr>ss_EntityTypes := ets\<rparr> in
      and_err CountRelationTypes (st, None) (\<lambda>rts. dret (st\<lparr>ss_RelationTypes := rts\<rparr>, None)))))))"

lemma stats_value_Stats:
  "case Stats s of (s', Inr st) \<Rightarrow> stats_value s = (s', Inr (st, None)) | (s', Inl e) \<Rightarrow> \<exists>st. stats_value s = (s', Inr (st, Some e))"
  by (auto simp: Stats_def stats_value_def and_err_def dbind_def dret_def zero_stats_def Let_def split: prod.split sum.split)

record EntityStorer =
  st_Stats :: "(StoreStats \<times> err option) dbm"
  st_Search :: "string \<Rightarrow> int \<Rightarrow> QueryFilter option \<Rightarrow> StoredEntity list dbm"
  st_GetEntity :: "string \<Rightarrow> StoredEntity dbm"
  st_GetByAnchor :: "string \<Rightarrow> string \<Rightarrow> string \<Rightarrow> QueryFilter option \<Rightarrow> StoredEntity dbm"
  st_GetAnchorsForEntity :: "string \<Rightarrow> (string \<times> string) list dbm"
  st_GetEntitiesByType :: "string \<Rightarrow> int \<Rightarrow> time option \<Rightarrow> QueryFilter option \<Rightarrow> StoredEntity list dbm"
  st_FindByAnchors :: "string \<Rightarrow> AnchorQuery list \<Rightarrow> QueryFilter option \<Rightarrow> StoredEntity list dbm"
  st_FindByTokens :: "string \<Rightarrow> string list \<Rightarrow> int \<Rightarrow> QueryFilter option \<Rightarrow> StoredEntity list dbm"
  st_FindByEmbedding :: "string \<Rightarrow> vec \<Rightarrow> int \<Rightarrow> QueryFilter option \<Rightarrow> StoredEntity list dbm"
  st_FindConnectedByType :: "string \<Rightarrow> FindConnectedOpts option \<Rightarrow> StoredEntity list dbm"
  st_FindEntitiesByRelation :: "string \<Rightarrow> string \<Rightarrow> QueryFilter option \<Rightarrow> StoredEntity list dbm"
  st_ConnectedEntities :: "string \<Rightarrow> StoredEntity list dbm"
  st_Traverse :: "string \<Rightarrow> TraverseOpts option \<Rightarrow> TraverseResult list dbm"
  st_GetRelationsFromEntity :: "string \<Rightarrow> int \<Rightarrow> time option \<Rightarrow> StoredRelation list dbm"
  st_GetRelationsToEntity :: "string \<Rightarrow> int \<Rightarrow> time option \<Rightarrow> StoredRelation list dbm"
  st_GetEventByID :: "string \<Rightarrow> Event dbm"
  st_GetEventsForEntity :: "string \<Rightarrow> EventQueryOpts option \<Rightarrow> Event list dbm"
  st_GetAllEvents :: "EventQueryOpts option \<Rightarrow> time option \<Rightarrow> Event list dbm"
  st_BatchWrite :: "BatchWriteOp list \<Rightarrow> BatchWriteResult list dbm"
  st_DeleteEntity :: "string \<Rightarrow> unit dbm"
  st_HardDeleteEntity :: "string \<Rightarrow> unit dbm"
  st_DeleteRelationByKey :: "string \<Rightarrow> string \<Rightarrow> string \<Rightarrow> unit dbm"
  st_UpdateRelationData :: "string \<Rightarrow> string \<Rightarrow> string \<Rightarrow> proto_msg option \<Rightarrow> StoredRelation dbm"
  st_SetTags :: "string \<Rightarrow> string list option \<Rightarrow> unit dbm"
  st_AddTags :: "string \<Rightarrow> string list \<Rightarrow> unit dbm"
  st_RemoveTag :: "string \<Rightarrow> string \<Rightarrow> unit dbm"
  st_UpdateEmbedding :: "string \<Rightarrow> vec \<Rightarrow> unit dbm"
  st_CountEntitiesByType :: "string \<Rightarrow> nat dbm"
  st_CountRelationsForEntity :: "string \<Rightarrow> nat dbm"

definition plain_storer :: "lib \<Rightarrow> EntityStore \<Rightarrow> EntityStorer" where
  "plain_storer L es =
     \<lparr>st_Stats = stats_value, st_Search = EntityStore_Search L es,
      st_GetEntity = EntityStore_GetEntity L es, st_GetByAnchor = EntityStore_GetByAnchor L es,
      st_GetAnchorsForEntity = EntityStore_GetAnchorsForEntity L es, st_GetEntitiesByType = EntityStore_GetEntitiesByType L es,
      st_FindByAnchors = EntityStore_FindByAnchors L es, st_FindByTokens = EntityStore_FindByTokens L es,
      st_FindByEmbedding = EntityStore_FindByEmbedding L es, st_FindConnectedByType = EntityStore_FindConnectedByType L es,
      st_FindEntitiesByRelation = EntityStore_FindEntitiesByRelation L es, st_ConnectedEntities = EntityStore_ConnectedEntities L es,
      st_Traverse = EntityStore_Traverse L es, st_GetRelationsFromEntity = EntityStore_GetRelationsFromEntity L es,
      st_GetRelationsToEntity = EntityStore_GetRelationsToEntity L es, st_GetEventByID = EntityStore_GetEventByID L es,
      st_GetEventsForEntity = EntityStore_GetEventsForEntity L es, st_GetAllEvents = EntityStore_GetAllEvents L es,
      st_BatchWrite = EntityStore_BatchWrite L es, st_DeleteEntity = EntityStore_DeleteEntity L es,
      st_HardDeleteEntity = EntityStore_HardDeleteEntity L es, st_DeleteRelationByKey = EntityStore_DeleteRelationByKey L es,
      st_UpdateRelationData = EntityStore_UpdateRelationData L es, st_SetTags = EntityStore_SetTags L es,
      st_AddTags = EntityStore_AddTags L es, st_RemoveTag = EntityStore_RemoveTag L es,
      st_UpdateEmbedding = EntityStore_UpdateEmbedding L es, st_CountEntitiesByType = EntityStore_CountEntitiesByType es,
      st_CountRelationsForEntity = EntityStore_CountRelationsForEntity L es\<rparr>"

definition scoped_storer :: "lib \<Rightarrow> ScopedStore \<Rightarrow> EntityStorer" where
  "scoped_storer L sc =
     \<lparr>st_Stats = stats_value, st_Search = ScopedStore_Search L sc,
      st_GetEntity = ScopedStore_GetEntity L sc, st_GetByAnchor = ScopedStore_GetByAnchor L sc,
      st_GetAnchorsForEntity = ScopedStore_GetAnchorsForEntity L sc, st_GetEntitiesByType = ScopedStore_GetEntitiesByType L sc,
      st_FindByAnchors = ScopedStore_FindByAnchors L sc, st_FindByTokens = ScopedStore_FindByTokens L sc,
      st_FindByEmbedding = ScopedStore_FindByEmbedding L sc, st_FindConnectedByType = ScopedStore_FindConnectedByType L sc,
      st_FindEntitiesByRelation = ScopedStore_FindEntitiesByRelation L sc, st_ConnectedEntities = ScopedStore_ConnectedEntities L sc,
      st_Traverse = ScopedStore_Traverse L sc, st_GetRelationsFromEntity = ScopedStore_GetRelationsFromEntity L sc,
      st_GetRelationsToEntity = ScopedStore_GetRelationsToEntity L sc, st_GetEventByID = ScopedStore_GetEventByID L sc,
      st_GetEventsForEntity = ScopedStore_GetEventsForEntity L sc, st_GetAllEvents = ScopedStore_GetAllEvents L sc,
      st_BatchWrite = ScopedStore_BatchWrite L sc, st_DeleteEntity = ScopedStore_DeleteEntity L sc,
      st_HardDeleteEntity = ScopedStore_HardDeleteEntity L sc, st_DeleteRelationByKey = ScopedStore_DeleteRelationByKey L sc,
      st_UpdateRelationData = ScopedStore_UpdateRelationData L sc, st_SetTags = ScopedStore_SetTags L sc,
      st_AddTags = ScopedStore_AddTags L sc, st_RemoveTag = ScopedStore_RemoveTag L sc,
      st_UpdateEmbedding = ScopedStore_UpdateEmbedding L sc, st_CountEntitiesByType = ScopedStore_CountEntitiesByType sc,
      st_CountRelationsForEntity = ScopedStore_CountRelationsForEntity L sc\<rparr>"

section \<open>Handlers\<close>

datatype response = HttpError nat err | Patch html | Drawer html string | Page html | NotFound

text \<open>\<open>x, _ := f()\<close>: the zero value when the call fails.\<close>

definition ignored :: "'a \<Rightarrow> 'a dbm \<Rightarrow> 'a dbm" where
  "ignored zero m s = (case m s of (s', Inl _) \<Rightarrow> (s', Inr zero) | (s', Inr x) \<Rightarrow> (s', Inr x))"

definition render :: "(html \<Rightarrow> response) \<Rightarrow> html option \<Rightarrow> response dbm" where
  "render f h = (case h of None \<Rightarrow> dfail Panic | Some t \<Rightarrow> dret (f t))"

definition or_error :: "nat \<Rightarrow> 'a dbm \<Rightarrow> ('a \<Rightarrow> response dbm) \<Rightarrow> response dbm" where
  "or_error code m k s = (case m s of (s', Inl e) \<Rightarrow> (s', Inr (HttpError code e)) | (s', Inr x) \<Rightarrow> k x s')"

definition zero_entity :: StoredEntity where
  "zero_entity = \<lparr>se_ID = [], se_EntityType = [], se_Data = None, se_Confidence = 0, se_Tags = [], se_DisplayName = [],
     se_Version = 0, se_CreatedAt = 0, se_UpdatedAt = 0\<rparr>"

definition StatsFragment :: "EntityStorer \<Rightarrow> response dbm" where
  "StatsFragment st = dbind (st_Stats st) (\<lambda>(stats, e). case e of
     Some e \<Rightarrow> dret (HttpError 500 e)
   | None \<Rightarrow> dret (Patch (statsFragment stats)))"

text \<open>\<open>q\<close> is the query that the client's signals carry, empty when they cannot be read.\<close>

definition SearchFragment :: "uilib \<Rightarrow> EntityStorer \<Rightarrow> string \<Rightarrow> response dbm" where
  "SearchFragment U st q =
     (if q = [] then dret (Patch searchEmpty)
      else dbind (ignored [] (st_Search st q 20 None)) (\<lambda>results. render Patch (searchResults U q results)))"

fun all_of_types :: "EntityStorer \<Rightarrow> string list \<Rightarrow> StoredEntity list dbm" where
  "all_of_types st [] = dret []"
| "all_of_types st (ty # tys) =
     dbind (ignored [] (st_GetEntitiesByType st ty 100 None None)) (\<lambda>es.
     dbind (all_of_types st tys) (\<lambda>rest. dret (es @ rest)))"

definition EntityListFragment :: "uilib \<Rightarrow> EntityStorer \<Rightarrow> response dbm" where
  "EntityListFragment U st =
     dbind (st_Stats st) (\<lambda>(stats, _).
     dbind (all_of_types st (map fst (ss_EntityTypes stats))) (\<lambda>all.
     render Patch (entityList U all)))"

definition shortEntityType :: "string \<Rightarrow> string" where
  "shortEntityType t = (let parts = split_on CHR ''.'' t in if parts \<noteq> [] then last parts else t)"

fun resolve_all :: "TraverseResult list \<Rightarrow> (string \<rightharpoonup> ResolvedEntity) \<Rightarrow> (string \<rightharpoonup> ResolvedEntity) option" where
  "resolve_all [] resolved = Some resolved"
| "resolve_all (n # ns) resolved =
     (let e = tr_Entity n in
      case first8 (se_ID e) of
        None \<Rightarrow> None
      | Some i \<Rightarrow> resolve_all ns (resolved(se_ID e \<mapsto>
          \<lparr>re_Name = (if se_DisplayName e \<noteq> [] then se_DisplayName e else i @ ''...''),
           re_EntityType = shortEntityType (se_EntityType e)\<rparr>)))"

definition resolveEntities :: "EntityStorer \<Rightarrow> string \<Rightarrow> (string \<rightharpoonup> ResolvedEntity) dbm" where
  "resolveEntities st entityID =
     dbind (ignored [] (st_Traverse st entityID (Some (zero_TraverseOpts\<lparr>to_MaxDepth := 1, to_MaxResults := 50\<rparr>)))) (\<lambda>neighbors.
     case resolve_all neighbors Map.empty of None \<Rightarrow> dfail Panic | Some resolved \<Rightarrow> dret resolved)"

definition EntityDetailFragment :: "uilib \<Rightarrow> EntityStorer \<Rightarrow> string \<Rightarrow> response dbm" where
  "EntityDetailFragment U st i =
     or_error 404 (st_GetEntity st i) (\<lambda>entity.
     dbind (ignored [] (st_GetAnchorsForEntity st i)) (\<lambda>ancs.
     dbind (ignored [] (st_GetRelationsFromEntity st i 20 None)) (\<lambda>outbound.
     dbind (ignored [] (st_GetRelationsToEntity st i 20 None)) (\<lambda>inbound.
     dbind (resolveEntities st i) (\<lambda>resolved.
     dret (Drawer (entityDetail U entity (prettyJSON U (se_Data entity)) ancs outbound inbound resolved) ''max-w-2xl''))))))"

definition EntityRelationsFragment :: "EntityStorer \<Rightarrow> string \<Rightarrow> response dbm" where
  "EntityRelationsFragment st i =
     dbind (ignored [] (st_GetRelationsFromEntity st i 50 None)) (\<lambda>outbound.
     dbind (ignored [] (st_GetRelationsToEntity st i 50 None)) (\<lambda>inbound.
     render (\<lambda>h. Drawer h ''max-w-2xl'') (entityRelations i outbound inbound)))"

text \<open>\<open>json.Unmarshal\<close> of the payload of a relation event into a struct of three strings: keys match up to case, the last
  one counts, \<open>null\<close> leaves the field, any other value that is no string fails.\<close>

definition fold_rune :: "rune \<Rightarrow> rune" where
  "fold_rune r = (if 65 \<le> r \<and> r \<le> 90 then r + 32 else if r = 0x17F then 115 else if r = 0x212A then 107 else r)"

definition same_key :: "string \<Rightarrow> string \<Rightarrow> bool" where
  "same_key name k \<longleftrightarrow> map fold_rune (runes k) = map fold_rune (runes name)"

fun payload_field :: "string \<Rightarrow> (string \<times> json) list \<Rightarrow> string \<Rightarrow> string option" where
  "payload_field name [] v = Some v"
| "payload_field name ((k, j) # kvs) v =
     (if same_key name k
      then (case j of JStr t \<Rightarrow> payload_field name kvs t | JNull \<Rightarrow> payload_field name kvs v | _ \<Rightarrow> None)
      else payload_field name kvs v)"

definition relation_payload :: "RawMessage \<Rightarrow> (string \<times> string \<times> string) option" where
  "relation_payload raw = (case raw of
     Some (JObj kvs) \<Rightarrow> (case (payload_field ''sourceId'' kvs [], payload_field ''targetId'' kvs [], payload_field ''relationType'' kvs []) of
        (Some a, Some b, Some c) \<Rightarrow> Some (a, b, c) | _ \<Rightarrow> None)
   | Some JNull \<Rightarrow> Some ([], [], [])
   | _ \<Rightarrow> None)"

definition event_relation :: "EntityStorer \<Rightarrow> Event \<Rightarrow> (StoredEntity option \<times> StoredEntity option \<times> string) dbm" where
  "event_relation st evt =
     (if ev_RelationKey evt = [] then dret (None, None, [])
      else case relation_payload (ev_RawPayload evt) of
        None \<Rightarrow> dret (None, None, [])
      | Some (sourceID, targetID, relationType) \<Rightarrow>
          if sourceID = [] then dret (None, None, [])
          else dbind (dtry (st_GetEntity st sourceID)) (\<lambda>source.
            dbind (dtry (st_GetEntity st targetID)) (\<lambda>target.
            dret (source, target, relationType))))"

definition EventDetailFragment :: "uilib \<Rightarrow> EntityStorer \<Rightarrow> string \<Rightarrow> response dbm" where
  "EventDetailFragment U st i =
     or_error 404 (st_GetEventByID st i) (\<lambda>evt.
     let prettyPayload = (case ev_RawPayload evt of None \<Rightarrow> ''null'' | Some j \<Rightarrow> ui_Indent U j) in
     dbind (if ev_EntityID evt = [] then dret [] else
       dmap (\<lambda>r. case r of None \<Rightarrow> [] | Some e \<Rightarrow> se_DisplayName e) (dtry (st_GetEntity st (ev_EntityID evt)))) (\<lambda>entityName.
     dbind (event_relation st evt) (\<lambda>(source, target, relationType).
     dbind (if ev_EntityID evt \<noteq> [] \<and> entityName \<noteq> [] then dtry (st_GetEntity st (ev_EntityID evt)) else dret None) (\<lambda>entity.
     dret (Drawer (eventDetail U evt prettyPayload entity source target relationType) ''max-w-xl'')))))"

definition EntityEventsFragment :: "response dbm" where
  "EntityEventsFragment = dret (Patch entityEventsPlaceholder)"

definition EntityGraphFragment :: "EntityStorer \<Rightarrow> string \<Rightarrow> response dbm" where
  "EntityGraphFragment st i =
     dbind (ignored [] (st_Traverse st i (Some (zero_TraverseOpts\<lparr>to_MaxDepth := 2, to_MaxResults := 30\<rparr>)))) (\<lambda>results.
     dbind (ignored zero_entity (st_GetEntity st i)) (\<lambda>center.
     render Patch (entityGraph center results)))"

definition EntityTypesFragment :: "EntityStorer \<Rightarrow> response dbm" where
  "EntityTypesFragment st = dbind (st_Stats st) (\<lambda>(stats, _).
     dret (Patch (entityTypesList (ss_EntityTypes stats) (ss_RelationTypes stats))))"

text \<open>The routes below \<open>/fragments\<close>.\<close>

definition RegisterRoutes :: "uilib \<Rightarrow> EntityStorer \<Rightarrow> string \<Rightarrow> string list \<Rightarrow> response dbm" where
  "RegisterRoutes U st q path =
     (if path = [''stats''] then StatsFragment st
      else if path = [''search''] then SearchFragment U st q
      else if path = [''entities''] then EntityListFragment U st
      else if path = [''entity-types''] then EntityTypesFragment st
      else case path of
        [a, i] \<Rightarrow> if a = ''entities'' then EntityDetailFragment U st i
                  else if a = ''events'' then EventDetailFragment U st i else dret NotFound
      | [a, i, b] \<Rightarrow> if a = ''entities'' \<and> b = ''relations'' then EntityRelationsFragment st i
                     else if a = ''entities'' \<and> b = ''events'' then EntityEventsFragment
                     else if a = ''entities'' \<and> b = ''graph'' then EntityGraphFragment st i else dret NotFound
      | _ \<Rightarrow> dret NotFound)"

section \<open>Pages\<close>

text \<open>\<open>typ\<close> and \<open>cur\<close> are the query parameters \<open>type\<close> and \<open>cursor\<close>, empty when absent.\<close>

definition events_page :: "uilib \<Rightarrow> EntityStorer \<Rightarrow> string \<Rightarrow> string \<Rightarrow> response dbm" where
  "events_page U st typ cur =
     (let eventTypes = (if typ \<noteq> [] then [typ] else []);
          cursor = (if cur \<noteq> [] then ui_ParseTime U cur else None) in
      dbind (ignored [] (st_GetAllEvents st (Some \<lparr>eo_EventTypes = eventTypes, eo_Since = 0, eo_Limit = 50\<rparr>) cursor)) (\<lambda>evts.
      dbind (ignored [] (st_GetAllEvents st (Some \<lparr>eo_EventTypes = [], eo_Since = 0, eo_Limit = 200\<rparr>) None)) (\<lambda>allEvents.
      render Page (EventsPage U evts (sort (remdups (map ev_EventType allEvents))) typ))))"

definition pageHandler :: "uilib \<Rightarrow> EntityStorer \<Rightarrow> string \<Rightarrow> string \<Rightarrow> string \<Rightarrow> response dbm" where
  "pageHandler U st page typ cur =
     (if page = ''home'' \<or> page = ''stats'' then dbind (st_Stats st) (\<lambda>(stats, _). dret (Page (StatsPage U stats)))
      else if page = ''entities'' then
        dbind (st_Stats st) (\<lambda>(stats, _).
        dbind (all_of_types st (map fst (ss_EntityTypes stats))) (\<lambda>all.
        render Page (EntitiesPage U all)))
      else if page = ''events'' then events_page U st typ cur
      else dret (Page (Lit [])))"

definition explorer_port :: "int \<Rightarrow> int" where
  "explorer_port port = (if port = 0 then 3336 else port)"

text \<open>The explorer's router.\<close>

definition explorer_serve :: "uilib \<Rightarrow> EntityStorer \<Rightarrow> string \<Rightarrow> string \<Rightarrow> string \<Rightarrow> string list \<Rightarrow> response dbm" where
  "explorer_serve U st q typ cur path =
     (if path = [] \<or> path = [''search''] then dret (Page (SearchPage U))
      else if path \<in> set [[''stats''], [''entities''], [''events'']] then pageHandler U st (hd path) typ cur
      else if hd path = ''fragments'' then RegisterRoutes U st q (tl path)
      else dret NotFound)"

section \<open>What the explorer relies on\<close>

text \<open>Identifiers print with at least eight characters (the text form of a UUID has 36).\<close>

definition printable_ids :: "lib \<Rightarrow> bool" where
  "printable_ids L \<longleftrightarrow> (\<forall>u. 8 \<le> length (uuid_String L u))"

definition has_id :: "string \<Rightarrow> bool" where
  "has_id i \<longleftrightarrow> 8 \<le> length i"

text \<open>The contract of the interface, as far as the explorer uses it: its operations read; what they return carries
  identifiers; a type listing returns live rows that the client sees, and such a row can be read by its identifier.\<close>

locale explorable =
  fixes L :: lib and st :: EntityStorer and sees :: "StoredEntity \<Rightarrow> bool"
  assumes reads: "readonly (st_Stats st)" "readonly (st_Search st q n f)" "readonly (st_GetEntitiesByType st ty n c f)"
      "readonly (st_GetEntity st i)" "readonly (st_GetAnchorsForEntity st i)" "readonly (st_GetRelationsFromEntity st i n c)"
      "readonly (st_GetRelationsToEntity st i n c)" "readonly (st_GetEventByID st i)" "readonly (st_GetAllEvents st eo c)"
      "readonly (st_Traverse st i to1)"
    and stats_answers: "\<exists>s' x. st_Stats st s = (s', Inr x)"
    and search_ids: "printable_ids L \<Longrightarrow> st_Search st q n f s = (s', Inr es) \<Longrightarrow> list_all (has_id \<circ> se_ID) es"
    and relation_ids: "printable_ids L \<Longrightarrow> st_GetRelationsFromEntity st i n c s = (s', Inr rs) \<Longrightarrow> list_all (has_id \<circ> sr_TargetID) rs"
      "printable_ids L \<Longrightarrow> st_GetRelationsToEntity st i n c s = (s', Inr rs) \<Longrightarrow> list_all (has_id \<circ> sr_SourceID) rs"
    and neighbor_ids: "printable_ids L \<Longrightarrow> st_Traverse st i to1 s = (s', Inr ns) \<Longrightarrow> list_all (\<lambda>n. has_id (se_ID (tr_Entity n))) ns"
    and event_ids: "printable_ids L \<Longrightarrow> st_GetAllEvents st eo c s = (s', Inr evs) \<Longrightarrow>
        list_all (\<lambda>v. ev_EntityID v = [] \<or> has_id (ev_EntityID v)) evs"
    and entity_id: "printable_ids L \<Longrightarrow> st_GetEntity st i s = (s', Inr x) \<Longrightarrow> has_id (se_ID x)"
    and listed: "st_GetEntitiesByType st ty n c None s = (s', Inr es) \<Longrightarrow>
        list_all (\<lambda>x. sees x \<and> (\<exists>e\<in>set (entities (tabs s)). live e \<and> x = entityFromRow L e)) es"
    and readable: "e \<in> set (entities (tabs s)) \<Longrightarrow> live e \<Longrightarrow> sees (entityFromRow L e) \<Longrightarrow> tx s = None \<Longrightarrow> (\<And>k. \<not> fault s k) \<Longrightarrow>
        schema (tabs s) \<Longrightarrow> \<exists>s' x. st_GetEntity st (uuid_String L (e_id e)) s = (s', Inr x)"
begin

lemma readonly_ignored: "readonly m \<Longrightarrow> readonly (ignored z m)"
  by (auto simp: readonly_def ignored_def split: prod.splits sum.splits) (metis fst_conv)+

lemma readonly_or_error: "readonly m \<Longrightarrow> (\<And>x. readonly (k x)) \<Longrightarrow> readonly (or_error code m k)"
  by (auto simp: readonly_def or_error_def split: prod.splits sum.splits) (metis fst_conv)+

lemma readonly_dtry: "readonly m \<Longrightarrow> readonly (dtry m)"
  by (auto simp: readonly_def dtry_def split: prod.splits sum.splits) (metis fst_conv)+

lemma readonly_if: "readonly m \<Longrightarrow> readonly m' \<Longrightarrow> readonly (if b then m else m')"
  by simp

lemma readonly_case_prod: "(\<And>a b. readonly (f a b)) \<Longrightarrow> readonly (case p of (a, b) \<Rightarrow> f a b)"
  by (cases p) simp

lemma readonly_render: "readonly (render f h)"
  unfolding render_def by (cases h) (simp_all add: readonly_basic)

lemmas handler_reads = readonly_intros readonly_ignored readonly_or_error readonly_render reads

lemma readonly_all_of_types: "readonly (all_of_types st tys)"
  by (induction tys) (auto intro: handler_reads)

lemma readonly_fragments:
  "readonly (StatsFragment st)" "readonly (SearchFragment U st q)" "readonly (EntityListFragment U st)"
  "readonly (EntityTypesFragment st)" "readonly (EntityRelationsFragment st i)" "readonly EntityEventsFragment"
  "readonly (EntityGraphFragment st i)"
  unfolding StatsFragment_def SearchFragment_def EntityListFragment_def EntityTypesFragment_def EntityRelationsFragment_def
    EntityEventsFragment_def EntityGraphFragment_def
  by (auto intro!: handler_reads readonly_all_of_types split: option.split)

lemma readonly_resolve: "readonly (resolveEntities st i)"
  unfolding resolveEntities_def by (auto intro!: handler_reads split: option.split)

lemma readonly_detail: "readonly (EntityDetailFragment U st i)"
  unfolding EntityDetailFragment_def by (intro handler_reads readonly_resolve)

lemma readonly_event_relation: "readonly (event_relation st evt)"
  unfolding event_relation_def by (auto intro!: handler_reads readonly_dtry split: option.split)

lemma readonly_event_detail: "readonly (EventDetailFragment U st i)"
  unfolding EventDetailFragment_def Let_def
  by (intro readonly_or_error reads readonly_dbind readonly_if readonly_dtry readonly_dmap readonly_basic readonly_event_relation
      readonly_case_prod)

lemma readonly_routes: "readonly (RegisterRoutes U st q path)"
  unfolding RegisterRoutes_def
  by (intro readonly_cases(1,3) readonly_fragments readonly_detail readonly_event_detail readonly_basic)

lemma readonly_pages: "readonly (pageHandler U st page typ cur)"
proof -
  have "readonly (events_page U st typ cur)" unfolding events_page_def Let_def by (intro handler_reads)
  then show ?thesis unfolding pageHandler_def by (auto intro!: handler_reads readonly_all_of_types)
qed

lemma readonly_serve: "readonly (explorer_serve U st q typ cur path)"
  unfolding explorer_serve_def by (intro readonly_if readonly_pages readonly_routes readonly_basic)

end

section \<open>The explorer answers\<close>

text \<open>A program that never fails, with a result that satisfies \<open>P\<close>.\<close>

definition yields :: "('a \<Rightarrow> bool) \<Rightarrow> 'a dbm \<Rightarrow> bool" where
  "yields P m \<longleftrightarrow> (\<forall>s. \<exists>s' x. m s = (s', Inr x) \<and> P x)"

lemma yields_dret: "P x \<Longrightarrow> yields P (dret x)"
  by (simp add: yields_def dret_def)

lemma yields_dbind: "yields P m \<Longrightarrow> (\<And>x. P x \<Longrightarrow> yields Q (f x)) \<Longrightarrow> yields Q (dbind m f)"
proof -
  assume m: "yields P m" and f: "\<And>x. P x \<Longrightarrow> yields Q (f x)"
  have "\<exists>s' y. dbind m f s = (s', Inr y) \<and> Q y" for s
  proof -
    obtain s1 x where "m s = (s1, Inr x)" "P x" using m unfolding yields_def by blast
    moreover from f [OF this(2)] obtain s2 y where "f x s1 = (s2, Inr y)" "Q y" unfolding yields_def by blast
    ultimately show ?thesis by (simp add: dbind_def)
  qed
  then show ?thesis by (simp add: yields_def)
qed

lemma yields_ignored: "(\<And>s s' x. m s = (s', Inr x) \<Longrightarrow> P x) \<Longrightarrow> P z \<Longrightarrow> yields P (ignored z m)"
  by (auto simp: yields_def ignored_def split: prod.split sum.split)

lemma yields_dtry: "yields (\<lambda>_. True) (dtry m)"
  by (auto simp: yields_def dtry_def split: prod.split sum.split)

lemma yields_or_error: "(\<And>x. yields (\<lambda>_. True) (k x)) \<Longrightarrow> yields (\<lambda>_. True) (or_error code m k)"
  by (auto simp: yields_def or_error_def split: prod.split sum.split)

lemma yields_if: "(b \<Longrightarrow> yields P m) \<Longrightarrow> (\<not> b \<Longrightarrow> yields P m') \<Longrightarrow> yields P (if b then m else m')"
  by simp

lemma yields_case_prod: "(\<And>a b. yields P (f a b)) \<Longrightarrow> yields P (case p of (a, b) \<Rightarrow> f a b)"
  by (cases p) simp

lemma yields_render: "h \<noteq> None \<Longrightarrow> yields (\<lambda>_. True) (render f h)"
  by (auto simp: render_def intro: yields_dret)

lemma yields_dmap: "yields P m \<Longrightarrow> yields (\<lambda>_. True) (dmap f m)"
  unfolding dmap_def by (erule yields_dbind) (rule yields_dret, simp)

text \<open>The templates render when the identifiers are long enough.\<close>

lemma first8_Some: "has_id i \<Longrightarrow> first8 i = Some (take 8 i)"
  by (simp add: has_id_def first8_def)

lemma those_Some: "list_all (\<lambda>x. f x \<noteq> None) xs \<Longrightarrow> those (map f xs) \<noteq> None"
  by (induction xs) (auto split: option.split)

lemma entity_cards: "has_id (se_ID e) \<Longrightarrow> entityCard U e \<noteq> None" "has_id (se_ID e) \<Longrightarrow> page_card U e \<noteq> None"
  by (simp_all add: entityCard_def page_card_def first8_Some)

lemma card_lists:
  assumes "list_all (has_id \<circ> se_ID) es"
  shows "entityList U es \<noteq> None" "searchResults U q es \<noteq> None" "EntitiesPage U es \<noteq> None"
proof -
  have "those (map (entityCard U) es) \<noteq> None" "those (map (page_card U) es) \<noteq> None"
    by (rule those_Some; use assms entity_cards in \<open>simp add: list_all_iff\<close>)+
  then show "entityList U es \<noteq> None" "searchResults U q es \<noteq> None" "EntitiesPage U es \<noteq> None"
    by (simp_all add: entityList_def searchResults_def EntitiesPage_def)
qed

lemma relation_tables:
  assumes "list_all (has_id \<circ> sr_TargetID) out" "list_all (has_id \<circ> sr_SourceID) inn"
  shows "entityRelations i out inn \<noteq> None"
proof -
  have "those (map (relation_row other) rels) \<noteq> None" if "list_all (has_id \<circ> other) rels" for other rels
    by (rule those_Some) (use that in \<open>simp add: list_all_iff relation_row_def first8_Some\<close>)
  from this [OF assms(1)] this [OF assms(2)] show ?thesis by (auto simp: entityRelations_def relation_table_def)
qed

lemma graph_renders:
  assumes "has_id (se_ID center)" "list_all (\<lambda>n. has_id (se_ID (tr_Entity n))) ns"
  shows "entityGraph center ns \<noteq> None"
proof -
  have "those (map neighbor_box ns) \<noteq> None"
    by (rule those_Some) (use assms(2) in \<open>simp add: list_all_iff neighbor_box_def first8_Some\<close>)
  then show ?thesis by (simp add: entityGraph_def first8_Some [OF assms(1)])
qed

lemma events_render:
  assumes "list_all (\<lambda>v. ev_EntityID v = [] \<or> has_id (ev_EntityID v)) evs"
  shows "EventsPage U evs tys typ \<noteq> None"
proof -
  have "those (map (event_line U) evs) \<noteq> None"
    by (rule those_Some) (use assms in \<open>auto simp: list_all_iff event_line_def event_entity_def first8_Some\<close>)
  then show ?thesis by (simp add: EventsPage_def event_table_def)
qed

lemma resolves: "list_all (\<lambda>n. has_id (se_ID (tr_Entity n))) ns \<Longrightarrow> resolve_all ns m \<noteq> None"
  by (induction ns arbitrary: m) (simp_all add: Let_def first8_Some)

context explorable
begin

lemma answers_stats: "yields (\<lambda>_. True) (st_Stats st)"
  using stats_answers by (auto simp: yields_def)

lemma answers_list:
  assumes "printable_ids L"
  shows "yields (list_all (has_id \<circ> se_ID)) (all_of_types st tys)"
proof (induction tys)
  case (Cons ty tys)
  have "list_all (has_id \<circ> se_ID) es" if "st_GetEntitiesByType st ty 100 None None s = (s', Inr es)" for s s' es
    using listed [OF that] assms by (auto simp: list_all_iff printable_ids_def has_id_def entityFromRow_def)
  then have "yields (list_all (has_id \<circ> se_ID)) (ignored [] (st_GetEntitiesByType st ty 100 None None))" by (intro yields_ignored) simp_all
  then show ?case unfolding all_of_types.simps
  proof (rule yields_dbind)
    fix es :: "StoredEntity list" assume es: "list_all (has_id \<circ> se_ID) es"
    show "yields (list_all (has_id \<circ> se_ID)) (dbind (all_of_types st tys) (\<lambda>rest. dret (es @ rest)))"
      by (rule yields_dbind [OF Cons]) (rule yields_dret, use es in \<open>simp add: comp_def\<close>)
  qed
qed (simp add: yields_dret)

lemma answers_neighbors:
  "printable_ids L \<Longrightarrow> yields (list_all (\<lambda>n. has_id (se_ID (tr_Entity n)))) (ignored [] (st_Traverse st i to1))"
  using neighbor_ids by (auto intro!: yields_ignored)

lemma answers_resolve: "printable_ids L \<Longrightarrow> yields (\<lambda>_. True) (resolveEntities st i)"
  unfolding resolveEntities_def
proof (rule yields_dbind [OF answers_neighbors])
  fix ns :: "TraverseResult list" assume "list_all (\<lambda>n. has_id (se_ID (tr_Entity n))) ns"
  from resolves [OF this, of Map.empty]
  show "yields (\<lambda>_. True) (case resolve_all ns Map.empty of None \<Rightarrow> dfail Panic | Some resolved \<Rightarrow> dret resolved)"
    by (auto intro: yields_dret)
qed

lemma answers_anything: "yields (\<lambda>_. True) (ignored z m)"
  by (rule yields_ignored) simp_all

lemma answers_detail: "printable_ids L \<Longrightarrow> yields (\<lambda>_. True) (EntityDetailFragment U st i)"
  unfolding EntityDetailFragment_def
  by (intro yields_or_error yields_dbind [OF answers_anything] yields_dbind [OF answers_resolve] yields_dret) simp_all

lemma answers_event: "yields (\<lambda>_. True) (EventDetailFragment U st i)"
proof -
  have r: "yields (\<lambda>_. True) (event_relation st evt)" for evt
    unfolding event_relation_def
    by (auto intro!: yields_dret yields_dbind [OF yields_dtry] split: option.split)
  show ?thesis
    unfolding EventDetailFragment_def Let_def
    by (intro yields_or_error yields_dbind [where P = "\<lambda>_. True"] yields_if yields_case_prod r yields_dmap [OF yields_dtry] yields_dtry
        yields_dret TrueI)
qed

lemma answers_relations:
  assumes "printable_ids L"
  shows "yields (\<lambda>_. True) (EntityRelationsFragment st i)"
  unfolding EntityRelationsFragment_def
proof (rule yields_dbind [where P = "list_all (has_id \<circ> sr_TargetID)"])
  show "yields (list_all (has_id \<circ> sr_TargetID)) (ignored [] (st_GetRelationsFromEntity st i 50 None))"
    using relation_ids(1) [OF assms] by (intro yields_ignored) simp_all
  fix out :: "StoredRelation list" assume out: "list_all (has_id \<circ> sr_TargetID) out"
  have "yields (list_all (has_id \<circ> sr_SourceID)) (ignored [] (st_GetRelationsToEntity st i 50 None))"
    using relation_ids(2) [OF assms] by (intro yields_ignored) simp_all
  then show "yields (\<lambda>_. True) (dbind (ignored [] (st_GetRelationsToEntity st i 50 None)) (\<lambda>inbound.
      render (\<lambda>h. Drawer h ''max-w-2xl'') (entityRelations i out inbound)))"
    by (rule yields_dbind) (rule yields_render, rule relation_tables [OF out])
qed

lemma answers_search:
  assumes "printable_ids L"
  shows "yields (\<lambda>_. True) (SearchFragment U st q)"
  unfolding SearchFragment_def
proof (rule yields_if)
  have "yields (list_all (has_id \<circ> se_ID)) (ignored [] (st_Search st q 20 None))"
    using search_ids [OF assms] by (intro yields_ignored) simp_all
  then show "yields (\<lambda>_. True) (dbind (ignored [] (st_Search st q 20 None)) (\<lambda>results. render Patch (searchResults U q results)))"
    by (rule yields_dbind) (rule yields_render, rule card_lists)
qed (simp add: yields_dret)

lemma answers_listing:
  assumes "printable_ids L" "\<And>es. list_all (has_id \<circ> se_ID) es \<Longrightarrow> view es \<noteq> None"
  shows "yields (\<lambda>_. True) (dbind (st_Stats st) (\<lambda>(stats, _). dbind (all_of_types st (map fst (ss_EntityTypes stats))) (\<lambda>all. render f (view all))))"
  by (intro yields_dbind [OF answers_stats] yields_case_prod yields_dbind [OF answers_list [OF assms(1)]] yields_render assms(2))

lemma answers_graph:
  assumes "printable_ids L" "\<And>s1. tabs s1 = tabs s \<Longrightarrow> \<exists>s' x. st_GetEntity st i s1 = (s', Inr x)"
  shows "\<exists>s' h. EntityGraphFragment st i s = (s', Inr (Patch h))"
proof -
  let ?to = "Some (zero_TraverseOpts\<lparr>to_MaxDepth := 2, to_MaxResults := 30\<rparr>)"
  obtain s1 ns where t: "ignored [] (st_Traverse st i ?to) s = (s1, Inr ns)" "list_all (\<lambda>n. has_id (se_ID (tr_Entity n))) ns"
    using answers_neighbors [OF assms(1), of i ?to] unfolding yields_def by blast
  have "tabs s1 = tabs s" by (rule readonlyD [OF readonly_ignored [OF reads(10)] t(1)])
  then obtain s2 x where g: "st_GetEntity st i s1 = (s2, Inr x)" using assms(2) by blast
  have "entityGraph x ns \<noteq> None" by (rule graph_renders [OF entity_id [OF assms(1) g] t(2)])
  then obtain h where "entityGraph x ns = Some h" by blast
  then have "EntityGraphFragment st i s = (s2, Inr (Patch h))"
    using t(1) g by (simp add: EntityGraphFragment_def dbind_def ignored_def render_def dret_def)
  then show ?thesis by blast
qed

end

context explorable
begin

lemma answers_routes:
  assumes "printable_ids L" "\<And>i. path \<noteq> [''entities'', i, ''graph'']"
  shows "yields (\<lambda>_. True) (RegisterRoutes U st q path)"
proof -
  have frag: "yields (\<lambda>_. True) (StatsFragment st)" "yields (\<lambda>_. True) (EntityTypesFragment st)" "yields (\<lambda>_. True) EntityEventsFragment"
    "yields (\<lambda>_. True) (dret NotFound)"
    unfolding StatsFragment_def EntityTypesFragment_def EntityEventsFragment_def
    by (auto intro!: yields_dbind [OF answers_stats] yields_dret split: option.split)
  have lst: "yields (\<lambda>_. True) (EntityListFragment U st)"
    unfolding EntityListFragment_def by (rule answers_listing [OF assms(1) card_lists(1)])
  note ok = frag lst answers_search [OF assms(1)] answers_detail [OF assms(1)] answers_event answers_relations [OF assms(1)]
  consider (one) a where "path = [a]" | (two) a i where "path = [a, i]" | (three) a i b where "path = [a, i, b]"
    | (none) "path = []" | (more) a i b c p where "path = a # i # b # c # p"
    by (metis neq_Nil_conv)
  then show ?thesis
  proof cases
    case (three a i b)
    then show ?thesis using assms(2) ok unfolding RegisterRoutes_def by (auto simp del: char.inject)
  qed (use ok in \<open>simp_all add: RegisterRoutes_def\<close>)
qed

lemma answers_pages:
  assumes "printable_ids L"
  shows "yields (\<lambda>_. True) (pageHandler U st page typ cur)"
proof -
  let ?evs = "list_all (\<lambda>v. ev_EntityID v = [] \<or> has_id (ev_EntityID v)) :: Event list \<Rightarrow> bool"
  have ev: "yields ?evs (ignored [] (st_GetAllEvents st eo c))" for eo c
    using event_ids [OF assms] by (intro yields_ignored) simp_all
  have "yields (\<lambda>_. True) (events_page U st typ cur)"
    unfolding events_page_def Let_def by (intro yields_dbind [OF ev] yields_render events_render)
  moreover have "yields (\<lambda>_. True) (dbind (st_Stats st) (\<lambda>(stats, _). dbind (all_of_types st (map fst (ss_EntityTypes stats))) (\<lambda>all.
      render Page (EntitiesPage U all))))"
    by (rule answers_listing [OF assms card_lists(3)])
  moreover have "yields (\<lambda>_. True) (dbind (st_Stats st) (\<lambda>(stats, _). dret (Page (StatsPage U stats))))"
    by (intro yields_dbind [OF answers_stats] yields_case_prod yields_dret TrueI)
  ultimately show ?thesis unfolding pageHandler_def by (simp add: yields_dret)
qed

lemma answers_serve:
  assumes "printable_ids L" "\<And>i. path \<noteq> [''fragments'', ''entities'', i, ''graph'']"
  shows "yields (\<lambda>_. True) (explorer_serve U st q typ cur path)"
  unfolding explorer_serve_def
proof (intro yields_if yields_dret TrueI answers_pages [OF assms(1)])
  assume p: "\<not> (path = [] \<or> path = [''search''])" "hd path = ''fragments''"
  have "tl path \<noteq> [''entities'', i, ''graph'']" for i
  proof
    assume "tl path = [''entities'', i, ''graph'']"
    then have "path = [''fragments'', ''entities'', i, ''graph'']" using p by (metis list.collapse)
    then show False using assms(2) by blast
  qed
  then show "yields (\<lambda>_. True) (RegisterRoutes U st q (tl path))" by (rule answers_routes [OF assms(1)])
qed

end

text \<open>Links of a listing, and where they lead.\<close>

lemma links_badges [simp]: "concat (map links (ghost_badges tags)) = []"
  by (induction tags) (simp_all add: ghost_badges_def)

lemma links_card: "entityCard U e = Some h \<Longrightarrow> links h = [entity_url (se_ID e)]"
  by (auto simp: entityCard_def cls_def split: if_splits option.splits)

lemma links_cards: "those (map (entityCard U) es) = Some cards \<Longrightarrow> concat (map links cards) = map (\<lambda>e. entity_url (se_ID e)) es"
proof (induction es arbitrary: cards)
  case (Cons e es)
  then show ?case by (auto split: option.splits simp: links_card)
qed simp

lemma links_list: "entityList U es = Some h \<Longrightarrow> links h = map (\<lambda>e. entity_url (se_ID e)) es"
  by (auto simp: entityList_def cls_def dest: links_cards)

context explorable
begin

lemma listed_all:
  assumes "all_of_types st tys s = (s', Inr es)"
  shows "list_all (\<lambda>x. sees x \<and> (\<exists>e\<in>set (entities (tabs s)). live e \<and> x = entityFromRow L e)) es"
  using assms
proof (induction tys arbitrary: s es)
  case (Cons ty tys)
  obtain s1 xs rest where 1: "ignored [] (st_GetEntitiesByType st ty 100 None None) s = (s1, Inr xs)"
    and 2: "all_of_types st tys s1 = (s', Inr rest)" and es: "es = xs @ rest"
    using Cons.prems by (auto simp: dbind_Inr_iff)
  have "tabs s1 = tabs s" by (rule readonlyD [OF readonly_ignored [OF reads(3)] 1])
  moreover have "list_all (\<lambda>x. sees x \<and> (\<exists>e\<in>set (entities (tabs s)). live e \<and> x = entityFromRow L e)) xs"
    using 1 listed by (auto simp: ignored_def split: prod.splits sum.splits)
  ultimately show ?case using Cons.IH [OF 2] es by simp
qed simp

lemma list_shows:
  assumes "EntityListFragment U st s = (s', Inr r)"
  obtains es h where "r = Patch h" "entityList U es = Some h"
    "list_all (\<lambda>x. sees x \<and> (\<exists>e\<in>set (entities (tabs s)). live e \<and> x = entityFromRow L e)) es"
proof -
  obtain s1 stats ee s2 es where 1: "st_Stats st s = (s1, Inr (stats, ee))" and 2: "all_of_types st (map fst (ss_EntityTypes stats)) s1 = (s2, Inr es)"
    and 3: "render Patch (entityList U es) s2 = (s', Inr r)"
    using assms by (auto simp: EntityListFragment_def dbind_Inr_iff)
  have "tabs s1 = tabs s" by (rule readonlyD [OF reads(1) 1])
  then show thesis using that 3 listed_all [OF 2] by (auto simp: render_def split: option.splits)
qed

lemma detail_opens:
  assumes "printable_ids L" "st_GetEntity st i s = (s1, Inr x)"
  shows "\<exists>s' h. EntityDetailFragment U st i s = (s', Inr (Drawer h ''max-w-2xl''))"
proof -
  let ?k = "dbind (ignored [] (st_GetAnchorsForEntity st i)) (\<lambda>ancs.
     dbind (ignored [] (st_GetRelationsFromEntity st i 20 None)) (\<lambda>outbound.
     dbind (ignored [] (st_GetRelationsToEntity st i 20 None)) (\<lambda>inbound.
     dbind (resolveEntities st i) (\<lambda>resolved.
     dret (Drawer (entityDetail U x (prettyJSON U (se_Data x)) ancs outbound inbound resolved) ''max-w-2xl'')))))"
  have "yields (\<lambda>r. \<exists>h. r = Drawer h ''max-w-2xl'') ?k"
    by (intro yields_dbind [OF answers_anything] yields_dbind [OF answers_resolve [OF assms(1)]] yields_dret) blast
  moreover have "EntityDetailFragment U st i s = ?k s1" using assms(2) by (simp add: EntityDetailFragment_def or_error_def)
  ultimately show ?thesis unfolding yields_def by fastforce
qed

lemma list_links_open:
  assumes "printable_ids L" "EntityListFragment U st s = (s', Inr (Patch h))" "url \<in> set (links h)"
    and "tabs s2 = tabs s" "tx s2 = None" "\<And>k. \<not> fault s2 k" "schema (tabs s)"
  shows "\<exists>e\<in>set (entities (tabs s)). live e \<and> sees (entityFromRow L e) \<and> url = entity_url (uuid_String L (e_id e))
    \<and> (\<exists>s3 h'. EntityDetailFragment U st (uuid_String L (e_id e)) s2 = (s3, Inr (Drawer h' ''max-w-2xl'')))"
proof -
  obtain es h1 where r: "Patch h = Patch h1" "entityList U es = Some h1"
    and all: "list_all (\<lambda>x. sees x \<and> (\<exists>e\<in>set (entities (tabs s)). live e \<and> x = entityFromRow L e)) es"
    by (rule list_shows [OF assms(2)])
  obtain x where x: "x \<in> set es" "url = entity_url (se_ID x)" using assms(3) r links_list by auto
  then obtain e where e: "e \<in> set (entities (tabs s))" "live e" "x = entityFromRow L e" "sees x" using all by (auto simp: list_all_iff)
  obtain s' x' where "st_GetEntity st (uuid_String L (e_id e)) s2 = (s', Inr x')"
    using readable [of e s2] e assms(4-7) by auto
  from detail_opens [OF assms(1) this] e x(2) show ?thesis by (auto simp: entityFromRow_def)
qed

end

section \<open>Both stores can be explored\<close>

lemma has_id_String: "printable_ids L \<Longrightarrow> has_id (uuid_String L u)"
  by (simp add: printable_ids_def has_id_def)

lemma store_ids:
  assumes "printable_ids L"
  shows "Search L q n f s = (s', Inr es) \<Longrightarrow> list_all (has_id \<circ> se_ID) es"
    "GetRelationsFromEntity L i n c s = (s', Inr rs) \<Longrightarrow> list_all (has_id \<circ> sr_TargetID) rs"
    "GetRelationsToEntity L i n c s = (s', Inr rs) \<Longrightarrow> list_all (has_id \<circ> sr_SourceID) rs"
    "GetAllEvents L eo c s = (s', Inr evs) \<Longrightarrow> list_all (\<lambda>v. ev_EntityID v = [] \<or> has_id (ev_EntityID v)) evs"
    "GetEntity L i s = (s', Inr x) \<Longrightarrow> has_id (se_ID x)"
    "Traverse L i to1 s = (s', Inr ns) \<Longrightarrow> list_all (\<lambda>n. has_id (se_ID (tr_Entity n))) ns"
proof -
  note ids = has_id_String [OF assms]
  have rows: "list_all (has_id \<circ> se_ID) (map (entityFromRow L) rows)" for rows
    using ids by (simp add: list_all_iff entityFromRow_def)
  show "Search L q n f s = (s', Inr es) \<Longrightarrow> list_all (has_id \<circ> se_ID) es"
    using rows by (auto simp: Search_def FindByTokens_def Let_def dbind_Inr_iff dmap_Inr_iff split: if_splits)
  show "GetRelationsFromEntity L i n c s = (s', Inr rs) \<Longrightarrow> list_all (has_id \<circ> sr_TargetID) rs"
    "GetRelationsToEntity L i n c s = (s', Inr rs) \<Longrightarrow> list_all (has_id \<circ> sr_SourceID) rs"
    using ids by (auto simp: GetRelationsFromEntity_def GetRelationsToEntity_def dbind_Inr_iff dmap_Inr_iff list_all_iff relationFromRow_def)
  show "GetAllEvents L eo c s = (s', Inr evs) \<Longrightarrow> list_all (\<lambda>v. ev_EntityID v = [] \<or> has_id (ev_EntityID v)) evs"
    using ids by (auto simp: GetAllEvents_def dmap_Inr_iff list_all_iff eventFromAllEventsRow_def toEvent_def text_or_empty_def
        split: option.split)
  show "GetEntity L i s = (s', Inr x) \<Longrightarrow> has_id (se_ID x)"
    using ids by (auto simp: GetEntity_def dbind_Inr_iff dmap_Inr_iff entityFromRow_def)
  show "Traverse L i to1 s = (s', Inr ns) \<Longrightarrow> list_all (\<lambda>n. has_id (se_ID (tr_Entity n))) ns"
    using ids by (auto simp: list_all_iff entityFromRow_def dest!: Traverse_Inr)
qed

lemma readonly_more:
  "readonly (GetAnchorsForEntity L i)" "readonly (GetEventByID L i)" "readonly (Traverse L i to1)"
  unfolding GetAnchorsForEntity_def GetEventByID_def Traverse_def q_GetAnchorsForEntity_def q_GetEventByID_def traverseSQL_def Let_def
  by (intro readonly_intros)+

lemma readonly_and_err: "readonly m \<Longrightarrow> (\<And>x. readonly (k x)) \<Longrightarrow> readonly (and_err m st k)"
  by (auto simp: readonly_def and_err_def split: prod.splits sum.splits) (metis fst_conv)+

lemma readonly_stats_value: "readonly stats_value"
  unfolding stats_value_def Let_def CountAllEntities_def CountAllRelations_def CountSoftDeleted_def CountEntityTypes_def
    CountRelationTypes_def q_CountAllEntities_def q_CountAllRelations_def q_CountSoftDeleted_def q_CountEntityTypes_def
    q_CountRelationTypes_def
  by (intro readonly_and_err readonly_intros)

lemma stats_value_answers: "\<exists>s' x. stats_value s = (s', Inr x)"
proof -
  have a: "yields (\<lambda>_. True) (and_err m st k)" if "\<And>x. yields (\<lambda>_. True) (k x)" for m :: "'a dbm" and st k
    using that by (auto simp: yields_def and_err_def split: prod.split sum.split)
  have "yields (\<lambda>_. True) stats_value" unfolding stats_value_def Let_def by (intro a yields_dret TrueI)
  then show ?thesis by (auto simp: yields_def)
qed

lemma GetEntity_found:
  assumes "e \<in> set (entities (tabs s))" "live e" "tx s = None" "\<And>k. \<not> fault s k" "schema (tabs s)"
  shows "\<exists>s'. GetEntity L (uuid_String L (e_id e)) s = (s', Inr (entityFromRow L e))"
proof -
  have "filter (\<lambda>x. e_id x = e_id e \<and> live x) (entities (tabs s)) = [e]"
  proof (rule distinct_set_singleton)
    show "distinct (filter (\<lambda>x. e_id x = e_id e \<and> live x) (entities (tabs s)))"
      using assms(5) by (simp add: schema_def entities_ok_def distinct_map)
    show "set (filter (\<lambda>x. e_id x = e_id e \<and> live x) (entities (tabs s))) = {e}"
      using assms(1,2) distinct_id [OF assms(5)] by auto
  qed
  then show ?thesis
    using assms(3,4) by (simp add: GetEntity_def parse_id_def q_GetEntity_def select_one_def exec_one_def dmap_def dbind_def dwrap_def
        dret_def exec_fault_free)
qed

lemmas plain_ops = plain_storer_def EntityStore_Search_def EntityStore_GetEntitiesByType_def EntityStore_GetEntity_def
  EntityStore_GetAnchorsForEntity_def EntityStore_GetRelationsFromEntity_def EntityStore_GetRelationsToEntity_def
  EntityStore_GetEventByID_def EntityStore_GetAllEvents_def EntityStore_Traverse_def

lemmas scoped_ops = scoped_storer_def ScopedStore_Search_def ScopedStore_GetEntitiesByType_def ScopedStore_GetEntity_def
  ScopedStore_GetAnchorsForEntity_def ScopedStore_GetRelationsFromEntity_def ScopedStore_GetRelationsToEntity_def
  ScopedStore_GetEventByID_def ScopedStore_GetAllEvents_def ScopedStore_Traverse_def Let_def

interpretation plain_view: explorable L "plain_storer L es" "\<lambda>_. True" for L es
proof
  show "readonly (st_Stats (plain_storer L es))" by (simp add: plain_ops readonly_stats_value)
  show "readonly (st_GetAnchorsForEntity (plain_storer L es) i)" "readonly (st_GetEventByID (plain_storer L es) i)"
    "readonly (st_Traverse (plain_storer L es) i to1)" for i to1
    by (simp_all add: plain_ops readonly_more)
  show "readonly (st_Search (plain_storer L es) q n f)" "readonly (st_GetEntitiesByType (plain_storer L es) ty n c f)"
    "readonly (st_GetEntity (plain_storer L es) i)" "readonly (st_GetRelationsFromEntity (plain_storer L es) i n c)"
    "readonly (st_GetRelationsToEntity (plain_storer L es) i n c)" "readonly (st_GetAllEvents (plain_storer L es) eo c)"
    for q n f ty c i eo
    using reads_are_readonly by (simp_all add: plain_ops)
  show "\<exists>s' x. st_Stats (plain_storer L es) s = (s', Inr x)" for s
    using stats_value_answers by (simp add: plain_ops)
  show "st_GetEntitiesByType (plain_storer L es) ty n c None s = (s', Inr xs) \<Longrightarrow>
      list_all (\<lambda>x. True \<and> (\<exists>e\<in>set (entities (tabs s)). live e \<and> x = entityFromRow L e)) xs" for ty n c s s' xs
    using GetEntitiesByTypeFiltered_visible by (fastforce simp: plain_ops list_all_iff visible_def)
  show "e \<in> set (entities (tabs s)) \<Longrightarrow> live e \<Longrightarrow> tx s = None \<Longrightarrow> (\<And>k. \<not> fault s k) \<Longrightarrow> schema (tabs s) \<Longrightarrow>
      \<exists>s' x. st_GetEntity (plain_storer L es) (uuid_String L (e_id e)) s = (s', Inr x)" for e s
    using GetEntity_found [of e s L] by (fastforce simp: plain_ops)
qed (auto simp: plain_ops dest: store_ids)

interpretation scoped_view: explorable L "scoped_storer L sc" "entityVisible sc" for L sc
proof
  show "readonly (st_Stats (scoped_storer L sc))" by (simp add: scoped_ops readonly_stats_value)
  have "readonly (check_visible sc x)" for x by (simp add: check_visible_def readonly_basic)
  then show "readonly (st_GetEntity (scoped_storer L sc) i)" for i
    using plain_view.reads(4) [of L "ss_inner sc"] by (simp add: scoped_ops plain_storer_def readonly_dbind)
  show "readonly (st_GetAnchorsForEntity (scoped_storer L sc) i)" "readonly (st_GetEventByID (scoped_storer L sc) i)"
    "readonly (st_Traverse (scoped_storer L sc) i to1)" "readonly (st_Search (scoped_storer L sc) q n f)"
    "readonly (st_GetEntitiesByType (scoped_storer L sc) ty n c f)"
    "readonly (st_GetRelationsFromEntity (scoped_storer L sc) i n c)"
    "readonly (st_GetRelationsToEntity (scoped_storer L sc) i n c)" "readonly (st_GetAllEvents (scoped_storer L sc) eo c)"
    for i to1 q n f ty c eo
    using plain_view.reads [of L "ss_inner sc"] by (simp_all add: scoped_ops plain_storer_def)
  show "\<exists>s' x. st_Stats (scoped_storer L sc) s = (s', Inr x)" for s
    using stats_value_answers by (simp add: scoped_ops)
  show "st_GetEntitiesByType (scoped_storer L sc) ty n c None s = (s', Inr xs) \<Longrightarrow>
      list_all (\<lambda>x. entityVisible sc x \<and> (\<exists>e\<in>set (entities (tabs s)). live e \<and> x = entityFromRow L e)) xs" for ty n c s s' xs
    using GetEntitiesByTypeFiltered_visible mergeFilter_scope [of None sc]
    by (fastforce simp: scoped_ops EntityStore_GetEntitiesByType_def list_all_iff visible_def unlessTagsParam_def)
  show "e \<in> set (entities (tabs s)) \<Longrightarrow> live e \<Longrightarrow> entityVisible sc (entityFromRow L e) \<Longrightarrow> tx s = None \<Longrightarrow> (\<And>k. \<not> fault s k) \<Longrightarrow>
      schema (tabs s) \<Longrightarrow> \<exists>s' x. st_GetEntity (scoped_storer L sc) (uuid_String L (e_id e)) s = (s', Inr x)" for e s
    using GetEntity_found [of e s L] by (fastforce simp: scoped_ops EntityStore_GetEntity_def dbind_def check_visible_def dret_def)
qed (auto simp: scoped_ops plain_ops dbind_Inr_iff dest: store_ids)

section \<open>Properties\<close>

text \<open>C14. The explorer answers every request and changes nothing: over the plain and over a scoped store, whatever the path,
  the parameters and the state of the database, and whichever statements fail, serving a request neither panics nor
  touches a table, provided identifiers print with at least eight characters. The one exception is the graph fragment.\<close>

theorem explorer_answers:
  assumes "printable_ids L" "\<forall>i. path \<noteq> [''fragments'', ''entities'', i, ''graph'']"
    and "st = plain_storer L es \<or> st = scoped_storer L sc"
  shows "\<exists>s' resp. explorer_serve U st q typ cur path s = (s', Inr resp) \<and> tabs s' = tabs s"
proof -
  have p: "path \<noteq> [''fragments'', ''entities'', i, ''graph'']" for i using assms(2) by blast
  have y: "yields (\<lambda>_. True) (explorer_serve U st q typ cur path)"
    using assms(3) plain_view.answers_serve [OF assms(1) p] scoped_view.answers_serve [OF assms(1) p] by auto
  have r: "readonly (explorer_serve U st q typ cur path)"
    using assms(3) plain_view.readonly_serve scoped_view.readonly_serve by auto
  from y obtain s' resp where "explorer_serve U st q typ cur path s = (s', Inr resp)" unfolding yields_def by blast
  with readonlyD [OF r this] show ?thesis by blast
qed

text \<open>C15. No dead links: every link of the entity list leads to a live entity that the client may see, and opening it in a state
  with the same tables, when the database answers, shows the drawer with its details. This holds over the plain store
  and over a scoped store, where the list names entities of the scope only.\<close>

theorem entity_list_links_open:
  assumes "printable_ids L" "st = plain_storer L es \<and> sees = (\<lambda>_. True) \<or> st = scoped_storer L sc \<and> sees = entityVisible sc"
    and "EntityListFragment U st s = (s', Inr (Patch h))" "url \<in> set (links h)"
    and "tabs s2 = tabs s" "tx s2 = None" "\<forall>k. \<not> fault s2 k" "schema (tabs s)"
  shows "\<exists>e\<in>set (entities (tabs s)). live e \<and> sees (entityFromRow L e) \<and> url = entity_url (uuid_String L (e_id e))
    \<and> (\<exists>s3 h'. EntityDetailFragment U st (uuid_String L (e_id e)) s2 = (s3, Inr (Drawer h' ''max-w-2xl'')))"
  using assms(2,3,7) plain_view.list_links_open [OF assms(1) _ assms(4,5,6) _ assms(8)]
    scoped_view.list_links_open [OF assms(1) _ assms(4,5,6) _ assms(8)] by metis

lemma ignored_runs: "\<exists>s' x. ignored z m s = (s', Inr x)"
  by (auto simp: ignored_def split: prod.split sum.split)

text \<open>The graph fragment panics on an entity that is not there: the handler ignores the failed lookup and renders the
  first eight characters of an empty identifier.\<close>

theorem graph_of_missing_entity_panics:
  assumes "\<forall>u. uuid_Parse L i = Some u \<longrightarrow> (\<forall>e\<in>set (entities (tabs s)). e_id e = u \<longrightarrow> \<not> live e)"
  shows "snd (EntityGraphFragment (plain_storer L es) i s) = Inl Panic"
proof -
  let ?m = "ignored [] (st_Traverse (plain_storer L es) i (Some (zero_TraverseOpts\<lparr>to_MaxDepth := 2, to_MaxResults := 30\<rparr>)))"
  obtain s1 ns where 1: "?m s = (s1, Inr ns)" using ignored_runs [of "[]" "st_Traverse (plain_storer L es) i (Some (zero_TraverseOpts\<lparr>to_MaxDepth := 2, to_MaxResults := 30\<rparr>))" s] by auto
  have t: "tabs s1 = tabs s" by (rule readonlyD [OF plain_view.readonly_ignored [OF plain_view.reads(10)] 1])
  have "GetEntity L i s1 \<noteq> (s2, Inr x)" for s2 x
    using GetEntity_contract [of L i s1 s2 x] assms t by auto
  then obtain s2 e where "GetEntity L i s1 = (s2, Inl e)" by (metis old.sum.exhaust prod.collapse)
  then have "ignored zero_entity (st_GetEntity (plain_storer L es) i) s1 = (s2, Inr zero_entity)" by (simp add: ignored_def plain_ops)
  then show ?thesis
    using 1 by (simp add: EntityGraphFragment_def dbind_def render_def entityGraph_def zero_entity_def first8_def dfail_def)
qed

text \<open>A scope has no effect on the pages of events and statistics: they show the whole store.\<close>

lemma scope_ignored_by_pages:
  "explorer_serve U (scoped_storer L sc) q typ cur [''events''] = explorer_serve U (plain_storer L (ss_inner sc)) q typ cur [''events'']"
  "explorer_serve U (scoped_storer L sc) q typ cur [''stats''] = explorer_serve U (plain_storer L (ss_inner sc)) q typ cur [''stats'']"
  by (simp_all add: explorer_serve_def pageHandler_def events_page_def scoped_storer_def plain_storer_def ScopedStore_GetAllEvents_def)

section \<open>A store to explore\<close>

definition padded_parse :: "string \<Rightarrow> uuid option" where
  "padded_parse s = (if take 8 s = ''00000000'' then unary_parse (drop 8 s) else None)"

definition padded_codec :: uuid_codec where
  "padded_codec = Abs_uuid_codec (padded_parse, \<lambda>u. ''00000000'' @ unary_string u)"

lemma padded_codec_simps [simp]: "codec_Parse padded_codec = padded_parse" "codec_String padded_codec u = ''00000000'' @ unary_string u"
  by (simp_all add: codec_Parse_def codec_String_def padded_codec_def Abs_uuid_codec_inverse padded_parse_def unary_roundtrip)

definition padded_lib :: lib where
  "padded_lib = demo_lib\<lparr>lib_codec := padded_codec\<rparr>"

definition demo_ui :: uilib where
  "demo_ui = \<lparr>ui_Format = (\<lambda>layout t. ''now''), ui_ParseTime = (\<lambda>_. None), ui_Indent = (\<lambda>_. ''{}''), ui_Quote = (\<lambda>t. t),
     ui_CSRFToken = [], ui_Theme = ''light''\<rparr>"

definition demo_view :: EntityStorer where
  "demo_view = plain_storer padded_lib \<lparr>es_store = demo_store\<rparr>"

lemma printable_padded: "printable_ids padded_lib"
  by (simp add: printable_ids_def padded_lib_def)

theorem explorer_answers_witness:
  "\<exists>s' resp. explorer_serve demo_ui demo_view [] [] [] [''fragments'', ''entities'', ''x''] demo_state = (s', Inr resp)
    \<and> tabs s' = tabs demo_state"
  unfolding demo_view_def by (rule explorer_answers [OF printable_padded _ disjI1 [OF refl]]) simp

theorem graph_of_missing_entity_panics_witness:
  "snd (EntityGraphFragment demo_view ''x'' demo_state) = Inl Panic"
  unfolding demo_view_def by (rule graph_of_missing_entity_panics) (simp add: padded_lib_def padded_parse_def)

lemma and_err_answers:
  assumes "\<And>s. answers_with demo_tables s \<Longrightarrow> \<exists>s'. m s = (s', Inr x) \<and> answers_with demo_tables s'"
    and "\<And>s. answers_with demo_tables s \<Longrightarrow> \<exists>s'. k x s = (s', Inr y) \<and> answers_with demo_tables s'" "answers_with demo_tables s"
  shows "\<exists>s'. and_err m st k s = (s', Inr y) \<and> answers_with demo_tables s'"
  using assms by (fastforce simp: and_err_def)

lemma counts_answer:
  assumes "answers_with demo_tables s"
  shows "\<exists>s'. CountAllEntities s = (s', Inr 1) \<and> answers_with demo_tables s'" "\<exists>s'. CountAllRelations s = (s', Inr 0) \<and> answers_with demo_tables s'"
    "\<exists>s'. CountSoftDeleted s = (s', Inr 0) \<and> answers_with demo_tables s'" "\<exists>s'. CountEntityTypes s = (s', Inr [(''t.v1.X'', 1)]) \<and> answers_with demo_tables s'"
    "\<exists>s'. CountRelationTypes s = (s', Inr []) \<and> answers_with demo_tables s'"
  using assms by (simp_all add: CountAllEntities_def CountAllRelations_def CountSoftDeleted_def CountEntityTypes_def CountRelationTypes_def
      q_CountAllEntities_def q_CountAllRelations_def q_CountSoftDeleted_def q_CountEntityTypes_def q_CountRelationTypes_def
      answers_with_def select_def exec_fault_free dwrap_def demo_tables_def empty_tables_def group_counts_def new_entity_def live_def)

lemma demo_stats: "answers_with demo_tables s \<Longrightarrow> \<exists>s'. stats_value s = (s', Inr (\<lparr>ss_TotalEntities = 1, ss_TotalRelations = 0, ss_SoftDeleted = 0,
    ss_EntityTypes = [(''t.v1.X'', 1)], ss_RelationTypes = []\<rparr>, None)) \<and> answers_with demo_tables s'"
  unfolding stats_value_def Let_def
  by (rule and_err_answers, erule counts_answer)+ (simp_all add: zero_stats_def dret_def)

lemma demo_by_type:
  "answers_with demo_tables s \<Longrightarrow> \<exists>s'. st_GetEntitiesByType demo_view ''t.v1.X'' 100 None None s
     = (s', Inr [entityFromRow padded_lib (new_entity 1 500 ''t.v1.X'' (JObj []) 1 [] ''n'')])"
  by (simp add: demo_view_def plain_ops GetEntitiesByTypeFiltered_def q_GetEntitiesByTypeFiltered_def select_limit_def dmap_def dbind_def dwrap_def
      dret_def answers_with_def exec_fault_free page_or_def demo_tables_def empty_tables_def new_entity_def live_def before_cursor_def tag_filter_def
      tagsParam_def anyTagsParam_def excludeTagParam_def unlessTagsParam_def)

lemma demo_card: "\<exists>h. entityList demo_ui [entityFromRow padded_lib e] = Some h"
  by (simp add: entityList_def entityCard_def first8_def entityFromRow_def padded_lib_def)

lemma demo_entity_list:
  "\<exists>s' h. EntityListFragment demo_ui demo_view demo_state = (s', Inr (Patch h)) \<and> links h = [entity_url (uuid_String padded_lib 1)]"
proof -
  have "answers_with demo_tables demo_state" by (simp add: answers_with_def demo_state_def)
  from demo_stats [OF this] obtain s1 stats where 1: "st_Stats demo_view demo_state = (s1, Inr (stats, None))" "answers_with demo_tables s1"
    "ss_EntityTypes stats = [(''t.v1.X'', 1)]"
    by (auto simp: demo_view_def plain_ops)
  obtain s2 where 2: "st_GetEntitiesByType demo_view ''t.v1.X'' 100 None None s1
     = (s2, Inr [entityFromRow padded_lib (new_entity 1 500 ''t.v1.X'' (JObj []) 1 [] ''n'')])"
    using demo_by_type [OF 1(2)] by blast
  obtain h where h: "entityList demo_ui [entityFromRow padded_lib (new_entity 1 500 ''t.v1.X'' (JObj []) 1 [] ''n'')] = Some h"
    using demo_card by blast
  show ?thesis using 1 2 h links_list [OF h]
    by (simp add: EntityListFragment_def dbind_def ignored_def dret_def render_def entityFromRow_def new_entity_def)
qed

theorem entity_list_links_open_witness:
  "\<exists>s' h s3 h'. EntityListFragment demo_ui demo_view demo_state = (s', Inr (Patch h)) \<and> links h = [entity_url (uuid_String padded_lib 1)]
     \<and> EntityDetailFragment demo_ui demo_view (uuid_String padded_lib 1) demo_state = (s3, Inr (Drawer h' ''max-w-2xl''))"
proof -
  obtain s' h where l: "EntityListFragment demo_ui demo_view demo_state = (s', Inr (Patch h))" "links h = [entity_url (uuid_String padded_lib 1)]"
    using demo_entity_list by blast
  have "\<exists>e\<in>set (entities (tabs demo_state)). live e \<and> (\<lambda>_. True) (entityFromRow padded_lib e)
      \<and> entity_url (uuid_String padded_lib 1) = entity_url (uuid_String padded_lib (e_id e))
      \<and> (\<exists>s3 h'. EntityDetailFragment demo_ui demo_view (uuid_String padded_lib (e_id e)) demo_state = (s3, Inr (Drawer h' ''max-w-2xl'')))"
    using schema_demo by (intro entity_list_links_open [OF printable_padded disjI1 [OF conjI [OF demo_view_def refl]] l(1)])
      (simp_all add: l(2) demo_state_def)
  with l show ?thesis by (auto simp: demo_state_def demo_tables_def new_entity_def)
qed

end
