(* ===== verification/Progress.thy ===== *)
theory Progress
  imports Refinement
begin

text \<open>
  When a batch of \<open>src/store/store_write.go\<close> succeeds. The theorems on effects say what a batch that returns results has done;
  here the converse: a batch whose operations are acceptable in the tables returns results, as long as no statement fails
  and the identifiers generated for it are fresh. \<open>runs\<close> is a triple of total correctness whose budget counts external calls.
\<close>

section \<open>Transactions that answer\<close>

text \<open>Every identifier that a primary key mentions.\<close>

definition ids :: "tables \<Rightarrow> uuid set" where
  "ids t = e_id ` set (entities t) \<union> r_id ` set (relations t) \<union> v_id ` set (events t)"

text \<open>For the next \<open>n\<close> external calls nothing fails, and the identifiers generated there are distinct, not in use, and none of \<open>A\<close>.\<close>

definition undisturbed :: "uuid set \<Rightarrow> nat \<Rightarrow> db \<Rightarrow> bool" where
  "undisturbed A n s \<longleftrightarrow> (\<forall>k\<in>{tick s..<tick s + n}. \<not> fault s k \<and> uuids s k \<notin> ids (tabs s) \<union> A)
     \<and> inj_on (uuids s) {tick s..<tick s + n}"

definition ready :: "uuid set \<Rightarrow> nat \<Rightarrow> db \<Rightarrow> bool" where
  "ready A n s \<longleftrightarrow> in_live_tx s \<and> undisturbed A n s"

definition runs :: "uuid set \<Rightarrow> nat \<Rightarrow> 'a dbm \<Rightarrow> (tables \<Rightarrow> bool) \<Rightarrow> ('a \<Rightarrow> tables \<Rightarrow> bool) \<Rightarrow> bool" where
  "runs A n m P Q \<longleftrightarrow> (\<forall>s k. ready A (n + k) s \<longrightarrow> P (tabs s) \<longrightarrow>
     (\<exists>s' x. m s = (s', Inr x) \<and> ready A k s' \<and> Q x (tabs s')))"

lemma undisturbed_less: "undisturbed A n s \<Longrightarrow> k \<le> n \<Longrightarrow> undisturbed A k s"
  by (auto simp: undisturbed_def intro: inj_on_subset)

lemma undisturbed_next:
  assumes "undisturbed A (i + k) s" "tick s' = tick s + i" "fault s' = fault s" "uuids s' = uuids s"
    and "ids (tabs s') \<subseteq> ids (tabs s) \<union> uuids s ` {tick s..<tick s + i} \<union> A"
  shows "undisturbed A k s'"
proof -
  have "uuids s j \<notin> ids (tabs s')" if j: "tick s + i \<le> j" "j < tick s + i + k" for j
  proof
    assume "uuids s j \<in> ids (tabs s')"
    moreover have "uuids s j \<notin> ids (tabs s) \<union> A" using assms(1) j by (auto simp: undisturbed_def)
    ultimately obtain i' where "i' \<in> {tick s..<tick s + i}" "uuids s j = uuids s i'" using assms(5) by auto
    then show False using assms(1) j by (auto simp: undisturbed_def dest: inj_onD)
  qed
  then show ?thesis using assms(1-4) by (auto simp: undisturbed_def intro: inj_on_subset)
qed

lemma runsD: "runs A n m P Q \<Longrightarrow> ready A (n + k) s \<Longrightarrow> P (tabs s) \<Longrightarrow> \<exists>s' x. m s = (s', Inr x) \<and> ready A k s' \<and> Q x (tabs s')"
  unfolding runs_def by blast

named_theorems runs_intros \<open>programs that succeed\<close>

lemma runs_at: "(\<And>t0. P t0 \<Longrightarrow> runs A n m (\<lambda>t. t = t0) Q) \<Longrightarrow> runs A n m P Q"
  unfolding runs_def by blast

lemma runs_weaken: "runs A n m P Q \<Longrightarrow> (\<And>t. P' t \<Longrightarrow> P t) \<Longrightarrow> (\<And>x t. Q x t \<Longrightarrow> Q' x t) \<Longrightarrow> runs A n m P' Q'"
  unfolding runs_def by blast

lemma runs_budget: "runs A n m P Q \<Longrightarrow> n \<le> n' \<Longrightarrow> runs A n' m P Q"
  unfolding runs_def ready_def
  by (metis undisturbed_less add.assoc le_add2 le_iff_add add.commute)

lemma runs_dret: "(\<And>t. P t \<Longrightarrow> Q x t) \<Longrightarrow> runs A 0 (dret x) P Q"
  by (auto simp: runs_def dret_def)

lemma runs_dbind:
  assumes "runs A n m P Q" "\<And>x. runs A k (f x) (Q x) R"
  shows "runs A (n + k) (dbind m f) P R"
  unfolding runs_def
proof (intro allI impI)
  fix s j assume "ready A (n + k + j) s" "P (tabs s)"
  then obtain s1 x where "m s = (s1, Inr x)" "ready A (k + j) s1" "Q x (tabs s1)"
    using runsD [OF assms(1), of "k + j" s] by (auto simp: add.assoc)
  then show "\<exists>s' x. dbind m f s = (s', Inr x) \<and> ready A j s' \<and> R x (tabs s')"
    using runsD [OF assms(2)] by (auto simp: dbind_def)
qed

lemma runs_dwrap: "runs A n m P Q \<Longrightarrow> runs A n (dwrap w m) P Q"
  unfolding runs_def dwrap_Inr_iff .

lemma runs_dmap: "runs A n m P (\<lambda>x. Q (f x)) \<Longrightarrow> runs A n (dmap f m) P Q"
  unfolding dmap_def using runs_dbind [of A n m P "\<lambda>x. Q (f x)" 0 "\<lambda>x. dret (f x)" Q] by (simp add: runs_dret)

section \<open>Statements\<close>

lemma runs_exec:
  assumes "\<And>now uid t. P t \<Longrightarrow> uid \<notin> ids t \<union> A \<Longrightarrow>
    \<exists>t' x. f now uid t = Inr (t', x) \<and> ids t' \<subseteq> insert uid (ids t) \<union> A \<and> Q x t'"
  shows "runs A 1 (exec f) P Q"
  unfolding runs_def
proof (intro allI impI)
  fix s k assume r: "ready A (1 + k) s" and p: "P (tabs s)"
  obtain T where T: "tx s = Some T" "\<not> tx_aborted T" using r by (auto simp: ready_def in_live_tx_def)
  have u: "undisturbed A (1 + k) s" using r by (simp add: ready_def)
  then have now: "\<not> fault s (tick s)" "uuids s (tick s) \<notin> ids (tabs s) \<union> A" by (auto simp: undisturbed_def)
  obtain t' x where f: "f (tx_now T) (uuids s (tick s)) (tabs s) = Inr (t', x)"
    "ids t' \<subseteq> insert (uuids s (tick s)) (ids (tabs s)) \<union> A" "Q x t'"
    using assms [OF p now(2)] by blast
  let ?s = "(next_tick s)\<lparr>tabs := t'\<rparr>"
  have "exec f s = (?s, Inr x)" using T now f by (simp add: exec_def exec_tx_def)
  moreover have "undisturbed A k ?s" by (rule undisturbed_next [OF u]) (use f(2) in \<open>auto simp: next_tick_def\<close>)
  ultimately show "\<exists>s' x. exec f s = (s', Inr x) \<and> ready A k s' \<and> Q x (tabs s')"
    using T f(3) by (auto simp: ready_def in_live_tx_def next_tick_def)
qed

lemma runs_exec_one:
  assumes "\<And>now uid t. P t \<Longrightarrow> uid \<notin> ids t \<union> A \<Longrightarrow>
    \<exists>t' x xs. f now uid t = Inr (t', x # xs) \<and> ids t' \<subseteq> insert uid (ids t) \<union> A \<and> Q x t'"
  shows "runs A 1 (exec_one f) P Q"
proof -
  have "runs A (1 + 0) (exec_one f) P Q"
    unfolding exec_one_def
  proof (rule runs_dbind [where Q = "\<lambda>rows t. \<exists>x xs. rows = x # xs \<and> Q x t"])
    show "runs A 1 (exec f) P (\<lambda>rows t. \<exists>x xs. rows = x # xs \<and> Q x t)"
    proof (rule runs_exec)
      fix now uid t assume "P t" "uid \<notin> ids t \<union> A"
      from assms [OF this] show "\<exists>t' rows. f now uid t = Inr (t', rows) \<and> ids t' \<subseteq> insert uid (ids t) \<union> A \<and> (\<exists>x xs. rows = x # xs \<and> Q x t')"
        by metis
    qed
    show "runs A 0 (case rows of [] \<Rightarrow> dfail (ErrDb NoRows) | r # _ \<Rightarrow> dret r) (\<lambda>t. \<exists>x xs. rows = x # xs \<and> Q x t) Q" for rows
      by (cases rows) (simp_all add: runs_def dret_def)
  qed
  then show ?thesis by simp
qed

lemma runs_event:
  assumes "\<And>t vs. P t \<Longrightarrow> P (t\<lparr>events := vs\<rparr>)"
  shows "runs A 2 (dbind (dwrap w NewV7) (\<lambda>uid. dwrap w' (q_InsertEvent uid et pt body mu mk ts ty))) P (\<lambda>_. P)"
  unfolding runs_def
proof (intro allI impI)
  fix s k assume r: "ready A (2 + k) s" and p: "P (tabs s)"
  obtain T where T: "tx s = Some T" "\<not> tx_aborted T" using r by (auto simp: ready_def in_live_tx_def)
  have u: "undisturbed A (2 + k) s" using r by (simp add: ready_def)
  let ?uid = "uuids s (tick s)"
  have now: "\<not> fault s (tick s)" "\<not> fault s (Suc (tick s))" "?uid \<notin> ids (tabs s)"
    using u by (auto simp: undisturbed_def)
  have new: "(?uid, tx_now T) \<notin> (\<lambda>v. (v_id v, v_occurred_at v)) ` set (events (tabs s))"
    using now(3) by (auto simp: ids_def)
  obtain vs x where v: "q_InsertEvent ?uid et pt body mu mk ts ty (next_tick s) = ((next_tick (next_tick s))\<lparr>tabs := (tabs s)\<lparr>events := vs\<rparr>\<rparr>, Inr x)"
    "v_id ` set vs \<subseteq> insert ?uid (v_id ` set (events (tabs s)))"
  proof -
    define v where "v = \<lparr>v_id = ?uid, v_event_type = et, v_payload_type = pt, v_payload = body, v_entity_id = mu, v_relation_key = mk,
      v_tags = ts, v_occurred_at = tx_now T, v_published_at = None, v_entity_type = ty\<rparr>"
    have "q_InsertEvent ?uid et pt body mu mk ts ty (next_tick s)
        = ((next_tick (next_tick s))\<lparr>tabs := (tabs s)\<lparr>events := events (tabs s) @ [v]\<rparr>\<rparr>, Inr ())"
      using T now(2) new by (simp add: q_InsertEvent_def exec_def exec_tx_def next_tick_def v_def)
    then show thesis by (rule that) (simp add: v_def)
  qed
  let ?s = "(next_tick (next_tick s))\<lparr>tabs := (tabs s)\<lparr>events := vs\<rparr>\<rparr>"
  have "undisturbed A k ?s"
    by (rule undisturbed_next [OF u]) (use v(2) in \<open>auto simp: next_tick_def ids_def\<close>)
  moreover have "dbind (dwrap w NewV7) (\<lambda>uid. dwrap w' (q_InsertEvent uid et pt body mu mk ts ty)) s = (?s, Inr x)"
    using v(1) now(1) by (simp add: dbind_def dwrap_def NewV7_def)
  ultimately show "\<exists>s' x. dbind (dwrap w NewV7) (\<lambda>uid. dwrap w' (q_InsertEvent uid et pt body mu mk ts ty)) s = (s', Inr x)
      \<and> ready A k s' \<and> P (tabs s')"
    using T assms [OF p] by (auto simp: ready_def in_live_tx_def next_tick_def)
qed

lemma runs_insertEvents:
  assumes "\<And>t vs. P t \<Longrightarrow> P (t\<lparr>events := vs\<rparr>)" "\<forall>evt\<in>set evts. protojson_Marshal L evt \<noteq> None"
  shows "runs A (2 * length evts) (insertEvents L u rk ts ty evts) P (\<lambda>_. P)"
  using assms(2)
proof (induction evts)
  case (Cons evt evts)
  obtain body where "protojson_Marshal L evt = Some body" using Cons.prems by auto
  moreover have "runs A (2 + 2 * length evts) (dbind (dbind (dwrap w NewV7)
      (\<lambda>uid. dwrap w' (q_InsertEvent uid et pt body mu mk ts ty))) (\<lambda>_. insertEvents L u rk ts ty evts)) P (\<lambda>_. P)" for w w' et pt mu mk
    by (rule runs_dbind [OF runs_event]) (use assms(1) Cons in auto)
  ultimately show ?case by (simp add: dbind_assoc)
qed (simp add: runs_dret)

section \<open>What an acceptable operation depends on\<close>

text \<open>The versions of the rows under an identifier, and whether they are live.\<close>

definition view :: "tables \<Rightarrow> uuid \<Rightarrow> (int \<times> bool) list" where
  "view t u = map (\<lambda>e. (e_version e, live e)) (filter (\<lambda>e. e_id e = u) (entities t))"

lemma view_same: "entities t' = entities t \<Longrightarrow> view t' = view t"
  by (simp add: view_def fun_eq_iff)

lemma view_core:
  assumes "core_eq t t'"
  shows "view t' = view t"
proof
  fix u
  have "list_all2 same_core (entities t) (entities t')" using assms by (simp add: core_eq_def)
  then show "view t' u = view t u"
    unfolding view_def by (induction rule: list_all2_induct) (auto simp: same_core_def live_def)
qed

lemma view_exists: "entity_exists t u \<longleftrightarrow> view t u \<noteq> []"
  by (auto simp: entity_exists_def view_def filter_empty_conv)

lemma view_member: "(v, l) \<in> set (view t u) \<longleftrightarrow> (\<exists>e\<in>set (entities t). e_id e = u \<and> e_version e = v \<and> live e = l)"
  by (auto simp: view_def)

text \<open>Programs that keep the view: those that the existing theorems frame.\<close>

lemma runs_framed:
  assumes "runs A n m (\<lambda>t. view t = w) (\<lambda>_ _. True)" "frames m"
  shows "runs A n m (\<lambda>t. view t = w) (\<lambda>_ t. view t = w)"
  unfolding runs_def
proof (intro allI impI)
  fix s k assume "ready A (n + k) s" "view (tabs s) = w"
  then obtain s' x where "m s = (s', Inr x)" "ready A k s'" using runsD [OF assms(1)] by blast
  then show "\<exists>s' x. m s = (s', Inr x) \<and> ready A k s' \<and> view (tabs s') = w"
    using view_core [OF framesD [OF assms(2)]] \<open>view (tabs s) = w\<close> by auto
qed

lemma runs_UpsertAnchor: "w u \<noteq> [] \<Longrightarrow> runs A 1 (q_UpsertAnchor u ty f v) (\<lambda>t. view t = w) (\<lambda>_ t. view t = w)"
  by (rule runs_framed [OF _ frames_index_stmts(1)], unfold q_UpsertAnchor_def, rule runs_exec)
    (auto simp: Let_def view_exists ids_def)

lemma runs_UpsertTokens: "w u \<noteq> [] \<Longrightarrow> runs A 1 (q_UpsertTokens u ty f (Some ts)) (\<lambda>t. view t = w) (\<lambda>_ t. view t = w)"
  by (rule runs_framed [OF _ frames_index_stmts(2)], unfold q_UpsertTokens_def, rule runs_exec)
    (simp add: Let_def view_exists ids_def, blast)

lemma ids_update_entities: "(\<And>e. e_id (f e) = e_id e) \<Longrightarrow> ids (update_entities P f t) = ids t"
proof -
  assume "\<And>e. e_id (f e) = e_id e"
  then have "map e_id (entities (update_entities P f t)) = map e_id (entities t)" by (auto simp: update_entities_def)
  then have "e_id ` set (entities (update_entities P f t)) = e_id ` set (entities t)" by (metis list.set_map)
  then show ?thesis by (simp add: ids_def update_entities_def)
qed

lemma runs_AddEntityTags: "runs A 1 (q_AddEntityTags u ts) (\<lambda>t. view t = w) (\<lambda>_ t. view t = w)"
  by (rule runs_framed [OF _ frames_entity_stmts(1)], unfold q_AddEntityTags_def, rule runs_exec)
    (auto simp: ids_update_entities)

lemma runs_UpdateEntityEmbedding:
  "length vec = vector_dim \<Longrightarrow> runs A 1 (q_UpdateEntityEmbedding u vec) (\<lambda>t. view t = w) (\<lambda>_ t. view t = w)"
  by (rule runs_framed [OF _ frames_entity_stmts(2)], unfold q_UpdateEntityEmbedding_def, rule runs_exec)
    (auto simp: ids_update_entities vector_dim_def)

lemma runs_GetEntity: "(v, True) \<in> set (w u) \<Longrightarrow> runs A 1 (q_GetEntity u) (\<lambda>t. view t = w) (\<lambda>_ t. view t = w)"
proof (rule runs_framed [OF _ frames_index_stmts(4)], unfold q_GetEntity_def select_one_def, rule runs_exec_one)
  fix now uid t assume "(v, True) \<in> set (w u)" "view t = w"
  then have "filter (\<lambda>e. e_id e = u \<and> live e) (entities t) \<noteq> []" by (auto simp: view_def filter_empty_conv)
  then show "\<exists>t' x xs. Inr (t, filter (\<lambda>e. e_id e = u \<and> live e) (entities t)) = Inr (t', x # xs)
      \<and> ids t' \<subseteq> insert uid (ids t) \<union> A \<and> True"
    by (cases "filter (\<lambda>e. e_id e = u \<and> live e) (entities t)") auto
qed

section \<open>Entity writes\<close>

text \<open>What a write asks of the tables and of its own content. The last line of the second condition is the column's range.\<close>

definition content_ok :: "lib \<Rightarrow> WriteEntityOp \<Rightarrow> bool" where
  "content_ok L we \<longleftrightarrow> (\<exists>ty d. marshalEntityData L we = Inr (ty, d))
     \<and> (\<forall>(field, toks)\<in>set (wo_Tokens we). toks \<noteq> None)
     \<and> (case wo_Embedding we of None \<Rightarrow> True | Some v \<Rightarrow> length v = vector_dim)
     \<and> (\<forall>evt\<in>set (wo_Events we). protojson_Marshal L evt \<noteq> None)"

definition target_ok :: "lib \<Rightarrow> tables \<Rightarrow> WriteEntityOp \<Rightarrow> bool" where
  "target_ok L t we \<longleftrightarrow>
     (if wo_Action we = WriteActionCreate then
        wo_ID we = [] \<or> (\<exists>u. uuid_Parse L (wo_ID we) = Some u \<and> view t u = [])
      else is_update we \<and> (\<exists>u. uuid_Parse L (wo_MatchedEntityID we) = Some u
        \<and> (int32 (wo_Version we), True) \<in> set (view t u) \<and> int32 (wo_Version we) \<noteq> max_int32))"

definition std_events_marshal :: "lib \<Rightarrow> bool" where
  "std_events_marshal L \<longleftrightarrow> (\<forall>m. (\<forall>n j. m \<noteq> OtherMessage n j) \<longrightarrow> protojson_Marshal L m \<noteq> None)"

text \<open>The identifiers a write names.\<close>

definition targets :: "lib \<Rightarrow> WriteEntityOp \<Rightarrow> uuid list" where
  "targets L we = (let i = (if wo_Action we = WriteActionCreate then wo_ID we else wo_MatchedEntityID we) in
     if i = [] \<and> wo_Action we = WriteActionCreate then []
     else case uuid_Parse L i of None \<Rightarrow> [] | Some u \<Rightarrow> [u])"

text \<open>An upper bound of the external calls of a write.\<close>

definition write_cost :: "WriteEntityOp \<Rightarrow> nat" where
  "write_cost we = 6 + length (wo_Anchors we) + length (wo_Tokens we) + 2 * length (wo_Events we)"

lemma runs_upsertAnchors:
  "w u \<noteq> [] \<Longrightarrow> runs A (length aqs) (upsertAnchors u ty aqs) (\<lambda>t. view t = w) (\<lambda>_ t. view t = w)"
proof (induction aqs)
  case (Cons aq aqs)
  have "runs A (1 + length aqs) (upsertAnchors u ty (aq # aqs)) (\<lambda>t. view t = w) (\<lambda>_ t. view t = w)"
    unfolding upsertAnchors.simps by (rule runs_dbind [OF runs_dwrap [OF runs_UpsertAnchor]]) (use Cons in auto)
  then show ?case by simp
qed (simp add: runs_dret)

lemma runs_upsertTokens:
  "w u \<noteq> [] \<Longrightarrow> \<forall>(field, toks)\<in>set ks. toks \<noteq> None \<Longrightarrow>
     runs A (length ks) (upsertTokens u ty ks) (\<lambda>t. view t = w) (\<lambda>_ t. view t = w)"
proof (induction ks)
  case (Cons k ks)
  obtain f ts where k: "k = (f, Some ts)" using Cons.prems(2) by (cases k) auto
  have "runs A (1 + length ks) (upsertTokens u ty (k # ks)) (\<lambda>t. view t = w) (\<lambda>_ t. view t = w)"
    unfolding k upsertTokens.simps by (rule runs_dbind [OF runs_dwrap [OF runs_UpsertTokens]]) (use Cons in auto)
  then show ?case by simp
qed (simp add: runs_dret)

lemma runs_updateEmbedding:
  assumes "case v of None \<Rightarrow> True | Some vec \<Rightarrow> length vec = vector_dim"
  shows "runs A 1 (updateEmbedding u v) (\<lambda>t. view t = w) (\<lambda>_ t. view t = w)"
proof (cases v)
  case None
  then show ?thesis by (simp add: updateEmbedding_def runs_budget [OF runs_dret] del: One_nat_def)
next
  case (Some vec)
  then show ?thesis using runs_dwrap [OF runs_UpdateEntityEmbedding] assms by (simp add: updateEmbedding_def del: One_nat_def)
qed

lemma runs_add_tags: "runs A 1 (add_tags u ts) (\<lambda>t. view t = w) (\<lambda>_ t. view t = w)"
  by (cases "ts = []") (simp_all add: add_tags_def runs_dwrap runs_AddEntityTags runs_budget [OF runs_dret] del: One_nat_def)

text \<open>A row appended, and a row updated.\<close>

lemma view_append: "view (t\<lparr>entities := entities t @ [e]\<rparr>) = (view t)(e_id e := view t (e_id e) @ [(e_version e, live e)])"
  by (auto simp: view_def fun_eq_iff)

lemma runs_insert_row:
  assumes "\<And>uid now. uid \<notin> A \<Longrightarrow> e_version (row now uid) = 0 \<and> live (row now uid)
      \<and> (w uid = [] \<longrightarrow> w (e_id (row now uid)) = [] \<and> (e_id (row now uid) = uid \<or> e_id (row now uid) \<in> set us))"
    and "set us \<subseteq> A"
  shows "runs A 1 (exec (\<lambda>now uid. insert_entity_row (row now uid))) (\<lambda>t. view t = w)
     (\<lambda>r t. w (e_id r) = [] \<and> view t = w(e_id r := [(0, True)]) \<and> (e_id r \<in> set us \<or> e_id r \<notin> A))"
proof (rule runs_exec)
  fix now uid t assume v: "view t = w" and u: "uid \<notin> ids t \<union> A"
  then have "w uid = []" by (auto simp: ids_def view_def filter_empty_conv)
  with assms(1) [of uid now] u have r: "e_version (row now uid) = 0" "live (row now uid)" "w (e_id (row now uid)) = []"
    "e_id (row now uid) = uid \<or> e_id (row now uid) \<in> set us" by auto
  then have "\<not> entity_exists t (e_id (row now uid))" using v by (simp add: view_exists)
  moreover have "view (t\<lparr>entities := entities t @ [row now uid]\<rparr>) = w(e_id (row now uid) := [(0, True)])"
    using r v by (simp add: view_append)
  moreover have "ids (t\<lparr>entities := entities t @ [row now uid]\<rparr>) \<subseteq> insert uid (ids t) \<union> A"
    using r(4) assms(2) by (auto simp: ids_def)
  ultimately show "\<exists>t' x. insert_entity_row (row now uid) t = Inr (t', x) \<and> ids t' \<subseteq> insert uid (ids t) \<union> A
      \<and> w (e_id x) = [] \<and> view t' = w(e_id x := [(0, True)]) \<and> (e_id x \<in> set us \<or> e_id x \<notin> A)"
    using r u by (auto simp: insert_entity_row_def)
qed

lemma runs_create_row:
  assumes "wo_ID we = [] \<or> (\<exists>u. uuid_Parse L (wo_ID we) = Some u \<and> w u = [])" "set (targets L we) \<subseteq> A"
    "wo_Action we = WriteActionCreate"
  shows "runs A 1 (create_row L we ty d) (\<lambda>t. view t = w)
     (\<lambda>r t. w (e_id r) = [] \<and> view t = w(e_id r := [(0, True)]) \<and> (e_id r \<in> set (targets L we) \<or> e_id r \<notin> A))"
proof (cases "wo_ID we = []")
  case True
  then show ?thesis using assms(2)
    by (simp add: create_row_def q_InsertEntity_def del: One_nat_def)
      (rule runs_dwrap, rule runs_insert_row, auto simp: new_entity_def live_def)
next
  case False
  then obtain u where u: "uuid_Parse L (wo_ID we) = Some u" "w u = []" "u \<in> A" "targets L we = [u]"
    using assms by (auto simp: targets_def)
  have "create_row L we ty d = dwrap (Wrap ''insert entity with id'') (q_InsertEntityWithID u ty d (wo_Confidence we) (wo_Tags we) (wo_DisplayName we))"
    using False u by (simp add: create_row_def parse_id_def dbind_simps)
  moreover have "runs A 1 (q_InsertEntityWithID u ty d (wo_Confidence we) (wo_Tags we) (wo_DisplayName we)) (\<lambda>t. view t = w)
     (\<lambda>r t. w (e_id r) = [] \<and> view t = w(e_id r := [(0, True)]) \<and> (e_id r \<in> set [u] \<or> e_id r \<notin> A))"
    unfolding q_InsertEntityWithID_def by (rule runs_insert_row) (use u in \<open>auto simp: new_entity_def live_def\<close>)
  ultimately show ?thesis unfolding u(4) by (simp only: runs_dwrap)
qed

lemma view_update:
  "view (update_entities (\<lambda>e. e_id e = u \<and> e_version e = v \<and> live e)
      (\<lambda>e. e\<lparr>e_data := nd (e_data e), e_confidence := c, e_display_name := n, e_version := e_version e + 1, e_updated_at := now\<rparr>) t)
   = (view t)(u := map (\<lambda>(v', l). if v' = v \<and> l then (v' + 1, l) else (v', l)) (view t u))"
proof -
  have "map (\<lambda>e. (e_version e, live e)) (filter (\<lambda>e. e_id e = i) (map (\<lambda>e. if e_id e = u \<and> e_version e = v \<and> live e
      then e\<lparr>e_data := nd (e_data e), e_confidence := c, e_display_name := n, e_version := e_version e + 1, e_updated_at := now\<rparr> else e) es))
    = (if i = u then map (\<lambda>(v', l). if v' = v \<and> l then (v' + 1, l) else (v', l)) (map (\<lambda>e. (e_version e, live e)) (filter (\<lambda>e. e_id e = i) es))
       else map (\<lambda>e. (e_version e, live e)) (filter (\<lambda>e. e_id e = i) es))" for i es
    by (induction es) (auto simp: live_def)
  then show ?thesis by (simp add: view_def update_entities_def fun_eq_iff)
qed

lemma runs_write_data:
  assumes "is_update we" "(int32 (wo_Version we), True) \<in> set (w u)" "int32 (wo_Version we) \<noteq> max_int32"
  shows "runs A 1 (write_data we u d) (\<lambda>t. view t = w) (\<lambda>_ t. \<exists>x. view t = w(u := x) \<and> (int32 (wo_Version we) + 1, True) \<in> set x)"
proof -
  let ?v = "int32 (wo_Version we)"
  let ?post = "\<lambda>t. \<exists>x. view t = w(u := x) \<and> (?v + 1, True) \<in> set x"
  have upd: "runs A 1 (exec (\<lambda>now _. versioned_update u nd (wo_Confidence we) (wo_DisplayName we) ?v now)) (\<lambda>t. view t = w)
     (\<lambda>n t. n \<noteq> 0 \<and> ?post t)" for nd
  proof (rule runs_exec)
    fix now uid t assume v: "view t = w" and u: "uid \<notin> ids t \<union> A"
    let ?P = "\<lambda>e. e_id e = u \<and> e_version e = ?v \<and> live e"
    let ?t = "update_entities ?P (\<lambda>e. e\<lparr>e_data := nd (e_data e), e_confidence := wo_Confidence we,
      e_display_name := wo_DisplayName we, e_version := e_version e + 1, e_updated_at := now\<rparr>) t"
    have h: "filter ?P (entities t) \<noteq> []" using assms(2) v by (auto simp: view_member filter_empty_conv)
    have "versioned_update u nd (wo_Confidence we) (wo_DisplayName we) ?v now t = Inr (?t, length (filter ?P (entities t)))"
      using assms(3) by (auto simp: versioned_update_def Let_def list_ex_iff)
    moreover have "?post ?t"
      using assms(2) v by (intro exI [of _ "map (\<lambda>(v', l). if v' = ?v \<and> l then (v' + 1, l) else (v', l)) (w u)"]) (force simp: view_update)
    moreover have "ids ?t = ids t" by (rule ids_update_entities) simp
    ultimately show "\<exists>t' n. versioned_update u nd (wo_Confidence we) (wo_DisplayName we) ?v now t = Inr (t', n)
        \<and> ids t' \<subseteq> insert uid (ids t) \<union> A \<and> n \<noteq> 0 \<and> ?post t'" using h by auto
  qed
  have req: "runs A 1 (require_rows m) (\<lambda>t. view t = w) (\<lambda>_. ?post)"
    if "runs A 1 m (\<lambda>t. view t = w) (\<lambda>n t. n \<noteq> 0 \<and> ?post t)" for m :: "nat dbm"
  proof -
    have "runs A 0 (if n = 0 then dfail ErrConflict else dret ()) (\<lambda>t. n \<noteq> (0::nat) \<and> ?post t) (\<lambda>_. ?post)" for n
      by (cases "n = 0") (auto simp: runs_def dret_def)
    from runs_dbind [OF that this] show ?thesis by (simp add: require_rows_def)
  qed
  show ?thesis
    using assms(1) by (auto simp: write_data_def is_update_def q_UpdateEntityData_def q_MergeEntityData_def simp del: One_nat_def intro!: req runs_dwrap upd)
qed

text \<open>What a write leaves to the operations after it: the view of every identifier but its own and fresh ones. No row vanishes.\<close>

definition kept :: "uuid set \<Rightarrow> uuid set \<Rightarrow> (uuid \<Rightarrow> (int \<times> bool) list) \<Rightarrow> (uuid \<Rightarrow> (int \<times> bool) list) \<Rightarrow> bool" where
  "kept A us w w' \<longleftrightarrow> (\<forall>u. u \<notin> us \<longrightarrow> w' u = w u \<or> u \<notin> A \<and> w u = []) \<and> (\<forall>u. w u \<noteq> [] \<longrightarrow> w' u \<noteq> [])"

lemma runs_std_events:
  assumes "std_events_marshal L" "\<forall>evt\<in>set evts. protojson_Marshal L evt \<noteq> None" "\<forall>n j. evt \<noteq> OtherMessage n j"
  shows "runs A (2 + 2 * length evts) (insertEvents L u rk ts ty (evt # evts)) (\<lambda>t. view t = w) (\<lambda>_ t. view t = w)"
proof -
  have "runs A (2 * length (evt # evts)) (insertEvents L u rk ts ty (evt # evts)) (\<lambda>t. view t = w) (\<lambda>_ t. view t = w)"
  proof (rule runs_insertEvents)
    show "view (t\<lparr>events := vs\<rparr>) = w" if "view t = w" for t vs using that view_same [of "t\<lparr>events := vs\<rparr>" t] by simp
    show "\<forall>e\<in>set (evt # evts). protojson_Marshal L e \<noteq> None" using assms by (auto simp: std_events_marshal_def)
  qed
  then show ?thesis by simp
qed

text \<open>The part that creations and updates share.\<close>

lemma runs_index:
  assumes "content_ok L we" "w u \<noteq> []" "runs A n m (\<lambda>t. view t = w) Q"
  shows "runs A (length (wo_Anchors we) + (length (wo_Tokens we) + (1 + n)))
    (dbind (upsertAnchors u ty (wo_Anchors we)) (\<lambda>_. dbind (upsertTokens u ty (wo_Tokens we)) (\<lambda>_.
     dbind (updateEmbedding u (wo_Embedding we)) (\<lambda>_. m)))) (\<lambda>t. view t = w) Q"
proof -
  have up: "runs A (length (wo_Anchors we)) (upsertAnchors u ty (wo_Anchors we)) (\<lambda>t. view t = w) (\<lambda>_ t. view t = w)"
    "runs A (length (wo_Tokens we)) (upsertTokens u ty (wo_Tokens we)) (\<lambda>t. view t = w) (\<lambda>_ t. view t = w)"
    "runs A 1 (updateEmbedding u (wo_Embedding we)) (\<lambda>t. view t = w) (\<lambda>_ t. view t = w)"
    using assms(1,2) by (simp_all add: runs_upsertAnchors runs_upsertTokens runs_updateEmbedding content_ok_def del: One_nat_def)
  show ?thesis by (rule runs_dbind [OF up(1) runs_dbind [OF up(2) runs_dbind [OF up(3) assms(3)]]])
qed

lemma runs_record:
  assumes "content_ok L we" "std_events_marshal L" "\<forall>n j. evt \<noteq> OtherMessage n j"
  shows "runs A (2 + 2 * length (wo_Events we)) (dbind (insertEvents L u rk ts ty (evt # wo_Events we)) (\<lambda>_. dret x))
    (\<lambda>t. view t = w) (\<lambda>_ t. view t = w)"
proof -
  have "runs A (2 + 2 * length (wo_Events we)) (insertEvents L u rk ts ty (evt # wo_Events we)) (\<lambda>t. view t = w) (\<lambda>_ t. view t = w)"
    by (rule runs_std_events) (use assms in \<open>auto simp: content_ok_def\<close>)
  then have "runs A (2 + 2 * length (wo_Events we) + 0) (dbind (insertEvents L u rk ts ty (evt # wo_Events we)) (\<lambda>_. dret x))
    (\<lambda>t. view t = w) (\<lambda>_ t. view t = w)" by (rule runs_dbind [OF _ runs_dret])
  then show ?thesis by (simp only: add_0_right)
qed

lemma runs_applyCreate:
  assumes "content_ok L we" "wo_Action we = WriteActionCreate" "std_events_marshal L" "set (targets L we) \<subseteq> A"
    "wo_ID we = [] \<or> (\<exists>u. uuid_Parse L (wo_ID we) = Some u \<and> w u = [])"
  shows "runs A (write_cost we) (applyCreate L we) (\<lambda>t. view t = w) (\<lambda>_ t. kept A (set (targets L we)) w (view t))"
proof -
  obtain ty d where md: "marshalEntityData L we = Inr (ty, d)" using assms(1) by (auto simp: content_ok_def)
  let ?n = "length (wo_Anchors we) + (length (wo_Tokens we) + (1 + (2 + 2 * length (wo_Events we))))"
  let ?rest = "\<lambda>row. dbind (upsertAnchors (e_id row) ty (wo_Anchors we)) (\<lambda>_.
     dbind (upsertTokens (e_id row) ty (wo_Tokens we)) (\<lambda>_.
     dbind (updateEmbedding (e_id row) (wo_Embedding we)) (\<lambda>_.
     dbind (insertEvents L (e_id row) [] (wo_Tags we) ty (EntityCreated (uuid_String L (e_id row)) ty (wo_Confidence we) (wo_Tags we) # wo_Events we)) (\<lambda>_.
     dret (entityFromRow L row)))))"
  have rest: "runs A ?n (?rest row) (\<lambda>t. w (e_id row) = [] \<and> view t = w(e_id row := [(0, True)])
      \<and> (e_id row \<in> set (targets L we) \<or> e_id row \<notin> A)) (\<lambda>_ t. kept A (set (targets L we)) w (view t))" for row
  proof (rule runs_at)
    let ?w = "w(e_id row := [(0, True)])"
    fix t0 assume t0: "w (e_id row) = [] \<and> view t0 = ?w \<and> (e_id row \<in> set (targets L we) \<or> e_id row \<notin> A)"
    have "runs A ?n (?rest row) (\<lambda>t. view t = ?w) (\<lambda>_ t. view t = ?w)"
      by (rule runs_index [OF assms(1) _ runs_record [OF assms(1,3)]]) simp_all
    then show "runs A ?n (?rest row) (\<lambda>t. t = t0) (\<lambda>_ t. kept A (set (targets L we)) w (view t))"
      by (rule runs_weaken) (use t0 in \<open>auto simp: kept_def\<close>)
  qed
  have "runs A (1 + ?n) (applyCreate L we) (\<lambda>t. view t = w) (\<lambda>_ t. kept A (set (targets L we)) w (view t))"
    unfolding applyCreate_def md dbind_simps case_prod_conv
    by (rule runs_dbind [OF runs_create_row [OF assms(5,4,2)] rest])
  then show ?thesis by (rule runs_budget) (simp add: write_cost_def)
qed

lemma runs_applyUpdateOrMerge:
  assumes "content_ok L we" "is_update we" "std_events_marshal L"
    "uuid_Parse L (wo_MatchedEntityID we) = Some u" "(int32 (wo_Version we), True) \<in> set (w u)" "int32 (wo_Version we) \<noteq> max_int32"
  shows "runs A (write_cost we) (applyUpdateOrMerge L we) (\<lambda>t. view t = w) (\<lambda>_ t. kept A {u} w (view t))"
proof -
  obtain ty d where md: "marshalEntityData L we = Inr (ty, d)" using assms(1) by (auto simp: content_ok_def)
  let ?finish = "dbind (dwrap (Wrap ''get entity'') (q_GetEntity u)) (\<lambda>row.
     dbind (insertEvents L u [] (e_tags row) ty
         ((if wo_Action we = WriteActionUpdate then EntityUpdated (uuid_String L u) ty (wo_Confidence we) (e_tags row)
           else EntityMerged (uuid_String L u) ty) # wo_Events we)) (\<lambda>_.
     dret (entityFromRow L row)))"
  let ?rest = "dbind (add_tags u (wo_Tags we)) (\<lambda>_. dbind (upsertAnchors u ty (wo_Anchors we)) (\<lambda>_.
     dbind (upsertTokens u ty (wo_Tokens we)) (\<lambda>_. dbind (updateEmbedding u (wo_Embedding we)) (\<lambda>_. ?finish))))"
  let ?n = "1 + (length (wo_Anchors we) + (length (wo_Tokens we) + (1 + (1 + (2 + 2 * length (wo_Events we))))))"
  have rest: "runs A ?n ?rest (\<lambda>t. \<exists>x. view t = w(u := x) \<and> (int32 (wo_Version we) + 1, True) \<in> set x) (\<lambda>_ t. kept A {u} w (view t))"
  proof (rule runs_at)
    fix t0 assume "\<exists>x. view t0 = w(u := x) \<and> (int32 (wo_Version we) + 1, True) \<in> set x"
    then obtain x where x: "view t0 = w(u := x)" "(int32 (wo_Version we) + 1, True) \<in> set x" by blast
    have get: "runs A 1 (dwrap (Wrap ''get entity'') (q_GetEntity u)) (\<lambda>t. view t = w(u := x)) (\<lambda>_ t. view t = w(u := x))"
      by (rule runs_dwrap, rule runs_GetEntity [of "int32 (wo_Version we) + 1"]) (use x in simp)
    have "runs A ?n ?rest (\<lambda>t. view t = w(u := x)) (\<lambda>_ t. view t = w(u := x))"
      by (rule runs_dbind [OF runs_add_tags runs_index [OF assms(1) _ runs_dbind [OF get runs_record [OF assms(1,3)]]]])
        (use x in auto)
    then show "runs A ?n ?rest (\<lambda>t. t = t0) (\<lambda>_ t. kept A {u} w (view t))"
      by (rule runs_weaken) (use x in \<open>auto simp: kept_def\<close>)
  qed
  have "runs A (1 + ?n) (applyUpdateOrMerge L we) (\<lambda>t. view t = w) (\<lambda>_ t. kept A {u} w (view t))"
    unfolding applyUpdateOrMerge_def md dbind_simps case_prod_conv parse_id_def assms(4) option.simps
    by (rule runs_dbind [OF runs_write_data [OF assms(2), where w = w, OF assms(5,6)] rest])
  then show ?thesis by (rule runs_budget) (simp add: write_cost_def)
qed

lemma runs_applyEntityWrite:
  assumes "content_ok L we" "target_ok L t0 we" "std_events_marshal L" "set (targets L we) \<subseteq> A"
  shows "runs A (write_cost we) (applyEntityWrite L we) (\<lambda>t. view t = view t0) (\<lambda>_ t. kept A (set (targets L we)) (view t0) (view t))"
proof (cases "wo_Action we = WriteActionCreate")
  case True
  then show ?thesis using runs_applyCreate [OF assms(1) True assms(3,4), of "view t0"] assms(2)
    by (simp add: applyEntityWrite_def target_ok_def)
next
  case False
  then obtain u where u: "is_update we" "uuid_Parse L (wo_MatchedEntityID we) = Some u"
    "(int32 (wo_Version we), True) \<in> set (view t0 u)" "int32 (wo_Version we) \<noteq> max_int32"
    using assms(2) by (auto simp: target_ok_def)
  moreover have "applyEntityWrite L we = applyUpdateOrMerge L we" using False u(1) by (auto simp: applyEntityWrite_def is_update_def)
  moreover have "set (targets L we) = {u}" using False u(2) by (simp add: targets_def)
  ultimately show ?thesis using runs_applyUpdateOrMerge [OF assms(1) u(1) assms(3) u(2), where w = "view t0", OF u(3,4)] by simp
qed

section \<open>Relation writes\<close>

definition relation_ok :: "lib \<Rightarrow> tables \<Rightarrow> UpsertRelationOp \<Rightarrow> bool" where
  "relation_ok L t ur \<longleftrightarrow> (\<exists>a b. uuid_Parse L (ur_SourceID ur) = Some a \<and> uuid_Parse L (ur_TargetID ur) = Some b
       \<and> view t a \<noteq> [] \<and> view t b \<noteq> [])
     \<and> (\<exists>r. marshal_relation_data L (ur_Data ur) = Inr r) \<and> (\<forall>evt\<in>set (ur_Events ur). protojson_Marshal L evt \<noteq> None)"

lemma frames_UpsertRelation: "frames (q_UpsertRelation a b ty c ev imp urn dt d)"
  unfolding q_UpsertRelation_def by (intro frames_exec core_eq_same) (auto dest: upsert_relation_row_entities)

lemma runs_UpsertRelation:
  "w a \<noteq> [] \<Longrightarrow> w b \<noteq> [] \<Longrightarrow> runs A 1 (q_UpsertRelation a b ty c ev imp urn dt d) (\<lambda>t. view t = w) (\<lambda>_ t. view t = w)"
proof (rule runs_framed [OF _ frames_UpsertRelation], unfold q_UpsertRelation_def, rule runs_exec)
  fix now uid t assume e: "w a \<noteq> []" "w b \<noteq> []" "view t = w" and u: "uid \<notin> ids t \<union> A"
  let ?row = "\<lparr>r_id = uid, r_source = a, r_target = b, r_type = ty, r_confidence = c, r_evidence = ev, r_implied = imp, r_urn = urn,
        r_data = d, r_created_at = now, r_data_type = dt\<rparr>"
  let ?conf = "\<lambda>r. relation_key r = relation_key ?row \<and> r_urn r = None \<and> r_urn ?row = None"
  have "entity_exists t a" "entity_exists t b" using e by (simp_all add: view_exists)
  moreover have "uid \<notin> r_id ` set (relations t)" using u by (simp add: ids_def)
  moreover have "r_id ` (\<lambda>r. if ?conf r then r\<lparr>r_confidence := c, r_evidence := ev, r_data_type := dt, r_data := d\<rparr> else r) ` set (relations t)
      \<subseteq> r_id ` set (relations t)" by auto
  ultimately show "\<exists>t' x. upsert_relation_row ?row t = Inr (t', x) \<and> ids t' \<subseteq> insert uid (ids t) \<union> A \<and> True"
    by (cases "find ?conf (relations t)") (auto simp: upsert_relation_row_def Let_def ids_def)
qed

lemma runs_relation_op:
  assumes "bo_WriteEntity b = None" "bo_UpsertRelation b = Some ur" "relation_ok L t0 ur" "std_events_marshal L"
  shows "runs A (3 + 2 * length (ur_Events ur)) (batch_op L i b) (\<lambda>t. view t = view t0) (\<lambda>_ t. view t = view t0)"
proof -
  obtain r where r: "marshal_relation_data L (ur_Data ur) = Inr r" using assms(3) by (auto simp: relation_ok_def)
  obtain x y where xy: "uuid_Parse L (ur_SourceID ur) = Some x" "uuid_Parse L (ur_TargetID ur) = Some y" "view t0 x \<noteq> []" "view t0 y \<noteq> []"
    using assms(3) by (auto simp: relation_ok_def)
  obtain sr where sr: "toStoredRelation L ur = Inr sr" "sr_SourceID sr = ur_SourceID ur" "sr_TargetID sr = ur_TargetID ur"
    using r by (cases r) (auto simp: toStoredRelation_def)
  have up: "runs A 1 (dwrap w (upsertRelation L sr)) (\<lambda>t. view t = view t0) (\<lambda>_ t. view t = view t0)" for w
    unfolding upsertRelation_def parse_id_def sr(2,3) xy(1,2) option.simps dbind_simps
    by (intro runs_dwrap runs_dmap runs_UpsertRelation xy)
  have lift: "dwrap w (dlift (Inr x)) = dret x" for w and x :: StoredRelation by (auto simp: dwrap_def dlift_def dret_def)
  have "runs A (1 + ((2 + 2 * length (ur_Events ur)) + 0)) (batch_op L i b) (\<lambda>t. view t = view t0) (\<lambda>_ t. view t = view t0)"
    unfolding batch_op_def assms(1,2) option.simps sr(1)
    unfolding lift dbind_simps
    by (rule runs_dbind [OF up runs_dbind [OF runs_dwrap [OF runs_std_events] runs_dret]])
      (use assms in \<open>auto simp: relation_ok_def\<close>)
  then show ?thesis by (simp add: numeral_3_eq_3)
qed

section \<open>Batches\<close>

definition op_acceptable :: "lib \<Rightarrow> tables \<Rightarrow> BatchWriteOp \<Rightarrow> bool" where
  "op_acceptable L t b \<longleftrightarrow> op_valid b \<and> bo_PreConditions b = [] \<and> (case bo_WriteEntity b of
     Some we \<Rightarrow> content_ok L we \<and> target_ok L t we
   | None \<Rightarrow> (case bo_UpsertRelation b of Some ur \<Rightarrow> relation_ok L t ur | None \<Rightarrow> False))"

definition op_targets :: "lib \<Rightarrow> BatchWriteOp \<Rightarrow> uuid list" where
  "op_targets L b = (case bo_WriteEntity b of Some we \<Rightarrow> targets L we | None \<Rightarrow> [])"

definition op_cost :: "BatchWriteOp \<Rightarrow> nat" where
  "op_cost b = (case bo_WriteEntity b of Some we \<Rightarrow> write_cost we
     | None \<Rightarrow> (case bo_UpsertRelation b of Some ur \<Rightarrow> 3 + 2 * length (ur_Events ur) | None \<Rightarrow> 0))"

lemma runs_batch_op:
  assumes "op_acceptable L t0 b" "std_events_marshal L" "set (op_targets L b) \<subseteq> A"
  shows "runs A (op_cost b) (batch_op L i b) (\<lambda>t. view t = view t0) (\<lambda>_ t. kept A (set (op_targets L b)) (view t0) (view t))"
proof (cases "bo_WriteEntity b")
  case (Some we)
  have "runs A (write_cost we) (applyEntityWrite L we) (\<lambda>t. view t = view t0) (\<lambda>_ t. kept A (set (targets L we)) (view t0) (view t))"
    using assms Some by (intro runs_applyEntityWrite) (simp_all add: op_acceptable_def op_targets_def)
  then have "runs A (write_cost we + 0) (dbind (dwrap w (applyEntityWrite L we)) (\<lambda>ent. dret (f ent))) (\<lambda>t. view t = view t0)
      (\<lambda>_ t. kept A (set (targets L we)) (view t0) (view t))" for w and f :: "StoredEntity \<Rightarrow> BatchWriteResult"
    by (rule runs_dbind [OF runs_dwrap runs_dret])
  then show ?thesis by (simp add: batch_op_def op_cost_def op_targets_def Some)
next
  case None
  then obtain ur where ur: "bo_UpsertRelation b = Some ur" "relation_ok L t0 ur"
    using assms(1) by (auto simp: op_acceptable_def split: option.splits)
  have "runs A (3 + 2 * length (ur_Events ur)) (batch_op L i b) (\<lambda>t. view t = view t0) (\<lambda>_ t. kept A {} (view t0) (view t))"
    by (rule runs_weaken [OF runs_relation_op [OF None ur assms(2)]]) (simp_all add: kept_def)
  then show ?thesis using None ur(1) by (simp add: op_cost_def op_targets_def)
qed

text \<open>An operation stays acceptable when another one, with other targets, has run.\<close>

lemma acceptable_kept:
  assumes "op_acceptable L t b" "kept A us (view t) (view t')" "set (op_targets L b) \<subseteq> A" "set (op_targets L b) \<inter> us = {}"
  shows "op_acceptable L t' b"
proof -
  have k: "view t' u = view t u" if "u \<notin> us" "u \<in> A \<or> view t u \<noteq> []" for u using assms(2) that by (auto simp: kept_def)
  have ex: "view t u \<noteq> [] \<Longrightarrow> view t' u \<noteq> []" for u using assms(2) unfolding kept_def by blast
  have "target_ok L t' we" if "bo_WriteEntity b = Some we" "target_ok L t we" for we
  proof (cases "targets L we")
    case Nil
    then have "wo_Action we = WriteActionCreate" "wo_ID we = []" using that(2)
      by (auto simp: targets_def target_ok_def Let_def split: if_splits)
    then show ?thesis by (simp add: target_ok_def)
  next
    case (Cons u us')
    then have "u \<in> A" "u \<notin> us" using assms(3,4) that(1) by (auto simp: op_targets_def)
    then have "view t' u = view t u" by (simp add: k)
    then show ?thesis using that(2) Cons by (auto simp: targets_def target_ok_def Let_def split: if_splits)
  qed
  moreover have "relation_ok L t' ur" if "relation_ok L t ur" for ur using that ex unfolding relation_ok_def by blast
  ultimately show ?thesis using assms(1) by (auto simp: op_acceptable_def split: option.splits)
qed

lemma runs_executeBatchOps:
  assumes "std_events_marshal L"
  shows "set (concat (map (op_targets L) ops)) \<subseteq> A \<Longrightarrow> distinct (concat (map (op_targets L) ops)) \<Longrightarrow>
    runs A (sum_list (map op_cost ops)) (executeBatchOps L i ops) (\<lambda>t. \<forall>b\<in>set ops. op_acceptable L t b) (\<lambda>_ _. True)"
proof (induction ops arbitrary: i)
  case (Cons b ops)
  let ?n = "sum_list (map op_cost ops)"
  have at: "runs A (op_cost b + (?n + 0)) (executeBatchOps L i (b # ops)) (\<lambda>t. t = t0) (\<lambda>_ _. True)"
    if ok: "\<forall>b\<in>set (b # ops). op_acceptable L t0 b" for t0
  proof -
    have pc: "bo_PreConditions b = []" using ok by (simp add: op_acceptable_def)
    have 1: "runs A (op_cost b) (batch_op L i b) (\<lambda>t. t = t0) (\<lambda>_ t. \<forall>b\<in>set ops. op_acceptable L t b)"
    proof -
      have "runs A (op_cost b) (batch_op L i b) (\<lambda>t. view t = view t0) (\<lambda>_ t. kept A (set (op_targets L b)) (view t0) (view t))"
        by (rule runs_batch_op) (use ok assms Cons.prems in auto)
      then show ?thesis
      proof (rule runs_weaken)
        fix x :: BatchWriteResult and t
        assume k: "kept A (set (op_targets L b)) (view t0) (view t)"
        have "op_acceptable L t b'" if b': "b' \<in> set ops" for b'
        proof (rule acceptable_kept [OF _ k])
          show "op_acceptable L t0 b'" "set (op_targets L b') \<subseteq> A" "set (op_targets L b') \<inter> set (op_targets L b) = {}"
            using ok b' Cons.prems by auto
        qed
        then show "\<forall>b\<in>set ops. op_acceptable L t b" by blast
      qed simp
    qed
    have 2: "runs A ?n (executeBatchOps L (Suc i) ops) (\<lambda>t. \<forall>b\<in>set ops. op_acceptable L t b) (\<lambda>_ _. True)"
      by (rule Cons.IH) (use Cons.prems in auto)
    have 3: "runs A 0 (dret (r # rs)) (\<lambda>_. True) (\<lambda>_ _. True)" for r :: BatchWriteResult and rs
      by (rule runs_dret) (rule TrueI)
    have e: "executeBatchOps L i (b # ops) = dbind (batch_op L i b) (\<lambda>r. dbind (executeBatchOps L (Suc i) ops) (\<lambda>rs. dret (r # rs)))"
      by (simp only: executeBatchOps.simps pc evaluatePreConditions.simps dbind_simps)
    show ?thesis unfolding e using runs_dbind [OF 1 runs_dbind [OF 2 3]] .
  qed
  have "runs A (op_cost b + (?n + 0)) (executeBatchOps L i (b # ops)) (\<lambda>t. \<forall>b\<in>set (b # ops). op_acceptable L t b) (\<lambda>_ _. True)"
    by (rule runs_at, rule at)
  then show ?case by (simp only: list.simps sum_list.Cons add_0_right)
qed (simp add: runs_dret)

definition batch_cost :: "BatchWriteOp list \<Rightarrow> nat" where
  "batch_cost ops = 2 + sum_list (map op_cost ops)"

lemma undisturbed_started: "undisturbed A (1 + k) s \<Longrightarrow> \<not> fault s (tick s) \<and> undisturbed A k (started s)"
proof
  assume u: "undisturbed A (1 + k) s"
  then show "\<not> fault s (tick s)" by (auto simp: undisturbed_def)
  show "undisturbed A k (started s)" by (rule undisturbed_next [OF u]) (auto simp: started_def next_tick_def)
qed

text \<open>The bracket around a body that succeeds.\<close>

lemma in_tx_runs:
  assumes "runs A n body P Q" "undisturbed A (2 + n + k) s" "tx s = None" "P (tabs s)"
  shows "\<exists>s2 s' x. body (started s) = (s2, Inr x) \<and> in_tx False wc body s = (s', Inr x) \<and> Q x (tabs s') \<and> tabs s' = tabs s2
    \<and> undisturbed A k s' \<and> tx s' = None"
proof -
  have u: "undisturbed A (1 + (n + (1 + k))) s" using assms(2) by (simp add: algebra_simps)
  have nf: "\<not> fault s (tick s)" "ready A (n + (1 + k)) (started s)"
    using undisturbed_started [OF u] by (auto simp: ready_def in_live_tx_def started_def)
  obtain s2 x where 2: "body (started s) = (s2, Inr x)" "ready A (1 + k) s2" "Q x (tabs s2)"
    using runsD [OF assms(1) nf(2)] assms(4) by (auto simp: started_def next_tick_def)
  let ?s = "(next_tick s2)\<lparr>tx := None\<rparr>"
  obtain T where T: "tx s2 = Some T" "\<not> tx_aborted T" "\<not> fault s2 (tick s2)"
    using 2(2) by (auto simp: ready_def in_live_tx_def undisturbed_def)
  have "undisturbed A k ?s"
    by (rule undisturbed_next [where s = s2 and i = 1]) (use 2(2) in \<open>auto simp: ready_def next_tick_def\<close>)
  moreover have "begin_tx s = (started s, Inr ())" using nf(1) by (simp add: begin_tx_def started_def)
  moreover have "commit_tx s2 = (?s, Inr ())" using T by (simp add: commit_tx_def)
  ultimately have "in_tx False wc body s = (?s, Inr x)" "undisturbed A k ?s"
    using 2(1) by (simp_all add: in_tx_def dwrap_def)
  then show ?thesis using 2(1,3) by (intro exI [of _ s2] exI [of _ ?s] exI [of _ x]) (simp add: next_tick_def)
qed

lemma batch_runs:
  assumes "\<forall>b\<in>set ops. op_acceptable L (tabs s) b" "distinct (concat (map (op_targets L) ops))" "length ops \<le> MaxBatchSize"
    and "undisturbed A (batch_cost ops + k) s" "set (concat (map (op_targets L) ops)) \<subseteq> A" "tx s = None" "\<not> st_external st" "std_events_marshal L"
  shows "\<exists>s' rs. BatchWrite L st ops s = (s', Inr rs) \<and> length rs = length ops \<and> undisturbed A k s' \<and> tx s' = None"
proof -
  have v: "validate_ops 0 ops = Inr ()" using assms(1) by (simp add: validate_ops_iff op_acceptable_def)
  have u: "undisturbed A (2 + sum_list (map op_cost ops) + k) s" using assms(4) by (simp add: batch_cost_def)
  obtain s2 s' rs where "executeBatchOps L 0 ops (started s) = (s2, Inr rs)"
    "in_tx False (Wrap ''tx commit'') (executeBatchOps L 0 ops) s = (s', Inr rs)" "undisturbed A k s'" "tx s' = None"
    using in_tx_runs [OF runs_executeBatchOps [OF assms(8,5,2)] u assms(6,1)] by blast
  then show ?thesis using v assms(3,7) executeBatchOps_length by (simp add: BatchWrite_def dbind_def dlift_def)
qed

text \<open>C29. Acceptable batches succeed. Let every operation of a batch within its limits be acceptable in the current tables (its
  document, events, tokens and embedding are well-formed; an update or merge names a live entity at exactly the version it holds, a
  client identifier is unused; a relation joins existing entities) and let no two operations name the same
  entity. If no external call fails while the batch runs and the identifiers generated for it are new, it commits and returns a result for each operation.\<close>

theorem BatchWrite_succeeds:
  assumes "\<forall>b\<in>set ops. op_acceptable L (tabs s) b" "distinct (concat (map (op_targets L) ops))" "length ops \<le> MaxBatchSize"
    and "undisturbed (set (concat (map (op_targets L) ops))) (batch_cost ops) s" "tx s = None" "\<not> st_external st" "std_events_marshal L"
  shows "\<exists>s' rs. BatchWrite L st ops s = (s', Inr rs) \<and> length rs = length ops \<and> tx s' = None"
proof -
  have "undisturbed (set (concat (map (op_targets L) ops))) (batch_cost ops + 0) s" using assms(4) by simp
  from batch_runs [OF assms(1-3) this subset_refl assms(5-7)] show ?thesis by blast
qed

text \<open>A creation and an update in one batch.\<close>

definition demo_pair :: "BatchWriteOp list" where
  "demo_pair = [demo_new, \<lparr>bo_WriteEntity = Some demo_update, bo_UpsertRelation = None, bo_PreConditions = []\<rparr>]"

text \<open>The clock of \<open>demo_db\<close> numbers the identifiers it generates: they are fresh as long as the numbers in use are small.\<close>

lemma undisturbed_counting:
  assumes "\<And>k. \<not> fault s k" "\<And>k. uuids s k = of_nat (k + 1)" "\<forall>u\<in>ids (tabs s) \<union> A. unat u \<le> tick s" "tick s + n < 2 ^ 128"
  shows "undisturbed A n s"
proof -
  have u: "unat (uuids s k) = k + 1" if "k < tick s + n" for k
    unfolding assms(2) unat_of_nat by (rule mod_less) (use that assms(4) in simp)
  then have "uuids s k \<notin> ids (tabs s) \<union> A" if k: "tick s \<le> k" "k < tick s + n" for k
    using u [OF k(2)] k(1) assms(3) by (metis Suc_eq_plus1 not_less_eq_eq)
  moreover have "inj_on (uuids s) {tick s..<tick s + n}" using u by (intro inj_onI) (metis atLeastLessThan_iff add_right_cancel)
  ultimately show ?thesis using assms(1) by (auto simp: undisturbed_def)
qed

theorem BatchWrite_succeeds_witness:
  "\<exists>s' rs. BatchWrite demo_lib demo_store demo_pair (demo_state\<lparr>tick := 1\<rparr>) = (s', Inr rs) \<and> length rs = 2"
proof -
  let ?s = "demo_state\<lparr>tick := 1\<rparr>"
  have t: "concat (map (op_targets demo_lib) demo_pair) = [1]"
    by (simp add: demo_pair_def op_targets_def targets_def demo_new_def demo_create_def demo_update_def WriteActionCreate_def
        WriteActionUpdate_def unary_parse_def)
  have "\<forall>b\<in>set demo_pair. op_acceptable demo_lib (tabs ?s) b"
    by (simp add: demo_pair_def op_acceptable_def demo_new_def demo_create_def demo_update_def content_ok_def target_ok_def is_update_def
        op_valid_def validateTags_def maxTagsPerEntity_def maxTagLength_def marshalEntityData_def WriteActionCreate_def WriteActionUpdate_def
        unary_parse_def demo_state_def demo_tables_def view_def new_entity_def live_def max_int32_def)
  moreover have "undisturbed {1} (batch_cost demo_pair) ?s"
    by (rule undisturbed_counting) (simp_all add: demo_state_def demo_tables_def ids_def empty_tables_def new_entity_def batch_cost_def
        demo_pair_def op_cost_def demo_new_def demo_create_def demo_update_def write_cost_def)
  moreover have "std_events_marshal demo_lib" by (auto simp: std_events_marshal_def demo_lib_def split: proto_msg.split)
  ultimately show ?thesis using BatchWrite_succeeds [of demo_pair demo_lib ?s demo_store]
    by (simp add: t) (auto simp: demo_pair_def MaxBatchSize_def demo_state_def)
qed

section \<open>Guarded writes\<close>

lemma runs_select: "runs A 1 (select r) (\<lambda>t. t = t0) (\<lambda>x t. t = t0 \<and> x = r t0)"
  unfolding select_def by (rule runs_exec) auto

lemma runs_find_anchor_rows:
  "runs A (length aqs) (find_anchor_rows ty ts as x us aqs) (\<lambda>t. t = t0) (\<lambda>_ t. t = t0)"
proof (induction aqs)
  case (Cons aq aqs)
  have q: "runs A 1 (dwrap w (q_FindByAnchors ty f v ts as x us)) (\<lambda>t. t = t0) (\<lambda>_ t. t = t0)" for w f v
    unfolding q_FindByAnchors_def by (rule runs_dwrap, rule runs_weaken [OF runs_select]) auto
  have "runs A (1 + (length aqs + 0)) (find_anchor_rows ty ts as x us (aq # aqs)) (\<lambda>t. t = t0) (\<lambda>_ t. t = t0)"
    unfolding find_anchor_rows.simps by (rule runs_dbind [OF q], rule runs_dbind [OF Cons.IH], rule runs_dret)
  then show ?case by simp
qed (simp add: runs_dret)

definition consistent :: "PreCondition \<Rightarrow> bool" where
  "consistent pc \<longleftrightarrow> \<not> (pc_MustExist pc \<and> pc_MustNotExist pc)"

definition guards_cost :: "PreCondition list \<Rightarrow> nat" where
  "guards_cost pcs = sum_list (map (\<lambda>pc. length (pc_Anchors pc)) pcs)"

lemma runs_evaluatePreConditions:
  assumes "schema t0" "\<forall>pc\<in>set pcs. pc_holds t0 pc \<and> consistent pc"
  shows "runs A (guards_cost pcs) (evaluatePreConditions L i pcs) (\<lambda>t. t = t0) (\<lambda>_ t. t = t0)"
  using assms(2)
proof (induction pcs)
  case (Cons pc pcs)
  have find: "runs A (length (pc_Anchors pc)) (findByAnchorsTx L ty (pc_Anchors pc)) (\<lambda>t. t = t0) (\<lambda>_ t. t = t0)" for ty
    unfolding findByAnchorsTx_def by (rule runs_dmap, rule runs_find_anchor_rows)
  have ih: "runs A (guards_cost pcs) (evaluatePreConditions L i pcs) (\<lambda>t. t = t0) (\<lambda>_ t. t = t0)" by (rule Cons.IH) (use Cons.prems in simp)
  show ?case unfolding runs_def
  proof (intro allI impI)
    fix s k assume r: "ready A (guards_cost (pc # pcs) + k) s" and t: "tabs s = t0"
    have "ready A (length (pc_Anchors pc) + (guards_cost pcs + k)) s" using r by (simp add: guards_cost_def add.assoc)
    from runsD [OF find this t] obtain s1 es where f: "findByAnchorsTx L (pc_EntityType pc) (pc_Anchors pc) s = (s1, Inr es)"
      "ready A (guards_cost pcs + k) s1" "tabs s1 = t0" by blast
    have "evaluatePreConditions L i (pc # pcs) s = evaluatePreConditions L i pcs s1"
      using evaluatePreConditions_step [OF f(1)] assms(1) t Cons.prems by (simp add: consistent_def del: evaluatePreConditions.simps)
    then show "\<exists>s' x. evaluatePreConditions L i (pc # pcs) s = (s', Inr x) \<and> ready A k s' \<and> tabs s' = t0"
      using runsD [OF ih f(2,3)] by simp
  qed
qed (simp add: runs_dret guards_cost_def)

text \<open>One operation with its preconditions.\<close>

lemma guarded_runs:
  assumes "op_acceptable L (tabs s) (b\<lparr>bo_PreConditions := []\<rparr>)" "\<forall>pc\<in>set (bo_PreConditions b). pc_holds (tabs s) pc \<and> consistent pc"
    and "undisturbed A (2 + guards_cost (bo_PreConditions b) + op_cost b + k) s" "set (op_targets L b) \<subseteq> A" "tx s = None" "\<not> st_external st"
      "std_events_marshal L" "schema (tabs s)"
  shows "\<exists>s' r. BatchWrite L st [b] s = (s', Inr [r]) \<and> undisturbed A k s' \<and> tx s' = None"
proof -
  have "op_valid b" using assms(1) by (simp add: op_acceptable_def op_valid_def)
  then have v: "validate_ops 0 [b] = Inr ()" unfolding validate_ops_iff by simp
  have same: "batch_op L i (b\<lparr>bo_PreConditions := pcs\<rparr>) = batch_op L i b" "op_cost (b\<lparr>bo_PreConditions := pcs\<rparr>) = op_cost b"
    "op_targets L (b\<lparr>bo_PreConditions := pcs\<rparr>) = op_targets L b" for i pcs
  proof -
    have f: "bo_WriteEntity (b\<lparr>bo_PreConditions := pcs\<rparr>) = bo_WriteEntity b"
      "bo_UpsertRelation (b\<lparr>bo_PreConditions := pcs\<rparr>) = bo_UpsertRelation b" by simp_all
    show "batch_op L i (b\<lparr>bo_PreConditions := pcs\<rparr>) = batch_op L i b" "op_cost (b\<lparr>bo_PreConditions := pcs\<rparr>) = op_cost b"
      "op_targets L (b\<lparr>bo_PreConditions := pcs\<rparr>) = op_targets L b"
      unfolding batch_op_def op_cost_def op_targets_def f by (rule refl)+
  qed
  have op: "runs A (op_cost b) (batch_op L 0 b) (\<lambda>t. view t = view (tabs s)) (\<lambda>_ t. kept A (set (op_targets L b)) (view (tabs s)) (view t))"
    using runs_batch_op [OF assms(1,7), of A 0] assms(4) by (simp only: same)
  have "runs A (op_cost b + 0) (dbind (batch_op L 0 b) (\<lambda>r. dret [r])) (\<lambda>t. t = tabs s) (\<lambda>_ _. True)"
    by (rule runs_weaken [OF runs_dbind [OF op runs_dret [where Q = "\<lambda>_ _. True"]]]) auto
  from runs_dbind [OF runs_evaluatePreConditions [OF assms(8,2)] this]
  have body: "runs A (guards_cost (bo_PreConditions b) + (op_cost b + 0)) (executeBatchOps L 0 [b]) (\<lambda>t. t = tabs s) (\<lambda>_ _. True)"
    by (simp only: executeBatchOps.simps dbind_simps)
  have u: "undisturbed A (2 + (guards_cost (bo_PreConditions b) + (op_cost b + 0)) + k) s" using assms(3) by (simp add: add.assoc)
  obtain s2 s' rs where r: "executeBatchOps L 0 [b] (started s) = (s2, Inr rs)"
    "in_tx False (Wrap ''tx commit'') (executeBatchOps L 0 [b]) s = (s', Inr rs)" "undisturbed A k s'" "tx s' = None"
    using in_tx_runs [OF body u assms(5) refl] by blast
  have "length rs = Suc 0" using executeBatchOps_length [OF r(1)] by simp
  then obtain x where "rs = [x]" by (cases rs) auto
  then show ?thesis using r v assms(6) by (auto simp: BatchWrite_def dbind_def dlift_def MaxBatchSize_def simp del: executeBatchOps.simps)
qed

end
