(* ===== verification/Store_Examples.thy ===== *)
theory Store_Examples
  imports Explorer Tx_Sessions Progress Codegen
begin

text \<open>
  The programs of \<open>src/examples/store_example.go\<close>: creating, changing, finding and relating entities, tags, batches, preconditions,
  scoped stores and traversals, as a caller of the facade writes them. A program returns the values it prints, in order;
  \<open>log.Fatal\<close> is its error, and indexing a result that is not there is \<open>Panic\<close>. \<open>SetupEntityStore\<close> is in \<open>Programs\<close>,
  \<open>TransactionExample\<close> in \<open>Tx_Sessions\<close> and \<open>PaginationExample\<close> in \<open>Paging\<close>.
\<close>

section \<open>Composite literals\<close>

text \<open>Fields that a literal leaves out are zero.\<close>

definition zero_UpsertRelationOp :: UpsertRelationOp where
  "zero_UpsertRelationOp = \<lparr>ur_SourceID = [], ur_TargetID = [], ur_RelationType = [], ur_Confidence = 0, ur_Evidence = [],
     ur_Implied = False, ur_SourceURN = [], ur_Data = None, ur_Events = []\<rparr>"

definition zero_PreCondition :: PreCondition where
  "zero_PreCondition = \<lparr>pc_EntityType = [], pc_Anchors = [], pc_MustExist = False, pc_MustNotExist = False, pc_TagRequired = [],
     pc_TagForbidden = []\<rparr>"

definition zero_ScopeConfig :: ScopeConfig where
  "zero_ScopeConfig = \<lparr>sc_RequireTags = [], sc_ExcludeTag = [], sc_UnlessTags = [], sc_AutoTags = []\<rparr>"

abbreviation entity_op :: "WriteEntityOp \<Rightarrow> BatchWriteOp" where
  "entity_op we \<equiv> \<lparr>bo_WriteEntity = Some we, bo_UpsertRelation = None, bo_PreConditions = []\<rparr>"

abbreviation guarded_op :: "WriteEntityOp \<Rightarrow> PreCondition list \<Rightarrow> BatchWriteOp" where
  "guarded_op we pcs \<equiv> \<lparr>bo_WriteEntity = Some we, bo_UpsertRelation = None, bo_PreConditions = pcs\<rparr>"

abbreviation relation_op :: "UpsertRelationOp \<Rightarrow> BatchWriteOp" where
  "relation_op ur \<equiv> \<lparr>bo_WriteEntity = None, bo_UpsertRelation = Some ur, bo_PreConditions = []\<rparr>"

abbreviation anchor :: "string \<Rightarrow> string \<Rightarrow> AnchorQuery" where
  "anchor field value \<equiv> \<lparr>aq_Field = field, aq_Value = value\<rparr>"

text \<open>\<open>results[i].Entity\<close>, which the caller dereferences.\<close>

definition result_entity :: "BatchWriteResult list \<Rightarrow> nat \<Rightarrow> StoredEntity dbm" where
  "result_entity rs i = (if i < length rs then (case br_Entity (rs ! i) of Some e \<Rightarrow> dret e | None \<Rightarrow> dfail Panic) else dfail Panic)"

text \<open>\<open>var pcErr *PreConditionError; if errors.As(err, &pcErr) { \<dots>; return }\<close>, then \<open>log.Fatal\<close> for any other error.\<close>

definition or_precondition :: "'a dbm \<Rightarrow> ((nat \<times> PreCondition \<times> string) + 'a) dbm" where
  "or_precondition m s = (case m s of
     (s', Inr x) \<Rightarrow> (s', Inr (Inr x))
   | (s', Inl e) \<Rightarrow> (case errors_root e of PreConditionError i pc v \<Rightarrow> (s', Inr (Inl (i, pc, v))) | _ \<Rightarrow> (s', Inl e)))"

section \<open>Creating, updating, merging\<close>

definition CreateEntityExample :: "lib \<Rightarrow> EntityStore \<Rightarrow> (string \<times> string) dbm" where
  "CreateEntityExample L es =
     (let data = struct_msg [(''email'', JStr ''alice@example.com''), (''full_name'', JStr ''Alice Johnson''),
        (''phone'', JStr ''+1-555-123-4567''), (''date_of_birth'', JStr ''1992-03-20''), (''job_title'', JStr ''Product Manager'')] in
      dbind (EntityStore_BatchWrite L es [entity_op (zero_WriteEntityOp\<lparr>wo_Action := WriteActionCreate, wo_Data := Some data,
        wo_Confidence := f64 (19 / 20), wo_Tags := [''source:crm'', ''team:engineering''],
        wo_Anchors := [anchor ''email'' ''alice@example.com''],
        wo_Tokens := [(''full_name'', Some [''alice'', ''johnson'']), (''job_title'', Some [''product'', ''manager''])]\<rparr>)]) (\<lambda>results.
      dbind (result_entity results 0) (\<lambda>entity.
      dret (se_ID entity, se_EntityType entity))))"

definition CreateWithClientIDExample :: "lib \<Rightarrow> EntityStore \<Rightarrow> string dbm" where
  "CreateWithClientIDExample L es =
     (let data = struct_msg [(''invoice_number'', JStr ''INV-2024-001''), (''issuer_name'', JStr ''Acme Corp''),
        (''total_amount'', JRaw ''1250''), (''invoice_date'', JStr ''2024-03-15''), (''currency'', JStr ''EUR'')] in
      dbind (EntityStore_BatchWrite L es [entity_op (zero_WriteEntityOp\<lparr>wo_Action := WriteActionCreate,
        wo_ID := ''550e8400-e29b-41d4-a716-446655440000'', wo_Data := Some data, wo_Confidence := f64 (9 / 10),
        wo_Anchors := [anchor ''invoice_number'' ''inv-2024-001'']\<rparr>)]) (\<lambda>results.
      dmap se_ID (result_entity results 0)))"

definition UpdateEntityExample :: "lib \<Rightarrow> EntityStore \<Rightarrow> string \<Rightarrow> unit dbm" where
  "UpdateEntityExample L es entityID =
     (let updatedData = struct_msg [(''email'', JStr ''alice.johnson@newcompany.com''), (''full_name'', JStr ''Alice M. Johnson''),
        (''phone'', JStr ''+1-555-987-6543''), (''date_of_birth'', JStr ''1992-03-20''), (''job_title'', JStr ''VP of Product'')] in
      dmap (\<lambda>_. ()) (EntityStore_BatchWrite L es [entity_op (zero_WriteEntityOp\<lparr>wo_Action := WriteActionUpdate,
        wo_MatchedEntityID := entityID, wo_Data := Some updatedData, wo_Confidence := f64 (49 / 50),
        wo_Anchors := [anchor ''email'' ''alice.johnson@newcompany.com'']\<rparr>)]))"

definition MergeEntityExample :: "lib \<Rightarrow> EntityStore \<Rightarrow> string \<Rightarrow> unit dbm" where
  "MergeEntityExample L es entityID =
     (let partialData = struct_msg [(''job_title'', JStr ''Chief Product Officer''), (''phone'', JStr ''+1-555-000-1111'')] in
      dmap (\<lambda>_. ()) (EntityStore_BatchWrite L es [entity_op (zero_WriteEntityOp\<lparr>wo_Action := WriteActionMerge,
        wo_MatchedEntityID := entityID, wo_Data := Some partialData, wo_Confidence := f64 (23 / 25)\<rparr>)]))"

section \<open>Finding\<close>

definition FindByAnchorsExample :: "lib \<Rightarrow> EntityStore \<Rightarrow> (nat \<times> nat) dbm" where
  "FindByAnchorsExample L es =
     dbind (EntityStore_FindByAnchors L es ''examples.v1.Person'' [anchor ''email'' ''alice@example.com''] None) (\<lambda>matches.
     dbind (EntityStore_FindByAnchors L es ''examples.v1.Person'' [anchor ''email'' ''alice@example.com'']
        (Some (empty_QueryFilter\<lparr>qf_Tags := [''source:crm'']\<rparr>))) (\<lambda>tagged.
     dret (length matches, length tagged)))"

definition FindByTokensExample :: "lib \<Rightarrow> EntityStore \<Rightarrow> nat dbm" where
  "FindByTokensExample L es =
     (let toks = Tokenize (ucd (lib_go L)) ''Alice Johnson Engineering'' in
      dmap length (EntityStore_FindByTokens L es ''examples.v1.Person'' toks 10 None))"

definition FindByEmbeddingExample :: "lib \<Rightarrow> EntityStore \<Rightarrow> (nat \<times> nat) dbm" where
  "FindByEmbeddingExample L es =
     (let vec = replicate 1536 0 in
      dbind (EntityStore_FindByEmbedding L es ''examples.v1.Person'' vec 5 None) (\<lambda>matches.
      dbind (EntityStore_FindByEmbedding L es [] vec 10
         (Some (empty_QueryFilter\<lparr>qf_EntityTypes := [''examples.v1.Person'', ''examples.v1.JobPosting'']\<rparr>))) (\<lambda>across.
      dret (length matches, length across))))"

section \<open>Relations and tags\<close>

definition RelationsExample :: "lib \<Rightarrow> EntityStore \<Rightarrow> string \<Rightarrow> string \<Rightarrow> ((string \<times> string \<times> string \<times> float64) list \<times> nat \<times> nat) dbm" where
  "RelationsExample L es personID companyID =
     (let relData = struct_msg [(''role'', JStr ''VP of Product''), (''start_date'', JStr ''2023-01-15'')] in
      dbind (EntityStore_BatchWrite L es [relation_op (zero_UpsertRelationOp\<lparr>ur_SourceID := personID, ur_TargetID := companyID,
        ur_RelationType := ''works_at'', ur_Confidence := f64 (19 / 20), ur_Evidence := ''Extracted from LinkedIn profile'',
        ur_SourceURN := ''linkedin:profile/alice-johnson'', ur_Data := Some relData\<rparr>)]) (\<lambda>_.
      dbind (EntityStore_GetRelationsFromEntity L es personID 0 None) (\<lambda>outbound.
      dbind (EntityStore_ConnectedEntities L es personID) (\<lambda>connected.
      dbind (EntityStore_FindConnectedByType L es personID (Some (zero_FindConnectedOpts\<lparr>fc_EntityType := ''examples.v1.Company'',
        fc_RelationTypes := [''works_at'']\<rparr>))) (\<lambda>companies.
      dret (map (\<lambda>rel. (sr_SourceID rel, sr_RelationType rel, sr_TargetID rel, sr_Confidence rel)) outbound, length connected,
        length companies))))))"

definition TagsExample :: "lib \<Rightarrow> EntityStore \<Rightarrow> string \<Rightarrow> unit dbm" where
  "TagsExample L es entityID =
     dbind (ignored () (EntityStore_SetTags L es entityID (Some [''source:crm'', ''status:active'']))) (\<lambda>_.
     dbind (ignored () (EntityStore_AddTags L es entityID [''team:engineering'', ''priority:high''])) (\<lambda>_.
     ignored () (EntityStore_RemoveTag L es entityID ''priority:high'')))"

section \<open>Events and batches\<close>

definition EventsExample :: "lib \<Rightarrow> EntityStore \<Rightarrow> string \<Rightarrow> ((string \<times> string \<times> string \<times> string \<times> time \<times> string list) list \<times> nat) dbm" where
  "EventsExample L es entityID =
     dbind (EntityStore_GetEventsForEntity L es entityID None) (\<lambda>evs.
     dbind (EntityStore_GetEventsForEntity L es entityID (Some \<lparr>eo_EventTypes = [''entitystore.events.v1.EntityCreated''], eo_Since = 0,
        eo_Limit = 0\<rparr>)) (\<lambda>filtered.
     dret (map (\<lambda>evt. (ev_ID evt, ev_EventType evt, ev_PayloadType evt, ev_EntityID evt, ev_OccurredAt evt, ev_Tags evt)) evs,
        length filtered)))"

definition EventsWithWriteExample :: "lib \<Rightarrow> EntityStore \<Rightarrow> unit dbm" where
  "EventsWithWriteExample L es =
     (let data = struct_msg [(''email'', JStr ''dave@example.com''), (''full_name'', JStr ''Dave Wilson'')] in
      dmap (\<lambda>_. ()) (EntityStore_BatchWrite L es [entity_op (zero_WriteEntityOp\<lparr>wo_Action := WriteActionCreate, wo_Data := Some data,
        wo_Confidence := f64 (19 / 20), wo_Anchors := [anchor ''email'' ''dave@example.com'']\<rparr>)]))"

definition MixedBatchExample :: "lib \<Rightarrow> EntityStore \<Rightarrow> (string \<times> string) dbm" where
  "MixedBatchExample L es =
     (let personData = struct_msg [(''email'', JStr ''carol@startup.io''), (''full_name'', JStr ''Carol Chen'')];
          companyData = struct_msg [(''name'', JStr ''Startup Inc''), (''domain'', JStr ''startup.io'')] in
      dbind (EntityStore_BatchWrite L es
        [entity_op (zero_WriteEntityOp\<lparr>wo_Action := WriteActionCreate, wo_Data := Some personData, wo_Confidence := f64 (93 / 100),
           wo_Anchors := [anchor ''email'' ''carol@startup.io'']\<rparr>),
         entity_op (zero_WriteEntityOp\<lparr>wo_Action := WriteActionCreate, wo_Data := Some companyData, wo_Confidence := f64 (22 / 25),
           wo_Anchors := [anchor ''domain'' ''startup.io'']\<rparr>)]) (\<lambda>results.
      dbind (result_entity results 0) (\<lambda>person.
      dbind (result_entity results 1) (\<lambda>company.
      dbind (EntityStore_BatchWrite L es [relation_op (zero_UpsertRelationOp\<lparr>ur_SourceID := se_ID person, ur_TargetID := se_ID company,
        ur_RelationType := ''works_at'', ur_Confidence := f64 (93 / 100), ur_Evidence := ''Email domain matches company domain'',
        ur_SourceURN := ''email:inbox/msg-100''\<rparr>)]) (\<lambda>_.
      dret (se_ID person, se_ID company))))))"

section \<open>Preconditions\<close>

definition PreConditionReferentialIntegrityExample ::
    "lib \<Rightarrow> EntityStore \<Rightarrow> string \<Rightarrow> string \<Rightarrow> ((nat \<times> PreCondition \<times> string) + unit) dbm" where
  "PreConditionReferentialIntegrityExample L es productID rulesetID =
     (let updatedProduct = struct_msg [(''name'', JStr ''Widget Pro''), (''ruleset_id'', JStr rulesetID)] in
      dmap (map_sum (\<lambda>x. x) (\<lambda>_. ())) (or_precondition (EntityStore_BatchWrite L es
        [guarded_op (zero_WriteEntityOp\<lparr>wo_Action := WriteActionUpdate, wo_MatchedEntityID := productID, wo_Data := Some updatedProduct,
           wo_Confidence := f64 (19 / 20)\<rparr>)
          [zero_PreCondition\<lparr>pc_EntityType := ''rulesets.v1.Ruleset'', pc_Anchors := [anchor ''ruleset_id'' rulesetID],
             pc_MustExist := True, pc_TagForbidden := ''disabled:true''\<rparr>]])))"

definition unique_invoice :: BatchWriteOp where
  "unique_invoice = guarded_op (zero_WriteEntityOp\<lparr>wo_Action := WriteActionCreate,
        wo_Data := Some (struct_msg [(''invoice_number'', JStr ''INV-2024-042''), (''issuer_name'', JStr ''Acme Corp''), (''total_amount'', JRaw ''3500'')]),
        wo_Confidence := f64 (9 / 10), wo_Anchors := [anchor ''invoice_number'' ''inv-2024-042'']\<rparr>)
      [zero_PreCondition\<lparr>pc_EntityType := ''google.protobuf.Struct'', pc_Anchors := [anchor ''invoice_number'' ''inv-2024-042''],
         pc_MustNotExist := True\<rparr>]"

definition PreConditionUniquenessExample :: "lib \<Rightarrow> EntityStore \<Rightarrow> ((nat \<times> PreCondition \<times> string) + string) dbm" where
  "PreConditionUniquenessExample L es =
     dbind (or_precondition (EntityStore_BatchWrite L es [unique_invoice])) (\<lambda>r. case r of
       Inl (i, pc, violation) \<Rightarrow> dret (Inl (i, pc, violation))
     | Inr results \<Rightarrow> dmap (\<lambda>e. Inr (se_ID e)) (result_entity results 0))"

definition PreConditionStatusGuardExample ::
    "lib \<Rightarrow> EntityStore \<Rightarrow> string \<Rightarrow> string \<Rightarrow> ((nat \<times> PreCondition \<times> string) + unit) dbm" where
  "PreConditionStatusGuardExample L es orderID warehouseID =
     (let shipmentData = struct_msg [(''order_id'', JStr orderID), (''warehouse_id'', JStr warehouseID), (''status'', JStr ''pending'')] in
      dmap (map_sum (\<lambda>x. x) (\<lambda>_. ())) (or_precondition (EntityStore_BatchWrite L es
        [guarded_op (zero_WriteEntityOp\<lparr>wo_Action := WriteActionCreate, wo_Data := Some shipmentData, wo_Confidence := f64 (19 / 20)\<rparr>)
          [zero_PreCondition\<lparr>pc_EntityType := ''orders.v1.Order'', pc_Anchors := [anchor ''order_id'' orderID], pc_MustExist := True,
             pc_TagRequired := ''confirmed''\<rparr>,
           zero_PreCondition\<lparr>pc_EntityType := ''warehouses.v1.Warehouse'', pc_Anchors := [anchor ''warehouse_id'' warehouseID],
             pc_MustExist := True, pc_TagForbidden := ''suspended''\<rparr>]])))"

section \<open>Scoped stores\<close>

text \<open>The last component says whether the denial is printed.\<close>

definition ScopedStoreWorkspaceExample :: "lib \<Rightarrow> EntityStore \<Rightarrow> string \<Rightarrow> (string \<times> nat \<times> bool) dbm" where
  "ScopedStoreWorkspaceExample L es workspaceID =
     (let scoped = Scoped es \<lparr>sc_RequireTags = [''ws:'' @ workspaceID], sc_ExcludeTag = ''restricted'', sc_UnlessTags = [''admin''],
            sc_AutoTags = [''ws:'' @ workspaceID]\<rparr>;
          personData = struct_msg [(''email'', JStr ''alice@acme.com''), (''full_name'', JStr ''Alice Johnson'')] in
      dbind (ScopedStore_BatchWrite L scoped [entity_op (zero_WriteEntityOp\<lparr>wo_Action := WriteActionCreate, wo_Data := Some personData,
        wo_Confidence := f64 (19 / 20), wo_Anchors := [anchor ''email'' ''alice@acme.com'']\<rparr>)]) (\<lambda>results.
      dbind (result_entity results 0) (\<lambda>ent.
      dbind (ScopedStore_FindByAnchors L scoped ''google.protobuf.Struct'' [anchor ''email'' ''alice@acme.com''] None) (\<lambda>found.
      (\<lambda>s. case ScopedStore_GetEntity L scoped ''some-other-workspace-entity-id'' s of
         (s', Inl e) \<Rightarrow> (s', Inr (se_ID ent, length found, errors_Is e ErrAccessDenied))
       | (s', Inr _) \<Rightarrow> (s', Inr (se_ID ent, length found, False)))))))"

definition ScopedStoreTenantExample :: "lib \<Rightarrow> EntityStore \<Rightarrow> string \<Rightarrow> string dbm" where
  "ScopedStoreTenantExample L es tenantID =
     (let scoped = Scoped es (zero_ScopeConfig\<lparr>sc_RequireTags := [''tenant:'' @ tenantID], sc_AutoTags := [''tenant:'' @ tenantID]\<rparr>);
          invoiceData = struct_msg [(''invoice_number'', JStr ''INV-001''), (''total_amount'', JRaw ''5000'')] in
      dbind (ScopedStore_BatchWrite L scoped [entity_op (zero_WriteEntityOp\<lparr>wo_Action := WriteActionCreate, wo_Data := Some invoiceData,
        wo_Confidence := f64 (9 / 10), wo_Anchors := [anchor ''invoice_number'' ''inv-001'']\<rparr>)]) (\<lambda>results.
      dmap se_ID (result_entity results 0)))"

text \<open>This example only builds the store.\<close>

definition ScopedStoreWithTxExample :: "EntityStore \<Rightarrow> ScopedStore" where
  "ScopedStoreWithTxExample es = Scoped es (zero_ScopeConfig\<lparr>sc_RequireTags := [''ws:acme''], sc_AutoTags := [''ws:acme'']\<rparr>)"

section \<open>Traversals\<close>

definition TraverseBasicExample :: "lib \<Rightarrow> EntityStore \<Rightarrow> string \<Rightarrow> (nat \<times> string \<times> string) list dbm" where
  "TraverseBasicExample L es startEntityID =
     dmap (map (\<lambda>r. (tr_Depth r, se_ID (tr_Entity r), se_EntityType (tr_Entity r)))) (EntityStore_Traverse L es startEntityID None)"

definition TraverseWithDirectionExample :: "lib \<Rightarrow> EntityStore \<Rightarrow> string \<Rightarrow> (nat \<times> nat) dbm" where
  "TraverseWithDirectionExample L es personID =
     dbind (EntityStore_Traverse L es personID (Some (zero_TraverseOpts\<lparr>to_Direction := DirectionOutbound, to_MaxDepth := 2\<rparr>))) (\<lambda>outbound.
     dbind (EntityStore_Traverse L es personID (Some (zero_TraverseOpts\<lparr>to_Direction := DirectionInbound, to_MaxDepth := 2\<rparr>))) (\<lambda>inbound.
     dret (length outbound, length inbound)))"

definition TraverseWithFiltersExample :: "lib \<Rightarrow> EntityStore \<Rightarrow> string \<Rightarrow> (string \<times> nat \<times> (string \<times> string \<times> string \<times> float64) list) list dbm" where
  "TraverseWithFiltersExample L es companyID =
     dmap (map (\<lambda>r. (se_ID (tr_Entity r), tr_Depth r, map (\<lambda>edge. (te_FromID edge, te_RelationType edge, te_ToID edge, te_Confidence edge)) (tr_Path r))))
       (EntityStore_Traverse L es companyID (Some (zero_TraverseOpts\<lparr>to_MaxDepth := 2, to_RelationTypes := [''works_at'', ''founded''],
          to_EntityType := ''entities.v1.Person'', to_MinConfidence := f64 (7 / 10), to_MaxResults := 50\<rparr>)))"

definition TraverseWithTagFilterExample :: "lib \<Rightarrow> EntityStore \<Rightarrow> string \<Rightarrow> nat dbm" where
  "TraverseWithTagFilterExample L es entityID =
     dmap length (EntityStore_Traverse L es entityID (Some (zero_TraverseOpts\<lparr>to_MaxDepth := 3,
       to_Filter := Some (empty_QueryFilter\<lparr>qf_Tags := [''ws:acme''], qf_ExcludeTag := ''archived'', qf_UnlessTags := [''pinned'']\<rparr>)\<rparr>)))"

definition TraverseRAGContextExample :: "lib \<Rightarrow> EntityStore \<Rightarrow> string \<Rightarrow> (string \<times> string \<times> nat \<times> (nat \<times> string \<times> string \<times> string list) list) dbm" where
  "TraverseRAGContextExample L es matchedEntityID =
     dbind (EntityStore_GetEntity L es matchedEntityID) (\<lambda>entity.
     dbind (EntityStore_Traverse L es matchedEntityID (Some (zero_TraverseOpts\<lparr>to_MaxDepth := 2, to_MaxResults := 20\<rparr>))) (\<lambda>neighbors.
     dret (se_ID entity, se_EntityType entity, length neighbors,
       map (\<lambda>r. (tr_Depth r, se_ID (tr_Entity r), se_EntityType (tr_Entity r), map te_RelationType (tr_Path r))) neighbors)))"

definition TraverseScopedExample :: "lib \<Rightarrow> EntityStore \<Rightarrow> string \<Rightarrow> string \<Rightarrow> nat dbm" where
  "TraverseScopedExample L es workspaceID startID =
     (let scoped = Scoped es (zero_ScopeConfig\<lparr>sc_RequireTags := [''ws:'' @ workspaceID], sc_ExcludeTag := ''deleted'', sc_UnlessTags := [''pinned'']\<rparr>) in
      dmap length (ScopedStore_Traverse L scoped startID (Some (zero_TraverseOpts\<lparr>to_MaxDepth := 3\<rparr>))))"

end
