(* ===== verification/Event_Examples.thy ===== *)
theory Event_Examples
  imports Store_Examples
begin

text \<open>
  The programs of \<open>src/examples/events_example.go\<close>: lifecycle and domain events, named consumers, display names, search, anchors,
  optimistic locking and health, in the style of \<open>Store_Examples\<close>.
\<close>

text \<open>\<open>_, err := f()\<close>: the error alone.\<close>

definition outcome :: "'a dbm \<Rightarrow> err option dbm" where
  "outcome m s = (case m s of (s', Inl e) \<Rightarrow> (s', Inr (Some e)) | (s', Inr _) \<Rightarrow> (s', Inr None))"

section \<open>Events\<close>

definition AutomaticEventsExample :: "lib \<Rightarrow> EntityStore \<Rightarrow> ((string \<times> time) list \<times> nat) dbm" where
  "AutomaticEventsExample L es =
     (let data = struct_msg [(''full_name'', JStr ''Alice Dupont''), (''email'', JStr ''alice@dupont.be'')];
          updatedData = struct_msg [(''full_name'', JStr ''Alice M. Dupont''), (''email'', JStr ''alice@dupont.be''), (''job_title'', JStr ''CEO'')] in
      dbind (EntityStore_BatchWrite L es [entity_op (zero_WriteEntityOp\<lparr>wo_Action := WriteActionCreate, wo_Data := Some data,
        wo_Confidence := f64 (19 / 20), wo_DisplayName := ''Alice Dupont'', wo_Tags := [''ws:acme'']\<rparr>)]) (\<lambda>results.
      dbind (result_entity results 0) (\<lambda>ent.
      dbind (ignored [] (EntityStore_GetEventsForEntity L es (se_ID ent) None)) (\<lambda>created.
      dbind (ignored [] (EntityStore_BatchWrite L es [entity_op (zero_WriteEntityOp\<lparr>wo_Action := WriteActionUpdate,
        wo_MatchedEntityID := se_ID ent, wo_Data := Some updatedData, wo_Confidence := f64 (49 / 50), wo_DisplayName := ''Alice M. Dupont''\<rparr>)])) (\<lambda>_.
      dbind (ignored [] (EntityStore_GetEventsForEntity L es (se_ID ent) None)) (\<lambda>updated.
      dret (map (\<lambda>evt. (ev_EventType evt, ev_OccurredAt evt)) created, length updated)))))))"

definition CustomEventsExample :: "lib \<Rightarrow> EntityStore \<Rightarrow> string list dbm" where
  "CustomEventsExample L es =
     (let data = struct_msg [(''full_name'', JStr ''Bob Martin''), (''email'', JStr ''bob@techcorp.io'')];
          customEvent = struct_msg [(''source'', JStr ''linkedin''), (''recruiter'', JStr ''carol@acme.com'')] in
      dbind (ignored [] (EntityStore_BatchWrite L es [entity_op (zero_WriteEntityOp\<lparr>wo_Action := WriteActionCreate, wo_Data := Some data,
        wo_Confidence := f64 (9 / 10), wo_DisplayName := ''Bob Martin'', wo_Events := [customEvent]\<rparr>)])) (\<lambda>results.
      dbind (result_entity results 0) (\<lambda>ent.
      dmap (map ev_EventType) (ignored [] (EntityStore_GetEventsForEntity L es (se_ID ent) None)))))"

text \<open>\<open>hourAgo\<close> is \<open>time.Now().Add(-1 * time.Hour)\<close>.\<close>

definition EventQueryExample :: "lib \<Rightarrow> EntityStore \<Rightarrow> string \<Rightarrow> (nat \<times> nat \<times> nat \<times> nat \<times> nat option) dbm" where
  "EventQueryExample L es entityID =
     dbind (ignored [] (EntityStore_GetEventsForEntity L es entityID None)) (\<lambda>every.
     dbind (ignored [] (EntityStore_GetEventsForEntity L es entityID (Some \<lparr>eo_EventTypes = [''entitystore.events.EntityCreated''],
        eo_Since = 0, eo_Limit = 0\<rparr>))) (\<lambda>creates.
     dbind (\<lambda>s. (s, Inr (clock s (tick s) - 3600 * second))) (\<lambda>hourAgo.
     dbind (ignored [] (EntityStore_GetEventsForEntity L es entityID (Some \<lparr>eo_EventTypes = [], eo_Since = hourAgo, eo_Limit = 10\<rparr>))) (\<lambda>recent.
     dbind (ignored [] (EntityStore_GetAllEvents L es (Some \<lparr>eo_EventTypes = [], eo_Since = 0, eo_Limit = 50\<rparr>) None)) (\<lambda>allEvents.
     dbind (if length allEvents = 50
            then dmap (\<lambda>evs. Some (length evs)) (ignored [] (EntityStore_GetAllEvents L es (Some \<lparr>eo_EventTypes = [], eo_Since = 0, eo_Limit = 50\<rparr>)
              (Some (ev_OccurredAt (last allEvents)))))
            else dret None) (\<lambda>nextPage.
     dret (length every, length creates, length recent, length allEvents, nextPage)))))))"

section \<open>Consumers\<close>

text \<open>Both functions print and return \<open>nil\<close>. The logger is left out of the configuration.\<close>

definition zero_ConsumerConfig :: ConsumerConfig where
  "zero_ConsumerConfig = \<lparr>cc_Name = [], cc_BatchSize = 0, cc_PollInterval = 0, cc_LockTTL = 0, cc_HolderID = [], cc_MaxRetries = 0,
     cc_InitialBackoff = 0, cc_MaxBackoff = 0\<rparr>"

definition ConsumerExample :: "string \<Rightarrow> (ConsumerFunc \<times> Consumer) \<times> (ConsumerFunc \<times> Consumer)" where
  "ConsumerExample generatedHolder =
     (((\<lambda>_ _. None), NewConsumer generatedHolder (zero_ConsumerConfig\<lparr>cc_Name := ''notifier'', cc_PollInterval := 5 * second\<rparr>)),
      ((\<lambda>_ _. None), NewConsumer generatedHolder (zero_ConsumerConfig\<lparr>cc_Name := ''projector'', cc_BatchSize := 50, cc_PollInterval := 5 * second\<rparr>)))"

section \<open>Names, search, anchors\<close>

definition DisplayNameExample :: "lib \<Rightarrow> EntityStore \<Rightarrow> unit dbm" where
  "DisplayNameExample L es =
     (let data = struct_msg [(''full_name'', JStr ''Diana Janssen''), (''email'', JStr ''diana@acme.com'')] in
      dmap (\<lambda>_. ()) (ignored [] (EntityStore_BatchWrite L es [entity_op (zero_WriteEntityOp\<lparr>wo_Action := WriteActionCreate, wo_Data := Some data,
        wo_Confidence := f64 (19 / 20), wo_DisplayName := ''Diana Janssen'', wo_Tags := [''type:person'']\<rparr>)])))"

definition SearchExample :: "lib \<Rightarrow> EntityStore \<Rightarrow> ((string \<times> string) list \<times> nat \<times> nat \<times> nat) dbm" where
  "SearchExample L es =
     dbind (ignored [] (EntityStore_Search L es ''diana'' 20 None)) (\<lambda>found.
     dbind (ignored [] (EntityStore_Search L es ''jan'' 20 None)) (\<lambda>partial.
     dbind (ignored [] (EntityStore_Search L es ''DIANA'' 20 None)) (\<lambda>upper.
     dbind (ignored [] (EntityStore_Search L es ''diana'' 20 (Some (empty_QueryFilter\<lparr>qf_Tags := [''type:person'']\<rparr>)))) (\<lambda>persons.
     dret (map (\<lambda>e. (se_DisplayName e, se_EntityType e)) found, length partial, length upper, length persons)))))"

definition AnchorsExample :: "lib \<Rightarrow> EntityStore \<Rightarrow> string \<Rightarrow> (string \<times> (string \<times> string) list) dbm" where
  "AnchorsExample L es entityID =
     dbind (ignored [] (EntityStore_GetAnchorsForEntity L es entityID)) (\<lambda>found.
     case first8 entityID of None \<Rightarrow> dfail Panic | Some short \<Rightarrow> dret (short, found))"

section \<open>Optimistic locking\<close>

text \<open>The version printed after the creation, the errors of the two updates, and the version read again after a conflict.\<close>

definition OptimisticLockingExample :: "lib \<Rightarrow> EntityStore \<Rightarrow> (int \<times> err option \<times> err option \<times> int option) dbm" where
  "OptimisticLockingExample L es =
     (let data = struct_msg [(''name'', JStr ''Eve''), (''email'', JStr ''eve@startup.io'')];
          updatedData = struct_msg [(''name'', JStr ''Eve Laurent''), (''email'', JStr ''eve@startup.io''), (''title'', JStr ''CEO'')] in
      dbind (ignored [] (EntityStore_BatchWrite L es [entity_op (zero_WriteEntityOp\<lparr>wo_Action := WriteActionCreate, wo_Data := Some data,
        wo_Confidence := f64 (9 / 10), wo_DisplayName := ''Eve Laurent''\<rparr>)])) (\<lambda>results.
      dbind (result_entity results 0) (\<lambda>entity.
      dbind (outcome (EntityStore_BatchWrite L es [entity_op (zero_WriteEntityOp\<lparr>wo_Action := WriteActionUpdate,
        wo_MatchedEntityID := se_ID entity, wo_Version := se_Version entity, wo_Data := Some updatedData, wo_Confidence := f64 (19 / 20),
        wo_DisplayName := ''Eve Laurent''\<rparr>)])) (\<lambda>err1.
      dbind (outcome (EntityStore_BatchWrite L es [entity_op (zero_WriteEntityOp\<lparr>wo_Action := WriteActionUpdate,
        wo_MatchedEntityID := se_ID entity, wo_Version := 0, wo_Data := Some updatedData, wo_Confidence := f64 (49 / 50)\<rparr>)])) (\<lambda>err2.
      dbind (case err2 of Some e \<Rightarrow> if errors_Is e ErrConflict then dmap Some (ignored zero_entity (EntityStore_GetEntity L es (se_ID entity)))
               else dret None
             | None \<Rightarrow> dret None) (\<lambda>fresh.
      dret (se_Version entity, err1, err2, map_option se_Version fresh)))))))"

section \<open>Health\<close>

definition zero_HealthStatus :: HealthStatus where
  "zero_HealthStatus = \<lparr>hs_DB = \<lparr>dh_OK = False, dh_Latency = 0, dh_Error = None, dh_AcquiredConns = 0, dh_IdleConns = 0, dh_TotalConns = 0,
     dh_MaxConns = 0\<rparr>, hs_Events = \<lparr>eh_LastEventAt = None\<rparr>, hs_Consumers = []\<rparr>"

definition HealthExample :: "pool_stat \<Rightarrow> EntityStore \<Rightarrow> (bool \<times> int \<times> int \<times> int \<times> time option \<times> (string \<times> int \<times> string) list) dbm" where
  "HealthExample stat es =
     dmap (\<lambda>status. (dh_OK (hs_DB status), dh_Latency (hs_DB status), dh_TotalConns (hs_DB status), dh_MaxConns (hs_DB status),
        eh_LastEventAt (hs_Events status), map (\<lambda>c. (ch_Name c, ch_Lag c, ch_HolderID c)) (hs_Consumers status)))
       (ignored zero_HealthStatus (EntityStore_Health stat es))"

end
