(* ===== verification/Exact_Effects.thy ===== *)
theory Exact_Effects
  imports Progress
begin

text \<open>
  The whole tables after a single creation and after a single relation upsert: one row more, and nothing else changes but the
  index of the new row and the event log.
\<close>

section \<open>Index writes\<close>

lemma UpsertAnchor_tabs:
  assumes "q_UpsertAnchor u ty f v s = (s', Inr x)"
  shows "\<exists>as. tabs s' = (tabs s)\<lparr>anchors := as\<rparr> \<and> (\<forall>a\<in>set (anchors (tabs s)). anchor_key a \<noteq> (ty, f, v) \<longrightarrow> a \<in> set as)"
  using assms unfolding q_UpsertAnchor_def
  by (elim exec_Inr) (force simp: Let_def next_tick_def anchor_key_def split: if_splits)

lemma upsertAnchors_keeps:
  assumes "upsertAnchors u ty aqs s = (s', Inr x)" "anchored (tabs s) ty' q v" "ty' \<noteq> ty \<or> q \<notin> set aqs"
  shows "anchored (tabs s') ty' q v"
  using assms
proof (induction aqs arbitrary: s)
  case (Cons aq aqs)
  then obtain s1 x1 where 1: "q_UpsertAnchor u ty (aq_Field aq) (aq_Value aq) s = (s1, Inr x1)"
    and 2: "upsertAnchors u ty aqs s1 = (s', Inr x)" by (auto simp: dbind_Inr_iff)
  obtain as where "tabs s1 = (tabs s)\<lparr>anchors := as\<rparr>"
    "\<forall>a\<in>set (anchors (tabs s)). anchor_key a \<noteq> (ty, aq_Field aq, aq_Value aq) \<longrightarrow> a \<in> set as"
    using UpsertAnchor_tabs [OF 1] by blast
  moreover have "(ty', aq_Field q, aq_Value q) \<noteq> (ty, aq_Field aq, aq_Value aq)" using Cons.prems(3) by (cases q; cases aq) auto
  ultimately have "anchored (tabs s1) ty' q v" using Cons.prems(2) by (fastforce simp: anchored_def)
  then show ?case using Cons.IH [OF 2] Cons.prems(3) by auto
qed simp

lemma upsertTokens_tabs: "upsertTokens u ty ks s = (s', Inr x) \<Longrightarrow> \<exists>ts. tabs s' = (tabs s)\<lparr>tokens := ts\<rparr>"
proof (induction ks arbitrary: s rule: upsertTokens.induct)
  case (2 u ty field toks ks)
  then obtain s1 x1 where 1: "q_UpsertTokens u ty field toks s = (s1, Inr x1)"
    and r: "upsertTokens u ty ks s1 = (s', Inr x)" by (auto simp: dbind_Inr_iff)
  have "\<exists>ts. tabs s1 = (tabs s)\<lparr>tokens := ts\<rparr>"
    using 1 unfolding q_UpsertTokens_def by (elim exec_Inr) (auto simp: Let_def next_tick_def split: option.splits if_splits)
  with 2(1) [OF r] show ?case by auto
next
  case (1 u ty)
  then show ?case by (auto intro: exI [of _ "tokens (tabs s)"])
qed

section \<open>A creation\<close>

text \<open>The tables of a creation: one new row, indexed under its anchors, which may have moved from other rows.\<close>

definition creates :: "lib \<Rightarrow> WriteEntityOp \<Rightarrow> time \<Rightarrow> tables \<Rightarrow> Entity \<Rightarrow> tables \<Rightarrow> bool" where
  "creates L we now t e t' \<longleftrightarrow> (\<exists>ty d as ts vs. marshalEntityData L we = Inr (ty, d) \<and> \<not> entity_exists t (e_id e)
     \<and> e = new_entity (e_id e) now ty d (wo_Confidence we) (wo_Tags we) (wo_DisplayName we)
     \<and> (wo_ID we \<noteq> [] \<longrightarrow> uuid_Parse L (wo_ID we) = Some (e_id e))
     \<and> t' = t\<lparr>entities := entities t @ [e], anchors := as, tokens := ts, events := events t @ vs\<rparr>
     \<and> (\<forall>aq\<in>set (wo_Anchors we). anchored t' ty aq (e_id e))
     \<and> (\<forall>ty' aq u. anchored t ty' aq u \<longrightarrow> ty' \<noteq> ty \<or> aq \<notin> set (wo_Anchors we) \<longrightarrow> anchored t' ty' aq u))"

lemma applyCreate_creates:
  assumes "applyCreate L we s = (s', Inr ent)" "tx s = Some T" "wo_Embedding we = None"
  shows "\<exists>e. creates L we (tx_now T) (tabs s) e (tabs s') \<and> ent = entityFromRow L e"
proof -
  obtain ty d where md: "marshalEntityData L we = Inr (ty, d)"
    using assms by (auto simp: applyCreate_def dbind_Inr_iff)
  obtain row s1 s2 s3 s4 s5 x2 x3 x4 x5 where
    1: "create_row L we ty d s = (s1, Inr row)"
    and 2: "upsertAnchors (e_id row) ty (wo_Anchors we) s1 = (s2, Inr x2)"
    and 3: "upsertTokens (e_id row) ty (wo_Tokens we) s2 = (s3, Inr x3)"
    and 4: "updateEmbedding (e_id row) (wo_Embedding we) s3 = (s4, Inr x4)"
    and 5: "insertEvents L (e_id row) [] (wo_Tags we) ty
         (EntityCreated (uuid_String L (e_id row)) ty (wo_Confidence we) (wo_Tags we) # wo_Events we) s4 = (s5, Inr x5)"
    and fin: "dret (entityFromRow L row) s5 = (s', Inr ent)"
    using assms unfolding applyCreate_def md dbind_simps case_prod_conv by (elim dbindE) blast
  note row = create_row_Inr [OF 1 assms(2)]
  have s4: "s4 = s3" using 4 assms(3) by (simp add: updateEmbedding_def)
  have s5: "s5 = s'" "ent = entityFromRow L row" using fin by simp_all
  have 5: "insertEvents L (e_id row) [] (wo_Tags we) ty
         (EntityCreated (uuid_String L (e_id row)) ty (wo_Confidence we) (wo_Tags we) # wo_Events we) s3 = (s', Inr ())"
    using 5 s4 s5 by simp
  obtain T1 where T1: "tx s3 = Some T1"
    using row steadyD [OF steady_upsertAnchors _ 2] steadyD [OF steady_upsertTokens _ 3] by blast
  obtain as where as: "tabs s2 = (tabs s1)\<lparr>anchors := as\<rparr>" "\<forall>aq\<in>set (wo_Anchors we). anchored (tabs s2) ty aq (e_id row)"
    using upsertAnchors_Inr [OF 2] by blast
  obtain ts where ts: "tabs s3 = (tabs s2)\<lparr>tokens := ts\<rparr>" using upsertTokens_tabs [OF 3] by blast
  obtain vs where vs: "tabs s' = (tabs s3)\<lparr>events := events (tabs s3) @ vs\<rparr>"
    using insertEvents_appends [OF 5 T1] by blast
  have r1: "tabs s1 = (tabs s)\<lparr>entities := entities (tabs s) @ [row]\<rparr>" using row by simp
  have t': "tabs s' = (tabs s)\<lparr>entities := entities (tabs s) @ [row], anchors := as, tokens := ts, events := events (tabs s) @ vs\<rparr>"
    by (simp add: vs ts as(1) r1)
  have a: "anchored (tabs s') = anchored (tabs s2)" by (intro ext) (simp add: anchored_def t' as(1))
  have "anchored (tabs s1) = anchored (tabs s)" by (intro ext) (simp add: anchored_def r1)
  then have "anchored (tabs s') ty' aq u" if "anchored (tabs s) ty' aq u" "ty' \<noteq> ty \<or> aq \<notin> set (wo_Anchors we)" for ty' aq u
    using upsertAnchors_keeps [OF 2] that a by metis
  then have "creates L we (tx_now T) (tabs s) row (tabs s')"
    unfolding creates_def using md row t' as(2) a by (intro exI [of _ ty] exI [of _ d] exI [of _ as] exI [of _ ts] exI [of _ vs]) auto
  then show ?thesis using s5 by blast
qed

text \<open>A batch of one operation: its body ran on the tables before, after preconditions that changed nothing.\<close>

lemma single_batch:
  assumes "BatchWrite L st [b] s = (s', Inr rs)" "\<not> st_external st" "tx s = None"
  obtains s1 s2 r T where "batch_op L 0 b s1 = (s2, Inr r)" "tabs s1 = tabs s" "tx s1 = Some T" "tabs s' = tabs s2" "rs = [r]"
proof -
  have t: "in_tx False (Wrap ''tx commit'') (executeBatchOps L 0 [b]) s = (s', Inr rs)"
    using assms(1,2) by (auto simp: BatchWrite_def dbind_Inr_iff simp del: executeBatchOps.simps split: if_splits)
  obtain s2 where s2: "executeBatchOps L 0 [b] (started s) = (s2, Inr rs)" "tabs s' = tabs s2"
    by (rule in_tx_cases [OF t steady_executeBatchOps assms(3)]) simp_all
  obtain s1 r where 1: "evaluatePreConditions L 0 (bo_PreConditions b) (started s) = (s1, Inr ())" "batch_op L 0 b s1 = (s2, Inr r)" "rs = [r]"
    using s2(1) by (auto simp: dbind_Inr_iff)
  have T0: "tx (started s) = Some \<lparr>tx_snapshot = tabs s, tx_now = clock s (tick s), tx_aborted = False\<rparr>" "tabs (started s) = tabs s"
    by (simp_all add: started_def next_tick_def)
  have "tabs s1 = tabs s" by (rule keeps_in_tx [where I = "\<lambda>t. t = tabs s",
        OF steady_evaluatePreConditions pres_evaluatePreConditions 1(1) T0])
  moreover obtain T where "tx s1 = Some T" using steadyD [OF steady_evaluatePreConditions T0(1) 1(1)] by blast
  ultimately show thesis using that 1(2,3) s2(2) by blast
qed

lemma create_batch:
  assumes "BatchWrite L st [b] s = (s', Inr rs)" "\<not> st_external st" "tx s = None"
    and "bo_WriteEntity b = Some we" "wo_Action we = WriteActionCreate" "wo_Embedding we = None"
  shows "\<exists>e now. creates L we now (tabs s) e (tabs s') \<and> rs = [\<lparr>br_Entity = Some (entityFromRow L e), br_Relation = None\<rparr>]"
proof -
  obtain s1 s2 r T where 1: "batch_op L 0 b s1 = (s2, Inr r)" "tabs s1 = tabs s" "tx s1 = Some T" "tabs s' = tabs s2" "rs = [r]"
    by (rule single_batch [OF assms(1-3)])
  then obtain ent where "applyCreate L we s1 = (s2, Inr ent)" "r = \<lparr>br_Entity = Some ent, br_Relation = None\<rparr>"
    using assms(4,5) by (auto simp: batch_op_def applyEntityWrite_def dbind_Inr_iff)
  with applyCreate_creates [OF _ 1(3) assms(6)] 1 show ?thesis by metis
qed

section \<open>A relation\<close>

text \<open>A relation that has no conflict is appended.\<close>

lemma upsert_relation_row_appends:
  assumes "upsert_relation_row row t = Inr (t', x)" "\<forall>r\<in>set (relations t). relation_key r \<noteq> relation_key row"
  shows "t' = t\<lparr>relations := relations t @ [row]\<rparr>"
proof -
  have "find (\<lambda>r. relation_key r = relation_key row \<and> P r) (relations t) = None" for P
    using assms(2) by (auto simp: find_None_iff)
  then show ?thesis using assms(1) by (auto simp: upsert_relation_row_def Let_def split: if_splits)
qed

lemma relation_batch:
  assumes "BatchWrite L st [b] s = (s', Inr rs)" "\<not> st_external st" "tx s = None"
    and "bo_WriteEntity b = None" "bo_UpsertRelation b = Some ur" "uuid_Parse L (ur_SourceID ur) = Some a" "uuid_Parse L (ur_TargetID ur) = Some c"
    and "\<forall>r\<in>set (relations (tabs s)). relation_key r \<noteq> (a, c, ur_RelationType ur)"
  shows "\<exists>r vs. tabs s' = (tabs s)\<lparr>relations := relations (tabs s) @ [r], events := events (tabs s) @ vs\<rparr>
    \<and> relation_key r = (a, c, ur_RelationType ur) \<and> r_confidence r = ur_Confidence ur"
proof -
  obtain s1 s2 r T where 1: "batch_op L 0 b s1 = (s2, Inr r)" "tabs s1 = tabs s" "tx s1 = Some T" "tabs s' = tabs s2" "rs = [r]"
    by (rule single_batch [OF assms(1-3)])
  obtain sr where sr: "toStoredRelation L ur = Inr sr" using 1(1) assms(4,5) by (auto simp: batch_op_def dbind_Inr_iff)
  have f: "sr_SourceID sr = ur_SourceID ur" "sr_TargetID sr = ur_TargetID ur" "sr_RelationType sr = ur_RelationType ur"
    "sr_Confidence sr = ur_Confidence ur" using sr by (auto simp: toStoredRelation_def bind_res_Inr_iff)
  obtain s3 rel k evts where u: "upsertRelation L sr s1 = (s3, Inr rel)" and e: "insertEvents L uuid_Nil k [] [] evts s3 = (s2, Inr ())"
    using 1(1) assms(4,5) sr by (auto simp: batch_op_def dbind_Inr_iff simp del: insertEvents.simps)
  obtain T3 where T3: "tx s3 = Some T3" using steadyD [OF steady_upsertRelation 1(3) u] by blast
  obtain row where q: "q_UpsertRelation a c (sr_RelationType sr) (sr_Confidence sr) (null_if_empty (sr_Evidence sr)) (sr_Implied sr)
      (null_if_empty (sr_SourceURN sr)) (sr_DataType sr) (case sr_Data sr of None \<Rightarrow> JObj [] | Some j \<Rightarrow> j) s1 = (s3, Inr row)"
    using u assms(6,7) f by (auto simp: upsertRelation_def parse_id_def dbind_simps dmap_Inr_iff)
  have "relation_key r \<noteq> (a, c, ur_RelationType ur)" if "r \<in> set (relations (tabs s1))" for r using assms(8) that 1(2) by simp
  then obtain r' where r': "tabs s3 = (tabs s1)\<lparr>relations := relations (tabs s1) @ [r']\<rparr>" "relation_key r' = (a, c, ur_RelationType ur)"
    "r_confidence r' = ur_Confidence ur"
    using q f unfolding q_UpsertRelation_def
    by (elim exec_Inr) (force dest!: upsert_relation_row_appends simp: next_tick_def relation_key_def)
  obtain vs where "tabs s2 = (tabs s3)\<lparr>events := events (tabs s3) @ vs\<rparr>" using insertEvents_appends [OF e T3] by blast
  then show ?thesis using r' 1(2,4) by (intro exI [of _ r'] exI [of _ vs]) simp
qed

section \<open>Calm databases\<close>

text \<open>No open transaction, the schema's constraints, and nothing that fails for the next \<open>n\<close> external calls.\<close>

definition calm :: "nat \<Rightarrow> db \<Rightarrow> bool" where
  "calm n s \<longleftrightarrow> undisturbed {} n s \<and> tx s = None \<and> schema (tabs s)"

lemma schema_BatchWrite: "BatchWrite L st ops s = (s', r) \<Longrightarrow> tx s = None \<Longrightarrow> schema (tabs s) \<Longrightarrow> schema (tabs s')"
  using presD [OF constraints.keeps_BatchWrite, of s L st ops s' r] by (simp add: good_def)

lemma calm_batch:
  assumes "calm (batch_cost [b] + k) s" "op_acceptable L (tabs s) b" "op_targets L b = []" "\<not> st_external st" "std_events_marshal L"
  shows "\<exists>s' rs. BatchWrite L st [b] s = (s', Inr rs) \<and> undisturbed {} k s' \<and> tx s' = None"
proof -
  have "undisturbed {} (batch_cost [b] + k) s" "tx s = None" using assms(1) by (simp_all add: calm_def)
  with batch_runs [of "[b]" L s "{}" k st] assms(2-5) show ?thesis by (simp add: MaxBatchSize_def) blast
qed

lemma calm_create:
  assumes "calm (batch_cost [b] + k) s" "bo_WriteEntity b = Some we" "bo_PreConditions b = []" "op_valid b" "content_ok L we"
    and "wo_Action we = WriteActionCreate" "wo_ID we = []" "wo_Embedding we = None" "\<not> st_external st" "std_events_marshal L"
  obtains s' e now where "BatchWrite L st [b] s = (s', Inr [\<lparr>br_Entity = Some (entityFromRow L e), br_Relation = None\<rparr>])"
    "calm k s'" "creates L we now (tabs s) e (tabs s')"
proof -
  have t: "op_targets L b = []" using assms by (simp add: op_targets_def targets_def)
  have "op_acceptable L (tabs s) b" using assms by (simp add: op_acceptable_def target_ok_def)
  then obtain s' rs where r: "BatchWrite L st [b] s = (s', Inr rs)" "undisturbed {} k s'" "tx s' = None"
    using calm_batch [OF assms(1) _ t] assms by blast
  have s: "tx s = None" "schema (tabs s)" using assms(1) by (simp_all add: calm_def)
  obtain e now where "creates L we now (tabs s) e (tabs s')" "rs = [\<lparr>br_Entity = Some (entityFromRow L e), br_Relation = None\<rparr>]"
    using create_batch [OF r(1) assms(9) s(1) assms(2,6,8)] by blast
  then show thesis using that r schema_BatchWrite [OF r(1) s] by (simp add: calm_def)
qed

lemma calm_relation:
  assumes "calm (batch_cost [b] + k) s" "bo_WriteEntity b = None" "bo_UpsertRelation b = Some ur" "bo_PreConditions b = []"
    and "op_valid b" "ur_Data ur = None" "ur_Events ur = []" "\<not> st_external st" "std_events_marshal L"
    and "uuid_Parse L (ur_SourceID ur) = Some a" "uuid_Parse L (ur_TargetID ur) = Some c" "entity_exists (tabs s) a" "entity_exists (tabs s) c"
    and "\<forall>r\<in>set (relations (tabs s)). relation_key r \<noteq> (a, c, ur_RelationType ur)"
  obtains s' rs r vs where "BatchWrite L st [b] s = (s', Inr rs)" "calm k s'"
    "tabs s' = (tabs s)\<lparr>relations := relations (tabs s) @ [r], events := events (tabs s) @ vs\<rparr>"
    "relation_key r = (a, c, ur_RelationType ur)" "r_confidence r = ur_Confidence ur"
proof -
  have t: "op_targets L b = []" using assms by (simp add: op_targets_def)
  have "op_acceptable L (tabs s) b"
    using assms by (simp add: op_acceptable_def relation_ok_def view_exists [symmetric] marshal_relation_data_def)
  then obtain s' rs where r: "BatchWrite L st [b] s = (s', Inr rs)" "undisturbed {} k s'" "tx s' = None"
    using calm_batch [OF assms(1) _ t] assms by blast
  have s: "tx s = None" "schema (tabs s)" using assms(1) by (simp_all add: calm_def)
  obtain row vs where "tabs s' = (tabs s)\<lparr>relations := relations (tabs s) @ [row], events := events (tabs s) @ vs\<rparr>"
    "relation_key row = (a, c, ur_RelationType ur)" "r_confidence row = ur_Confidence ur"
    using relation_batch [OF r(1) assms(8) s(1) assms(2,3,10,11,14)] by blast
  then show thesis using that r schema_BatchWrite [OF r(1) s] by (simp add: calm_def)
qed

text \<open>Reads outside a transaction.\<close>

lemma calm_select: "calm (Suc k) s \<Longrightarrow> select r s = (next_tick s, Inr (r (tabs s))) \<and> calm k (next_tick s)"
proof
  assume c: "calm (Suc k) s"
  then have u: "undisturbed {} (1 + k) s" by (simp add: calm_def)
  then show "select r s = (next_tick s, Inr (r (tabs s)))" using c
    by (auto simp: select_def exec_def exec_auto_def calm_def undisturbed_def next_tick_def)
  have "undisturbed {} k (next_tick s)" by (rule undisturbed_next [OF u]) (auto simp: next_tick_def)
  then show "calm k (next_tick s)" using c by (simp add: calm_def next_tick_def)
qed

lemma calm_GetByAnchor:
  assumes "calm (Suc k) s" "e \<in> set (entities (tabs s))" "live e" "anchored (tabs s) ty aq (e_id e)"
  shows "GetByAnchor L ty (aq_Field aq) (aq_Value aq) None s = (next_tick s, Inr (entityFromRow L e)) \<and> calm k (next_tick s)"
proof
  have sch: "schema (tabs s)" using assms(1) by (simp add: calm_def)
  have sel: "select r s = (next_tick s, Inr (r (tabs s)))" for r :: "tables \<Rightarrow> Entity list" using calm_select [OF assms(1)] by blast
  obtain rows where rows: "FindByAnchors L ty [aq] None s = (next_tick s, Inr (map (entityFromRow L) rows))"
    using sel
    by (auto simp: FindByAnchors_def dmap_def dbind_def dret_def dwrap_def q_FindByAnchors_def)
  have "{x \<in> set (entities (tabs s)). live x \<and> passes None x \<and> (\<exists>q\<in>set [aq]. anchored (tabs s) ty q (e_id x))} = {e}"
    using assms(2-4) distinct_id [OF sch] anchored_unique [OF sch assms(4)]
    by (auto simp: passes_def tag_filter_def tagsParam_def anyTagsParam_def excludeTagParam_def)
  then have s: "set (map (entityFromRow L) rows) = {entityFromRow L e}" using FindByAnchors_set [OF rows sch] by simp
  then obtain x xs where x: "map (entityFromRow L) rows = x # xs" by (cases "map (entityFromRow L) rows") auto
  then have "x = entityFromRow L e" using s by (metis list.set_intros(1) singletonD)
  then show "GetByAnchor L ty (aq_Field aq) (aq_Value aq) None s = (next_tick s, Inr (entityFromRow L e))"
    using rows x by (cases aq) (simp add: GetByAnchor_def dbind_def dret_def)
  show "calm k (next_tick s)" using calm_select [OF assms(1)] by blast
qed

lemma calm_GetEntity:
  assumes "calm (Suc k) s" "e \<in> set (entities (tabs s))" "live e" "uuid_Parse L i = Some (e_id e)"
  shows "GetEntity L i s = (next_tick s, Inr (entityFromRow L e))"
proof -
  have "set (filter (\<lambda>x. e_id x = e_id e \<and> live x) (entities (tabs s))) = {e}"
    using assms(1-3) distinct_id by (auto simp: calm_def)
  then obtain xs where "filter (\<lambda>x. e_id x = e_id e \<and> live x) (entities (tabs s)) = e # xs"
    by (cases "filter (\<lambda>x. e_id x = e_id e \<and> live x) (entities (tabs s))") auto
  moreover have "\<not> fault s (tick s)" "tx s = None" using assms(1) by (auto simp: calm_def undisturbed_def)
  ultimately show ?thesis using assms(4)
    by (simp add: GetEntity_def parse_id_def dmap_def dbind_def dret_def dwrap_def q_GetEntity_def select_one_def exec_one_def exec_def
        exec_auto_def next_tick_def)
qed

section \<open>Updates at the right and at a stale version\<close>

lemma calm_at:
  assumes "calm n s" "u \<in> ids (tabs s)"
  shows "undisturbed {u} n s"
  using assms by (auto simp: calm_def undisturbed_def)

lemma calm_update:
  assumes "calm (batch_cost [b] + k) s" "bo_WriteEntity b = Some we" "bo_PreConditions b = []" "op_valid b" "content_ok L we"
    and "is_update we" "uuid_Parse L (wo_MatchedEntityID we) = Some (e_id e)" "e \<in> set (entities (tabs s))" "live e"
    and "e_version e = int32 (wo_Version we)" "e_version e \<noteq> max_int32" "\<not> st_external st" "std_events_marshal L"
  obtains s' rs e' where "BatchWrite L st [b] s = (s', Inr rs)" "calm k s'" "e' \<in> set (entities (tabs s'))" "e_id e' = e_id e"
    "e_version e' = e_version e + 1" "live e'"
proof -
  have nc: "wo_Action we \<noteq> WriteActionCreate"
    using assms(6) by (auto simp: is_update_def WriteActionCreate_def WriteActionUpdate_def WriteActionMerge_def)
  have t: "op_targets L b = [e_id e]" using assms(2,7) nc by (simp add: op_targets_def targets_def Let_def)
  have "(e_version e, True) \<in> set (view (tabs s) (e_id e))" using assms(8,9) by (auto simp: view_member)
  then have "op_acceptable L (tabs s) b" using assms nc by (simp add: op_acceptable_def target_ok_def)
  moreover have "undisturbed {e_id e} (batch_cost [b] + k) s" by (rule calm_at [OF assms(1)]) (use assms(8) in \<open>simp add: ids_def\<close>)
  moreover have s: "tx s = None" "schema (tabs s)" using assms(1) by (simp_all add: calm_def)
  ultimately obtain s' rs where r: "BatchWrite L st [b] s = (s', Inr rs)" "undisturbed {e_id e} k s'" "tx s' = None"
    using batch_runs [of "[b]" L s "{e_id e}" k st] assms(12,13) t by (auto simp: MaxBatchSize_def)
  then have c: "calm k s'" using schema_BatchWrite [OF r(1) s] by (auto simp: calm_def undisturbed_def)
  obtain s1 s2 x T where 1: "batch_op L 0 b s1 = (s2, Inr x)" "tabs s1 = tabs s" "tabs s' = tabs s2"
    by (rule single_batch [OF r(1) assms(12) s(1)])
  then obtain ent where "applyUpdateOrMerge L we s1 = (s2, Inr ent)"
    using assms(2,6) nc by (auto simp: batch_op_def applyEntityWrite_def is_update_def dbind_Inr_iff)
  from update_effect [OF this assms(6)] obtain f e' where "f \<in> set (entities (tabs s))" "e_id f = e_id e"
    "e' \<in> set (entities (tabs s'))" "e_id e' = e_id e" "e_version e' = e_version f + 1" "live e'"
    using 1 s(2) assms(7) by auto
  moreover from this have "f = e" using distinct_id [OF s(2)] assms(8) by blast
  ultimately show thesis using that r(1) c by blast
qed

text \<open>A write at a version that no live row of the identifier has is refused, and leaves no trace.\<close>

lemma stale_conflicts:
  assumes "calm (2 + k) s" "bo_WriteEntity b = Some we" "bo_PreConditions b = []" "op_valid b" "marshalEntityData L we = Inr (ty, d)"
    and "is_update we" "uuid_Parse L (wo_MatchedEntityID we) = Some u" "\<not> st_external st"
    and "\<forall>e\<in>set (entities (tabs s)). e_id e = u \<longrightarrow> live e \<longrightarrow> e_version e \<noteq> int32 (wo_Version we)"
  shows "\<exists>s'. BatchWrite L st [b] s = (s', Inl (WrapOp 0 ''write_entity'' ErrConflict)) \<and> tabs s' = tabs s \<and> calm k s'"
proof -
  let ?s = "started s" and ?s' = "next_tick (started s)"
  have nc: "wo_Action we \<noteq> WriteActionCreate"
    using assms(6) by (auto simp: is_update_def WriteActionCreate_def WriteActionUpdate_def WriteActionMerge_def)
  have u: "undisturbed {} (2 + k) s" "tx s = None" using assms(1) by (simp_all add: calm_def)
  then have nf: "\<not> fault s (tick s)" "\<not> fault s (Suc (tick s))" by (auto simp: undisturbed_def)
  have none: "filter (\<lambda>e. e_id e = u \<and> e_version e = int32 (wo_Version we) \<and> live e) (entities (tabs s)) = []"
    using assms(9) by (auto simp: filter_empty_conv)
  have "update_entities (\<lambda>e. e_id e = u \<and> e_version e = int32 (wo_Version we) \<and> live e) f (tabs s) = tabs s" for f
    using assms(9) by (auto simp: update_entities_def intro!: map_idI tables.equality)
  with none have upd: "q_UpdateEntityData u x c n (int32 (wo_Version we)) ?s = (?s', Inr 0)"
    "q_MergeEntityData u x c n (int32 (wo_Version we)) ?s = (?s', Inr 0)" for x c n
    using nf by (simp_all add: q_UpdateEntityData_def q_MergeEntityData_def versioned_update_def exec_def exec_tx_def started_def next_tick_def Let_def)
  have "write_data we u d ?s = (?s', Inl ErrConflict)"
    using assms(6) upd by (auto simp: write_data_def require_rows_def is_update_def dbind_def dwrap_def dfail_def)
  then have "executeBatchOps L 0 [b] ?s = (?s', Inl (WrapOp 0 ''write_entity'' ErrConflict))"
    using assms(2,3,5-7) nc by (auto simp: batch_op_def applyEntityWrite_def applyUpdateOrMerge_def is_update_def parse_id_def dbind_def dwrap_def
        dlift_def dret_def)
  moreover have "begin_tx s = (?s, Inr ())" using nf by (simp add: begin_tx_def started_def)
  ultimately have "BatchWrite L st [b] s = (rollback_tx ?s', Inl (WrapOp 0 ''write_entity'' ErrConflict))"
    using assms(4,8) validate_ops_iff [of 0 "[b]"]
    by (simp add: BatchWrite_def MaxBatchSize_def in_tx_def dbind_def dwrap_def dlift_def del: executeBatchOps.simps)
  moreover have t: "tabs (rollback_tx ?s') = tabs s" "tx (rollback_tx ?s') = None" by (simp_all add: rollback_tx_def started_def next_tick_def)
  moreover have "undisturbed {} k (rollback_tx ?s')"
    by (rule undisturbed_next [OF u(1)]) (auto simp: rollback_tx_def started_def next_tick_def)
  ultimately show ?thesis using assms(1) by (simp add: calm_def)
qed

end
