(* ===== verification/Seeding.thy ===== *)
theory Seeding
  imports Event_Examples Exact_Effects Programs
begin

text \<open>
  The showcase of \<open>src/ui/cmd/showcase\<close>: the seed data of \<open>seed/seed.go\<close> and the program \<open>main.go\<close> that applies it. The library
  \<open>migrate\<close> is the parameter \<open>UpGo\<close>, which gets the pool, the migrations in order and their scope; \<open>explorer.Run\<close> is \<open>run\<close>.
\<close>

section \<open>People and companies\<close>

definition seed_people :: "(string \<times> json) list list" where
  "seed_people =
    [[(''full_name'', JStr ''Alice Dupont''), (''email'', JStr ''alice@dupont.be''), (''phone'', JStr ''+32470123456''),
      (''job_title'', JStr ''CEO''), (''date_of_birth'', JStr ''1985-03-22'')],
     [(''full_name'', JStr ''Bob Martin''), (''email'', JStr ''bob@techcorp.io''), (''phone'', JStr ''+32470987654''),
      (''job_title'', JStr ''CTO''), (''date_of_birth'', JStr ''1990-07-15'')],
     [(''full_name'', JStr ''Charlie Peeters''), (''email'', JStr ''charlie@design.co''), (''phone'', JStr ''+32470555666''),
      (''job_title'', JStr ''Lead Designer''), (''date_of_birth'', JStr ''1988-11-03'')],
     [(''full_name'', JStr ''Diana Janssen''), (''email'', JStr ''diana@acme.com''), (''phone'', JStr ''+32470111222''),
      (''job_title'', JStr ''VP of Sales''), (''date_of_birth'', JStr ''1982-01-17'')],
     [(''full_name'', JStr ''Eve Laurent''), (''email'', JStr ''eve@startup.io''), (''phone'', JStr ''+32470333444''),
      (''job_title'', JStr ''Founder''), (''date_of_birth'', JStr ''1995-06-30'')]]"

definition seed_companies :: "(string \<times> json) list list" where
  "seed_companies =
    [[(''name'', JStr ''Dupont & Partners''), (''domain'', JStr ''dupont.be''), (''industry'', JStr ''consulting''), (''founded'', JStr ''2010'')],
     [(''name'', JStr ''TechCorp''), (''domain'', JStr ''techcorp.io''), (''industry'', JStr ''technology''), (''founded'', JStr ''2015'')],
     [(''name'', JStr ''Design Co''), (''domain'', JStr ''design.co''), (''industry'', JStr ''design''), (''founded'', JStr ''2018'')],
     [(''name'', JStr ''Acme Inc''), (''domain'', JStr ''acme.com''), (''industry'', JStr ''manufacturing''), (''founded'', JStr ''1998'')]]"

text \<open>\<open>m[k].(string)\<close>: the assertion panics on a missing key and on another type.\<close>

definition string_at :: "(string \<times> json) list \<Rightarrow> string \<Rightarrow> string option" where
  "string_at m k = (case map_of m k of Some (JStr v) \<Rightarrow> Some v | _ \<Rightarrow> None)"

text \<open>The body of the two loops, which differ in the fields they read, the confidence and the tags.\<close>

definition seed_record :: "lib \<Rightarrow> EntityStore \<Rightarrow> string \<Rightarrow> string \<Rightarrow> float64 \<Rightarrow> string list \<Rightarrow> (string \<times> json) list \<Rightarrow> unit dbm" where
  "seed_record L es anchorField nameField confidence ts m =
     (case (string_at m anchorField, string_at m nameField) of
        (Some a, Some name) \<Rightarrow>
          dmap (\<lambda>_. ()) (EntityStore_BatchWrite L es [entity_op (zero_WriteEntityOp\<lparr>wo_Action := WriteActionCreate,
            wo_Data := Some (struct_msg m), wo_Confidence := confidence, wo_Tags := ts, wo_DisplayName := name,
            wo_Anchors := [anchor anchorField (NormalizeLowercaseTrim (ucd (lib_go L)) a)],
            wo_Tokens := [(nameField, nil_slice (Tokenize (ucd (lib_go L)) name))]\<rparr>)])
      | _ \<Rightarrow> dfail Panic)"

primrec seed_loop :: "('a \<Rightarrow> unit dbm) \<Rightarrow> 'a list \<Rightarrow> unit dbm" where
  "seed_loop f [] = dret ()"
| "seed_loop f (x # xs) = dbind (f x) (\<lambda>_. seed_loop f xs)"

definition seedPeopleAndCompanies :: "lib \<Rightarrow> EntityStore \<Rightarrow> unit dbm" where
  "seedPeopleAndCompanies L es =
     dbind (seed_loop (seed_record L es ''email'' ''full_name'' (f64 (19 / 20)) [''ws:showcase'', ''type:person'']) seed_people) (\<lambda>_.
     seed_loop (seed_record L es ''domain'' ''name'' (f64 (9 / 10)) [''ws:showcase'', ''type:company'']) seed_companies)"

section \<open>Relations and invoices\<close>

text \<open>\<open>x, _ := es.GetByAnchor(\<dots>)\<close>, of which only the identifier is used.\<close>

definition seeded_ID :: "lib \<Rightarrow> EntityStore \<Rightarrow> string \<Rightarrow> string \<Rightarrow> string dbm" where
  "seeded_ID L es field value =
     dmap se_ID (ignored zero_entity (EntityStore_GetByAnchor L es ''google.protobuf.Struct'' field value None))"

definition seed_relations :: "string \<Rightarrow> string \<Rightarrow> string \<Rightarrow> string \<Rightarrow> string \<Rightarrow> string \<Rightarrow> string \<Rightarrow> string \<Rightarrow> string \<Rightarrow>
    (string \<times> string \<times> string \<times> float64 \<times> string) list" where
  "seed_relations alice bob charlie diana eve dupont techcorp designco acme =
    [(alice, dupont, ''works_at'', f64 (19 / 20), ''Founder and CEO of Dupont & Partners''),
     (bob, techcorp, ''works_at'', f64 (23 / 25), ''Listed as CTO on company website''),
     (charlie, designco, ''works_at'', f64 (9 / 10), ''LinkedIn profile''),
     (diana, acme, ''works_at'', f64 (22 / 25), ''Extracted from email signature''),
     (eve, techcorp, ''works_at'', f64 (17 / 20), ''Contract document''),
     (alice, bob, ''knows'', f64 (4 / 5), ''Co-authored blog post''),
     (bob, charlie, ''knows'', f64 (3 / 4), ''Attended same conference''),
     (alice, diana, ''knows'', f64 (7 / 10), ''Board meeting minutes''),
     (dupont, acme, ''partner_of'', f64 (17 / 20), ''Joint venture agreement''),
     (techcorp, designco, ''client_of'', f64 (9 / 10), ''Active contract'')]"

fun seed_relation :: "lib \<Rightarrow> EntityStore \<Rightarrow> string \<times> string \<times> string \<times> float64 \<times> string \<Rightarrow> unit dbm" where
  "seed_relation L es (src, tgt, relType, confidence, evidence) =
     (if src = [] \<or> tgt = [] then dret ()
      else dmap (\<lambda>_. ()) (EntityStore_BatchWrite L es [relation_op (zero_UpsertRelationOp\<lparr>ur_SourceID := src, ur_TargetID := tgt,
        ur_RelationType := relType, ur_Confidence := confidence, ur_Evidence := evidence\<rparr>)]))"

definition seed_invoices :: "(string \<times> string \<times> string \<times> string) list" where
  "seed_invoices =
    [(''INV-2024-001'', ''Dupont & Partners'', ''15000'', ''2024-01-15''),
     (''INV-2024-002'', ''TechCorp'', ''42000'', ''2024-02-20''),
     (''INV-2024-003'', ''Design Co'', ''8500'', ''2024-03-10'')]"

fun seed_invoice :: "lib \<Rightarrow> EntityStore \<Rightarrow> string \<times> string \<times> string \<times> string \<Rightarrow> unit dbm" where
  "seed_invoice L es (number, issuer, amount, date) =
     dmap (\<lambda>_. ()) (EntityStore_BatchWrite L es [entity_op (zero_WriteEntityOp\<lparr>wo_Action := WriteActionCreate,
       wo_Data := Some (struct_msg [(''invoice_number'', JStr number), (''issuer_name'', JStr issuer), (''total_amount'', JRaw amount),
         (''invoice_date'', JStr date), (''currency'', JStr ''EUR'')]),
       wo_Confidence := f64 (23 / 25), wo_Tags := [''ws:showcase'', ''type:invoice''], wo_DisplayName := number @ '' '' @ dash @ '' '' @ issuer,
       wo_Anchors := [anchor ''invoice_number'' (NormalizeLowercaseTrim (ucd (lib_go L)) number)]\<rparr>)])"

definition seedInvoicesAndRelations :: "lib \<Rightarrow> EntityStore \<Rightarrow> unit dbm" where
  "seedInvoicesAndRelations L es =
     dbind (seeded_ID L es ''email'' ''alice@dupont.be'') (\<lambda>alice.
     dbind (seeded_ID L es ''email'' ''bob@techcorp.io'') (\<lambda>bob.
     dbind (seeded_ID L es ''email'' ''charlie@design.co'') (\<lambda>charlie.
     dbind (seeded_ID L es ''email'' ''diana@acme.com'') (\<lambda>diana.
     dbind (seeded_ID L es ''email'' ''eve@startup.io'') (\<lambda>eve.
     dbind (seeded_ID L es ''domain'' ''dupont.be'') (\<lambda>dupont.
     dbind (seeded_ID L es ''domain'' ''techcorp.io'') (\<lambda>techcorp.
     dbind (seeded_ID L es ''domain'' ''design.co'') (\<lambda>designco.
     dbind (seeded_ID L es ''domain'' ''acme.com'') (\<lambda>acme.
     dbind (seed_loop (seed_relation L es) (seed_relations alice bob charlie diana eve dupont techcorp designco acme)) (\<lambda>_.
     seed_loop (seed_invoice L es) seed_invoices))))))))))"

section \<open>The program\<close>

record GoMigration =
  gm_Version :: string
  gm_Name :: string
  gm_Up :: "unit dbm"

definition seed_scope :: string where
  "seed_scope = ''explorer-seed''"

definition seed_Run :: "(pool \<Rightarrow> GoMigration list \<Rightarrow> string \<Rightarrow> unit dbm) \<Rightarrow> lib \<Rightarrow> pool \<Rightarrow> EntityStore \<Rightarrow> unit dbm" where
  "seed_Run UpGo L p es = UpGo p
     [\<lparr>gm_Version = ''20260325000001'', gm_Name = ''people_and_companies'', gm_Up = seedPeopleAndCompanies L es\<rparr>,
      \<lparr>gm_Version = ''20260325000002'', gm_Name = ''invoices_and_relations'', gm_Up = seedInvoicesAndRelations L es\<rparr>] seed_scope"

text \<open>The exit code of \<open>main\<close>.\<close>

definition showcase_main :: "pgx \<Rightarrow> lib \<Rightarrow> logger \<Rightarrow> (pool \<Rightarrow> GoMigration list \<Rightarrow> string \<Rightarrow> unit dbm) \<Rightarrow>
    (EntityStore \<Rightarrow> int \<Rightarrow> err option) \<Rightarrow> string \<Rightarrow> pools \<Rightarrow> nat dbm" where
  "showcase_main X L slog_Default UpGo run database_url ps = (case setupStore X slog_Default database_url ps of
     (_, Inl _) \<Rightarrow> dret 1
   | (_, Inr (es, p)) \<Rightarrow> dbind (outcome (seed_Run UpGo L p es)) (\<lambda>err. case err of
       Some _ \<Rightarrow> dret 1
     | None \<Rightarrow> (case run es 3336 of Some _ \<Rightarrow> dret 1 | None \<Rightarrow> dret 0)))"

section \<open>What a fresh database holds after the seed\<close>

abbreviation Struct :: string where
  "Struct \<equiv> ''google.protobuf.Struct''"

definition structs_marshal :: "lib \<Rightarrow> bool" where
  "structs_marshal L \<longleftrightarrow> (\<forall>j. protojson_Marshal L (OtherMessage Struct j) \<noteq> None)"

text \<open>Rows \<open>es\<close> were added, each live, with its display name, and found under its anchor; what was found before still is,
  unless it was under one of these anchors.\<close>

definition grown :: "tables \<Rightarrow> tables \<Rightarrow> (AnchorQuery \<times> string) list \<Rightarrow> Entity list \<Rightarrow> bool" where
  "grown t t' qs es \<longleftrightarrow> entities t' = entities t @ es \<and> relations t' = relations t
     \<and> list_all2 (\<lambda>(q, name) e. e_display_name e = name \<and> live e \<and> anchored t' Struct q (e_id e)) qs es
     \<and> (\<forall>q u. anchored t Struct q u \<longrightarrow> q \<notin> fst ` set qs \<longrightarrow> anchored t' Struct q u)"

lemma grown_none: "grown t t [] []"
  by (simp add: grown_def)

lemma grown_trans:
  assumes "grown t t1 qs1 es1" "grown t1 t2 qs2 es2" "fst ` set qs1 \<inter> fst ` set qs2 = {}"
  shows "grown t t2 (qs1 @ qs2) (es1 @ es2)"
proof -
  let ?R = "\<lambda>t (q, name) e. e_display_name e = name \<and> live e \<and> anchored t Struct q (e_id e)"
  have "?R t2 x e" if "x \<in> set qs1" "?R t1 x e" for x e
  proof -
    have "fst x \<notin> fst ` set qs2" using assms(3) that(1) by blast
    then show ?thesis using that(2) assms(2) by (auto simp: grown_def split: prod.splits)
  qed
  moreover have "list_all2 (?R t1) qs1 es1" using assms(1) by (simp add: grown_def)
  ultimately have "list_all2 (?R t2) qs1 es1" using list.rel_mono_strong by (metis (no_types, lifting))
  moreover have "list_all2 (?R t2) qs2 es2"
    using assms(2) by (simp add: grown_def)
  ultimately have "list_all2 (?R t2) (qs1 @ qs2) (es1 @ es2)"
    by (rule list_all2_appendI)
  then show ?thesis using assms(1,2) by (simp add: grown_def image_Un)
qed

lemma new_entity_fields:
  "e = new_entity u now ty d c ts name \<Longrightarrow> live e \<and> e_display_name e = name \<and> e_version e = 0"
  by (simp add: new_entity_def live_def)

lemma creates_grown:
  assumes "creates L we now t e t'" "wo_Data we = Some (OtherMessage Struct j)" "wo_Anchors we = [q]"
  shows "grown t t' [(q, wo_DisplayName we)] [e]" "e_version e = 0"
proof -
  obtain d where d: "marshalEntityData L we = Inr (Struct, d)"
    using assms by (auto simp: creates_def marshalEntityData_def split: option.splits)
  from assms(1) d have c: "e = new_entity (e_id e) now Struct d (wo_Confidence we) (wo_Tags we) (wo_DisplayName we)"
    "entities t' = entities t @ [e]" "relations t' = relations t" "\<forall>aq\<in>set (wo_Anchors we). anchored t' Struct aq (e_id e)"
    "\<forall>ty' aq u. anchored t ty' aq u \<longrightarrow> ty' \<noteq> Struct \<or> aq \<notin> set (wo_Anchors we) \<longrightarrow> anchored t' ty' aq u"
    by (simp_all only: creates_def) (elim exE conjE, simp)+
  note f = new_entity_fields [OF c(1)]
  then show "e_version e = 0" by blast
  show "grown t t' [(q, wo_DisplayName we)] [e]" using c(2-5) f by (simp add: grown_def assms(3))
qed

text \<open>A step of a seed loop, and the loop.\<close>

definition adds :: "(unit dbm) \<Rightarrow> nat \<Rightarrow> AnchorQuery \<times> string \<Rightarrow> bool" where
  "adds m c q \<longleftrightarrow> (\<forall>s k. calm (c + k) s \<longrightarrow> (\<exists>s' e. m s = (s', Inr ()) \<and> calm k s' \<and> grown (tabs s) (tabs s') [q] [e]))"

lemma seed_loop_adds:
  assumes "\<forall>x\<in>set xs. adds (f x) c (q x)" "distinct (map (fst \<circ> q) xs)" "calm (length xs * c + k) s"
  shows "\<exists>s' es. seed_loop f xs s = (s', Inr ()) \<and> calm k s' \<and> grown (tabs s) (tabs s') (map q xs) es"
  using assms
proof (induction xs arbitrary: s)
  case Nil
  then show ?case using grown_none by (auto simp: dret_def)
next
  case (Cons x xs)
  have "adds (f x) c (q x)" "calm (c + (length xs * c + k)) s" using Cons.prems by (simp_all add: add.assoc)
  then obtain s1 e where 1: "f x s = (s1, Inr ())" "calm (length xs * c + k) s1" "grown (tabs s) (tabs s1) [q x] [e]"
    unfolding adds_def by blast
  obtain s' es where 2: "seed_loop f xs s1 = (s', Inr ())" "calm k s'" "grown (tabs s1) (tabs s') (map q xs) es"
    using Cons.IH [OF _ _ 1(2)] Cons.prems by auto
  have "fst ` set [q x] \<inter> fst ` set (map q xs) = {}" using Cons.prems(2) by auto
  from grown_trans [OF 1(3) 2(3) this] 1(1) 2(1,2) show ?case by (auto simp: dbind_def)
qed

lemma create_adds:
  assumes "batch_cost [entity_op we] = c" "op_valid (entity_op we)" "content_ok L we" "wo_Action we = WriteActionCreate" "wo_ID we = []"
    and "wo_Embedding we = None" "\<not> st_external (es_store es)" "std_events_marshal L" "wo_Data we = Some (struct_msg kvs)"
    and "wo_Anchors we = [fst q]" "wo_DisplayName we = snd q"
  shows "adds (dmap (\<lambda>_. ()) (EntityStore_BatchWrite L es [entity_op we])) c q"
  unfolding adds_def
proof (intro allI impI)
  fix s k assume "calm (c + k) s"
  then have c: "calm (batch_cost [entity_op we] + k) s" using assms(1) by simp
  obtain s' e now where r: "BatchWrite L (es_store es) [entity_op we] s = (s', Inr [\<lparr>br_Entity = Some (entityFromRow L e), br_Relation = None\<rparr>])"
    "calm k s'" "creates L we now (tabs s) e (tabs s')"
    by (rule calm_create [OF c _ _ assms(2-8)]) simp_all
  have "grown (tabs s) (tabs s') [q] [e]"
    using creates_grown(1) [OF r(3) assms(9) [unfolded struct_msg_def] assms(10)] assms(11) by simp
  then show "\<exists>s' e. dmap (\<lambda>_. ()) (EntityStore_BatchWrite L es [entity_op we]) s = (s', Inr ()) \<and> calm k s' \<and> grown (tabs s) (tabs s') [q] [e]"
    using r(1,2) by (auto simp: dmap_def dbind_def dret_def EntityStore_BatchWrite_def)
qed

text \<open>Relations with new keys are appended.\<close>

type_synonym link = "uuid \<times> uuid \<times> string \<times> float64 \<times> string"

definition link_key :: "link \<Rightarrow> uuid \<times> uuid \<times> string" where
  "link_key l = (case l of (a, c, ty, _, _) \<Rightarrow> (a, c, ty))"

definition link_args :: "lib \<Rightarrow> link \<Rightarrow> string \<times> string \<times> string \<times> float64 \<times> string" where
  "link_args L l = (case l of (a, c, ty, cf, ev) \<Rightarrow> (uuid_String L a, uuid_String L c, ty, cf, ev))"

definition linked :: "tables \<Rightarrow> tables \<Rightarrow> (uuid \<times> uuid \<times> string) list \<Rightarrow> bool" where
  "linked t t' ks \<longleftrightarrow> entities t' = entities t \<and> anchors t' = anchors t
     \<and> (\<exists>rs. relations t' = relations t @ rs \<and> map relation_key rs = ks)"

definition joins :: "tables \<Rightarrow> link \<Rightarrow> bool" where
  "joins t l \<longleftrightarrow> (case l of (a, c, ty, _, _) \<Rightarrow> entity_exists t a \<and> entity_exists t c \<and> validateRelationType ty = Inr ())"

lemma seed_relation_links:
  assumes "joins (tabs s) l" "link_key l \<notin> relation_key ` set (relations (tabs s))" "calm (5 + k) s" "uuid_Parse L [] = None"
    and "\<not> st_external (es_store es)" "std_events_marshal L"
  shows "\<exists>s'. seed_relation L es (link_args L l) s = (s', Inr ()) \<and> calm k s' \<and> linked (tabs s) (tabs s') [link_key l]"
proof -
  obtain a c ty cf ev where l: "l = (a, c, ty, cf, ev)" by (cases l)
  have ne: "uuid_String L u \<noteq> []" for u using assms(4) codec_roundtrip [of "lib_codec L" u] by (metis option.distinct(1))
  let ?ur = "zero_UpsertRelationOp\<lparr>ur_SourceID := uuid_String L a, ur_TargetID := uuid_String L c, ur_RelationType := ty,
      ur_Confidence := cf, ur_Evidence := ev\<rparr>"
  have v: "op_valid (relation_op ?ur)" using assms(1) by (simp add: op_valid_def joins_def l)
  have nk: "\<forall>r\<in>set (relations (tabs s)). relation_key r \<noteq> (a, c, ty)" using assms(2) by (force simp: l link_key_def)
  have cost: "calm (batch_cost [relation_op ?ur] + k) s" using assms(3)
    by (simp add: batch_cost_def op_cost_def zero_UpsertRelationOp_def)
  obtain s' rs r vs where "BatchWrite L (es_store es) [relation_op ?ur] s = (s', Inr rs)" "calm k s'"
    "tabs s' = (tabs s)\<lparr>relations := relations (tabs s) @ [r], events := events (tabs s) @ vs\<rparr>" "relation_key r = (a, c, ur_RelationType ?ur)"
    by (rule calm_relation [OF cost, of ?ur "es_store es" L a c]) (use assms(1,4-6) nk v in \<open>simp_all add: l joins_def zero_UpsertRelationOp_def\<close>)
  then show ?thesis
    by (intro exI [of _ s']) (simp add: l link_args_def ne dmap_def dbind_def dret_def EntityStore_BatchWrite_def linked_def link_key_def)
qed

lemma linked_trans: "linked t t1 ks1 \<Longrightarrow> linked t1 t2 ks2 \<Longrightarrow> linked t t2 (ks1 @ ks2)"
  by (auto simp: linked_def)

lemma seed_relations_link:
  assumes "\<forall>l\<in>set ls. joins (tabs s) l" "distinct (map link_key ls)" "link_key ` set ls \<inter> relation_key ` set (relations (tabs s)) = {}"
    and "calm (length ls * 5 + k) s" "uuid_Parse L [] = None" "\<not> st_external (es_store es)" "std_events_marshal L"
  shows "\<exists>s'. seed_loop (seed_relation L es) (map (link_args L) ls) s = (s', Inr ()) \<and> calm k s' \<and> linked (tabs s) (tabs s') (map link_key ls)"
  using assms(1-4)
proof (induction ls arbitrary: s)
  case Nil
  then show ?case by (auto simp: dret_def linked_def)
next
  case (Cons l ls)
  have "calm (5 + (length ls * 5 + k)) s" using Cons.prems(4) by (simp add: add.assoc)
  then obtain s1 where 1: "seed_relation L es (link_args L l) s = (s1, Inr ())" "calm (length ls * 5 + k) s1" "linked (tabs s) (tabs s1) [link_key l]"
    using seed_relation_links [of s l "length ls * 5 + k" L es] Cons.prems(1,3) assms(5-7) by auto
  have "joins (tabs s1) = joins (tabs s)" "relation_key ` set (relations (tabs s1)) = insert (link_key l) (relation_key ` set (relations (tabs s)))"
    using 1(3) by (auto simp: linked_def joins_def entity_exists_def fun_eq_iff)
  then obtain s' where 2: "seed_loop (seed_relation L es) (map (link_args L) ls) s1 = (s', Inr ())" "calm k s'"
    "linked (tabs s1) (tabs s') (map link_key ls)"
    using Cons.IH [OF _ _ _ 1(2)] Cons.prems(1-3) by auto
  show ?case using 1(1) 2(1,2) linked_trans [OF 1(3) 2(3)] by (auto simp: dbind_def)
qed

lemma seeded_ID_found:
  assumes "calm (Suc k) s" "e \<in> set (entities (tabs s))" "live e" "anchored (tabs s) Struct (anchor field value) (e_id e)"
  shows "seeded_ID L es field value s = (next_tick s, Inr (uuid_String L (e_id e)))" "calm k (next_tick s)" "tabs (next_tick s) = tabs s"
  using calm_GetByAnchor [OF assms, of L]
  by (simp_all add: seeded_ID_def ignored_def dmap_def dbind_def dret_def EntityStore_GetByAnchor_def entityFromRow_def next_tick_def)

lemmas seed_eval = trim_space_def trim_both_def trim_right_def strings_to_lower_def strings_map_def to_lower_def letter_or_space_def is_letter_def
  is_digit_def strings_fields_def is_space_def encode_def ascii_eval Let_def

lemma struct_marshals:
  assumes "structs_marshal L" "wo_Data we = Some (struct_msg m)"
  shows "\<exists>ty d. marshalEntityData L we = Inr (ty, d)"
proof -
  obtain d where "protojson_Marshal L (OtherMessage Struct (JObj m)) = Some d" using assms(1) by (auto simp: structs_marshal_def)
  then show ?thesis using assms(2) by (simp add: marshalEntityData_def struct_msg_def)
qed

lemma seed_record_adds:
  assumes "string_at m af = Some a" "string_at m nf = Some name" "validateTags ts = Inr ()" "Tokenize (ucd (lib_go L)) name \<noteq> []"
    and "\<not> st_external (es_store es)" "std_events_marshal L" "structs_marshal L"
    and "q = (anchor af (NormalizeLowercaseTrim (ucd (lib_go L)) a), name)"
  shows "adds (seed_record L es af nf cf ts m) 10 q"
  unfolding seed_record_def assms(1,2) option.case prod.case
  by (intro create_adds) (use assms in \<open>simp_all add: batch_cost_def op_cost_def write_cost_def zero_WriteEntityOp_def op_valid_def content_ok_def
      struct_marshals nil_slice_def\<close>)

lemma seed_invoice_adds:
  assumes "\<not> st_external (es_store es)" "std_events_marshal L" "structs_marshal L"
    and "q = (anchor ''invoice_number'' (NormalizeLowercaseTrim (ucd (lib_go L)) number), number @ '' '' @ dash @ '' '' @ issuer)"
  shows "adds (seed_invoice L es (number, issuer, amount, date)) 9 q"
  unfolding seed_invoice.simps
  by (intro create_adds) (use assms in \<open>simp_all add: batch_cost_def op_cost_def write_cost_def zero_WriteEntityOp_def op_valid_def content_ok_def
      struct_marshals validateTags_def maxTagsPerEntity_def maxTagLength_def\<close>)

text \<open>The rows in the order they are created.\<close>

definition people_rows :: "(AnchorQuery \<times> string) list" where
  "people_rows = [(anchor ''email'' ''alice@dupont.be'', ''Alice Dupont''), (anchor ''email'' ''bob@techcorp.io'', ''Bob Martin''),
     (anchor ''email'' ''charlie@design.co'', ''Charlie Peeters''), (anchor ''email'' ''diana@acme.com'', ''Diana Janssen''),
     (anchor ''email'' ''eve@startup.io'', ''Eve Laurent'')]"

definition company_rows :: "(AnchorQuery \<times> string) list" where
  "company_rows = [(anchor ''domain'' ''dupont.be'', ''Dupont & Partners''), (anchor ''domain'' ''techcorp.io'', ''TechCorp''),
     (anchor ''domain'' ''design.co'', ''Design Co''), (anchor ''domain'' ''acme.com'', ''Acme Inc'')]"

definition invoice_rows :: "(AnchorQuery \<times> string) list" where
  "invoice_rows = [(anchor ''invoice_number'' ''inv-2024-001'', ''INV-2024-001 '' @ dash @ '' Dupont & Partners''),
     (anchor ''invoice_number'' ''inv-2024-002'', ''INV-2024-002 '' @ dash @ '' TechCorp''),
     (anchor ''invoice_number'' ''inv-2024-003'', ''INV-2024-003 '' @ dash @ '' Design Co'')]"

definition record_row :: "golib \<Rightarrow> string \<Rightarrow> string \<Rightarrow> (string \<times> json) list \<Rightarrow> AnchorQuery \<times> string" where
  "record_row G af nf m = (anchor af (NormalizeLowercaseTrim (ucd G) (the (string_at m af))), the (string_at m nf))"

lemma people_rows_eq: "map (record_row G ''email'' ''full_name'') seed_people = people_rows"
  by (simp add: seed_people_def people_rows_def record_row_def string_at_def NormalizeLowercaseTrim_def seed_eval)

lemma company_rows_eq: "map (record_row G ''domain'' ''name'') seed_companies = company_rows"
  by (simp add: seed_companies_def company_rows_def record_row_def string_at_def NormalizeLowercaseTrim_def seed_eval)

lemma invoice_rows_eq:
  "map (\<lambda>(number, issuer, amount, date). (anchor ''invoice_number'' (NormalizeLowercaseTrim (ucd G) number), number @ '' '' @ dash @ '' '' @ issuer))
     seed_invoices = invoice_rows"
  by (simp add: seed_invoices_def invoice_rows_def NormalizeLowercaseTrim_def seed_eval)

lemma seed_names:
  "\<forall>m\<in>set seed_people. \<exists>a name. string_at m ''email'' = Some a \<and> string_at m ''full_name'' = Some name \<and> Tokenize U name \<noteq> []"
  "\<forall>m\<in>set seed_companies. \<exists>a name. string_at m ''domain'' = Some a \<and> string_at m ''name'' = Some name \<and> Tokenize U name \<noteq> []"
  by (simp_all add: seed_people_def seed_companies_def string_at_def Tokenize_def seed_eval)

lemma seed_people_runs:
  assumes "calm (90 + k) s" "\<not> st_external (es_store es)" "std_events_marshal L" "structs_marshal L"
  shows "\<exists>s' rows. seedPeopleAndCompanies L es s = (s', Inr ()) \<and> calm k s' \<and> grown (tabs s) (tabs s') (people_rows @ company_rows) rows"
proof -
  have v: "validateTags [''ws:showcase'', ''type:person''] = Inr ()" "validateTags [''ws:showcase'', ''type:company''] = Inr ()"
    by (simp_all add: validateTags_def maxTagsPerEntity_def maxTagLength_def)
  have a1: "\<forall>m\<in>set seed_people. adds (seed_record L es ''email'' ''full_name'' cf [''ws:showcase'', ''type:person''] m) 10
      (record_row (lib_go L) ''email'' ''full_name'' m)" for cf
    using seed_names(1) [of "ucd (lib_go L)"] seed_record_adds [OF _ _ v(1) _ assms(2-4)] by (auto simp: record_row_def)
  have a2: "\<forall>m\<in>set seed_companies. adds (seed_record L es ''domain'' ''name'' cf [''ws:showcase'', ''type:company''] m) 10
      (record_row (lib_go L) ''domain'' ''name'' m)" for cf
    using seed_names(2) [of "ucd (lib_go L)"] seed_record_adds [OF _ _ v(2) _ assms(2-4)] by (auto simp: record_row_def)
  have c: "calm (length seed_people * 10 + (length seed_companies * 10 + k)) s"
    using assms(1) by (simp add: seed_people_def seed_companies_def)
  have d: "distinct (map (fst \<circ> record_row (lib_go L) ''email'' ''full_name'') seed_people)"
    "distinct (map (fst \<circ> record_row (lib_go L) ''domain'' ''name'') seed_companies)"
    unfolding map_map [symmetric] people_rows_eq company_rows_eq by (simp_all add: people_rows_def company_rows_def)
  obtain s1 r1 where 1: "seed_loop (seed_record L es ''email'' ''full_name'' (f64 (19 / 20)) [''ws:showcase'', ''type:person'']) seed_people s = (s1, Inr ())"
    "calm (length seed_companies * 10 + k) s1" "grown (tabs s) (tabs s1) people_rows r1"
    using seed_loop_adds [OF a1 d(1) c] by (metis people_rows_eq)
  obtain s2 r2 where 2: "seed_loop (seed_record L es ''domain'' ''name'' (f64 (9 / 10)) [''ws:showcase'', ''type:company'']) seed_companies s1 = (s2, Inr ())"
    "calm k s2" "grown (tabs s1) (tabs s2) company_rows r2"
    using seed_loop_adds [OF a2 d(2) 1(2)] by (metis company_rows_eq)
  have "fst ` set people_rows \<inter> fst ` set company_rows = {}" by (simp add: people_rows_def company_rows_def)
  from grown_trans [OF 1(3) 2(3) this] 1(1) 2(1,2) show ?thesis by (auto simp: seedPeopleAndCompanies_def dbind_def)
qed

definition ends :: "db \<times> (err + unit) \<Rightarrow> (db \<Rightarrow> bool) \<Rightarrow> bool" where
  "ends r P \<longleftrightarrow> (\<exists>s. r = (s, Inr ()) \<and> P s)"

definition there :: "tables \<Rightarrow> Entity \<Rightarrow> string \<Rightarrow> string \<Rightarrow> bool" where
  "there t e field value \<longleftrightarrow> e \<in> set (entities t) \<and> live e \<and> anchored t Struct (anchor field value) (e_id e)"

lemma lookup_step:
  assumes "calm (Suc k) s" "tabs s = t" "there t e f v"
    "\<And>s'. calm k s' \<Longrightarrow> tabs s' = t \<Longrightarrow> ends (g (uuid_String L (e_id e)) s') P"
  shows "ends (dbind (seeded_ID L es f v) g s) P"
proof -
  have e: "e \<in> set (entities (tabs s))" "live e" "anchored (tabs s) Struct (anchor f v) (e_id e)"
    using assms(2,3) by (simp_all add: there_def)
  note found = seeded_ID_found [OF assms(1) e]
  show ?thesis using assms(4) [OF found(2)] found(1,3) assms(2) by (simp add: dbind_def)
qed

text \<open>The relations, between the rows of the nine seeded records.\<close>

definition seed_links :: "uuid list \<Rightarrow> link list" where
  "seed_links us = map (\<lambda>(i, j, ty, cf, ev). (us ! i, us ! j, ty, cf, ev))
    [(0, 5, ''works_at'', f64 (19 / 20), ''Founder and CEO of Dupont & Partners''), (1, 6, ''works_at'', f64 (23 / 25), ''Listed as CTO on company website''),
     (2, 7, ''works_at'', f64 (9 / 10), ''LinkedIn profile''), (3, 8, ''works_at'', f64 (22 / 25), ''Extracted from email signature''),
     (4, 6, ''works_at'', f64 (17 / 20), ''Contract document''), (0, 1, ''knows'', f64 (4 / 5), ''Co-authored blog post''),
     (1, 2, ''knows'', f64 (3 / 4), ''Attended same conference''), (0, 3, ''knows'', f64 (7 / 10), ''Board meeting minutes''),
     (5, 8, ''partner_of'', f64 (17 / 20), ''Joint venture agreement''), (6, 7, ''client_of'', f64 (9 / 10), ''Active contract'')]"

lemma seed_links_args:
  "map (link_args L) (seed_links [a, b, c, d, e, f, g, h, i])
    = seed_relations (uuid_String L a) (uuid_String L b) (uuid_String L c) (uuid_String L d) (uuid_String L e) (uuid_String L f)
        (uuid_String L g) (uuid_String L h) (uuid_String L i)"
  by (simp add: seed_links_def seed_relations_def link_args_def)

lemma seed_links_ok:
  assumes "distinct [a, b, c, d, e, f, g, h, i]" "\<forall>u\<in>set [a, b, c, d, e, f, g, h, i]. entity_exists t u"
  shows "\<forall>l\<in>set (seed_links [a, b, c, d, e, f, g, h, i]). joins t l" "distinct (map link_key (seed_links [a, b, c, d, e, f, g, h, i]))"
    "length (seed_links [a, b, c, d, e, f, g, h, i]) = 10"
  using assms by (simp_all add: seed_links_def joins_def link_key_def validateRelationType_def maxRelationType_def)

lemma seed_rest_runs:
  assumes "calm (86 + k) s" "grown t (tabs s) (people_rows @ company_rows) rows" "entities t = []" "relations t = []"
    and "\<not> st_external (es_store es)" "std_events_marshal L" "structs_marshal L" "uuid_Parse L [] = None"
  shows "\<exists>s' rows'. seedInvoicesAndRelations L es s = (s', Inr ()) \<and> calm k s' \<and> entities (tabs s') = rows @ rows'
    \<and> length rows = 9 \<and> map e_display_name (rows @ rows') = map snd (people_rows @ company_rows @ invoice_rows)
    \<and> (\<forall>e\<in>set (rows @ rows'). live e) \<and> map relation_key (relations (tabs s')) = map link_key (seed_links (map e_id rows))"
proof -
  let ?t = "tabs s"
  have g: "entities ?t = rows" "relations ?t = []" "list_all2 (\<lambda>(q, name) e. e_display_name e = name \<and> live e \<and> anchored ?t Struct q (e_id e))
      (people_rows @ company_rows) rows"
    using assms(2-4) by (simp_all add: grown_def)
  then obtain a b c d e f g h i where rows: "rows = [a, b, c, d, e, f, g, h, i]"
    by (auto simp: people_rows_def company_rows_def list_all2_Cons1)
  note th = g(3) [unfolded rows people_rows_def company_rows_def, simplified]
  have there: "there ?t a ''email'' ''alice@dupont.be''" "there ?t b ''email'' ''bob@techcorp.io''" "there ?t c ''email'' ''charlie@design.co''"
    "there ?t d ''email'' ''diana@acme.com''" "there ?t e ''email'' ''eve@startup.io''" "there ?t f ''domain'' ''dupont.be''"
    "there ?t g ''domain'' ''techcorp.io''" "there ?t h ''domain'' ''design.co''" "there ?t i ''domain'' ''acme.com''"
    using th g(1) by (simp_all add: there_def rows)
  have names: "map e_display_name rows = map snd (people_rows @ company_rows)" "\<forall>e\<in>set rows. live e"
    using th by (simp_all add: rows people_rows_def company_rows_def)
  let ?us = "map e_id rows"
  have us: "?us = [e_id a, e_id b, e_id c, e_id d, e_id e, e_id f, e_id g, e_id h, e_id i]" by (simp add: rows)
  have "schema ?t" using assms(1) by (simp add: calm_def)
  then have "distinct ?us" using g(1) by (simp add: schema_def entities_ok_def)
  moreover have "\<forall>u\<in>set ?us. entity_exists ?t u" using g(1) by (auto simp: entity_exists_def)
  ultimately have ok: "\<forall>l\<in>set (seed_links ?us). joins ?t l" "distinct (map link_key (seed_links ?us))" "length (seed_links ?us) = 10"
    using seed_links_ok [of "e_id a" "e_id b" "e_id c" "e_id d" "e_id e" "e_id f" "e_id g" "e_id h" "e_id i" ?t, folded us] by blast+
  let ?P = "\<lambda>s'. \<exists>rows'. calm k s' \<and> entities (tabs s') = rows @ rows' \<and> map e_display_name rows' = map snd invoice_rows
    \<and> (\<forall>e\<in>set rows'. live e) \<and> map relation_key (relations (tabs s')) = map link_key (seed_links ?us)"
  have fin: "ends (dbind (seed_loop (seed_relation L es) (map (link_args L) (seed_links ?us))) (\<lambda>_. seed_loop (seed_invoice L es) seed_invoices) s1) ?P"
    if s1: "calm (77 + k) s1" "tabs s1 = ?t" for s1
  proof -
    have c1: "calm (length (seed_links ?us) * 5 + (27 + k)) s1" using s1(1) ok(3) by simp
    obtain s2 where 2: "seed_loop (seed_relation L es) (map (link_args L) (seed_links ?us)) s1 = (s2, Inr ())" "calm (27 + k) s2"
      "linked ?t (tabs s2) (map link_key (seed_links ?us))"
      using seed_relations_link [OF _ ok(2) _ c1 assms(8,5,6)] ok(1) s1(2) g(2) by auto
    have c2: "calm (length seed_invoices * 9 + k) s2" using 2(2) by (simp add: seed_invoices_def)
    have ad: "\<forall>x\<in>set seed_invoices. adds (seed_invoice L es x) 9 ((\<lambda>(number, issuer, amount, date).
        (anchor ''invoice_number'' (NormalizeLowercaseTrim (ucd (lib_go L)) number), number @ '' '' @ dash @ '' '' @ issuer)) x)"
      using seed_invoice_adds [OF assms(5-7)] by auto
    have di: "distinct (map (fst \<circ> (\<lambda>(number, issuer, amount, date).
        (anchor ''invoice_number'' (NormalizeLowercaseTrim (ucd (lib_go L)) number), number @ '' '' @ dash @ '' '' @ issuer))) seed_invoices)"
      unfolding map_map [symmetric] invoice_rows_eq by (simp add: invoice_rows_def)
    obtain s3 rows' where 3: "seed_loop (seed_invoice L es) seed_invoices s2 = (s3, Inr ())" "calm k s3" "grown (tabs s2) (tabs s3) invoice_rows rows'"
      using seed_loop_adds [OF ad di c2] unfolding invoice_rows_eq by blast
    have "list_all2 (\<lambda>(q, name) e. e_display_name e = name \<and> live e \<and> anchored (tabs s3) Struct q (e_id e)) invoice_rows rows'"
      using 3(3) by (simp add: grown_def)
    then have "map e_display_name rows' = map snd invoice_rows" "\<forall>e\<in>set rows'. live e"
      by (induction rule: list_all2_induct) auto
    then show ?thesis using 2 3 g(1,2) by (auto simp: ends_def dbind_def grown_def linked_def)
  qed
  have c9: "calm (Suc (Suc (Suc (Suc (Suc (Suc (Suc (Suc (Suc (77 + k)))))))))) s" using assms(1) by simp
  have "ends (seedInvoicesAndRelations L es s) ?P"
    unfolding seedInvoicesAndRelations_def
    apply (rule lookup_step [OF c9 refl there(1)])
    apply (rule lookup_step, assumption, assumption, rule there)+
    using fin by (simp add: us seed_links_args)
  then obtain s' rows' where "seedInvoicesAndRelations L es s = (s', Inr ())" "calm k s'" "entities (tabs s') = rows @ rows'"
    "map e_display_name rows' = map snd invoice_rows" "\<forall>e\<in>set rows'. live e"
    "map relation_key (relations (tabs s')) = map link_key (seed_links ?us)"
    unfolding ends_def by blast
  then show ?thesis using names by (intro exI [of _ s'] exI [of _ rows']) (auto simp: rows)
qed

definition name_of :: "tables \<Rightarrow> uuid \<Rightarrow> string" where
  "name_of t u = (case find (\<lambda>e. e_id e = u) (entities t) of Some e \<Rightarrow> e_display_name e | None \<Rightarrow> [])"

lemma name_of_nth:
  assumes "distinct (map e_id (entities t))" "i < length us" "us = take (length us) (map e_id (entities t))"
  shows "name_of t (us ! i) = map e_display_name (entities t) ! i"
proof -
  have i: "i < length (entities t)" "us ! i = e_id (entities t ! i)"
    using assms(2,3) by (metis length_map length_take min_less_iff_conj nth_map nth_take)+
  have "find (\<lambda>e. e_id e = us ! i) (entities t) = Some (entities t ! i)"
    unfolding find_Some_iff i(2) using assms(1) i(1) by (auto simp: distinct_conv_nth intro!: exI [of _ i])
  then show ?thesis using i(1) by (simp add: name_of_def)
qed

definition fact_of :: "tables \<Rightarrow> uuid \<times> uuid \<times> string \<Rightarrow> string \<times> string \<times> string" where
  "fact_of t k = (case k of (a, c, ty) \<Rightarrow> (name_of t a, ty, name_of t c))"

text \<open>C32. The showcase on a fresh database. If no call fails and the identifiers generated are fresh, seeding the empty tables
  succeeds: it leaves twelve live entities with the names of the seed data, and the relations between them are exactly the ten of the
  seed, each between the entities with the names meant.\<close>

theorem seed_fresh:
  assumes "tabs s = empty_tables" "tx s = None" "undisturbed {} 176 s" "\<not> st_external (es_store es)"
    and "std_events_marshal L" "structs_marshal L" "uuid_Parse L [] = None"
  shows "\<exists>s1 s2. seedPeopleAndCompanies L es s = (s1, Inr ()) \<and> seedInvoicesAndRelations L es s1 = (s2, Inr ())
    \<and> map e_display_name (entities (tabs s2)) = [''Alice Dupont'', ''Bob Martin'', ''Charlie Peeters'', ''Diana Janssen'', ''Eve Laurent'',
        ''Dupont & Partners'', ''TechCorp'', ''Design Co'', ''Acme Inc'', ''INV-2024-001 '' @ dash @ '' Dupont & Partners'',
        ''INV-2024-002 '' @ dash @ '' TechCorp'', ''INV-2024-003 '' @ dash @ '' Design Co'']
    \<and> (\<forall>e\<in>set (entities (tabs s2)). live e)
    \<and> map (\<lambda>r. fact_of (tabs s2) (relation_key r)) (relations (tabs s2)) =
       [(''Alice Dupont'', ''works_at'', ''Dupont & Partners''), (''Bob Martin'', ''works_at'', ''TechCorp''),
        (''Charlie Peeters'', ''works_at'', ''Design Co''), (''Diana Janssen'', ''works_at'', ''Acme Inc''),
        (''Eve Laurent'', ''works_at'', ''TechCorp''), (''Alice Dupont'', ''knows'', ''Bob Martin''),
        (''Bob Martin'', ''knows'', ''Charlie Peeters''), (''Alice Dupont'', ''knows'', ''Diana Janssen''),
        (''Dupont & Partners'', ''partner_of'', ''Acme Inc''), (''TechCorp'', ''client_of'', ''Design Co'')]"
proof -
  have c: "calm (90 + (86 + 0)) s" using assms(1-3) schema_empty by (simp add: calm_def)
  obtain s1 rows where 1: "seedPeopleAndCompanies L es s = (s1, Inr ())" "calm (86 + 0) s1" "grown (tabs s) (tabs s1) (people_rows @ company_rows) rows"
    using seed_people_runs [OF c assms(4-6)] by blast
  have e: "entities (tabs s) = []" "relations (tabs s) = []" using assms(1) by (simp_all add: empty_tables_def)
  obtain s2 rows' where 2: "seedInvoicesAndRelations L es s1 = (s2, Inr ())" "calm 0 s2" "entities (tabs s2) = rows @ rows'" "length rows = 9"
    "map e_display_name (rows @ rows') = map snd (people_rows @ company_rows @ invoice_rows)" "\<forall>e\<in>set (rows @ rows'). live e"
    "map relation_key (relations (tabs s2)) = map link_key (seed_links (map e_id rows))"
    using seed_rest_runs [OF 1(2,3) e assms(4-7)] by blast
  let ?t = "tabs s2" and ?us = "map e_id rows"
  have d: "distinct (map e_id (entities ?t))" using 2(2) by (simp add: calm_def schema_def entities_ok_def)
  have "name_of ?t (?us ! i) = map snd (people_rows @ company_rows @ invoice_rows) ! i" if "i < 9" for i
    using name_of_nth [OF d, of i ?us] that 2(3-5) by simp
  then have n: "map (fact_of ?t \<circ> link_key) (seed_links ?us) = map (fact_of ?t) (map relation_key (relations ?t))"
    and f: "map (fact_of ?t \<circ> link_key) (seed_links ?us) =
       [(''Alice Dupont'', ''works_at'', ''Dupont & Partners''), (''Bob Martin'', ''works_at'', ''TechCorp''),
        (''Charlie Peeters'', ''works_at'', ''Design Co''), (''Diana Janssen'', ''works_at'', ''Acme Inc''),
        (''Eve Laurent'', ''works_at'', ''TechCorp''), (''Alice Dupont'', ''knows'', ''Bob Martin''),
        (''Bob Martin'', ''knows'', ''Charlie Peeters''), (''Alice Dupont'', ''knows'', ''Diana Janssen''),
        (''Dupont & Partners'', ''partner_of'', ''Acme Inc''), (''TechCorp'', ''client_of'', ''Design Co'')]"
    using 2(4,7) by (simp_all add: seed_links_def link_key_def fact_of_def people_rows_def company_rows_def)
  have names: "map e_display_name (entities ?t) = map snd (people_rows @ company_rows @ invoice_rows)" using 2(3,5) by simp
  have facts: "map (\<lambda>r. fact_of ?t (relation_key r)) (relations ?t) = map (fact_of ?t \<circ> link_key) (seed_links ?us)"
    using n by (simp add: comp_def)
  show ?thesis
    by (rule exI [of _ s1], rule exI [of _ s2], unfold names facts f)
      (use 1(1) 2(1,3,6) in \<open>simp add: people_rows_def company_rows_def invoice_rows_def\<close>)
qed

theorem seed_fresh_witness:
  "\<exists>s1 s2. seedPeopleAndCompanies padded_lib \<lparr>es_store = demo_store\<rparr> demo_db = (s1, Inr ())
     \<and> seedInvoicesAndRelations padded_lib \<lparr>es_store = demo_store\<rparr> s1 = (s2, Inr ()) \<and> length (entities (tabs s2)) = 12"
proof -
  have "undisturbed {} 176 demo_db"
    by (rule undisturbed_counting) (simp_all add: demo_db_def ids_def empty_tables_def)
  moreover have "std_events_marshal padded_lib" by (auto simp: std_events_marshal_def padded_lib_def demo_lib_def split: proto_msg.split)
  moreover have "structs_marshal padded_lib" by (simp add: structs_marshal_def padded_lib_def)
  moreover have "uuid_Parse padded_lib [] = None" by (simp add: padded_lib_def padded_parse_def)
  ultimately obtain s1 s2 where s: "seedPeopleAndCompanies padded_lib \<lparr>es_store = demo_store\<rparr> demo_db = (s1, Inr ())"
    "seedInvoicesAndRelations padded_lib \<lparr>es_store = demo_store\<rparr> s1 = (s2, Inr ())" "length (map e_display_name (entities (tabs s2))) = 12"
    using seed_fresh [of demo_db "\<lparr>es_store = demo_store\<rparr>" padded_lib] by (fastforce simp: demo_db_def)
  then show ?thesis by auto
qed

end
