(* ===== verification/Example_Effects.thy ===== *)
theory Example_Effects
  imports Seeding
begin

text \<open>
  What example programs print: the outcome of \<open>OptimisticLockingExample\<close> of \<open>src/examples/events_example.go\<close> when nothing fails, and
  why \<open>EventsExample\<close> of \<open>src/examples/store_example.go\<close> counts no event of the kind it asks for. Also, what a second run of the first seed does.
\<close>

section \<open>Optimistic locking\<close>

lemma creates_row:
  assumes "creates L we now t e t'"
  shows "e \<in> set (entities t')" "e_version e = 0" "live e"
proof -
  obtain ty d as ts vs where "e = new_entity (e_id e) now ty d (wo_Confidence we) (wo_Tags we) (wo_DisplayName we)"
    "e \<in> set (entities t')"
    using assms unfolding creates_def by force
  then show "e \<in> set (entities t')" "e_version e = 0" "live e" using new_entity_fields [of e] by blast+
qed

text \<open>C36. The comments of the example hold. If no call fails and the identifiers generated are fresh, the entity is created at version 0,
  the update at that version succeeds, the second update at version 0 fails with exactly \<open>ErrConflict\<close> under operation 0, and reading the
  entity again gives version 1.\<close>

theorem OptimisticLockingExample_outcome:
  assumes "undisturbed {} 19 s" "tx s = None" "schema (tabs s)" "\<not> st_external (es_store es)" "std_events_marshal L" "structs_marshal L"
  shows "\<exists>s'. OptimisticLockingExample L es s = (s', Inr (0, None, Some (WrapOp 0 ''write_entity'' ErrConflict), Some 1))"
proof -
  let ?st = "es_store es"
  define new where "new = zero_WriteEntityOp\<lparr>wo_Action := WriteActionCreate,
     wo_Data := Some (struct_msg [(''name'', JStr ''Eve''), (''email'', JStr ''eve@startup.io'')]), wo_Confidence := f64 (9 / 10),
     wo_DisplayName := ''Eve Laurent''\<rparr>"
  let ?data = "struct_msg [(''name'', JStr ''Eve Laurent''), (''email'', JStr ''eve@startup.io''), (''title'', JStr ''CEO'')]"
  define upd where "upd = (\<lambda>i cf n. zero_WriteEntityOp\<lparr>wo_Action := WriteActionUpdate, wo_MatchedEntityID := i, wo_Data := Some ?data,
     wo_Confidence := cf, wo_DisplayName := n\<rparr>)"
  have fields: "wo_Action new = WriteActionCreate" "wo_ID new = []" "wo_Embedding new = None" "wo_Version (upd i cf n) = 0"
    "wo_MatchedEntityID (upd i cf n) = i" "is_update (upd i cf n)" for i cf n
    by (simp_all add: new_def upd_def zero_WriteEntityOp_def is_update_def)
  have ok: "content_ok L new" "content_ok L (upd i cf n)" "op_valid (entity_op new)" "op_valid (entity_op (upd i cf n))" for i cf n
    by (simp_all add: content_ok_def struct_marshals [OF assms(6)] op_valid_def validateTags_def maxTagsPerEntity_def maxTagLength_def
        new_def upd_def zero_WriteEntityOp_def)
  have cost: "batch_cost [entity_op new] = 8" "batch_cost [entity_op (upd i cf n)] = 8" for i cf n
    by (simp_all add: batch_cost_def op_cost_def write_cost_def new_def upd_def zero_WriteEntityOp_def)
  have c: "calm (batch_cost [entity_op new] + 11) s" using assms(1-3) by (simp add: calm_def cost)
  obtain s1 e now where 1: "BatchWrite L ?st [entity_op new] s = (s1, Inr [\<lparr>br_Entity = Some (entityFromRow L e), br_Relation = None\<rparr>])"
    "calm 11 s1" "creates L new now (tabs s) e (tabs s1)"
    by (rule calm_create [OF c _ _ ok(3,1) fields(1-3) assms(4,5)]) simp_all
  note e = creates_row [OF 1(3)]
  have sid: "se_ID (entityFromRow L e) = uuid_String L (e_id e)" "se_Version (entityFromRow L e) = 0"
    using e(2) by (simp_all add: entityFromRow_def)
  have p: "uuid_Parse L (wo_MatchedEntityID (upd (uuid_String L (e_id e)) cf n)) = Some (e_id e)" for cf n
    unfolding fields by (rule codec_roundtrip)
  let ?u1 = "entity_op (upd (uuid_String L (e_id e)) (f64 (19 / 20)) ''Eve Laurent'')"
  have c1: "calm (batch_cost [?u1] + 3) s1" using 1(2) by (simp add: cost)
  obtain s2 rs e' where 2: "BatchWrite L ?st [?u1] s1 = (s2, Inr rs)" "calm 3 s2" "e' \<in> set (entities (tabs s2))" "e_id e' = e_id e"
    "e_version e' = e_version e + 1" "live e'"
    by (rule calm_update [OF c1 _ _ ok(4,2) fields(6) p e(1,3) _ _ assms(4,5)]) (use e(2) in \<open>simp_all add: fields max_int32_def\<close>)
  let ?u2 = "entity_op (upd (uuid_String L (e_id e)) (f64 (49 / 50)) [])"
  obtain ty d where md: "marshalEntityData L (upd (uuid_String L (e_id e)) (f64 (49 / 50)) []) = Inr (ty, d)"
    using ok(2) unfolding content_ok_def by blast
  have c2: "calm (2 + 1) s2" using 2(2) by simp
  have "schema (tabs s2)" using 2(2) by (simp add: calm_def)
  then have "\<forall>f\<in>set (entities (tabs s2)). e_id f = e_id e \<longrightarrow> live f \<longrightarrow> e_version f \<noteq> int32 (wo_Version (upd i cf n))" for i cf n
    using distinct_id 2(3-5) e(2) by (fastforce simp: fields)
  then obtain s3 where 3: "BatchWrite L ?st [?u2] s2 = (s3, Inl (WrapOp 0 ''write_entity'' ErrConflict))" "tabs s3 = tabs s2" "calm 1 s3"
    using stale_conflicts [OF c2 _ _ ok(4) [of "uuid_String L (e_id e)" "f64 (49 / 50)" "[]"] md fields(6) p assms(4)] by auto
  have 4: "GetEntity L (uuid_String L (e_id e)) s3 = (next_tick s3, Inr (entityFromRow L e'))"
    by (rule calm_GetEntity [where k = 0]) (use 2 3 in simp_all)
  have v: "se_Version (entityFromRow L e') = 1" using 2(5) e(2) by (simp add: entityFromRow_def)
  have upd0: "zero_WriteEntityOp\<lparr>wo_Action := WriteActionUpdate, wo_MatchedEntityID := i, wo_Version := 0, wo_Data := Some ?data,
      wo_Confidence := cf\<rparr> = upd i cf []"
    "(upd i cf [])\<lparr>wo_DisplayName := n\<rparr> = upd i cf n" for i cf n
    by (simp_all add: upd_def zero_WriteEntityOp_def)
  show ?thesis
    unfolding OptimisticLockingExample_def Let_def new_def [symmetric] EntityStore_BatchWrite_def EntityStore_GetEntity_def
    by (simp add: dbind_def dret_def dmap_def ignored_def outcome_def result_entity_def 1(1) sid upd0 2(1) 3(1) 4 v)
qed

theorem OptimisticLockingExample_outcome_witness:
  "\<exists>s'. OptimisticLockingExample demo_lib \<lparr>es_store = demo_store\<rparr> demo_db = (s', Inr (0, None, Some (WrapOp 0 ''write_entity'' ErrConflict), Some 1))"
proof -
  have "undisturbed {} 19 demo_db"
    by (rule undisturbed_counting) (simp_all add: demo_db_def ids_def empty_tables_def)
  moreover have "std_events_marshal demo_lib" by (auto simp: std_events_marshal_def demo_lib_def split: proto_msg.split)
  moreover have "structs_marshal demo_lib" by (simp add: structs_marshal_def)
  ultimately show ?thesis
    using OptimisticLockingExample_outcome [of demo_db "\<lparr>es_store = demo_store\<rparr>" demo_lib] schema_empty by (simp add: demo_db_def)
qed

section \<open>Unique creation\<close>

text \<open>An entity found under the anchor of a \<open>MustNotExist\<close> precondition refuses the batch, which leaves no trace.\<close>

lemma guard_refuses:
  assumes "calm (2 + k) s" "bo_PreConditions b = [pc]" "op_valid b" "\<not> st_external st"
    and "pc_MustNotExist pc" "\<not> pc_MustExist pc" "pc_Anchors pc = [aq]"
    and "e \<in> set (entities (tabs s))" "live e" "anchored (tabs s) (pc_EntityType pc) aq (e_id e)"
  shows "\<exists>s'. BatchWrite L st [b] s = (s', Inl (PreConditionError 0 pc ''already_exists'')) \<and> tabs s' = tabs s"
proof -
  let ?s = "started s" and ?s' = "next_tick (started s)"
  let ?rows = "concat (map (\<lambda>a. filter (\<lambda>e. e_id e = a_entity_id a \<and> live e \<and> tag_filter [] [] [] [] (e_tags e)) (entities (tabs s)))
       (filter (\<lambda>a. anchor_key a = (pc_EntityType pc, aq_Field aq, aq_Value aq)) (anchors (tabs s))))"
  have nf: "\<not> fault s (tick s)" "\<not> fault s (Suc (tick s))" using assms(1) by (auto simp: calm_def undisturbed_def)
  have "q_FindByAnchors (pc_EntityType pc) (aq_Field aq) (aq_Value aq) [] [] [] [] ?s = (?s', Inr ?rows)"
    using nf by (simp add: q_FindByAnchors_def select_def exec_def exec_tx_def started_def next_tick_def)
  then obtain es where f: "findByAnchorsTx L (pc_EntityType pc) [aq] ?s = (?s', Inr es)"
    by (simp add: findByAnchorsTx_def dmap_def dbind_def dret_def dwrap_def)
  have "schema (tabs ?s)" using assms(1) by (simp add: calm_def started_def next_tick_def)
  from findByAnchorsTx_set [OF f this] have "entityFromRow L e \<in> set es"
    using assms(8-10) by (auto simp: started_def next_tick_def)
  then have "es \<noteq> []" by auto
  then have "executeBatchOps L 0 [b] ?s = (?s', Inl (PreConditionError 0 pc ''already_exists''))"
    using f assms(2,5-7) by (simp add: dbind_def dwrap_def dfail_def)
  moreover have "begin_tx s = (?s, Inr ())" using nf by (simp add: begin_tx_def started_def)
  ultimately have "BatchWrite L st [b] s = (rollback_tx ?s', Inl (PreConditionError 0 pc ''already_exists''))"
    using assms(3,4) validate_ops_iff [of 0 "[b]"]
    by (simp add: BatchWrite_def MaxBatchSize_def in_tx_def dbind_def dwrap_def dlift_def del: executeBatchOps.simps)
  then show ?thesis by (simp add: rollback_tx_def started_def next_tick_def)
qed

text \<open>C35. The precondition of \<open>PreConditionUniquenessExample\<close> keeps the invoice unique. In a store that has no such invoice, with no failing
  call and fresh identifiers, the program creates it; run again it reports \<open>already_exists\<close> for operation 0 and changes no table.\<close>

theorem PreConditionUniquenessExample_twice:
  assumes "undisturbed {} 12 s" "tx s = None" "schema (tabs s)" "\<not> st_external (es_store es)" "std_events_marshal L" "structs_marshal L"
    and "\<forall>e\<in>set (entities (tabs s)). live e \<longrightarrow> \<not> anchored (tabs s) Struct (anchor ''invoice_number'' ''inv-2024-042'') (e_id e)"
  shows "\<exists>s1 i s2 pc. PreConditionUniquenessExample L es s = (s1, Inr (Inr i)) \<and> i \<notin> uuid_String L ` e_id ` set (entities (tabs s))
    \<and> PreConditionUniquenessExample L es s1 = (s2, Inr (Inl (0, pc, ''already_exists''))) \<and> tabs s2 = tabs s1"
proof -
  let ?b = unique_invoice and ?aq = "anchor ''invoice_number'' ''inv-2024-042''"
  obtain we pc where b: "?b = guarded_op we [pc]" "wo_Action we = WriteActionCreate" "wo_ID we = []" "wo_Embedding we = None"
    "wo_Anchors we = [?aq]" "wo_Tokens we = []" "wo_Events we = []" "wo_Tags we = []" "\<exists>kvs. wo_Data we = Some (struct_msg kvs)"
    "pc_EntityType pc = Struct" "pc_Anchors pc = [?aq]" "pc_MustNotExist pc" "\<not> pc_MustExist pc" "pc_TagRequired pc = []" "pc_TagForbidden pc = []"
    by (rule that, rule unique_invoice_def) (auto simp: zero_WriteEntityOp_def zero_PreCondition_def)
  obtain kvs where kvs: "wo_Data we = Some (struct_msg kvs)" using b(9) by blast
  note sel = b(1) [THEN arg_cong [where f = bo_WriteEntity], simplified] b(1) [THEN arg_cong [where f = bo_UpsertRelation], simplified]
    b(1) [THEN arg_cong [where f = bo_PreConditions], simplified]
  have ok: "content_ok L we" "op_valid ?b"
    using struct_marshals [OF assms(6) kvs] b(4,6-8) sel by (simp_all add: content_ok_def op_valid_def validateTags_def maxTagsPerEntity_def)
  then have acc: "op_acceptable L (tabs s) (?b\<lparr>bo_PreConditions := []\<rparr>)"
    using b(2,3) sel by (simp add: op_acceptable_def target_ok_def op_valid_def)
  have holds: "\<forall>pc\<in>set (bo_PreConditions ?b). pc_holds (tabs s) pc \<and> consistent pc"
    using b(10-15) sel assms(7) by (simp add: pc_holds_def pc_matches_def consistent_def)
  have u: "undisturbed {} (2 + guards_cost (bo_PreConditions ?b) + op_cost ?b + 2) s"
    using assms(1) b(5-7,11) sel by (simp add: guards_cost_def op_cost_def write_cost_def)
  obtain s1 r where r: "BatchWrite L (es_store es) [?b] s = (s1, Inr [r])" "undisturbed {} 2 s1" "tx s1 = None"
    using guarded_runs [OF acc holds u _ assms(2,4,5,3)] b(2,3) sel by (simp add: op_targets_def targets_def Let_def) blast
  obtain e now where e: "creates L we now (tabs s) e (tabs s1)" "r = \<lparr>br_Entity = Some (entityFromRow L e), br_Relation = None\<rparr>"
    using create_batch [OF r(1) assms(4,2) sel(1) b(2,4)] by auto
  have row: "e \<in> set (entities (tabs s1))" "live e" "anchored (tabs s1) Struct ?aq (e_id e)"
    using creates_row [OF e(1)] creates_grown(1) [OF e(1) kvs [unfolded struct_msg_def] b(5)] by (simp_all add: grown_def)
  have c: "calm (2 + 0) s1" using r(2,3) schema_BatchWrite [OF r(1) assms(2,3)] by (simp add: calm_def)
  obtain s2 where s2: "BatchWrite L (es_store es) [?b] s1 = (s2, Inl (PreConditionError 0 pc ''already_exists''))" "tabs s2 = tabs s1"
    using guard_refuses [OF c sel(3) ok(2) assms(4) b(12,13,11) row(1,2)] row(3) b(10) by auto
  have "uuid_String L (e_id e) \<notin> uuid_String L ` e_id ` set (entities (tabs s))"
    using e(1) by (auto simp: creates_def entity_exists_def)
  then show ?thesis using r(1) e(2) s2
    by (intro exI [of _ s1] exI [of _ "uuid_String L (e_id e)"] exI [of _ s2] exI [of _ pc])
      (simp add: PreConditionUniquenessExample_def or_precondition_def EntityStore_BatchWrite_def result_entity_def dbind_def dmap_def dret_def
        entityFromRow_def)
qed

theorem PreConditionUniquenessExample_twice_witness:
  "\<exists>s1 i s2 pc. PreConditionUniquenessExample demo_lib \<lparr>es_store = demo_store\<rparr> demo_db = (s1, Inr (Inr i))
     \<and> PreConditionUniquenessExample demo_lib \<lparr>es_store = demo_store\<rparr> s1 = (s2, Inr (Inl (0, pc, ''already_exists'')))"
proof -
  have "undisturbed {} 12 demo_db"
    by (rule undisturbed_counting) (simp_all add: demo_db_def ids_def empty_tables_def)
  moreover have "std_events_marshal demo_lib" by (auto simp: std_events_marshal_def demo_lib_def split: proto_msg.split)
  moreover have "structs_marshal demo_lib" by (simp add: structs_marshal_def)
  moreover have "tx demo_db = None" "schema (tabs demo_db)" "entities (tabs demo_db) = []" using schema_empty by (simp_all add: demo_db_def empty_tables_def)
  ultimately show ?thesis
    using PreConditionUniquenessExample_twice [of demo_db "\<lparr>es_store = demo_store\<rparr>" demo_lib] by auto
qed

section \<open>Event types\<close>

text \<open>The events the store writes carry no version in their type; the filter of \<open>EventsExample\<close> names one. The custom event of
  \<open>CustomEventsExample\<close> loses the middle of its name.\<close>

lemma stored_types_have_no_version:
  "map (deriveEventType \<circ> MessageName) [EntityCreated i ty c ts, EntityUpdated i ty c ts, EntityMerged i ty, EntityDeleted i ty, EntityHardDeleted i ty,
     RelationCreated i j ty c, RelationDeleted i j ty]
   = [''entitystore.events.EntityCreated'', ''entitystore.events.EntityUpdated'', ''entitystore.events.EntityMerged'',
      ''entitystore.events.EntityDeleted'', ''entitystore.events.EntityHardDeleted'', ''entitystore.events.RelationCreated'',
      ''entitystore.events.RelationDeleted'']"
  "deriveEventType ''google.protobuf.Struct'' = ''google.Struct''"
  by (simp_all add: deriveEventType_def)

section \<open>Seeding twice\<close>

text \<open>The first migration on a database that already holds the people adds them again.\<close>

lemma seed_people_again:
  assumes "calm 90 s" "\<not> st_external (es_store es)" "std_events_marshal L" "structs_marshal L"
  shows "\<exists>s'. seedPeopleAndCompanies L es s = (s', Inr ()) \<and> length (entities (tabs s')) = length (entities (tabs s)) + 9"
proof -
  have "calm (90 + 0) s" using assms(1) by simp
  from seed_people_runs [OF this assms(2-4)] obtain s' rows where "seedPeopleAndCompanies L es s = (s', Inr ())"
    "grown (tabs s) (tabs s') (people_rows @ company_rows) rows" by blast
  moreover from this have "length rows = 9" using list_all2_lengthD by (fastforce simp: grown_def people_rows_def company_rows_def)
  ultimately show ?thesis by (auto simp: grown_def)
qed

end
