(* ===== verification/Typed_Data.thy ===== *)
theory Typed_Data
  imports Example_Effects
begin

text \<open>
  Stored documents as messages: \<open>GetData\<close> of entities and relations in \<open>src/matching/matching.go\<close>, and what it gives back after a write.
  The caller's message stands for its type, by name; \<open>protojson.Unmarshal\<close> fails on empty input.
\<close>

definition protojson_read :: "lib \<Rightarrow> string \<Rightarrow> RawMessage \<Rightarrow> err + proto_msg" where
  "protojson_read L n raw = (case raw of
     None \<Rightarrow> Inl (Msg ''protojson'' [])
   | Some j \<Rightarrow> (case protojson_Unmarshal L n j of None \<Rightarrow> Inl (Msg ''protojson'' []) | Some m \<Rightarrow> Inr m))"

definition StoredEntity_GetData :: "lib \<Rightarrow> StoredEntity \<Rightarrow> string \<Rightarrow> err + proto_msg" where
  "StoredEntity_GetData L e n = protojson_read L n (se_Data e)"

definition StoredRelation_GetData :: "lib \<Rightarrow> StoredRelation \<Rightarrow> string \<Rightarrow> err + proto_msg" where
  "StoredRelation_GetData L r n = protojson_read L n (sr_Data r)"

lemma GetEntity_catalogue:
  assumes "GetEntity L i s = (s', Inr ent)" "uuid_Parse L i = Some u" "catalogue_of (tabs s) u = Some doc"
  shows "se_Data ent = Some (dc_data doc)"
proof -
  obtain row where q: "q_GetEntity u s = (s', Inr row)" and r: "ent = entityFromRow L row"
    using assms(1,2) by (auto simp: GetEntity_def parse_id_def dbind_Inr_iff dmap_Inr_iff)
  from select_one_Inr [OF q [unfolded q_GetEntity_def]] obtain rest where
    "filter (\<lambda>x. e_id x = u \<and> live x) (entities (tabs s)) = row # rest" by blast
  then have "find (\<lambda>x. e_id x = u \<and> live x) (entities (tabs s)) = Some row" by (rule filter_find)
  then show ?thesis using assms(3) r by (auto simp: catalogue_of_def doc_of_def entityFromRow_def)
qed

text \<open>C25. A message written by a single creation or replacement is read back: the entity the batch returns, and every entity that a lookup
  of its identifier returns right after, give the same message by \<open>GetData\<close>, when \<open>protojson\<close> reads what it printed for this message.\<close>

theorem written_message_read_back:
  assumes "BatchWrite L st [b] s = (s', Inr rs)" "\<not> st_external st" "tx s = None" "schema (tabs s)"
    and "bo_WriteEntity b = Some we" "wo_Action we = WriteActionCreate \<or> wo_Action we = WriteActionUpdate" "wo_Data we = Some msg"
    and "\<And>j. protojson_Marshal L msg = Some j \<Longrightarrow> protojson_Unmarshal L (MessageName msg) j = Some msg"
  shows "\<exists>ent. rs = [\<lparr>br_Entity = Some ent, br_Relation = None\<rparr>] \<and> StoredEntity_GetData L ent (MessageName msg) = Inr msg
    \<and> (\<forall>s2 ent2. GetEntity L (se_ID ent) s' = (s2, Inr ent2) \<longrightarrow> StoredEntity_GetData L ent2 (MessageName msg) = Inr msg)"
proof -
  obtain s1 s2 r T where 1: "batch_op L 0 b s1 = (s2, Inr r)" "tabs s1 = tabs s" "tx s1 = Some T" "tabs s' = tabs s2" "rs = [r]"
    by (rule single_batch [OF assms(1-3)])
  then obtain ent where w: "applyEntityWrite L we s1 = (s2, Inr ent)" "r = \<lparr>br_Entity = Some ent, br_Relation = None\<rparr>"
    using assms(5) by (auto simp: batch_op_def dbind_Inr_iff)
  have key: "\<exists>u j. protojson_Marshal L msg = Some j \<and> se_Data ent = Some j \<and> se_ID ent = uuid_String L u
    \<and> (\<exists>doc. catalogue_of (tabs s2) u = Some doc \<and> dc_data doc = j)"
  proof (cases "wo_Action we = WriteActionCreate")
    case True
    then have c: "applyCreate L we s1 = (s2, Inr ent)" using w(1) by (simp add: applyEntityWrite_def)
    obtain ty d e where e: "marshalEntityData L we = Inr (ty, d)" "e \<in> set (entities (tabs s2))" "live e" "ent = entityFromRow L e" "e_data e = d"
      by (rule applyCreate_effect [OF c 1(3)])
    have "schema (tabs s2)" using schema_BatchWrite [OF assms(1,3,4)] 1(4) by simp
    from find_live_unique [OF this e(2,3)] e show ?thesis using assms(7)
      by (intro exI [of _ "e_id e"] exI [of _ d])
        (auto simp: catalogue_of_def doc_of_def entityFromRow_def marshalEntityData_def split: if_splits option.splits)
  next
    case False
    then have up: "is_update we" "applyUpdateOrMerge L we s1 = (s2, Inr ent)" "wo_Action we = WriteActionUpdate"
      using w(1) assms(6) by (auto simp: applyEntityWrite_def is_update_def)
    have sch: "schema (tabs s1)" using assms(4) 1(2) by simp
    obtain u ty d where u: "marshalEntityData L we = Inr (ty, d)" "uuid_Parse L (wo_MatchedEntityID we) = Some u" "se_ID ent = uuid_String L u"
      "se_Data ent = Some d"
      using update_effect [OF up(2,1) sch] up(3) by (auto simp: new_data_def)
    have "spec_write L we (catalogue_of (tabs s1)) (catalogue_of (tabs s2))"
      by (rule applyUpdateOrMerge_refines [OF up(2,1) sch])
    then obtain doc where "catalogue_of (tabs s2) u = Some doc" "dc_data doc = d"
      using u(1,2) up(3) by (elim spec_writeE) (auto simp: new_data_def WriteActionCreate_def WriteActionUpdate_def)
    then show ?thesis using u assms(7)
      by (intro exI [of _ u] exI [of _ d]) (auto simp: marshalEntityData_def split: if_splits option.splits)
  qed
  then obtain u j doc where k: "protojson_Marshal L msg = Some j" "se_Data ent = Some j" "se_ID ent = uuid_String L u"
    "catalogue_of (tabs s') u = Some doc" "dc_data doc = j" using 1(4) by auto
  have "StoredEntity_GetData L e (MessageName msg) = Inr msg" if "se_Data e = Some j" for e
    using that assms(8) [OF k(1)] by (simp add: StoredEntity_GetData_def protojson_read_def)
  moreover have "se_Data ent2 = Some j" if "GetEntity L (se_ID ent) s' = (s2, Inr ent2)" for s2 ent2
    using GetEntity_catalogue [OF that] k by simp
  ultimately show ?thesis using k(2) 1(5) w(2) by blast
qed

definition reading_lib :: lib where
  "reading_lib = demo_lib\<lparr>protojson_Unmarshal := (\<lambda>n j. Some (OtherMessage n j))\<rparr>"

theorem written_message_read_back_witness:
  "\<exists>s' ent. BatchWrite reading_lib demo_store [entity_op (zero_WriteEntityOp\<lparr>wo_Action := WriteActionCreate,
       wo_Data := Some (struct_msg [(''name'', JStr ''Eve'')])\<rparr>)] demo_db = (s', Inr [\<lparr>br_Entity = Some ent, br_Relation = None\<rparr>])
     \<and> StoredEntity_GetData reading_lib ent ''google.protobuf.Struct'' = Inr (struct_msg [(''name'', JStr ''Eve'')])"
proof -
  let ?msg = "struct_msg [(''name'', JStr ''Eve'')]"
  let ?we = "zero_WriteEntityOp\<lparr>wo_Action := WriteActionCreate, wo_Data := Some ?msg\<rparr>"
  let ?b = "entity_op ?we"
  have sm: "structs_marshal reading_lib" by (simp add: structs_marshal_def reading_lib_def)
  have ev: "std_events_marshal reading_lib" by (auto simp: std_events_marshal_def reading_lib_def demo_lib_def split: proto_msg.split)
  have "undisturbed {} 8 demo_db" by (rule undisturbed_counting) (simp_all add: demo_db_def ids_def empty_tables_def)
  then have c: "calm (batch_cost [?b] + 0) demo_db"
    using schema_empty by (simp add: calm_def demo_db_def batch_cost_def op_cost_def write_cost_def zero_WriteEntityOp_def)
  have ok: "op_valid ?b" "content_ok reading_lib ?we"
    by (simp_all add: op_valid_def content_ok_def struct_marshals [OF sm] validateTags_def maxTagsPerEntity_def zero_WriteEntityOp_def)
  obtain s' e where r: "BatchWrite reading_lib demo_store [?b] demo_db = (s', Inr [\<lparr>br_Entity = Some (entityFromRow reading_lib e), br_Relation = None\<rparr>])"
    by (rule calm_create [OF c _ _ ok _ _ _ demo_store_simps ev]) (simp_all add: zero_WriteEntityOp_def)
  have "tx demo_db = None" "schema (tabs demo_db)" using schema_empty by (simp_all add: demo_db_def)
  from written_message_read_back [OF r demo_store_simps this, of ?we ?msg] r show ?thesis
    by (simp add: zero_WriteEntityOp_def struct_msg_def reading_lib_def)
qed

text \<open>A relation whose message prints as the empty object cannot be read back.\<close>

lemma empty_relation_data_unreadable:
  "r_data r = JObj [] \<Longrightarrow> StoredRelation_GetData L (relationFromRow L r) n = Inl (Msg ''protojson'' [])"
  by (simp add: StoredRelation_GetData_def protojson_read_def relationFromRow_def)

end
