(* ===== verification/Spec2Isabelle.thy ===== *)
theory Spec2Isabelle
  imports Event_Trail Ingestion Paging Consumer_Runs Maintenance Pure_Examples Typed_Data
begin

text \<open>
  The entity store (\<open>src\<close>) keeps versioned documents with anchors, tokens, embeddings, tags and relations in
  PostgreSQL, decides whether an extracted document is a new entity or one already stored, records every
  change as an event, and delivers the events to named consumers.

  \<^bold>\<open>Parts and theories\<close>

  \<^item> \<open>Prelude\<close>: lists with duplicates removed, searching, the named collections of facts. \<open>Float64\<close>: binary
    floating point with rounding to nearest even on rationals, without infinities and NaN. \<open>Go_Strings\<close>: UTF-8,
    runes, the character classes and the functions of package \<open>strings\<close> the code calls.
  \<^item> \<open>Edit_Distance\<close>, \<open>Similarity\<close>: \<open>matching/similarity.go\<close>. \<open>Matching_Types\<close>: \<open>matching/matching.go\<close>, the
    errors of the whole program, the interface \<open>registry\<close>. \<open>Resolve\<close>: \<open>matching/resolve.go\<close> and
    \<open>matching/embedding.go\<close>. \<open>Matcher\<close>: \<open>matching/matcher.go\<close>, with the interface \<open>candidate_source\<close> to a store.
  \<^item> \<open>Db\<close>: tables, statements, transactions, failures. \<open>Queries\<close>: the statements of \<open>store/internal/dbgen\<close>
    (\<open>q_\<close> and the name of the Go method); \<open>Maintenance\<close>: those that no operation calls. \<open>Invariant\<close>: the constraints of the schema,
    and the interfaces \<open>plain_invariant\<close>, \<open>history_invariant\<close> and \<open>table_invariant\<close> of predicates that the statements preserve
    (those that write no entity row and no event; all but the hard delete; all). \<open>Transactions\<close>: what a transaction does to the tables in every outcome.
  \<^item> \<open>Events\<close>: \<open>store/events.go\<close>. \<open>Store_Write\<close>: \<open>store/store_write.go\<close>, \<open>validate.go\<close>, \<open>write_options.go\<close>.
    \<open>Store_Read\<close>: \<open>store/store.go\<close>, \<open>stats.go\<close>, \<open>tx.go\<close>. \<open>Opening\<close>: opening and closing a store in \<open>store/store.go\<close>, and
    \<open>store/migrate.go\<close>. \<open>Write_Effects\<close>, \<open>Read_Effects\<close>, \<open>Store_Theorems\<close>: what
    these operations do. \<open>Refinement\<close>: the abstract catalogue and its refinement by the store. \<open>Progress\<close>: when batches succeed, by
    triples of total correctness (\<open>runs\<close>) whose budget counts external calls; \<open>Exact_Effects\<close>: the whole tables after single batches;
    \<open>Typed_Data\<close>: \<open>GetData\<close> of stored entities and relations.
  \<^item> \<open>Traverse\<close>: \<open>store/traverse.go\<close>. \<open>Consumer\<close>, \<open>Consumer_Theorems\<close>: \<open>store/consumer.go\<close> poll by poll; \<open>Consumer_Runs\<close>: its realtime
    loop, its callback and whole runs, with the interface \<open>table_preorder\<close>. \<open>Health\<close>: \<open>store/health.go\<close>.
  \<^item> \<open>System\<close>: all public operations interleaved as the steps of one transition relation. \<open>Tx_Sessions\<close>: programs over the explicit
    transactions of \<open>store/tx.go\<close>. \<open>Event_Trail\<close>: the agreement of rows and event log over whole runs of completed calls.
  \<^item> \<open>Entity_Store\<close>: \<open>entitystore.go\<close>, \<open>options.go\<close>, and the interface \<open>entity_storer\<close> of \<open>interface.go\<close>.
    \<open>Scoped\<close>: \<open>scoped.go\<close>, the second implementation of that interface. \<open>Paging\<close>: walking a listing page by page, as
    \<open>examples/store_example.go\<close> does.
  \<^item> \<open>Extraction_Schemas\<close>: \<open>extraction/extraction.go\<close>. \<open>Codegen\<close>: \<open>cmd/protoc-gen-entitystore/main.go\<close>, each
    generator function as the function that the emitted Go code computes. \<open>Ingestion\<close>: generated code, store and matcher composed.
  \<^item> \<open>Views\<close>: the templates \<open>ui/fragments_templ.go\<close>, \<open>ui/explorer/pages_templ.go\<close> and \<open>layout_templ.go\<close> as the trees they write. \<open>Explorer\<close>:
    the handlers of \<open>ui/handler.go\<close> and the pages of \<open>ui/explorer/explorer.go\<close> over any \<open>EntityStorer\<close>, with the interface \<open>explorable\<close>
    to the store. \<open>Programs\<close>: how the programs under \<open>cmd\<close>, \<open>ui/cmd\<close> and \<open>examples\<close> open their store. \<open>Seeding\<close>: the showcase and
    its seed data (\<open>ui/cmd/showcase\<close>).
  \<^item> \<open>Store_Examples\<close>, \<open>Event_Examples\<close>, \<open>Pure_Examples\<close>: the programs under \<open>examples\<close>, each as a function to the values it
    prints; \<open>Example_Effects\<close>: what some of them print.

  \<^bold>\<open>State and operations\<close>

  A database state is the record \<open>db\<close>: the tables, the open transaction with its snapshot, and an environment
  that says which external calls fail, whether a failed commit reached the disk, which UUIDs are generated and
  what the clock shows at each step. An operation is a function from a state to a state and an error or a
  result (\<open>dbm\<close>); Go's early returns are \<open>dbind\<close>. \<open>in_tx\<close> is the shared pattern of beginning, rolling back and
  committing. Theorems hold for every environment unless they say otherwise. Third-party code is a parameter:
  UUID text with its round trip, \<open>protojson\<close>, trigram similarity, vector distance, the Unicode tables, the
  embedder, the consumer's function, \<open>rand.Int63n\<close>, the connection pool and the migration runner (\<open>pgx\<close>), and what the
  explorer prints with: the format of times, indented documents, quoted text (\<open>uilib\<close>).

  \<^bold>\<open>What is shown\<close>

  \<^item> Writes: batches are atomic, refine the abstract catalogue of versioned documents, emit exactly their events;
    versions are checked and raised, and no update is lost in any interleaving; explicit transactions are atomic, too, and
    agree with batches; preconditions mean what they say;
    what was created is found again, and a written message is read back. Acceptable batches succeed as long as no call fails and generated identifiers are new.
  \<^item> All runs: an append-only event log, which is an audit trail of the rows (creations, updates up to the version, deletions), the
    life of an entity, finality of a soft delete; the constraints of the schema hold throughout (\<open>reachable_schema\<close> of
    \<open>System\<close>, a lemma: each statement checks them, so it says little about the code above the statements).
  \<^item> Reads: lookups read only, return exactly or only what they should; a traversal is sound, complete within its
    limit and finds shortest distances; paging ends and is complete when times differ; scoped lookups other than \<open>Search\<close> stay in scope, scoped
    creations are tagged, reads through a scope are monotonic.
  \<^item> Consumers: exclusive leases, fenced but for the dead letters, delivery before the cursor moves, dead letters in one transaction
    (without the lease they are written while the cursor stays), no event lost over whole runs of
    either loop, progress of the polling loop, recovery of the realtime loop without a rival for its lease, bounds of the backoff; the health
    report is true of the tables by the rule of the code, which is not the one of the specification.
  \<^item> Opening: a store owns the pool it opened and no other, and a failed opening leaves no pool behind.
  \<^item> Matching: the edit distance is minimal, scores are within their bounds, merge plans and decisions are
    justified, \<open>Match\<close> returns; tokens and normalized values are normal forms; generated write operations and the
    matcher agree on single-field anchors and tokens, and on composite anchors but for their names; a message that was ingested with a single-field
    anchor is matched again.
  \<^item> Programs: seeding an empty database yields exactly the named entities and relations of the seed data; the examples of optimistic
    locking and of unique creation print what their comments say.
  \<^item> Explorer: every request but one is answered without a panic and without a change, over both stores; no link of the
    entity list is dead.
  \<^item> Flaws, each with a proof: searches and callers' exemptions get around a scope; generated composite anchors
    are never found; a token field of punctuation makes a message unwritable; paging skips entities with equal
    times; a limit of a traversal counts paths; a tiny backoff panics; the graph of a missing entity panics; closing a
    facade releases nothing; the event type that an example filters by is never stored; a seed that runs again duplicates its records.

  \<^bold>\<open>Bounds\<close>

  The recursive query runs for \<open>MaxDepth\<close> levels, which \<open>defaults\<close> keeps between 1 and 10: a longer row is never
  extended, so more levels add nothing. \<open>Run\<close> has the number of its ticks before cancellation as an argument,
  \<open>RunRealtime\<close> the durations of its waits, one pair per iteration, and their theorems are for every number. The fuel of \<open>pages\<close> counts pages; one more
  than the number of entities is enough, because no page but the last is empty. The budgets in \<open>undisturbed\<close> and \<open>calm\<close> are upper bounds of
  the external calls made (\<open>batch_cost\<close>); the theorems hold for every larger budget. Versions, limits and batch sizes wrap at 32 bits where the code converts them
  (\<open>int32\<close>); UUIDs are 128-bit words. Sessions are serialised: between the statements of a transaction no other
  session runs, as under serializable isolation; rows without \<open>ORDER BY\<close> come in the order of the table.

  \<^bold>\<open>Not modelled\<close>

  The generated protobuf code and the SQL migration files (data; the constraints of the tables are part of the model); the three
  examples that only print a constant text; flags and environment variables (arguments of the programs); the HTTP server, routing, event streams and the expansion of \<open>dsx\<close> components, which
  belong to the libraries the explorer uses, and errors of the writer inside a template; \<open>Mount\<close> and \<open>RunInBackground\<close>, which
  start that server; logging; the printing of Go source text by the code generator.
\<close>

end
